(* ===== verification/Prelude.thy ===== *)
theory Prelude
  imports Main "HOL-Library.Word" "HOL-Library.Monad_Syntax"
begin

unbundle bit_operations_syntax

text \<open>
  Shared types and lemmas of the development.  A Go \<open>byte\<close> is an \<open>8 word\<close>, a Go
  \<open>[]byte\<close> a list of them, and a Go \<open>string\<close> (a byte sequence) a HOL \<open>string\<close>, whose
  characters are bytes as well.  An \<open>error\<close> value is its message, since the server sends
  the message of an error to the network device.  A step that may panic has type
  \<open>'a option\<close> with \<open>None\<close> for the panic.
\<close>

type_synonym byte = "8 word"
type_synonym bytes = "byte list"

datatype go_error = GoError (err_msg: string)

type_synonym 'a result = "go_error + 'a"

named_theorems go_simps \<open>equations of the Go run-time operations\<close>

subsection \<open>Conversion between \<open>string\<close> and \<open>[]byte\<close>\<close>

definition byte_of_char :: "char \<Rightarrow> byte" where
  "byte_of_char c = word_of_nat (of_char c)"

definition char_of_byte :: "byte \<Rightarrow> char" where
  "char_of_byte b = char_of (unat b)"

definition bytes_of_string :: "string \<Rightarrow> bytes" where
  "bytes_of_string s = map byte_of_char s"

definition string_of_bytes :: "bytes \<Rightarrow> string" where
  "string_of_bytes bs = map char_of_byte bs"

lemma unat_byte_less [simp]: "unat (b :: byte) < 256"
  using unsigned_less [of b] by simp

lemma unat_byte_le [simp]: "unat (b :: byte) \<le> 255"
  using unat_byte_less [of b] by linarith

lemma of_char_less_256 [simp]: "(of_char c :: nat) < 256"
  using of_char_eq_iff by (metis char_of_quasi_inj of_char_of of_char_mod_256 mod_less_divisor zero_less_numeral)

lemma char_of_byte_inverse [simp]: "char_of_byte (byte_of_char c) = c"
  by (simp add: char_of_byte_def byte_of_char_def unat_of_nat take_bit_eq_mod)

lemma string_of_bytes_of_string [simp]: "string_of_bytes (bytes_of_string s) = s"
  by (simp add: string_of_bytes_def bytes_of_string_def comp_def)

lemma length_bytes_of_string [simp]: "length (bytes_of_string s) = length s"
  by (simp add: bytes_of_string_def)

lemma length_string_of_bytes [simp]: "length (string_of_bytes b) = length b"
  by (simp add: string_of_bytes_def)

lemma bytes_of_string_Nil [simp]: "bytes_of_string [] = []"
  by (simp add: bytes_of_string_def)

subsection \<open>Narrowing an \<open>int\<close> length to \<open>uint8\<close> and \<open>uint16\<close>\<close>

definition uint8 :: "nat \<Rightarrow> byte" where
  "uint8 n = word_of_nat n"

lemma unat_uint8: "unat (uint8 n) = n mod 256"
  by (simp add: uint8_def unat_of_nat)

lemma unat_uint8_small [simp]: "n \<le> 255 \<Longrightarrow> unat (uint8 n) = n"
  by (simp add: unat_uint8)

lemma push_bit_or_byte:
  "n < 256 \<Longrightarrow> push_bit 8 (m::nat) OR n = 256 * m + n"
proof -
  assume n: "n < 256"
  have t: "take_bit 8 (int n) = int n" using n by (simp add: take_bit_eq_mod)
  have "int (push_bit 8 m OR n) = concat_bit 8 (int n) (int m)"
    by (simp add: concat_bit_def t of_nat_or_eq push_bit_of_nat or.commute)
  also have "\<dots> = int n + push_bit 8 (int m)"
    by (simp add: concat_bit_eq t)
  also have "\<dots> = int (256 * m + n)"
    by (simp add: push_bit_eq_mult)
  finally show ?thesis by (simp only: of_nat_eq_iff)
qed

subsection \<open>Decimal printing, as \<open>fmt\<close> and \<open>strconv\<close> do it\<close>

fun dec_digits :: "nat \<Rightarrow> string" where
  "dec_digits n =
     (if n < 10 then [char_of (48 + n)] else dec_digits (n div 10) @ [char_of (48 + n mod 10)])"

declare dec_digits.simps [simp del]

definition dec_int :: "int \<Rightarrow> string" where
  "dec_int i = (if i < 0 then CHR ''-'' # dec_digits (nat (- i)) else dec_digits (nat i))"

lemma dec_digits_not_Nil [simp]: "dec_digits n \<noteq> []"
  by (subst dec_digits.simps) simp

subsection \<open>Lists\<close>

lemma take_append_exact [simp]: "n = length xs \<Longrightarrow> take n (xs @ ys) = xs"
  by simp

lemma drop_append_exact [simp]: "n = length xs \<Longrightarrow> drop n (xs @ ys) = ys"
  by simp

lemma split_at_last:
  assumes "x @ [c] @ y = x' @ [c] @ y'" "c \<notin> set y" "c \<notin> set y'"
  shows "x = x' \<and> y = y'"
proof -
  have "rev y @ c # rev x = rev y' @ c # rev x'"
    using arg_cong [OF assms(1), of rev] by simp
  moreover have "takeWhile (\<lambda>a. a \<noteq> c) (rev z @ c # w) = rev z" if "c \<notin> set z" for z w
    using that by (subst takeWhile_append2) auto
  ultimately have "rev y = rev y'" using assms(2,3) by metis
  then show ?thesis using assms(1) by simp
qed

lemma sum_list_le_mult:
  "(\<And>x. x \<in> set xs \<Longrightarrow> f x \<le> (k::nat)) \<Longrightarrow> sum_list (map f xs) \<le> k * length xs"
  by (induction xs) (auto simp: add_mono)

end
