(* ===== verification/Md5.thy ===== *)
theory Md5
  imports Prelude
begin

text \<open>
  The digest of Go's \<open>crypto/md5\<close> (RFC 1321), which \<open>crypt\<close> of \<open>conn.go\<close> builds its
  pad from: \<open>md5 m\<close> is what \<open>Reset\<close>, \<open>Write m\<close> and \<open>Sum(nil)\<close> return.
\<close>

type_synonym w32 = "32 word"

definition md5_K :: "w32 list" where
  "md5_K = [
   0xd76aa478, 0xe8c7b756, 0x242070db, 0xc1bdceee,
   0xf57c0faf, 0x4787c62a, 0xa8304613, 0xfd469501,
   0x698098d8, 0x8b44f7af, 0xffff5bb1, 0x895cd7be,
   0x6b901122, 0xfd987193, 0xa679438e, 0x49b40821,
   0xf61e2562, 0xc040b340, 0x265e5a51, 0xe9b6c7aa,
   0xd62f105d, 0x02441453, 0xd8a1e681, 0xe7d3fbc8,
   0x21e1cde6, 0xc33707d6, 0xf4d50d87, 0x455a14ed,
   0xa9e3e905, 0xfcefa3f8, 0x676f02d9, 0x8d2a4c8a,
   0xfffa3942, 0x8771f681, 0x6d9d6122, 0xfde5380c,
   0xa4beea44, 0x4bdecfa9, 0xf6bb4b60, 0xbebfbc70,
   0x289b7ec6, 0xeaa127fa, 0xd4ef3085, 0x04881d05,
   0xd9d4d039, 0xe6db99e5, 0x1fa27cf8, 0xc4ac5665,
   0xf4292244, 0x432aff97, 0xab9423a7, 0xfc93a039,
   0x655b59c3, 0x8f0ccc92, 0xffeff47d, 0x85845dd1,
   0x6fa87e4f, 0xfe2ce6e0, 0xa3014314, 0x4e0811a1,
   0xf7537e82, 0xbd3af235, 0x2ad7d2bb, 0xeb86d391]"

definition md5_S :: "nat list" where
  "md5_S = concat (map (\<lambda>r. concat (replicate 4 r))
     [[7, 12, 17, 22], [5, 9, 14, 20], [4, 11, 16, 23], [6, 10, 15, 21]])"

definition le32 :: "w32 \<Rightarrow> bytes" where
  "le32 w = [ucast w, ucast (drop_bit 8 w), ucast (drop_bit 16 w), ucast (drop_bit 24 w)]"

fun words32 :: "bytes \<Rightarrow> w32 list" where
  "words32 (a # b # c # d # r) =
     (ucast a OR push_bit 8 (ucast b) OR push_bit 16 (ucast c) OR push_bit 24 (ucast d)) # words32 r"
| "words32 _ = []"

definition md5_pad :: "bytes \<Rightarrow> bytes" where
  "md5_pad m = m @ [0x80] @ replicate ((119 - length m mod 64) mod 64) 0
     @ le32 (word_of_nat (8 * length m)) @ le32 (word_of_nat (8 * length m div 2 ^ 32))"

definition rotl :: "nat \<Rightarrow> w32 \<Rightarrow> w32" where
  "rotl n w = push_bit n w OR drop_bit (32 - n) w"

definition md5_mix :: "nat \<Rightarrow> w32 \<Rightarrow> w32 \<Rightarrow> w32 \<Rightarrow> w32 \<times> nat" where
  "md5_mix i b c d =
     (if i < 16 then ((b AND c) OR (NOT b AND d), i)
      else if i < 32 then ((d AND b) OR (NOT d AND c), (5 * i + 1) mod 16)
      else if i < 48 then (b XOR c XOR d, (3 * i + 5) mod 16)
      else (c XOR (b OR NOT d), (7 * i) mod 16))"

fun md5_step :: "w32 list \<Rightarrow> w32 \<times> w32 \<times> w32 \<times> w32 \<Rightarrow> nat \<Rightarrow> w32 \<times> w32 \<times> w32 \<times> w32" where
  "md5_step m (a, b, c, d) i =
     (case md5_mix i b c d of (f, g) \<Rightarrow>
        (d, b + rotl (md5_S ! i) (f + a + md5_K ! i + m ! g), b, c))"

fun md5_block :: "w32 \<times> w32 \<times> w32 \<times> w32 \<Rightarrow> bytes \<Rightarrow> w32 \<times> w32 \<times> w32 \<times> w32" where
  "md5_block (a, b, c, d) blk =
     (case foldl (md5_step (words32 blk)) (a, b, c, d) [0..<64] of
        (a', b', c', d') \<Rightarrow> (a + a', b + b', c + c', d + d'))"

definition md5_blocks :: "bytes \<Rightarrow> bytes list" where
  "md5_blocks m = map (\<lambda>i. take 64 (drop (64 * i) m)) [0..<length m div 64]"

definition md5 :: "bytes \<Rightarrow> bytes" where
  "md5 m = (case foldl md5_block (0x67452301, 0xefcdab89, 0x98badcfe, 0x10325476)
                  (md5_blocks (md5_pad m)) of
              (a, b, c, d) \<Rightarrow> le32 a @ le32 b @ le32 c @ le32 d)"

lemma length_le32 [simp]: "length (le32 w) = 4"
  by (simp add: le32_def)

lemma length_md5 [simp]: "length (md5 m) = 16"
  by (simp add: md5_def split: prod.split)

lemma md5_not_Nil [simp]: "md5 m \<noteq> []"
  using length_md5 [of m] by (metis length_0_conv zero_neq_numeral)

lemma md5_pad_blocks: "64 dvd length (md5_pad m)"
proof -
  define n where "n = length m mod 64"
  have "n < 64" by (simp add: n_def)
  then have "(119 - n) mod 64 + n = 55 \<or> (119 - n) mod 64 + n = 119"
    by (cases "n \<le> 55") (simp_all add: le_mod_geq)
  then have "64 dvd (119 - n) mod 64 + n + 9"
    by (elim disjE) simp_all
  moreover have "length (md5_pad m) = 64 * (length m div 64) + ((119 - n) mod 64 + n + 9)"
    by (simp add: md5_pad_def n_def)
  ultimately show ?thesis by (metis dvd_add dvd_triv_left)
qed

end
