(* ===== verification/Packet.thy ===== *)
theory Packet
  imports Prelude
begin

text \<open>
  The TACACS+ packet bodies of \<open>pkg/public/tacplus/packet.go\<close>: the read buffer, the seven
  packet types with their \<open>marshal\<close> and \<open>unmarshal\<close> methods, and the dynamic dispatch of
  the \<open>packet\<close> interface of \<open>conn.go\<close>.  \<open>marshal p b\<close> returns the extended slice and an
  optional error, as the Go method does; \<open>unmarshal buf\<close> is \<open>None\<close> where the Go code would
  panic on a slice bound, \<open>Some (Inl e)\<close> where it returns the error \<open>e\<close>.  The partly
  filled receiver of a failed \<open>unmarshal\<close> is not returned: no caller reads it.
\<close>

subsection \<open>Protocol constants\<close>

definition sessTypeAuthen :: byte where "sessTypeAuthen = 1"
definition sessTypeAuthor :: byte where "sessTypeAuthor = 2"
definition sessTypeAcct :: byte where "sessTypeAcct = 3"

definition authenReplyFlagNoEcho :: byte where "authenReplyFlagNoEcho = 1"
definition authenContinueFlagAbort :: byte where "authenContinueFlagAbort = 1"

definition AuthenTypePAP :: byte where "AuthenTypePAP = 2"
definition AuthenTypeCHAP :: byte where "AuthenTypeCHAP = 3"
definition AuthenTypeARAP :: byte where "AuthenTypeARAP = 4"
definition AuthenTypeMSCHAP :: byte where "AuthenTypeMSCHAP = 5"

definition AuthenActionLogin :: byte where "AuthenActionLogin = 1"
definition AuthenActionSendAuth :: byte where "AuthenActionSendAuth = 4"

definition AuthenStatusPass :: byte where "AuthenStatusPass = 1"
definition AuthenStatusFail :: byte where "AuthenStatusFail = 2"
definition AuthenStatusGetData :: byte where "AuthenStatusGetData = 3"
definition AuthenStatusGetUser :: byte where "AuthenStatusGetUser = 4"
definition AuthenStatusGetPass :: byte where "AuthenStatusGetPass = 5"
definition AuthenStatusError :: byte where "AuthenStatusError = 7"

definition AuthorStatusPassAdd :: byte where "AuthorStatusPassAdd = 1"
definition AuthorStatusFail :: byte where "AuthorStatusFail = 0x10"
definition AuthorStatusError :: byte where "AuthorStatusError = 0x11"

definition AcctStatusSuccess :: byte where "AcctStatusSuccess = 1"
definition AcctStatusError :: byte where "AcctStatusError = 2"

definition verDefault :: byte where "verDefault = 0xc0"
definition verDefaultMinorOne :: byte where "verDefaultMinorOne = 0xc1"

definition errBadPacket :: go_error where
  "errBadPacket = GoError ''bad secret or packet''"

definition maxUint8 :: nat where "maxUint8 = 255"
definition maxUint16 :: nat where "maxUint16 = 65535"

definition maxBodyLen :: nat where "maxBodyLen = 196356"

lemmas authen_status_defs = AuthenStatusPass_def AuthenStatusFail_def AuthenStatusGetData_def
  AuthenStatusGetUser_def AuthenStatusGetPass_def AuthenStatusError_def

lemmas max_defs = maxUint8_def maxUint16_def

subsection \<open>The read buffer: \<open>None\<close> is a slice-bounds panic\<close>

fun rb_byte :: "bytes \<Rightarrow> (byte \<times> bytes) option" where
  "rb_byte [] = None"
| "rb_byte (c # b) = Some (c, b)"

fun rb_uint16 :: "bytes \<Rightarrow> (nat \<times> bytes) option" where
  "rb_uint16 (h # l # b) = Some (push_bit 8 (unat h) OR unat l, b)"
| "rb_uint16 _ = None"

text \<open>
  \<open>(*b)[:n]\<close> may reach up to the capacity, but the \<open>(*b)[n:]\<close> that follows panics when
  \<open>n\<close> exceeds the length, so each of the three slicing methods panics exactly then.
\<close>

definition rb_bytes :: "nat \<Rightarrow> bytes \<Rightarrow> (bytes \<times> bytes) option" where
  "rb_bytes n b = (if n \<le> length b then Some (take n b, drop n b) else None)"

definition rb_slice :: "nat \<Rightarrow> bytes \<Rightarrow> (bytes \<times> bytes) option" where
  "rb_slice n b = (if n \<le> length b then Some (take n b, drop n b) else None)"

definition rb_string :: "nat \<Rightarrow> bytes \<Rightarrow> (string \<times> bytes) option" where
  "rb_string n b = (if n \<le> length b then Some (string_of_bytes (take n b), drop n b) else None)"

definition appendUint16 :: "bytes \<Rightarrow> nat \<Rightarrow> nat \<Rightarrow> bytes" where
  "appendUint16 b i j = b @ [uint8 (drop_bit 8 i), uint8 i, uint8 (drop_bit 8 j), uint8 j]"

text \<open>The loop \<open>for i, n := range al\<close> that reads the arguments by their length bytes.\<close>

fun rb_args :: "bytes \<Rightarrow> bytes \<Rightarrow> string list result option" where
  "rb_args [] b = Some (Inr [])"
| "rb_args (n # al) b =
     (if length b < unat n then Some (Inl errBadPacket)
      else do {
        (s, b) \<leftarrow> rb_string (unat n) b;
        r \<leftarrow> rb_args al b;
        Some (map_sum id ((#) s) r)
      })"

subsection \<open>\<open>AuthenStart\<close>\<close>

record AuthenStart =
  as_Action :: byte
  as_PrivLvl :: byte
  as_AuthenType :: byte
  as_AuthenService :: byte
  as_User :: string
  as_Port :: string
  as_RemAddr :: string
  as_Data :: bytes

definition AuthenStart_version :: "AuthenStart \<Rightarrow> byte" where
  "AuthenStart_version a =
     (if as_Action a = AuthenActionLogin then
        (if as_AuthenType a \<in> {AuthenTypePAP, AuthenTypeCHAP, AuthenTypeARAP, AuthenTypeMSCHAP}
         then verDefaultMinorOne else verDefault)
      else if as_Action a = AuthenActionSendAuth then
        (if as_AuthenType a \<in> {AuthenTypePAP, AuthenTypeCHAP, AuthenTypeMSCHAP}
         then verDefaultMinorOne else verDefault)
      else verDefault)"

definition AuthenStart_marshal :: "AuthenStart \<Rightarrow> bytes \<Rightarrow> bytes \<times> go_error option" where
  "AuthenStart_marshal a b =
     (if maxUint8 < length (as_User a) then (b, Some (GoError ''User field too large''))
      else if maxUint8 < length (as_Port a) then (b, Some (GoError ''Port field too large''))
      else if maxUint8 < length (as_RemAddr a) then (b, Some (GoError ''RemAddr field too large''))
      else if maxUint8 < length (as_Data a) then (b, Some (GoError ''Data field too large''))
      else
        (let b = b @ [as_Action a, as_PrivLvl a, as_AuthenType a, as_AuthenService a];
             b = b @ [uint8 (length (as_User a)), uint8 (length (as_Port a)),
                      uint8 (length (as_RemAddr a)), uint8 (length (as_Data a))];
             b = b @ bytes_of_string (as_User a);
             b = b @ bytes_of_string (as_Port a);
             b = b @ bytes_of_string (as_RemAddr a);
             b = b @ as_Data a
         in (b, None)))"

definition AuthenStart_unmarshal :: "bytes \<Rightarrow> AuthenStart result option" where
  "AuthenStart_unmarshal buf =
     (if length buf < 8 then Some (Inl errBadPacket)
      else do {
        (action, b) \<leftarrow> rb_byte buf;
        (priv, b) \<leftarrow> rb_byte b;
        (typ, b) \<leftarrow> rb_byte b;
        (service, b) \<leftarrow> rb_byte b;
        (ul, b) \<leftarrow> rb_byte b;
        (pl, b) \<leftarrow> rb_byte b;
        (rl, b) \<leftarrow> rb_byte b;
        (dl, b) \<leftarrow> rb_byte b;
        if length b < unat ul + unat pl + unat rl + unat dl then Some (Inl errBadPacket)
        else do {
          (user, b) \<leftarrow> rb_string (unat ul) b;
          (port, b) \<leftarrow> rb_string (unat pl) b;
          (addr, b) \<leftarrow> rb_string (unat rl) b;
          (data, b) \<leftarrow> rb_bytes (unat dl) b;
          Some (Inr \<lparr>as_Action = action, as_PrivLvl = priv, as_AuthenType = typ,
            as_AuthenService = service, as_User = user, as_Port = port,
            as_RemAddr = addr, as_Data = data\<rparr>)
        }
      })"

subsection \<open>\<open>AuthenReply\<close>\<close>

record AuthenReply =
  ar_Status :: byte
  ar_NoEcho :: bool
  ar_ServerMsg :: string
  ar_Data :: bytes

definition AuthenReply_last :: "AuthenReply \<Rightarrow> bool" where
  "AuthenReply_last a = (ar_Status a < AuthenStatusGetData \<or> ar_Status a > AuthenStatusGetPass)"

definition AuthenReply_flags :: "AuthenReply \<Rightarrow> byte" where
  "AuthenReply_flags a = (if ar_NoEcho a then authenReplyFlagNoEcho else 0)"

definition AuthenReply_marshal :: "AuthenReply \<Rightarrow> bytes \<Rightarrow> bytes \<times> go_error option" where
  "AuthenReply_marshal a b =
     (if maxUint16 < length (ar_ServerMsg a) then (b, Some (GoError ''ServerMsg field too large''))
      else if maxUint16 < length (ar_Data a) then (b, Some (GoError ''Data field too large''))
      else
        (let b = b @ [ar_Status a, AuthenReply_flags a];
             b = appendUint16 b (length (ar_ServerMsg a)) (length (ar_Data a));
             b = b @ bytes_of_string (ar_ServerMsg a);
             b = b @ ar_Data a
         in (b, None)))"

definition AuthenReply_unmarshal :: "bytes \<Rightarrow> AuthenReply result option" where
  "AuthenReply_unmarshal buf =
     (if length buf < 6 then Some (Inl errBadPacket)
      else do {
        (status, b) \<leftarrow> rb_byte buf;
        (flags, b) \<leftarrow> rb_byte b;
        (sl, b) \<leftarrow> rb_uint16 b;
        (dl, b) \<leftarrow> rb_uint16 b;
        if length b < sl + dl then Some (Inl errBadPacket)
        else do {
          (smsg, b) \<leftarrow> rb_string sl b;
          (data, b) \<leftarrow> rb_bytes dl b;
          Some (Inr \<lparr>ar_Status = status, ar_NoEcho = (flags AND authenReplyFlagNoEcho > 0),
            ar_ServerMsg = smsg, ar_Data = data\<rparr>)
        }
      })"

subsection \<open>\<open>AuthenContinue\<close>\<close>

record AuthenContinue =
  ac_Abort :: bool
  ac_Message :: string

definition AuthenContinue_flags :: "AuthenContinue \<Rightarrow> byte" where
  "AuthenContinue_flags a = (if ac_Abort a then authenContinueFlagAbort else 0)"

definition AuthenContinue_marshal :: "AuthenContinue \<Rightarrow> bytes \<Rightarrow> bytes \<times> go_error option" where
  "AuthenContinue_marshal a b =
     (if maxUint16 < length (ac_Message a) then (b, Some (GoError ''Message field too large''))
      else
        (let b = (if ac_Abort a then appendUint16 b 0 (length (ac_Message a))
                  else appendUint16 b (length (ac_Message a)) 0);
             b = b @ [AuthenContinue_flags a];
             b = b @ bytes_of_string (ac_Message a)
         in (b, None)))"

definition AuthenContinue_unmarshal :: "bytes \<Rightarrow> AuthenContinue result option" where
  "AuthenContinue_unmarshal buf =
     (if length buf < 5 then Some (Inl errBadPacket)
      else do {
        (ml, b) \<leftarrow> rb_uint16 buf;
        (dl, b) \<leftarrow> rb_uint16 b;
        (flags, b) \<leftarrow> rb_byte b;
        let abort = (flags AND authenContinueFlagAbort > 0);
        if length b < ml + dl then Some (Inl errBadPacket)
        else do {
          (m, b) \<leftarrow> rb_string ml b;
          (d, b) \<leftarrow> rb_string dl b;
          Some (Inr \<lparr>ac_Abort = abort, ac_Message = (if abort then d else m)\<rparr>)
        }
      })"

subsection \<open>\<open>AuthorRequest\<close>\<close>

record AuthorRequest =
  aq_AuthenMethod :: byte
  aq_PrivLvl :: byte
  aq_AuthenType :: byte
  aq_AuthenService :: byte
  aq_User :: string
  aq_Port :: string
  aq_RemAddr :: string
  aq_Arg :: "string list"

definition AuthorRequest_marshal :: "AuthorRequest \<Rightarrow> bytes \<Rightarrow> bytes \<times> go_error option" where
  "AuthorRequest_marshal a b =
     (if maxUint8 < length (aq_User a) then (b, Some (GoError ''User field too large''))
      else if maxUint8 < length (aq_Port a) then (b, Some (GoError ''Port field too large''))
      else if maxUint8 < length (aq_RemAddr a) then (b, Some (GoError ''RemAddr field too large''))
      else if maxUint8 < length (aq_Arg a) then (b, Some (GoError (''Too many Arg'' @ CHR 0x27 # ''s'')))
      else if list_ex (\<lambda>s. maxUint8 < length s) (aq_Arg a) then (b, Some (GoError ''Arg Too Long''))
      else
        (let b = b @ [aq_AuthenMethod a, aq_PrivLvl a, aq_AuthenType a, aq_AuthenService a];
             b = b @ [uint8 (length (aq_User a)), uint8 (length (aq_Port a)),
                      uint8 (length (aq_RemAddr a)), uint8 (length (aq_Arg a))];
             b = b @ map (\<lambda>s. uint8 (length s)) (aq_Arg a);
             b = b @ bytes_of_string (aq_User a);
             b = b @ bytes_of_string (aq_Port a);
             b = b @ bytes_of_string (aq_RemAddr a);
             b = b @ concat (map bytes_of_string (aq_Arg a))
         in (b, None)))"

definition AuthorRequest_unmarshal :: "bytes \<Rightarrow> AuthorRequest result option" where
  "AuthorRequest_unmarshal buf =
     (if length buf < 8 then Some (Inl errBadPacket)
      else do {
        (meth, b) \<leftarrow> rb_byte buf;
        (priv, b) \<leftarrow> rb_byte b;
        (typ, b) \<leftarrow> rb_byte b;
        (service, b) \<leftarrow> rb_byte b;
        (ul, b) \<leftarrow> rb_byte b;
        (pl, b) \<leftarrow> rb_byte b;
        (rl, b) \<leftarrow> rb_byte b;
        (ac, b) \<leftarrow> rb_byte b;
        if length b < unat ul + unat pl + unat rl + unat ac then Some (Inl errBadPacket)
        else do {
          (al, b) \<leftarrow> rb_slice (unat ac) b;
          (user, b) \<leftarrow> rb_string (unat ul) b;
          (port, b) \<leftarrow> rb_string (unat pl) b;
          (addr, b) \<leftarrow> rb_string (unat rl) b;
          args \<leftarrow> rb_args al b;
          Some (map_sum id (\<lambda>args. \<lparr>aq_AuthenMethod = meth, aq_PrivLvl = priv,
            aq_AuthenType = typ, aq_AuthenService = service, aq_User = user,
            aq_Port = port, aq_RemAddr = addr, aq_Arg = args\<rparr>) args)
        }
      })"

subsection \<open>\<open>AuthorResponse\<close>\<close>

record AuthorResponse =
  ap_Status :: byte
  ap_Arg :: "string list"
  ap_ServerMsg :: string
  ap_Data :: string

definition AuthorResponse_marshal :: "AuthorResponse \<Rightarrow> bytes \<Rightarrow> bytes \<times> go_error option" where
  "AuthorResponse_marshal a b =
     (if maxUint8 < length (ap_Arg a) then (b, Some (GoError (''Too many Arg'' @ CHR 0x27 # ''s'')))
      else if maxUint16 < length (ap_ServerMsg a) then (b, Some (GoError ''ServerMsg field too large''))
      else if maxUint16 < length (ap_Data a) then (b, Some (GoError ''Data field too large''))
      else if list_ex (\<lambda>s. maxUint8 < length s) (ap_Arg a) then (b, Some (GoError ''Arg Too Long''))
      else
        (let b = b @ [ap_Status a, uint8 (length (ap_Arg a))];
             b = appendUint16 b (length (ap_ServerMsg a)) (length (ap_Data a));
             b = b @ map (\<lambda>s. uint8 (length s)) (ap_Arg a);
             b = b @ bytes_of_string (ap_ServerMsg a);
             b = b @ bytes_of_string (ap_Data a);
             b = b @ concat (map bytes_of_string (ap_Arg a))
         in (b, None)))"

definition AuthorResponse_unmarshal :: "bytes \<Rightarrow> AuthorResponse result option" where
  "AuthorResponse_unmarshal buf =
     (if length buf < 6 then Some (Inl errBadPacket)
      else do {
        (status, b) \<leftarrow> rb_byte buf;
        (ac, b) \<leftarrow> rb_byte b;
        (sl, b) \<leftarrow> rb_uint16 b;
        (dl, b) \<leftarrow> rb_uint16 b;
        if length b < unat ac + sl + dl then Some (Inl errBadPacket)
        else do {
          (al, b) \<leftarrow> rb_slice (unat ac) b;
          (smsg, b) \<leftarrow> rb_string sl b;
          (data, b) \<leftarrow> rb_string dl b;
          args \<leftarrow> rb_args al b;
          Some (map_sum id (\<lambda>args. \<lparr>ap_Status = status, ap_Arg = args,
            ap_ServerMsg = smsg, ap_Data = data\<rparr>) args)
        }
      })"

subsection \<open>\<open>AcctRequest\<close>\<close>

record AcctRequest =
  cq_Flags :: byte
  cq_AuthenMethod :: byte
  cq_PrivLvl :: byte
  cq_AuthenType :: byte
  cq_AuthenService :: byte
  cq_User :: string
  cq_Port :: string
  cq_RemAddr :: string
  cq_Arg :: "string list"

definition AcctRequest_marshal :: "AcctRequest \<Rightarrow> bytes \<Rightarrow> bytes \<times> go_error option" where
  "AcctRequest_marshal a b =
     (if maxUint8 < length (cq_User a) then (b, Some (GoError ''User field too large''))
      else if maxUint8 < length (cq_Port a) then (b, Some (GoError ''Port field too large''))
      else if maxUint8 < length (cq_RemAddr a) then (b, Some (GoError ''RemAddr field too large''))
      else if maxUint8 < length (cq_Arg a) then (b, Some (GoError (''Too many Arg'' @ CHR 0x27 # ''s'')))
      else if list_ex (\<lambda>s. maxUint8 < length s) (cq_Arg a) then (b, Some (GoError ''Arg Too Long''))
      else
        (let b = b @ [cq_Flags a, cq_AuthenMethod a, cq_PrivLvl a, cq_AuthenType a, cq_AuthenService a];
             b = b @ [uint8 (length (cq_User a)), uint8 (length (cq_Port a)),
                      uint8 (length (cq_RemAddr a)), uint8 (length (cq_Arg a))];
             b = b @ map (\<lambda>s. uint8 (length s)) (cq_Arg a);
             b = b @ bytes_of_string (cq_User a);
             b = b @ bytes_of_string (cq_Port a);
             b = b @ bytes_of_string (cq_RemAddr a);
             b = b @ concat (map bytes_of_string (cq_Arg a))
         in (b, None)))"

definition AcctRequest_unmarshal :: "bytes \<Rightarrow> AcctRequest result option" where
  "AcctRequest_unmarshal buf =
     (if length buf < 9 then Some (Inl errBadPacket)
      else do {
        (flags, b) \<leftarrow> rb_byte buf;
        (meth, b) \<leftarrow> rb_byte b;
        (priv, b) \<leftarrow> rb_byte b;
        (typ, b) \<leftarrow> rb_byte b;
        (service, b) \<leftarrow> rb_byte b;
        (ul, b) \<leftarrow> rb_byte b;
        (pl, b) \<leftarrow> rb_byte b;
        (rl, b) \<leftarrow> rb_byte b;
        (ac, b) \<leftarrow> rb_byte b;
        if length b < unat ul + unat pl + unat rl + unat ac then Some (Inl errBadPacket)
        else do {
          (al, b) \<leftarrow> rb_slice (unat ac) b;
          (user, b) \<leftarrow> rb_string (unat ul) b;
          (port, b) \<leftarrow> rb_string (unat pl) b;
          (addr, b) \<leftarrow> rb_string (unat rl) b;
          args \<leftarrow> rb_args al b;
          Some (map_sum id (\<lambda>args. \<lparr>cq_Flags = flags, cq_AuthenMethod = meth,
            cq_PrivLvl = priv, cq_AuthenType = typ, cq_AuthenService = service,
            cq_User = user, cq_Port = port, cq_RemAddr = addr, cq_Arg = args\<rparr>) args)
        }
      })"

subsection \<open>\<open>AcctReply\<close>\<close>

record AcctReply =
  cr_Status :: byte
  cr_ServerMsg :: string
  cr_Data :: string

definition AcctReply_marshal :: "AcctReply \<Rightarrow> bytes \<Rightarrow> bytes \<times> go_error option" where
  "AcctReply_marshal a b =
     (if maxUint16 < length (cr_ServerMsg a) then (b, Some (GoError ''ServerMsg field too large''))
      else if maxUint16 < length (cr_Data a) then (b, Some (GoError ''Data field too large''))
      else
        (let b = appendUint16 b (length (cr_ServerMsg a)) (length (cr_Data a));
             b = b @ [cr_Status a];
             b = b @ bytes_of_string (cr_ServerMsg a);
             b = b @ bytes_of_string (cr_Data a)
         in (b, None)))"

definition AcctReply_unmarshal :: "bytes \<Rightarrow> AcctReply result option" where
  "AcctReply_unmarshal buf =
     (if length buf < 5 then Some (Inl errBadPacket)
      else do {
        (sl, b) \<leftarrow> rb_uint16 buf;
        (dl, b) \<leftarrow> rb_uint16 b;
        (status, b) \<leftarrow> rb_byte b;
        if length b < sl + dl then Some (Inl errBadPacket)
        else do {
          (smsg, b) \<leftarrow> rb_string sl b;
          (data, b) \<leftarrow> rb_string dl b;
          Some (Inr \<lparr>cr_Status = status, cr_ServerMsg = smsg, cr_Data = data\<rparr>)
        }
      })"

subsection \<open>The \<open>packet\<close> interface of \<open>conn.go\<close>\<close>

datatype packet =
    PAuthenStart AuthenStart
  | PAuthenReply AuthenReply
  | PAuthenContinue AuthenContinue
  | PAuthorRequest AuthorRequest
  | PAuthorResponse AuthorResponse
  | PAcctRequest AcctRequest
  | PAcctReply AcctReply

datatype packet_kind =
  KAuthenStart | KAuthenReply | KAuthenContinue | KAuthorRequest | KAuthorResponse
| KAcctRequest | KAcctReply

fun kind_of :: "packet \<Rightarrow> packet_kind" where
  "kind_of (PAuthenStart _) = KAuthenStart"
| "kind_of (PAuthenReply _) = KAuthenReply"
| "kind_of (PAuthenContinue _) = KAuthenContinue"
| "kind_of (PAuthorRequest _) = KAuthorRequest"
| "kind_of (PAuthorResponse _) = KAuthorResponse"
| "kind_of (PAcctRequest _) = KAcctRequest"
| "kind_of (PAcctReply _) = KAcctReply"

fun marshal :: "packet \<Rightarrow> bytes \<Rightarrow> bytes \<times> go_error option" where
  "marshal (PAuthenStart a) b = AuthenStart_marshal a b"
| "marshal (PAuthenReply a) b = AuthenReply_marshal a b"
| "marshal (PAuthenContinue a) b = AuthenContinue_marshal a b"
| "marshal (PAuthorRequest a) b = AuthorRequest_marshal a b"
| "marshal (PAuthorResponse a) b = AuthorResponse_marshal a b"
| "marshal (PAcctRequest a) b = AcctRequest_marshal a b"
| "marshal (PAcctReply a) b = AcctReply_marshal a b"

fun unmarshal :: "packet_kind \<Rightarrow> bytes \<Rightarrow> packet result option" where
  "unmarshal KAuthenStart b = map_option (map_sum id PAuthenStart) (AuthenStart_unmarshal b)"
| "unmarshal KAuthenReply b = map_option (map_sum id PAuthenReply) (AuthenReply_unmarshal b)"
| "unmarshal KAuthenContinue b = map_option (map_sum id PAuthenContinue) (AuthenContinue_unmarshal b)"
| "unmarshal KAuthorRequest b = map_option (map_sum id PAuthorRequest) (AuthorRequest_unmarshal b)"
| "unmarshal KAuthorResponse b = map_option (map_sum id PAuthorResponse) (AuthorResponse_unmarshal b)"
| "unmarshal KAcctRequest b = map_option (map_sum id PAcctRequest) (AcctRequest_unmarshal b)"
| "unmarshal KAcctReply b = map_option (map_sum id PAcctReply) (AcctReply_unmarshal b)"

end
