(* ===== verification/Crypt.thy ===== *)
theory Crypt
  imports Md5 Packet
begin

text \<open>
  The packet header layout and the body obfuscation \<open>crypt\<close> of
  \<open>pkg/public/tacplus/conn.go\<close>.  \<open>crypt p key\<close> is the slice after the in-place update, or
  \<open>None\<close> where the Go code panics, which is when the slice is shorter than a header.
  The locale \<open>packet_cipher\<close> is what the sessions rely on.
\<close>

subsection \<open>The packet header\<close>

definition hdrLen :: nat where "hdrLen = 12"
definition hdrVer :: nat where "hdrVer = 0"
definition hdrType :: nat where "hdrType = 1"
definition hdrSeqNo :: nat where "hdrSeqNo = 2"
definition hdrFlags :: nat where "hdrFlags = 3"
definition hdrID :: nat where "hdrID = 4"
definition hdrBodyLen :: nat where "hdrBodyLen = 8"
definition hdrFlagSingleConnect :: byte where "hdrFlagSingleConnect = 4"
definition verMajor :: byte where "verMajor = 0xc"

lemmas hdr_defs = hdrLen_def hdrVer_def hdrType_def hdrSeqNo_def hdrFlags_def hdrID_def
  hdrBodyLen_def hdrFlagSingleConnect_def

text \<open>\<open>binary.BigEndian.Uint32\<close> and \<open>PutUint32\<close>; a \<open>uint32\<close> is a \<open>32 word\<close>.\<close>

definition be32 :: "bytes \<Rightarrow> 32 word" where
  "be32 b = push_bit 24 (ucast (b ! 0)) OR push_bit 16 (ucast (b ! 1))
     OR push_bit 8 (ucast (b ! 2)) OR ucast (b ! 3)"

definition put_be32 :: "nat \<Rightarrow> 32 word \<Rightarrow> bytes \<Rightarrow> bytes" where
  "put_be32 i w p = p[i := ucast (drop_bit 24 w), i + 1 := ucast (drop_bit 16 w),
     i + 2 := ucast (drop_bit 8 w), i + 3 := ucast w]"

subsection \<open>\<open>crypt\<close>\<close>

text \<open>
  One turn of the loop hashes \<open>buf\<close> and the previous \<open>sum\<close>, cuts the digest to what is
  left of the body, and xors it in.  \<open>sum\<close> is the cut digest of the last turn.
\<close>

function crypt_loop :: "bytes \<Rightarrow> bytes \<Rightarrow> bytes \<Rightarrow> bytes" where
  "crypt_loop buf dig body =
     (if body = [] then []
      else
        (let dig = md5 (buf @ dig);
             dig = (if length body < length dig then take (length body) dig else dig)
         in map2 (XOR) (take (length dig) body) dig
              @ crypt_loop buf dig (drop (length dig) body)))"
  by pat_completeness auto
termination
  by (relation "measure (\<lambda>(buf, dig, body). length body)") auto

declare crypt_loop.simps [simp del]

definition crypt :: "bytes \<Rightarrow> bytes \<Rightarrow> bytes option" where
  "crypt p key =
     (if length p < hdrLen then None
      else
        (let buf = take 4 (drop 4 p) @ key @ [p ! 0, p ! 2]
         in Some (take hdrLen p @ crypt_loop buf [] (drop hdrLen p))))"

subsection \<open>The pad of RFC 8907, section 4.5\<close>

text \<open>
  The reference: \<open>MD5_1 = MD5 {unhashed}\<close>, \<open>MD5_(i+1) = MD5 {unhashed, MD5_i}\<close>, and the
  pad is their concatenation, cut to the length of the body.
\<close>

primrec pad_digest :: "bytes \<Rightarrow> nat \<Rightarrow> bytes" where
  "pad_digest unhashed 0 = md5 unhashed"
| "pad_digest unhashed (Suc i) = md5 (unhashed @ pad_digest unhashed i)"

definition pseudo_pad :: "bytes \<Rightarrow> nat \<Rightarrow> bytes" where
  "pseudo_pad unhashed n = take n (concat (map (pad_digest unhashed) [0..<n div 16 + 1]))"

definition obfuscate :: "bytes \<Rightarrow> bytes \<Rightarrow> byte \<Rightarrow> byte \<Rightarrow> bytes \<Rightarrow> bytes" where
  "obfuscate sid key ver seq body =
     map2 (XOR) body (pseudo_pad (sid @ key @ [ver, seq]) (length body))"

fun pad_from :: "bytes \<Rightarrow> bytes \<Rightarrow> nat \<Rightarrow> bytes" where
  "pad_from u s 0 = []"
| "pad_from u s (Suc k) = md5 (u @ s) @ pad_from u (md5 (u @ s)) k"

lemma length_pad_from [simp]: "length (pad_from u s k) = 16 * k"
  by (induction k arbitrary: s) auto

lemma pad_digest_shift:
  "concat (map (pad_digest u) [i..<i + k]) = pad_from u (if i = 0 then [] else pad_digest u (i - 1)) k"
proof (induction k arbitrary: i)
  case (Suc k)
  show ?case using Suc [of "Suc i"] by (cases i) (auto simp: upt_rec)
qed simp

lemma pad_from_take:
  "n \<le> 16 * k \<Longrightarrow> k \<le> j \<Longrightarrow> take n (pad_from u s j) = take n (pad_from u s k)"
proof (induction k arbitrary: n s j)
  case (Suc k)
  then obtain j' where "j = Suc j'" "k \<le> j'" by (cases j) auto
  then show ?case using Suc.IH [of "n - 16" j'] Suc.prems by simp
qed simp

lemma pseudo_pad_from: "pseudo_pad u n = take n (pad_from u [] (n div 16 + 1))"
  using pad_digest_shift [of u 0 "n div 16 + 1"] by (simp add: pseudo_pad_def)

lemma length_pseudo_pad [simp]: "length (pseudo_pad u n) = n"
  by (simp add: pseudo_pad_from min_def) (use div_mult_mod_eq [of n 16] in linarith)

lemma crypt_loop_pad:
  "length body \<le> 16 * k \<Longrightarrow> crypt_loop u s body = map2 (XOR) body (take (length body) (pad_from u s k))"
proof (induction k arbitrary: s body)
  case (Suc k)
  show ?case
  proof (cases "length body < 16")
    case True
    then show ?thesis by (simp add: crypt_loop.simps [of u s body] crypt_loop.simps [of _ _ "[]"])
  next
    case False
    then have "map2 (XOR) body (md5 (u @ s) @ take (length body - 16) (pad_from u (md5 (u @ s)) k))
      = map2 (XOR) (take 16 body) (md5 (u @ s))
        @ map2 (XOR) (drop 16 body) (take (length body - 16) (pad_from u (md5 (u @ s)) k))"
      using zip_append [of "take 16 body" "md5 (u @ s)" "drop 16 body"]
      by (metis (no_types, lifting) append_take_drop_id length_md5 length_take linorder_not_less
          map_append min.absorb2)
    then show ?thesis
      using False Suc by (subst crypt_loop.simps) (auto simp: Let_def)
  qed
qed (simp add: crypt_loop.simps)

lemma crypt_loop_obfuscate:
  "crypt_loop u [] body = map2 (XOR) body (pseudo_pad u (length body))"
proof -
  have "n \<le> 16 * (n div 16 + 1)" for n :: nat by presburger
  then have "length body \<le> 16 * (length body div 16 + 1)" .
  then show ?thesis
    by (subst crypt_loop_pad) (assumption, simp only: pseudo_pad_from)
qed

lemma length_crypt_loop [simp]: "length (crypt_loop u [] body) = length body"
  by (simp add: crypt_loop_obfuscate)

lemma xor_pad_involutive:
  "length p = length b \<Longrightarrow> map2 (XOR) (map2 (XOR) b p) p = (b :: bytes)"
  by (rule nth_equalityI) (simp_all add: xor.assoc)

lemma crypt_loop_involutive: "crypt_loop u [] (crypt_loop u [] body) = body"
  by (simp add: crypt_loop_obfuscate [of u] xor_pad_involutive)

lemma crypt_Some:
  "hdrLen \<le> length p \<Longrightarrow>
   \<exists>u. crypt p key = Some (take hdrLen p @ crypt_loop u [] (drop hdrLen p))"
  by (auto simp: crypt_def Let_def)

subsection \<open>The contract of a packet cipher\<close>

locale packet_cipher =
  fixes cipher :: "bytes \<Rightarrow> bytes \<Rightarrow> bytes option"
  assumes cipher_total: "12 \<le> length p \<Longrightarrow> \<exists>q. cipher p key = Some q"
    and cipher_keeps: "cipher p key = Some q \<Longrightarrow>
          length q = length p \<and> take 12 q = take 12 p \<and> 12 \<le> length p"
    and cipher_involutive: "cipher p key = Some q \<Longrightarrow> cipher q key = Some p"
begin

lemma cipher_header: "cipher p key = Some q \<Longrightarrow> i < 12 \<Longrightarrow> q ! i = p ! i"
  using cipher_keeps [of p key q] by (metis nth_take)

lemma cipher_inj: "cipher p key = Some q \<Longrightarrow> cipher p' key = Some q \<Longrightarrow> p = p'"
  using cipher_involutive by (metis option.inject)

lemma cipher_None: "cipher p key = None \<longleftrightarrow> length p < 12"
  using cipher_total [of p key] cipher_keeps [of p key] by (cases "cipher p key") force+

end

interpretation tac: packet_cipher crypt
proof
  fix p key q
  show "12 \<le> length p \<Longrightarrow> \<exists>q. crypt p key = Some q"
    by (simp add: crypt_def hdrLen_def)
  assume c: "crypt p key = Some q"
  then have l: "12 \<le> length p" and q: "q = take 12 p @ crypt_loop
      (take 4 (drop 4 p) @ key @ [p ! 0, p ! 2]) [] (drop 12 p)"
    by (auto simp: crypt_def hdrLen_def Let_def split: if_splits)
  then show "length q = length p \<and> take 12 q = take 12 p \<and> 12 \<le> length p"
    by simp
  have "take 4 (drop 4 q) = take 4 (drop 4 p)" "q ! 0 = p ! 0" "q ! 2 = p ! 2"
    using l by (simp_all add: q nth_append take_drop)
  then show "crypt q key = Some p"
    using l by (simp add: crypt_def hdrLen_def Let_def q crypt_loop_involutive)
qed

text \<open>
  C4.  \<open>crypt\<close> is the obfuscation of RFC 8907: the header is kept, the body is xored with
  the pseudo pad made of the session id, the shared secret, the version and the sequence
  number, whatever the length of the body, also past the sixteen bytes of one digest.
\<close>

theorem crypt_rfc8907:
  assumes "hdrLen \<le> length p"
  shows "crypt p key = Some (take hdrLen p
           @ obfuscate (take 4 (drop hdrID p)) key (p ! hdrVer) (p ! hdrSeqNo) (drop hdrLen p))"
  using assms by (simp add: crypt_def obfuscate_def crypt_loop_obfuscate Let_def hdr_defs)

theorem crypt_rfc8907_witness:
  "crypt ([0xc0, 1, 1, 0, 9, 9, 9, 9, 0, 0, 0, 1] @ [65]) [5] =
     Some ([0xc0, 1, 1, 0, 9, 9, 9, 9, 0, 0, 0, 1] @ obfuscate [9, 9, 9, 9] [5] 0xc0 1 [65])"
  using crypt_rfc8907 [of "[0xc0, 1, 1, 0, 9, 9, 9, 9, 0, 0, 0, 1] @ [65]" "[5]"]
  by (simp add: hdr_defs)

text \<open>
  \<open>crypt\<close> with the same secret is its own inverse on every slice it does not panic on,
  keeps the length and the twelve header bytes, and panics only below a header.
\<close>

theorem crypt_involutive:
  "(crypt p key = None \<longleftrightarrow> length p < hdrLen) \<and>
   (\<forall>q. crypt p key = Some q \<longrightarrow>
      crypt q key = Some p \<and> length q = length p \<and> take hdrLen q = take hdrLen p)"
  using tac.cipher_None [of p key] tac.cipher_involutive [of p key] tac.cipher_keeps [of p key]
  by (auto simp: hdrLen_def)

theorem crypt_involutive_witness:
  "\<exists>q. crypt [0xc0, 1, 1, 0, 9, 9, 9, 9, 0, 0, 0, 1, 65] [5] = Some q \<and>
     crypt q [5] = Some [0xc0, 1, 1, 0, 9, 9, 9, 9, 0, 0, 0, 1, 65]"
  using crypt_involutive [of "[0xc0, 1, 1, 0, 9, 9, 9, 9, 0, 0, 0, 1, 65]" "[5]"]
  by (auto simp: hdrLen_def)

end
