(* ===== verification/Conn.thy ===== *)
theory Conn
  imports Crypt "HOL-Library.AList"
begin

text \<open>
  The connection of \<open>pkg/public/tacplus/conn.go\<close>: its session table, the handlers that the
  serve goroutine runs (\<open>processPacket\<close>, \<open>newSession\<close>, \<open>closeSession\<close>, \<open>cleanup\<close>) and the
  interleaving of that goroutine with the idle timer, the read and write loops and the
  session goroutines.  Sessions live in \<open>c_heap\<close>; a \<open>*session\<close> is an index into it.  A
  handler is \<open>None\<close> where the Go code panics: closing a closed channel or sending on one.
\<close>

subsection \<open>State\<close>

definition errSessionClosed :: go_error where "errSessionClosed = GoError ''session closed''"
definition errSessionIDInUse :: go_error where "errSessionIDInUse = GoError ''session id in use''"
definition errConnectionClosed :: go_error where "errConnectionClosed = GoError ''connection closed''"
definition errPacketQueueFull :: go_error where "errPacketQueueFull = GoError ''packet queue full''"

record session =
  s_id :: "32 word"
  s_seq :: byte
  s_in :: "bytes list"
  s_in_closed :: bool
  s_done :: bool
  s_err :: "go_error option"

record ConnConfig =
  cf_Mux :: bool
  cf_LegacyMux :: bool
  cf_Secret :: bytes
  cf_IdleTimeout :: int
  cf_ReadTimeout :: int
  cf_WriteTimeout :: int

datatype timer = TRunning | TStopped | TFired

text \<open>
  \<open>c_handle\<close>: the sessions a handler goroutine was started for; \<open>c_ncClosed\<close>: \<open>nc.Close\<close> was
  called; \<open>c_served\<close>: \<open>serve\<close> has returned; \<open>c_closers\<close>: the goroutines in which a fired
  idle timer calls \<open>c.close\<close> and that have not called it yet.  The channels \<open>sessClose\<close>, \<open>rc\<close> and \<open>wc\<close> are
  unbuffered and hold no state; \<open>c_client\<close> tells whether \<open>sessReq\<close> exists.
\<close>

record conn =
  c_cfg :: ConnConfig
  c_client :: bool
  c_sess :: "(32 word \<times> nat) list"
  c_parity :: byte
  c_mux :: bool
  c_checkMux :: bool
  c_idleT :: "timer option"
  c_done :: bool
  c_err :: "go_error option"
  c_heap :: "session list"
  c_handle :: "nat list"
  c_ncClosed :: bool
  c_served :: bool
  c_closers :: nat

definition newConn :: "bool \<Rightarrow> ConnConfig \<Rightarrow> conn" where
  "newConn client cfg =
     \<lparr>c_cfg = cfg, c_client = client, c_sess = [], c_parity = (if client then 1 else 0),
      c_mux = cf_LegacyMux cfg, c_checkMux = (\<not> cf_LegacyMux cfg \<and> cf_Mux cfg),
      c_idleT = None, c_done = False, c_err = None, c_heap = [], c_handle = [],
      c_ncClosed = False, c_served = False, c_closers = 0\<rparr>"

subsection \<open>Channels, errors and timers\<close>

definition close_chan :: "bool \<Rightarrow> bool option" where
  "close_chan closed = (if closed then None else Some True)"

definition conn_close :: "conn \<Rightarrow> conn" where
  "conn_close c = (if c_done c then c else c\<lparr>c_done := True\<rparr>)"

definition conn_setErr :: "go_error \<Rightarrow> conn \<Rightarrow> conn" where
  "conn_setErr e c = c\<lparr>c_err := Some e\<rparr>"

definition conn_readErr :: "conn \<Rightarrow> go_error option \<times> conn" where
  "conn_readErr c = (c_err c, c\<lparr>c_err := None\<rparr>)"

definition upd_session :: "nat \<Rightarrow> (session \<Rightarrow> session) \<Rightarrow> conn \<Rightarrow> conn" where
  "upd_session r f c = c\<lparr>c_heap := (c_heap c)[r := f (c_heap c ! r)]\<rparr>"

definition sess_setErr :: "nat \<Rightarrow> go_error \<Rightarrow> conn \<Rightarrow> conn" where
  "sess_setErr r e c = upd_session r (\<lambda>s. s\<lparr>s_err := Some e\<rparr>) c"

text \<open>\<open>session.readErr\<close>: the last error of the session, else that of the connection.\<close>

definition sess_readErr :: "nat \<Rightarrow> conn \<Rightarrow> go_error \<times> conn" where
  "sess_readErr r c =
     (let err = s_err (c_heap c ! r);
          c = sess_setErr r errSessionClosed c
      in case err of
           Some e \<Rightarrow> (e, c)
         | None \<Rightarrow>
             (case conn_readErr c of
                (Some e, c) \<Rightarrow> (e, c)
              | (None, c) \<Rightarrow> (errSessionClosed, c)))"

text \<open>\<open>time.Timer\<close>: \<open>Stop\<close> tells whether it stopped a running timer.\<close>

definition timer_Stop :: "timer \<Rightarrow> bool \<times> timer" where
  "timer_Stop t = (case t of TRunning \<Rightarrow> (True, TStopped) | t \<Rightarrow> (False, t))"

text \<open>\<open>c.idleT != nil && !c.idleT.Stop()\<close>, with the timer after the call.\<close>

definition idle_triggered :: "conn \<Rightarrow> bool \<times> conn" where
  "idle_triggered c =
     (case c_idleT c of
        None \<Rightarrow> (False, c)
      | Some t \<Rightarrow> (case timer_Stop t of (stopped, t) \<Rightarrow> (\<not> stopped, c\<lparr>c_idleT := Some t\<rparr>)))"

text \<open>
  The timer is \<open>time.AfterFunc(c.IdleTimeout, c.close)\<close>: when it fires, the runtime starts a
  goroutine that calls \<open>c.close\<close>, so between the two the timer has fired, \<open>Stop\<close> fails and
  the connection is still open.
\<close>

definition timer_fire :: "conn \<Rightarrow> conn" where
  "timer_fire c = c\<lparr>c_idleT := Some TFired, c_closers := c_closers c + 1\<rparr>"

definition run_closer :: "conn \<Rightarrow> conn" where
  "run_closer c = conn_close (c\<lparr>c_closers := c_closers c - 1\<rparr>)"

text \<open>The connection is closed or a goroutine of its idle timer is about to close it.\<close>

definition closing :: "conn \<Rightarrow> bool" where
  "closing c = (c_done c \<or> c_closers c > 0)"

subsection \<open>The handlers of the serve goroutine\<close>

definition new_session :: "32 word \<Rightarrow> session" where
  "new_session sid = \<lparr>s_id = sid, s_seq = 0, s_in = [], s_in_closed = False, s_done = False, s_err = None\<rparr>"

text \<open>\<open>s = newSession(c, id); c.sess[id] = s\<close>\<close>

definition add_session :: "32 word \<Rightarrow> conn \<Rightarrow> nat \<times> conn" where
  "add_session sid c =
     (let r = length (c_heap c)
      in (r, c\<lparr>c_heap := c_heap c @ [new_session sid], c_sess := AList.update sid r (c_sess c)\<rparr>))"

text \<open>\<open>close(s.done); close(s.in)\<close>\<close>

definition close_channels :: "nat \<Rightarrow> conn \<Rightarrow> conn option" where
  "close_channels r c = do {
     let s = c_heap c ! r;
     d \<leftarrow> close_chan (s_done s);
     i \<leftarrow> close_chan (s_in_closed s);
     Some (upd_session r (\<lambda>s. s\<lparr>s_done := d, s_in_closed := i\<rparr>) c)
   }"

definition closeSession :: "nat \<Rightarrow> conn \<Rightarrow> conn option" where
  "closeSession r c =
     (let sid = s_id (c_heap c ! r)
      in if map_of (c_sess c) sid \<noteq> Some r then Some c
         else do {
           let c = c\<lparr>c_sess := AList.delete sid (c_sess c)\<rparr>;
           c \<leftarrow> close_channels r c;
           let c = sess_setErr r errSessionClosed c;
           Some (if c_sess c = [] \<and> c_mux c \<and> cf_IdleTimeout (c_cfg c) > 0
                 then c\<lparr>c_idleT := Some TRunning\<rparr> else c)
         })"

text \<open>
  \<open>s.in\<close> has room for one packet; the \<open>default\<close> case is taken when it is full, and a send on
  a closed channel panics.
\<close>

definition queue_packet :: "nat \<Rightarrow> bytes \<Rightarrow> conn \<Rightarrow> conn option" where
  "queue_packet r p c =
     (let s = c_heap c ! r
      in if s_in_closed s then None
         else if s_in s = [] then Some (upd_session r (\<lambda>s. s\<lparr>s_in := [p]\<rparr>) c)
         else map_option (sess_setErr r errPacketQueueFull) (closeSession r c))"

definition processPacket :: "bytes \<Rightarrow> conn \<Rightarrow> conn option" where
  "processPacket p c =
     (let c = (if c_checkMux c
               then c\<lparr>c_mux := (p ! hdrFlags AND hdrFlagSingleConnect > 0), c_checkMux := False\<rparr>
               else c);
          sid = be32 (drop hdrID p)
      in case map_of (c_sess c) sid of
           Some r \<Rightarrow> queue_packet r p c
         | None \<Rightarrow>
             (case (if c_sess c = [] then idle_triggered c else (False, c)) of
                (True, c) \<Rightarrow> Some c
              | (False, c) \<Rightarrow>
                  (case add_session sid c of
                     (r, c) \<Rightarrow> queue_packet r p (c\<lparr>c_handle := c_handle c @ [r]\<rparr>))))"

definition newSession :: "32 word \<Rightarrow> conn \<Rightarrow> nat result \<times> conn" where
  "newSession sid c =
     (if \<not> c_mux c \<and> c_sess c \<noteq> [] then (Inl (GoError ''session multiplexing not supported''), c)
      else if map_of (c_sess c) sid \<noteq> None then (Inl errSessionIDInUse, c)
      else
        (case (if c_sess c = [] then idle_triggered c else (False, c)) of
           (True, c) \<Rightarrow> (Inl errConnectionClosed, c)
         | (False, c) \<Rightarrow> (case add_session sid c of (r, c) \<Rightarrow> (Inr r, c))))"

fun close_all :: "nat list \<Rightarrow> conn \<Rightarrow> conn option" where
  "close_all [] c = Some c"
| "close_all (r # rs) c = do { c \<leftarrow> close_channels r c; close_all rs c }"

definition cleanup :: "conn \<Rightarrow> conn option" where
  "cleanup c = do {
     let c = conn_close c;
     c \<leftarrow> close_all (map snd (c_sess c)) c;
     let c = c\<lparr>c_ncClosed := True\<rparr>;
     Some (case c_idleT c of None \<Rightarrow> c | Some t \<Rightarrow> c\<lparr>c_idleT := Some (snd (timer_Stop t))\<rparr>)
   }"

subsection \<open>One turn of \<open>serve\<close>\<close>

datatype serve_event =
    EPacket bytes
  | ESessClose nat
  | ESessReq "32 word"
  | EDone

definition serve_exit :: "conn \<Rightarrow> conn option" where
  "serve_exit c = map_option (\<lambda>c. c\<lparr>c_served := True\<rparr>) (cleanup c)"

text \<open>The check at the end of the loop body: a connection without sessions or mux is closed.\<close>

definition after_event :: "conn \<Rightarrow> conn option" where
  "after_event c = (if c_sess c = [] \<and> \<not> c_mux c then serve_exit c else Some c)"

fun serve :: "serve_event \<Rightarrow> conn \<Rightarrow> conn option" where
  "serve (EPacket p) c = Option.bind (processPacket p c) after_event"
| "serve (ESessClose r) c = Option.bind (closeSession r c) after_event"
| "serve (ESessReq i) c = after_event (snd (newSession i c))"
| "serve EDone c = serve_exit c"

text \<open>
  Which case of the select can be taken: packets arrive while the read loop runs, a session
  is closed by the goroutine that holds it, session requests exist on client connections
  only, and \<open>c.done\<close> once it is closed.
\<close>

fun ready :: "conn \<Rightarrow> serve_event \<Rightarrow> bool" where
  "ready c (EPacket p) = (hdrLen \<le> length p)"
| "ready c (ESessClose r) = (r < length (c_heap c))"
| "ready c (ESessReq i) = c_client c"
| "ready c EDone = c_done c"

subsection \<open>The interleaving of the goroutines\<close>

text \<open>
  \<open>conn_step c (Some c')\<close> is a step to \<open>c'\<close>, \<open>conn_step c None\<close> one that panics.  Besides the
  serve goroutine: the idle timer fires, the goroutine it starts closes the connection, some
  other goroutine closes the connection or sets its
  error or, as \<open>newClientSession\<close> does, takes it, a session goroutine receives from \<open>s.in\<close>, reads its error or sets \<open>s.seq\<close>.
\<close>

inductive conn_step :: "conn \<Rightarrow> conn option \<Rightarrow> bool" where
  step_serve: "\<not> c_served c \<Longrightarrow> ready c e \<Longrightarrow> conn_step c (serve e c)"
| step_timer: "c_idleT c = Some TRunning \<Longrightarrow> conn_step c (Some (timer_fire c))"
| step_closer: "c_closers c > 0 \<Longrightarrow> conn_step c (Some (run_closer c))"
| step_close: "conn_step c (Some (conn_close c))"
| step_setErr: "conn_step c (Some (conn_setErr e c))"
| step_receive: "r < length (c_heap c) \<Longrightarrow> s_in (c_heap c ! r) = [p] \<Longrightarrow>
    conn_step c (Some (upd_session r (\<lambda>s. s\<lparr>s_in := []\<rparr>) c))"
| step_readErr: "r < length (c_heap c) \<Longrightarrow> conn_step c (Some (snd (sess_readErr r c)))"
| step_takeErr: "conn_step c (Some (snd (conn_readErr c)))"
| step_seq: "r < length (c_heap c) \<Longrightarrow> conn_step c (Some (upd_session r (\<lambda>s. s\<lparr>s_seq := n\<rparr>) c))"

inductive reachable :: "bool \<Rightarrow> ConnConfig \<Rightarrow> conn \<Rightarrow> bool" for client cfg where
  reach_new: "reachable client cfg (newConn client cfg)"
| reach_step: "reachable client cfg c \<Longrightarrow> conn_step c (Some c') \<Longrightarrow> reachable client cfg c'"

inductive_cases conn_stepE: "conn_step c r"

subsection \<open>The invariant\<close>

text \<open>
  \<open>table_ok\<close>: the table maps an id to a session with that id.  \<open>chans_ok\<close>: the channels of
  a session are open exactly while it is in the table of a serving connection.
  \<open>timer_ok\<close>: the idle timer exists on multiplexed connections only, runs or has fired when
  there are no sessions, and once it has fired the connection is closed or about to be.  \<open>settled\<close>: after each
  turn of the loop a connection that has had a session and has none now is multiplexed.
\<close>

definition idle_on :: "ConnConfig \<Rightarrow> bool" where
  "idle_on cfg = (cf_IdleTimeout cfg > 0)"

definition sess_at :: "conn \<Rightarrow> 32 word \<Rightarrow> nat option" where
  "sess_at c i = map_of (c_sess c) i"

definition table_ok :: "conn \<Rightarrow> bool" where
  "table_ok c =
     (distinct (map fst (c_sess c)) \<and>
      (\<forall>i r. sess_at c i = Some r \<longrightarrow> r < length (c_heap c) \<and> s_id (c_heap c ! r) = i))"

definition chans_ok :: "conn \<Rightarrow> bool" where
  "chans_ok c =
     (\<forall>r<length (c_heap c).
        let s = c_heap c ! r
        in s_in_closed s = s_done s \<and> length (s_in s) \<le> 1 \<and>
           (s_done s \<longleftrightarrow> c_served c \<or> sess_at c (s_id s) \<noteq> Some r))"

definition timer_inv ::
  "timer option \<Rightarrow> bool \<Rightarrow> bool \<Rightarrow> bool \<Rightarrow> bool \<Rightarrow> bool \<Rightarrow> bool \<Rightarrow> bool" where
  "timer_inv t mux check finished idle fresh on =
     ((t \<noteq> None \<longrightarrow> mux \<and> on) \<and> (check \<longrightarrow> \<not> mux) \<and> (t = Some TFired \<longrightarrow> finished) \<and>
      (idle \<longrightarrow> t \<noteq> Some TStopped) \<and> (idle \<and> \<not> fresh \<and> mux \<and> on \<longrightarrow> t \<noteq> None))"

definition timer_ok :: "conn \<Rightarrow> bool" where
  "timer_ok c = timer_inv (c_idleT c) (c_mux c) (c_checkMux c) (closing c)
     (\<not> c_served c \<and> c_sess c = []) (c_heap c = []) (idle_on (c_cfg c))"

definition exit_ok :: "conn \<Rightarrow> bool" where
  "exit_ok c = (c_ncClosed c = c_served c \<and> (c_served c \<longrightarrow> c_done c))"

definition settled :: "conn \<Rightarrow> bool" where
  "settled c = (\<not> c_served c \<and> c_sess c = [] \<and> c_heap c \<noteq> [] \<longrightarrow> c_mux c)"

definition conn_ok :: "conn \<Rightarrow> bool" where
  "conn_ok c = (table_ok c \<and> chans_ok c \<and> timer_ok c \<and> exit_ok c)"

lemmas conn_ok_defs = conn_ok_def table_ok_def chans_ok_def timer_ok_def exit_ok_def

lemma timer_inv_done: "timer_inv t m k d i f on \<Longrightarrow> timer_inv t m k True i f on"
  unfolding timer_inv_def by blast

lemma timer_inv_busy: "timer_inv t m k d i f on \<Longrightarrow> timer_inv t m k d False f' on"
  unfolding timer_inv_def by blast

lemma timer_inv_start:
  "timer_inv t m k d i f on \<Longrightarrow> m \<Longrightarrow> on \<Longrightarrow> timer_inv (Some TRunning) m k d i' f' on"
  unfolding timer_inv_def by blast

lemma timer_inv_no_start:
  "timer_inv t m k d i f on \<Longrightarrow> \<not> (i' \<and> m \<and> on) \<Longrightarrow> timer_inv t m k d i' f' on"
  unfolding timer_inv_def by blast

lemma timer_inv_idle:
  assumes "timer_inv t m k d True f on"
  shows "t = None \<or> t = Some TRunning \<or> t = Some TFired \<and> d \<and> m"
proof -
  have "t = None \<or> t = Some TRunning \<or> t = Some TFired \<or> t = Some TStopped"
    by (metis option.exhaust timer.exhaust)
  with assms show ?thesis unfolding timer_inv_def by blast
qed

lemma timer_inv_stop:
  "timer_inv (Some TRunning) m k d i f on \<Longrightarrow> timer_inv (Some TStopped) m k d False f' on"
  unfolding timer_inv_def by blast

lemma timer_inv_check:
  "timer_inv t m True d i f on \<Longrightarrow> (i \<and> \<not> f \<longrightarrow> m) \<Longrightarrow> timer_inv t m' False d i f on"
  unfolding timer_inv_def by blast

lemma closing_simps [simp]:
  "closing (c\<lparr>c_heap := hp\<rparr>) = closing c" "closing (c\<lparr>c_sess := ss\<rparr>) = closing c"
  "closing (c\<lparr>c_err := e\<rparr>) = closing c" "closing (c\<lparr>c_handle := l\<rparr>) = closing c"
  "closing (c\<lparr>c_mux := m\<rparr>) = closing c" "closing (c\<lparr>c_checkMux := m\<rparr>) = closing c"
  "closing (c\<lparr>c_served := m\<rparr>) = closing c" "closing (c\<lparr>c_ncClosed := m\<rparr>) = closing c"
  "closing (c\<lparr>c_idleT := t\<rparr>) = closing c" "closing (upd_session r f c) = closing c"
  "closing (c\<lparr>c_done := True\<rparr>)" "closing (conn_close c)" "closing (timer_fire c)" "closing (run_closer c)"
  by (simp_all add: closing_def upd_session_def conn_close_def timer_fire_def run_closer_def)

lemma upd_session_simps [simp]:
  "c_sess (upd_session r f c) = c_sess c" "c_mux (upd_session r f c) = c_mux c"
  "c_checkMux (upd_session r f c) = c_checkMux c" "c_idleT (upd_session r f c) = c_idleT c"
  "c_done (upd_session r f c) = c_done c" "c_served (upd_session r f c) = c_served c"
  "c_ncClosed (upd_session r f c) = c_ncClosed c" "c_cfg (upd_session r f c) = c_cfg c"
  "c_client (upd_session r f c) = c_client c" "c_parity (upd_session r f c) = c_parity c"
  "length (c_heap (upd_session r f c)) = length (c_heap c)"
  "c_heap (upd_session r f c) = [] \<longleftrightarrow> c_heap c = []"
  by (simp_all add: upd_session_def)

lemma upd_session_nth:
  "q < length (c_heap c) \<Longrightarrow>
   c_heap (upd_session r f c) ! q = (if q = r then f (c_heap c ! r) else c_heap c ! q)"
  by (simp add: upd_session_def)

lemma upd_session_heap_eq: "c_heap (upd_session r f c) = (c_heap c)[r := f (c_heap c ! r)]"
  by (simp add: upd_session_def)

lemma sess_at_simps [simp]:
  "sess_at (upd_session r f c) = sess_at c" "sess_at (c\<lparr>c_idleT := t\<rparr>) = sess_at c"
  "sess_at (c\<lparr>c_heap := hp\<rparr>) = sess_at c" "sess_at (c\<lparr>c_done := d\<rparr>) = sess_at c"
  "sess_at (c\<lparr>c_err := e\<rparr>) = sess_at c" "sess_at (c\<lparr>c_handle := l\<rparr>) = sess_at c"
  "sess_at (c\<lparr>c_mux := m\<rparr>) = sess_at c" "sess_at (c\<lparr>c_checkMux := m\<rparr>) = sess_at c"
  "sess_at (c\<lparr>c_served := m\<rparr>) = sess_at c" "sess_at (c\<lparr>c_ncClosed := m\<rparr>) = sess_at c"
  by (simp_all add: sess_at_def fun_eq_iff)

lemma sess_at_update [simp]:
  "sess_at (c\<lparr>c_sess := AList.update i r (c_sess c)\<rparr>) = (sess_at c)(i \<mapsto> r)"
  "sess_at (c\<lparr>c_heap := hp, c_sess := AList.update i r (c_sess c)\<rparr>) = (sess_at c)(i \<mapsto> r)"
  "sess_at (c\<lparr>c_sess := AList.delete i (c_sess c)\<rparr>) = (sess_at c)(i := None)"
  by (simp_all add: sess_at_def fun_eq_iff update_conv' delete_conv')

lemma conn_okI:
  "table_ok c \<Longrightarrow> chans_ok c \<Longrightarrow> timer_ok c \<Longrightarrow> exit_ok c \<Longrightarrow> conn_ok c"
  by (simp add: conn_ok_def)

lemma conn_okD:
  assumes "conn_ok c"
  shows "table_ok c" "chans_ok c" "timer_ok c" "exit_ok c"
  using assms by (simp_all add: conn_ok_def)

lemma upd_session_ok:
  assumes "conn_ok c" "r < length (c_heap c)"
    and "s_id (f (c_heap c ! r)) = s_id (c_heap c ! r)"
    and "s_done (f (c_heap c ! r)) = s_done (c_heap c ! r)"
    and "s_in_closed (f (c_heap c ! r)) = s_in_closed (c_heap c ! r)"
    and "length (s_in (f (c_heap c ! r))) \<le> 1"
  shows "conn_ok (upd_session r f c)"
proof (rule conn_okI)
  show "table_ok (upd_session r f c)"
    using conn_okD(1) [OF assms(1)] assms by (auto simp: table_ok_def upd_session_nth)
  show "chans_ok (upd_session r f c)"
    using conn_okD(2) [OF assms(1)] assms by (simp add: chans_ok_def upd_session_nth Let_def)
  show "timer_ok (upd_session r f c)"
    using conn_okD(3) [OF assms(1)] by (simp add: timer_ok_def)
  show "exit_ok (upd_session r f c)"
    using conn_okD(4) [OF assms(1)] by (simp add: exit_ok_def)
qed

lemma sess_setErr_ok: "conn_ok c \<Longrightarrow> r < length (c_heap c) \<Longrightarrow> conn_ok (sess_setErr r e c)"
  unfolding sess_setErr_def
  by (rule upd_session_ok) (auto dest!: conn_okD(2) simp: chans_ok_def Let_def)

lemma conn_close_ok: "conn_ok c \<Longrightarrow> conn_ok (conn_close c)"
  by (simp add: conn_close_def conn_ok_def table_ok_def chans_ok_def timer_ok_def exit_ok_def)
    (blast intro: timer_inv_done)

lemma conn_ok_irrelevant [simp]:
  "conn_ok (c\<lparr>c_err := e\<rparr>) = conn_ok c" "conn_ok (c\<lparr>c_handle := l\<rparr>) = conn_ok c"
  by (simp_all add: conn_ok_def table_ok_def chans_ok_def timer_ok_def exit_ok_def)

lemma new_session_sel [simp]:
  "s_id (new_session i) = i" "s_done (new_session i) = False"
  "s_in_closed (new_session i) = False" "s_in (new_session i) = []"
  by (simp_all add: new_session_def)

lemma add_session_ok:
  assumes "conn_ok c" "\<not> c_served c" "sess_at c i = None" "add_session i c = (r, c')"
  shows "conn_ok c' \<and> r < length (c_heap c') \<and> c_sess c' \<noteq> [] \<and> \<not> c_served c' \<and>
    c_heap c' ! r = new_session i \<and> sess_at c' i = Some r"
proof -
  have r: "r = length (c_heap c)"
    and c': "c' = c\<lparr>c_heap := c_heap c @ [new_session i], c_sess := AList.update i r (c_sess c)\<rparr>"
    using assms(4) by (auto simp: add_session_def Let_def)
  have n: "AList.update i r (c_sess c) \<noteq> []" by (cases "c_sess c") auto
  have "table_ok c'"
    using conn_okD(1) [OF assms(1)]
    by (auto simp: table_ok_def c' r nth_append distinct_update less_SucI split: if_splits)
  moreover have "chans_ok c'"
    using conn_okD(1,2) [OF assms(1)] assms(2,3)
    by (auto simp: table_ok_def chans_ok_def c' r nth_append Let_def less_Suc_eq)
  moreover have "timer_ok c'" "exit_ok c'"
    using conn_okD(3,4) [OF assms(1)] n
    by (simp_all add: timer_ok_def exit_ok_def c' timer_inv_busy)
  ultimately show ?thesis using n assms(2) by (simp add: conn_okI c') (simp add: r)
qed

lemma close_channels_open:
  assumes "\<not> s_done (c_heap c ! r)" "\<not> s_in_closed (c_heap c ! r)"
  shows "close_channels r c = Some (upd_session r (\<lambda>s. s\<lparr>s_done := True, s_in_closed := True\<rparr>) c)"
  using assms by (simp add: close_channels_def close_chan_def Let_def)

lemma upd_session_twice:
  "r < length (c_heap c) \<Longrightarrow> upd_session r g (upd_session r f c) = upd_session r (\<lambda>s. g (f s)) c"
  by (simp add: upd_session_def)

definition remove_session :: "nat \<Rightarrow> conn \<Rightarrow> conn" where
  "remove_session r c = upd_session r
     (\<lambda>s. s\<lparr>s_done := True, s_in_closed := True, s_err := Some errSessionClosed\<rparr>)
     (c\<lparr>c_sess := AList.delete (s_id (c_heap c ! r)) (c_sess c)\<rparr>)"

definition start_idle :: "conn \<Rightarrow> conn" where
  "start_idle c = (if c_sess c = [] \<and> c_mux c \<and> idle_on (c_cfg c)
     then c\<lparr>c_idleT := Some TRunning\<rparr> else c)"

lemma closeSession_eq:
  assumes "conn_ok c" "\<not> c_served c" "r < length (c_heap c)"
  shows "closeSession r c = Some (if sess_at c (s_id (c_heap c ! r)) = Some r
           then start_idle (remove_session r c) else c)"
proof (cases "sess_at c (s_id (c_heap c ! r)) = Some r")
  case False
  then show ?thesis by (simp add: closeSession_def sess_at_def)
next
  case True
  have o: "\<not> s_done (c_heap c ! r)" "\<not> s_in_closed (c_heap c ! r)"
    using conn_okD(2) [OF assms(1)] assms(2,3) True by (auto simp: chans_ok_def Let_def)
  let ?c = "c\<lparr>c_sess := AList.delete (s_id (c_heap c ! r)) (c_sess c)\<rparr>"
  have "close_channels r ?c = Some (upd_session r (\<lambda>s. s\<lparr>s_done := True, s_in_closed := True\<rparr>) ?c)"
    using o by (intro close_channels_open) simp_all
  moreover have "sess_setErr r errSessionClosed
      (upd_session r (\<lambda>s. s\<lparr>s_done := True, s_in_closed := True\<rparr>) ?c) = remove_session r c"
    unfolding remove_session_def sess_setErr_def using assms(3) by (subst upd_session_twice) simp_all
  ultimately show ?thesis
    using True unfolding closeSession_def Let_def start_idle_def
    by (simp add: sess_at_def idle_on_def del: not_None_eq)
qed

definition chan_ok :: "conn \<Rightarrow> nat \<Rightarrow> bool" where
  "chan_ok c r =
     (let s = c_heap c ! r
      in s_in_closed s = s_done s \<and> length (s_in s) \<le> 1 \<and>
         (s_done s \<longleftrightarrow> c_served c \<or> sess_at c (s_id s) \<noteq> Some r))"

lemma chans_ok_iff: "chans_ok c = (\<forall>r<length (c_heap c). chan_ok c r)"
  by (simp add: chans_ok_def chan_ok_def)

lemma remove_session_simps [simp]:
  "c_served (remove_session r c) = c_served c" "c_mux (remove_session r c) = c_mux c"
  "c_checkMux (remove_session r c) = c_checkMux c" "c_idleT (remove_session r c) = c_idleT c"
  "closing (remove_session r c) = closing c" "c_done (remove_session r c) = c_done c"
  "c_ncClosed (remove_session r c) = c_ncClosed c"
  "c_cfg (remove_session r c) = c_cfg c" "length (c_heap (remove_session r c)) = length (c_heap c)"
  "sess_at (remove_session r c) = (sess_at c)(s_id (c_heap c ! r) := None)"
  "c_sess (remove_session r c) = AList.delete (s_id (c_heap c ! r)) (c_sess c)"
  "q < length (c_heap c) \<Longrightarrow> q \<noteq> r \<Longrightarrow> c_heap (remove_session r c) ! q = c_heap c ! q"
  "r < length (c_heap c) \<Longrightarrow> c_heap (remove_session r c) ! r =
     (c_heap c ! r)\<lparr>s_done := True, s_in_closed := True, s_err := Some errSessionClosed\<rparr>"
  by (simp_all add: remove_session_def upd_session_nth)

lemma remove_session_ok:
  assumes "conn_ok c" "\<not> c_served c" "r < length (c_heap c)"
    "sess_at c (s_id (c_heap c ! r)) = Some r"
  shows "conn_ok (start_idle (remove_session r c))"
proof (rule conn_okI)
  let ?c = "remove_session r c"
  have "r' < length (c_heap ?c) \<and> s_id (c_heap ?c ! r') = i"
    if "sess_at ?c i = Some r'" for i r'
    using conn_okD(1) [OF assms(1)] assms(3) that
    by (cases "r' = r") (auto simp: table_ok_def split: if_splits)
  then have "table_ok ?c"
    using conn_okD(1) [OF assms(1)] by (simp add: table_ok_def distinct_delete)
  then show "table_ok (start_idle ?c)" by (simp add: start_idle_def table_ok_def)
  have "chan_ok ?c q" if q: "q < length (c_heap c)" for q
  proof (cases "q = r")
    case True
    have "chan_ok c r" using conn_okD(2) [OF assms(1)] assms(3) by (simp add: chans_ok_iff)
    with True assms(3) show ?thesis by (simp add: chan_ok_def Let_def)
  next
    case False
    have "chan_ok c q" using conn_okD(2) [OF assms(1)] q by (simp add: chans_ok_iff)
    with False q assms(2,4) show ?thesis by (auto simp: chan_ok_def Let_def)
  qed
  then show "chans_ok (start_idle ?c)" by (simp add: start_idle_def chans_ok_iff chan_ok_def)
  note inv = conn_okD(3) [OF assms(1), unfolded timer_ok_def]
  show "timer_ok (start_idle ?c)"
  proof (cases "c_sess ?c = [] \<and> c_mux c \<and> idle_on (c_cfg c)")
    case True
    then have "start_idle ?c = ?c\<lparr>c_idleT := Some TRunning\<rparr>" by (simp add: start_idle_def)
    with True timer_inv_start [OF inv] show ?thesis by (simp add: timer_ok_def)
  next
    case False
    then have "start_idle ?c = ?c" by (auto simp: start_idle_def)
    moreover have "timer_ok ?c"
      unfolding timer_ok_def remove_session_simps using False
      by (intro timer_inv_no_start [OF inv]) auto
    ultimately show ?thesis by simp
  qed
  show "exit_ok (start_idle ?c)"
    using conn_okD(4) [OF assms(1)] by (simp add: exit_ok_def start_idle_def)
qed

lemma start_remove_simps [simp]:
  "c_served (start_idle (remove_session r c)) = c_served c"
  "length (c_heap (start_idle (remove_session r c))) = length (c_heap c)"
  by (simp_all add: start_idle_def)

lemma closeSession_ok:
  assumes "conn_ok c" "\<not> c_served c" "r < length (c_heap c)"
  obtains c' where "closeSession r c = Some c'" "conn_ok c'" "\<not> c_served c'"
    "length (c_heap c') = length (c_heap c)"
  using closeSession_eq [OF assms] remove_session_ok [OF assms] assms
  by (auto split: if_splits)

lemma queue_packet_ok:
  assumes "conn_ok c" "\<not> c_served c" "r < length (c_heap c)" "\<not> s_done (c_heap c ! r)"
  obtains c' where "queue_packet r p c = Some c'" "conn_ok c'" "\<not> c_served c'"
    "length (c_heap c') = length (c_heap c)"
proof -
  have i: "\<not> s_in_closed (c_heap c ! r)"
    using conn_okD(2) [OF assms(1)] assms(3,4) by (auto simp: chans_ok_def Let_def)
  show thesis
  proof (cases "s_in (c_heap c ! r) = []")
    case True
    have "conn_ok (upd_session r (\<lambda>s. s\<lparr>s_in := [p]\<rparr>) c)"
      using assms by (intro upd_session_ok) simp_all
    with True i assms(2) show thesis
      by (intro that [of "upd_session r (\<lambda>s. s\<lparr>s_in := [p]\<rparr>) c"]) (simp_all add: queue_packet_def)
  next
    case False
    obtain c' where c': "closeSession r c = Some c'" "conn_ok c'" "\<not> c_served c'"
        "length (c_heap c') = length (c_heap c)"
      using closeSession_ok [OF assms(1-3)] .
    with False i assms(3) sess_setErr_ok [OF c'(2), of r errPacketQueueFull] show thesis
      by (intro that [of "sess_setErr r errPacketQueueFull c'"])
         (simp_all add: queue_packet_def sess_setErr_def)
  qed
qed

lemma idle_triggered_cases:
  assumes "conn_ok c" "\<not> c_served c" "c_sess c = []"
  obtains (triggered) "idle_triggered c = (True, c)" "closing c" "c_mux c"
  | (stopped) "idle_triggered c = (False, c\<lparr>c_idleT := Some TStopped\<rparr>)" "c_idleT c = Some TRunning"
  | (none) "idle_triggered c = (False, c)" "c_idleT c = None"
proof -
  have "timer_inv (c_idleT c) (c_mux c) (c_checkMux c) (closing c) True (c_heap c = []) (idle_on (c_cfg c))"
    using conn_okD(3) [OF assms(1)] assms(2,3) by (simp add: timer_ok_def)
  from timer_inv_idle [OF this] show thesis
    by (elim disjE conjE) (auto simp: idle_triggered_def timer_Stop_def intro: triggered stopped none)
qed

lemma idle_triggered_fired:
  assumes "conn_ok c" "\<not> c_served c" "c_sess c = []"
  shows "idle_triggered c = (True, c) \<and> c_idleT c = Some TFired \<or>
    (\<exists>x. idle_triggered c = (False, c\<lparr>c_idleT := x\<rparr>)) \<and> c_idleT c \<noteq> Some TFired"
proof -
  have "timer_inv (c_idleT c) (c_mux c) (c_checkMux c) (closing c) True (c_heap c = []) (idle_on (c_cfg c))"
    using conn_okD(3) [OF assms(1)] assms(2,3) by (simp add: timer_ok_def)
  from timer_inv_idle [OF this] show ?thesis
    by (elim disjE conjE)
       (auto simp: idle_triggered_def timer_Stop_def intro: exI [of _ "None"] exI [of _ "Some TStopped"])
qed

text \<open>
  The look-up-or-create part that \<open>processPacket\<close> and \<open>newSession\<close> share: stop the idle
  timer of a connection without sessions, then add a session.
\<close>

lemma stop_and_add:
  assumes "conn_ok c" "\<not> c_served c" "sess_at c i = None"
    and "(if c_sess c = [] then idle_triggered c else (False, c)) = (False, c1)"
    and "add_session i c1 = (r, c2)"
  shows "conn_ok c2 \<and> r < length (c_heap c2) \<and> c_sess c2 \<noteq> [] \<and> \<not> c_served c2 \<and>
    c_heap c2 ! r = new_session i \<and> sess_at c2 i = Some r \<and> c_mux c2 = c_mux c"
proof (cases "c_sess c = [] \<and> c_idleT c \<noteq> None")
  case False
  have "c1 = c"
  proof (cases "c_sess c = []")
    case True
    with False have "idle_triggered c = (False, c)" by (simp add: idle_triggered_def)
    with True assms(4) show ?thesis by simp
  qed (use assms(4) in simp)
  with assms(5) add_session_ok [OF assms(1-3), of r c2] show ?thesis
    by (auto simp: add_session_def Let_def)
next
  case True
  then have e: "idle_triggered c = (False, c1)" "c_sess c = []" using assms(4) by simp_all
  have "c1 = c\<lparr>c_idleT := Some TStopped\<rparr> \<and> c_idleT c = Some TRunning"
    by (rule idle_triggered_cases [OF assms(1,2) e(2)]) (use e(1) True in simp_all)
  then have c1: "c1 = c\<lparr>c_idleT := Some TStopped\<rparr>" and run: "c_idleT c = Some TRunning"
    by simp_all
  let ?r = "length (c_heap c)"
  let ?c = "c\<lparr>c_heap := c_heap c @ [new_session i], c_sess := AList.update i ?r (c_sess c)\<rparr>"
  have c: "add_session i c = (?r, ?c)" by (simp add: add_session_def Let_def)
  then have ok: "conn_ok ?c" "c_sess ?c \<noteq> []" "sess_at ?c i = Some ?r"
    using add_session_ok [OF assms(1-3) c] by simp_all
  have c2: "c2 = ?c\<lparr>c_idleT := Some TStopped\<rparr>" "r = ?r"
    using assms(5) by (auto simp: c1 add_session_def Let_def)
  have "timer_ok c2"
    using conn_okD(3) [OF assms(1)] run ok(2)
    by (simp add: timer_ok_def c2(1)) (rule timer_inv_stop)
  then have "conn_ok c2"
    using ok(1) by (simp add: conn_ok_def table_ok_def chans_ok_def exit_ok_def c2(1))
  then show ?thesis using ok assms(2) by (simp add: c2)
qed

definition mux_status :: "bytes \<Rightarrow> conn \<Rightarrow> conn" where
  "mux_status p c = (if c_checkMux c
     then c\<lparr>c_mux := (p ! hdrFlags AND hdrFlagSingleConnect > 0), c_checkMux := False\<rparr> else c)"

lemma mux_status_simps [simp]:
  "c_served (mux_status p c) = c_served c" "c_heap (mux_status p c) = c_heap c"
  "c_sess (mux_status p c) = c_sess c" "sess_at (mux_status p c) = sess_at c"
  "closing (mux_status p c) = closing c" "c_cfg (mux_status p c) = c_cfg c"
  "c_idleT (mux_status p c) = c_idleT c" "c_handle (mux_status p c) = c_handle c"
  by (simp_all add: mux_status_def sess_at_def fun_eq_iff)

lemma mux_status_ok:
  assumes "conn_ok c" "settled c"
  shows "conn_ok (mux_status p c)"
proof (cases "c_checkMux c")
  case True
  let ?c = "mux_status p c"
  have i: "\<not> c_served c \<and> c_sess c = [] \<and> \<not> c_heap c = [] \<longrightarrow> c_mux c"
    using assms(2) by (auto simp: settled_def)
  have t: "timer_inv (c_idleT c) (c_mux c) True (closing c) (\<not> c_served c \<and> c_sess c = [])
      (c_heap c = []) (idle_on (c_cfg c))"
    using conn_okD(3) [OF assms(1)] True by (simp add: timer_ok_def)
  have "timer_ok ?c"
    using True timer_inv_check [OF t] i by (simp add: timer_ok_def) (simp add: mux_status_def)
  with assms(1) True show ?thesis
    by (simp add: conn_ok_def table_ok_def chans_ok_def exit_ok_def) (simp add: mux_status_def)
qed (use assms(1) in \<open>simp add: mux_status_def\<close>)

lemma processPacket_ok:
  assumes "conn_ok c" "\<not> c_served c" "settled c"
  shows "\<exists>c'. processPacket p c = Some c' \<and> conn_ok c' \<and> \<not> c_served c'"
proof -
  let ?i = "be32 (drop hdrID p)" and ?c = "mux_status p c"
  have ok: "conn_ok ?c" by (rule mux_status_ok [OF assms(1,3)])
  have s: "\<not> c_served ?c" using assms(2) by simp
  have e: "processPacket p c = (case sess_at ?c ?i of
      Some r \<Rightarrow> queue_packet r p ?c
    | None \<Rightarrow> (case (if c_sess ?c = [] then idle_triggered ?c else (False, ?c)) of
          (True, c) \<Rightarrow> Some c
        | (False, c) \<Rightarrow> (case add_session ?i c of
              (r, c) \<Rightarrow> queue_packet r p (c\<lparr>c_handle := c_handle c @ [r]\<rparr>))))"
    unfolding processPacket_def Let_def mux_status_def [symmetric] sess_at_def [symmetric] ..
  show ?thesis
  proof (cases "sess_at ?c ?i")
    case (Some r)
    have "r < length (c_heap ?c)" "s_id (c_heap ?c ! r) = ?i"
      using conn_okD(1) [OF ok] Some unfolding table_ok_def by blast+
    moreover from this have "\<not> s_done (c_heap ?c ! r)"
      using conn_okD(2) [OF ok] s Some by (auto simp: chans_ok_def Let_def)
    ultimately show ?thesis
      using queue_packet_ok [OF ok s, of r p] unfolding e Some by fastforce
  next
    case None
    obtain b c1 where b: "(if c_sess ?c = [] then idle_triggered ?c else (False, ?c)) = (b, c1)"
      by (metis surj_pair)
    show ?thesis
    proof (cases b)
      case True
      have "c_sess ?c = []" using b True by (auto split: if_splits)
      with idle_triggered_cases [OF ok s] b True have "c1 = ?c" by (auto split: if_splits)
      then show ?thesis unfolding e None b using True ok s by simp
    next
      case False
      obtain r c2 where c2: "add_session ?i c1 = (r, c2)" by (metis surj_pair)
      note n = stop_and_add [OF ok s None b [unfolded False [THEN eq_False [THEN iffD2]]] c2]
      let ?d = "c2\<lparr>c_handle := c_handle c2 @ [r]\<rparr>"
      have d: "conn_ok ?d" "\<not> c_served ?d" "r < length (c_heap ?d)" "\<not> s_done (c_heap ?d ! r)"
        using n by simp_all
      obtain c' where "queue_packet r p ?d = Some c'" "conn_ok c'" "\<not> c_served c'"
        by (rule queue_packet_ok [OF d])
      then show ?thesis unfolding e None b using False c2 by simp
    qed
  qed
qed

lemma newSession_ok:
  assumes "conn_ok c" "\<not> c_served c"
  shows "conn_ok (snd (newSession i c)) \<and> \<not> c_served (snd (newSession i c))"
proof -
  obtain b c1 where b: "(if c_sess c = [] then idle_triggered c else (False, c)) = (b, c1)"
    by (metis surj_pair)
  show ?thesis
  proof (cases "(\<not> c_mux c \<and> c_sess c \<noteq> []) \<or> sess_at c i \<noteq> None")
    case True
    then show ?thesis using assms by (auto simp: newSession_def sess_at_def)
  next
    case False
    then have f: "\<not> (\<not> c_mux c \<and> c_sess c \<noteq> [])" "sess_at c i = None" by auto
    show ?thesis
    proof (cases b)
      case True
      have "c_sess c = []" using b True by (auto split: if_splits)
      with idle_triggered_cases [OF assms] b True have "c1 = c" by (auto split: if_splits)
      with True f b assms show ?thesis by (simp add: newSession_def sess_at_def)
    next
      case False
      obtain r c2 where c2: "add_session i c1 = (r, c2)" by (metis surj_pair)
      note n = stop_and_add [OF assms f(2) b [unfolded False [THEN eq_False [THEN iffD2]]] c2]
      with False f b c2 show ?thesis by (auto simp: newSession_def sess_at_def)
    qed
  qed
qed

lemma close_all_ok:
  "distinct rs \<Longrightarrow>
   (\<And>r. r \<in> set rs \<Longrightarrow> r < length (c_heap c) \<and> \<not> s_done (c_heap c ! r) \<and> \<not> s_in_closed (c_heap c ! r)) \<Longrightarrow>
   \<exists>hp. close_all rs c = Some (c\<lparr>c_heap := hp\<rparr>) \<and> length hp = length (c_heap c) \<and>
     (\<forall>q<length hp. hp ! q = (if q \<in> set rs then (c_heap c ! q)\<lparr>s_done := True, s_in_closed := True\<rparr>
                            else c_heap c ! q))"
proof (induction rs arbitrary: c)
  case (Cons r rs)
  let ?c = "upd_session r (\<lambda>s. s\<lparr>s_done := True, s_in_closed := True\<rparr>) c"
  have h: "r < length (c_heap c)" "\<not> s_done (c_heap c ! r)" "\<not> s_in_closed (c_heap c ! r)"
    using Cons.prems(2) [of r] by auto
  have "\<exists>hp. close_all rs ?c = Some (?c\<lparr>c_heap := hp\<rparr>) \<and> length hp = length (c_heap ?c) \<and>
     (\<forall>q<length hp. hp ! q = (if q \<in> set rs then (c_heap ?c ! q)\<lparr>s_done := True, s_in_closed := True\<rparr>
                            else c_heap ?c ! q))"
    by (rule Cons.IH) (use Cons.prems in \<open>auto simp: upd_session_nth\<close>)
  then obtain hp where "close_all rs ?c = Some (?c\<lparr>c_heap := hp\<rparr>)" "length hp = length (c_heap ?c)"
     "\<And>q. q < length hp \<Longrightarrow> hp ! q = (if q \<in> set rs then (c_heap ?c ! q)\<lparr>s_done := True, s_in_closed := True\<rparr>
                            else c_heap ?c ! q)" by blast
  moreover have "?c\<lparr>c_heap := hp\<rparr> = c\<lparr>c_heap := hp\<rparr>" by (simp add: upd_session_def)
  ultimately show ?case
    using close_channels_open [OF h(2,3)] h(1) Cons.prems(1)
    by (intro exI [of _ hp]) (auto simp: upd_session_nth)
next
  case Nil
  show ?case by (rule exI [of _ "c_heap c"]) simp
qed

lemma table_refs_distinct:
  assumes "table_ok c"
  shows "distinct (map snd (c_sess c))"
proof -
  have "s_id (c_heap c ! r) = i" if "(i, r) \<in> set (c_sess c)" for i r
    using assms that by (auto simp: table_ok_def sess_at_def)
  then have "map fst (c_sess c) = map (\<lambda>r. s_id (c_heap c ! r)) (map snd (c_sess c))"
    by (auto intro!: map_cong simp: comp_def split: prod.splits)
  then show ?thesis
    using assms unfolding table_ok_def by (metis distinct_map)
qed

lemma table_refs:
  assumes "conn_ok c" "\<not> c_served c"
  shows "r \<in> set (map snd (c_sess c)) \<longleftrightarrow> r < length (c_heap c) \<and> \<not> s_done (c_heap c ! r)"
proof -
  have d: "distinct (map fst (c_sess c))" using conn_okD(1) [OF assms(1)] by (simp add: table_ok_def)
  have "r \<in> set (map snd (c_sess c)) \<longleftrightarrow> (\<exists>i. sess_at c i = Some r)"
    using d by (force simp: sess_at_def)
  also have "\<dots> \<longleftrightarrow> r < length (c_heap c) \<and> sess_at c (s_id (c_heap c ! r)) = Some r"
    using conn_okD(1) [OF assms(1)] unfolding table_ok_def by blast
  also have "\<dots> \<longleftrightarrow> r < length (c_heap c) \<and> \<not> s_done (c_heap c ! r)"
    using conn_okD(2) [OF assms(1)] assms(2) unfolding chans_ok_def Let_def by blast
  finally show ?thesis .
qed

definition after_cleanup :: "session list \<Rightarrow> conn \<Rightarrow> conn" where
  "after_cleanup hp c =
     (conn_close c)\<lparr>c_heap := hp, c_ncClosed := True, c_served := True,
        c_idleT := map_option (\<lambda>t. snd (timer_Stop t)) (c_idleT c)\<rparr>"

lemma conn_close_simps [simp]:
  "c_sess (conn_close c) = c_sess c" "c_heap (conn_close c) = c_heap c"
  "c_idleT (conn_close c) = c_idleT c" "c_done (conn_close c)" "c_mux (conn_close c) = c_mux c"
  "c_checkMux (conn_close c) = c_checkMux c" "c_cfg (conn_close c) = c_cfg c"
  "c_served (conn_close c) = c_served c" "sess_at (conn_close c) = sess_at c"
  by (simp_all add: conn_close_def sess_at_def fun_eq_iff)

lemma serve_exit_eq:
  assumes "conn_ok c" "\<not> c_served c"
  shows "\<exists>hp. serve_exit c = Some (after_cleanup hp c) \<and> length hp = length (c_heap c) \<and>
    (\<forall>q<length hp. s_done (hp ! q) \<and> s_in_closed (hp ! q) \<and> s_id (hp ! q) = s_id (c_heap c ! q) \<and>
       s_in (hp ! q) = s_in (c_heap c ! q))"
proof -
  let ?c = "conn_close c" and ?rs = "map snd (c_sess c)"
  have ch: "\<forall>r<length (c_heap c). s_in_closed (c_heap c ! r) = s_done (c_heap c ! r)"
    using conn_okD(2) [OF assms(1)] by (simp add: chans_ok_def Let_def)
  have "\<exists>hp. close_all ?rs ?c = Some (?c\<lparr>c_heap := hp\<rparr>) \<and> length hp = length (c_heap ?c) \<and>
     (\<forall>q<length hp. hp ! q = (if q \<in> set ?rs then (c_heap ?c ! q)\<lparr>s_done := True, s_in_closed := True\<rparr>
                            else c_heap ?c ! q))"
  proof (rule close_all_ok)
    show "distinct ?rs" by (rule table_refs_distinct [OF conn_okD(1) [OF assms(1)]])
    fix r assume "r \<in> set ?rs"
    then show "r < length (c_heap ?c) \<and> \<not> s_done (c_heap ?c ! r) \<and> \<not> s_in_closed (c_heap ?c ! r)"
      using table_refs [OF assms, of r] ch by simp
  qed
  then obtain hp where hp: "close_all ?rs ?c = Some (?c\<lparr>c_heap := hp\<rparr>)" "length hp = length (c_heap c)"
     "\<And>q. q < length hp \<Longrightarrow> hp ! q = (if q \<in> set ?rs then (c_heap c ! q)\<lparr>s_done := True, s_in_closed := True\<rparr>
                            else c_heap c ! q)"
    unfolding conn_close_simps by blast
  have "s_done (hp ! q) \<and> s_in_closed (hp ! q) \<and> s_id (hp ! q) = s_id (c_heap c ! q) \<and>
      s_in (hp ! q) = s_in (c_heap c ! q)" if "q < length hp" for q
    using hp(3) [OF that] table_refs [OF assms, of q] ch that hp(2) by (cases "q \<in> set ?rs") auto
  moreover have "serve_exit c = Some (after_cleanup hp c)"
    using hp(1) by (cases "c_idleT c")
      (simp_all add: serve_exit_def cleanup_def after_cleanup_def Let_def)
  ultimately show ?thesis using hp(2) by blast
qed

lemma timer_inv_exit:
  assumes "timer_inv t m k d i f on"
  shows "timer_inv (map_option (\<lambda>t. snd (timer_Stop t)) t) m k True False f' on"
proof -
  have "map_option (\<lambda>t. snd (timer_Stop t)) t \<noteq> None \<longleftrightarrow> t \<noteq> None" by simp
  with assms show ?thesis unfolding timer_inv_def by blast
qed

lemma serve_exit_ok:
  assumes "conn_ok c" "\<not> c_served c"
  shows "\<exists>c'. serve_exit c = Some c' \<and> conn_ok c' \<and> c_served c'"
proof -
  obtain hp where e: "serve_exit c = Some (after_cleanup hp c)" and l: "length hp = length (c_heap c)"
    and hp: "\<And>q. q < length hp \<Longrightarrow> s_done (hp ! q) \<and> s_in_closed (hp ! q) \<and>
       s_id (hp ! q) = s_id (c_heap c ! q) \<and> s_in (hp ! q) = s_in (c_heap c ! q)"
    using serve_exit_eq [OF assms] by blast
  let ?c = "after_cleanup hp c"
  have sel: "c_heap ?c = hp" "c_served ?c" "c_sess ?c = c_sess c" "c_mux ?c = c_mux c"
      "c_checkMux ?c = c_checkMux c" "c_done ?c" "c_ncClosed ?c" "c_cfg ?c = c_cfg c"
      "closing ?c" "c_idleT ?c = map_option (\<lambda>t. snd (timer_Stop t)) (c_idleT c)" "sess_at ?c = sess_at c"
    by (simp_all add: after_cleanup_def sess_at_def fun_eq_iff closing_def)
  have "table_ok ?c"
    using conn_okD(1) [OF assms(1)] hp l by (auto simp: table_ok_def sel)
  moreover have "chans_ok ?c"
    using conn_okD(2) [OF assms(1)] hp l by (simp add: chans_ok_def sel Let_def)
  moreover have "timer_ok ?c"
    unfolding timer_ok_def sel
    using timer_inv_exit [OF conn_okD(3) [OF assms(1), unfolded timer_ok_def]] sel(2,9) by simp
  moreover have "exit_ok ?c" using sel by (simp add: exit_ok_def)
  ultimately show ?thesis using e sel(2) by (simp add: conn_ok_def)
qed

lemma after_event_ok:
  assumes "conn_ok c" "\<not> c_served c"
  shows "\<exists>c'. after_event c = Some c' \<and> conn_ok c' \<and> settled c'"
proof (cases "c_sess c = [] \<and> \<not> c_mux c")
  case True
  with serve_exit_ok [OF assms] show ?thesis by (auto simp: after_event_def settled_def)
qed (use assms in \<open>auto simp: after_event_def settled_def\<close>)

lemma serve_ok:
  assumes "conn_ok c" "settled c" "\<not> c_served c" "ready c e"
  shows "\<exists>c'. serve e c = Some c' \<and> conn_ok c' \<and> settled c'"
proof (cases e)
  case (EPacket p)
  obtain c1 where "processPacket p c = Some c1" "conn_ok c1" "\<not> c_served c1"
    using processPacket_ok [OF assms(1,3,2)] by blast
  with after_event_ok [of c1] EPacket show ?thesis by simp
next
  case (ESessClose r)
  with assms(4) have "r < length (c_heap c)" by simp
  then obtain c1 where "closeSession r c = Some c1" "conn_ok c1" "\<not> c_served c1"
    by (rule closeSession_ok [OF assms(1,3)])
  with after_event_ok [of c1] ESessClose show ?thesis by simp
next
  case (ESessReq i)
  with newSession_ok [OF assms(1,3), of i] after_event_ok show ?thesis by simp
next
  case EDone
  obtain c1 where "serve_exit c = Some c1" "conn_ok c1" "c_served c1"
    using serve_exit_ok [OF assms(1,3)] by blast
  with EDone show ?thesis by (simp add: settled_def)
qed

lemma settled_irrelevant [simp]:
  "settled (upd_session r f c) = settled c" "settled (c\<lparr>c_err := e\<rparr>) = settled c"
  "settled (conn_close c) = settled c" "settled (c\<lparr>c_idleT := t\<rparr>) = settled c"
  by (simp_all add: settled_def)

lemma timer_inv_fire:
  "timer_inv (Some TRunning) m k d i f on \<Longrightarrow> timer_inv (Some TFired) m k True i f on"
  unfolding timer_inv_def by blast

lemma timer_fire_simps [simp]:
  "c_sess (timer_fire c) = c_sess c" "c_heap (timer_fire c) = c_heap c"
  "c_idleT (timer_fire c) = Some TFired" "c_mux (timer_fire c) = c_mux c"
  "c_checkMux (timer_fire c) = c_checkMux c" "c_cfg (timer_fire c) = c_cfg c"
  "c_served (timer_fire c) = c_served c" "sess_at (timer_fire c) = sess_at c"
  "c_done (timer_fire c) = c_done c" "c_ncClosed (timer_fire c) = c_ncClosed c"
  "settled (timer_fire c) = settled c" "settled (run_closer c) = settled c"
  by (simp_all add: timer_fire_def run_closer_def sess_at_def fun_eq_iff settled_def)

lemma timer_fire_ok:
  assumes "conn_ok c" "c_idleT c = Some TRunning"
  shows "conn_ok (timer_fire c)"
proof -
  have "timer_ok (timer_fire c)"
    using timer_inv_fire [OF conn_okD(3) [OF assms(1), unfolded timer_ok_def assms(2)]]
    by (simp add: timer_ok_def)
  with conn_okD [OF assms(1)] show ?thesis
    by (simp add: conn_ok_def table_ok_def chans_ok_def exit_ok_def)
qed

lemma run_closer_simps [simp]:
  "c_sess (run_closer c) = c_sess c" "c_heap (run_closer c) = c_heap c"
  "c_idleT (run_closer c) = c_idleT c" "c_mux (run_closer c) = c_mux c"
  "c_checkMux (run_closer c) = c_checkMux c" "c_cfg (run_closer c) = c_cfg c"
  "c_served (run_closer c) = c_served c" "sess_at (run_closer c) = sess_at c"
  "c_done (run_closer c)" "c_ncClosed (run_closer c) = c_ncClosed c"
  by (simp_all add: run_closer_def conn_close_def sess_at_def fun_eq_iff)

lemma run_closer_ok:
  assumes "conn_ok c"
  shows "conn_ok (run_closer c)"
proof -
  have "timer_ok (run_closer c)"
    using timer_inv_done [OF conn_okD(3) [OF assms, unfolded timer_ok_def]] by (simp add: timer_ok_def)
  with conn_okD [OF assms] show ?thesis
    by (simp add: conn_ok_def table_ok_def chans_ok_def exit_ok_def)
qed

lemma sess_readErr_ok:
  assumes "conn_ok c" "r < length (c_heap c)"
  shows "conn_ok (snd (sess_readErr r c)) \<and> settled (snd (sess_readErr r c)) = settled c"
proof -
  have "snd (sess_readErr r c) \<in> {sess_setErr r errSessionClosed c,
      (sess_setErr r errSessionClosed c)\<lparr>c_err := None\<rparr>}"
    by (auto simp: sess_readErr_def conn_readErr_def Let_def split: option.splits)
  then show ?thesis
    using sess_setErr_ok [OF assms, of errSessionClosed] by (auto simp: sess_setErr_def)
qed

lemma conn_step_ok:
  assumes "conn_step c s" "conn_ok c" "settled c"
  shows "\<exists>c'. s = Some c' \<and> conn_ok c' \<and> settled c'"
  using assms
proof (cases rule: conn_step.cases)
  case (step_serve e)
  with serve_ok assms show ?thesis by simp
next
  case step_timer
  with timer_fire_ok assms show ?thesis by simp
next
  case step_closer
  with run_closer_ok assms show ?thesis by simp
next
  case step_close
  with conn_close_ok assms show ?thesis by simp
next
  case (step_setErr e)
  with assms show ?thesis by (simp add: conn_setErr_def)
next
  case (step_receive r p)
  with assms upd_session_ok [OF assms(2) step_receive(2), of "\<lambda>s. s\<lparr>s_in := []\<rparr>"] show ?thesis by simp
next
  case (step_readErr r)
  with sess_readErr_ok [of c r] assms show ?thesis by simp
next
  case step_takeErr
  with assms show ?thesis by (simp add: conn_readErr_def)
next
  case (step_seq r n)
  have "length (s_in (c_heap c ! r)) \<le> 1"
    using conn_okD(2) [OF assms(2)] step_seq(2) by (simp add: chans_ok_def Let_def)
  with step_seq assms upd_session_ok [OF assms(2) step_seq(2), of "\<lambda>s. s\<lparr>s_seq := n\<rparr>"]
  show ?thesis by simp
qed

lemma newConn_ok: "conn_ok (newConn client cfg) \<and> settled (newConn client cfg)"
  by (simp add: newConn_def conn_ok_def table_ok_def chans_ok_def timer_ok_def timer_inv_def
    exit_ok_def settled_def sess_at_def)

lemma reachable_ok: "reachable client cfg c \<Longrightarrow> conn_ok c \<and> settled c"
proof (induction rule: reachable.induct)
  case reach_new
  show ?case by (rule newConn_ok)
next
  case (reach_step c c')
  with conn_step_ok [OF reach_step(2)] show ?case by blast
qed

subsection \<open>Properties\<close>

definition sample_cfg :: ConnConfig where
  "sample_cfg = \<lparr>cf_Mux = True, cf_LegacyMux = False, cf_Secret = [115], cf_IdleTimeout = 60,
     cf_ReadTimeout = 0, cf_WriteTimeout = 0\<rparr>"

definition mux_packet :: bytes where
  "mux_packet = [0xc0, 1, 1, 4, 0, 0, 0, 7, 0, 0, 0, 0]"

definition sample_conn :: conn where
  "sample_conn = the (serve (EPacket mux_packet) (newConn False sample_cfg))"

lemma sample_conn_eq:
  "serve (EPacket mux_packet) (newConn False sample_cfg) = Some sample_conn"
  "sample_conn = (newConn False sample_cfg)\<lparr>c_mux := True, c_checkMux := False, c_sess := [(7, 0)],
     c_heap := [(new_session 7)\<lparr>s_in := [mux_packet]\<rparr>], c_handle := [0]\<rparr>"
  by (simp_all add: sample_conn_def processPacket_def newConn_def sample_cfg_def mux_packet_def
    hdr_defs be32_def Let_def idle_triggered_def add_session_def queue_packet_def upd_session_def
    after_event_def)

lemma reachable_sample: "reachable False sample_cfg sample_conn"
proof (rule reach_step [OF reach_new])
  have "conn_step (newConn False sample_cfg) (serve (EPacket mux_packet) (newConn False sample_cfg))"
    by (rule step_serve) (simp_all add: newConn_def mux_packet_def hdrLen_def)
  then show "conn_step (newConn False sample_cfg) (Some sample_conn)"
    by (simp only: sample_conn_eq(1))
qed

text \<open>
  C7.  The goroutines of a connection never panic: in no state that any interleaving of them
  can reach does a handler close a closed channel or send on one.
\<close>

theorem conn_never_panics:
  assumes "reachable client cfg c"
  shows "\<not> conn_step c None"
  using conn_step_ok [of c None] reachable_ok [OF assms] by auto

theorem conn_never_panics_witness: "\<not> conn_step sample_conn None"
  by (rule conn_never_panics [OF reachable_sample])

text \<open>
  C8.  A session is open exactly while \<open>serve\<close> runs and the table maps its id to it: both of
  its channels are closed together, once, when it leaves the table or when \<open>serve\<close> returns,
  so no goroutine waits for a session that is gone; its queue holds one packet at most; and
  when \<open>serve\<close> has returned the connection and the network connection are closed.
\<close>

theorem session_open_iff_in_table:
  assumes "reachable client cfg c"
  shows "(\<forall>r<length (c_heap c).
           (s_done (c_heap c ! r) \<longleftrightarrow>
              c_served c \<or> map_of (c_sess c) (s_id (c_heap c ! r)) \<noteq> Some r) \<and>
           s_in_closed (c_heap c ! r) = s_done (c_heap c ! r) \<and> length (s_in (c_heap c ! r)) \<le> 1) \<and>
         (c_served c \<longrightarrow> c_done c \<and> c_ncClosed c)"
  using conn_okD(2,4) [OF conjunct1 [OF reachable_ok [OF assms]]]
  unfolding chans_ok_def exit_ok_def sess_at_def Let_def by blast

theorem session_open_iff_in_table_witness:
  "\<not> s_done (c_heap sample_conn ! 0) \<and> map_of (c_sess sample_conn) 7 = Some 0"
  using session_open_iff_in_table [OF reachable_sample]
  by (simp add: sample_conn_eq(2) newConn_def new_session_def)

text \<open>No step takes back that a connection is closed or about to be.\<close>

definition keeps_closing :: "conn \<Rightarrow> conn \<Rightarrow> bool" where
  "keeps_closing c c' = (closing c \<longrightarrow> closing c')"

lemma keeps_closing_refl [simp]: "keeps_closing c c"
  by (simp add: keeps_closing_def)

lemma keeps_closing_trans: "keeps_closing a b \<Longrightarrow> keeps_closing b c \<Longrightarrow> keeps_closing a c"
  by (simp add: keeps_closing_def)

lemma keeps_closing_simps [simp]:
  "keeps_closing c (conn_close x)" "keeps_closing c (timer_fire x)" "keeps_closing c (run_closer x)"
  "keeps_closing c (upd_session r f x) = keeps_closing c x"
  "keeps_closing c (x\<lparr>c_err := e\<rparr>) = keeps_closing c x"
  "keeps_closing c (x\<lparr>c_idleT := t\<rparr>) = keeps_closing c x"
  "keeps_closing c (x\<lparr>c_ncClosed := b\<rparr>) = keeps_closing c x"
  "keeps_closing c (x\<lparr>c_served := b\<rparr>) = keeps_closing c x"
  "keeps_closing (c\<lparr>c_sess := ss\<rparr>) x = keeps_closing c x"
  "keeps_closing (c\<lparr>c_mux := m\<rparr>) x = keeps_closing c x"
  "keeps_closing (c\<lparr>c_checkMux := m\<rparr>) x = keeps_closing c x"
  "keeps_closing (c\<lparr>c_handle := l\<rparr>) x = keeps_closing c x"
  "keeps_closing (upd_session r f c) x = keeps_closing c x"
  by (simp_all add: keeps_closing_def)

lemma close_channels_closing: "close_channels r c = Some c' \<Longrightarrow> keeps_closing c c'"
  by (auto simp: close_channels_def Let_def split: bind_split_asm)

lemma closeSession_closing: "closeSession r c = Some c' \<Longrightarrow> keeps_closing c c'"
  by (auto simp: closeSession_def Let_def sess_setErr_def split: if_splits bind_split_asm
      dest!: close_channels_closing)

lemma queue_packet_closing: "queue_packet r p c = Some c' \<Longrightarrow> keeps_closing c c'"
  by (auto simp: queue_packet_def Let_def sess_setErr_def split: if_splits dest!: closeSession_closing)

lemma idle_triggered_closing: "idle_triggered c = (b, c') \<Longrightarrow> keeps_closing c c'"
  by (auto simp: idle_triggered_def split: option.splits prod.splits)

lemma add_session_closing: "add_session i c = (r, c') \<Longrightarrow> keeps_closing c c'"
  by (auto simp: add_session_def Let_def keeps_closing_def)

lemma newSession_closing: "keeps_closing c (snd (newSession i c))"
  by (auto simp: newSession_def split: prod.splits if_splits bool.splits
      dest!: idle_triggered_closing add_session_closing intro: keeps_closing_trans)

lemma processPacket_closing: "processPacket p c = Some c' \<Longrightarrow> keeps_closing c c'"
  by (auto simp: processPacket_def Let_def split: prod.splits if_splits bool.splits option.splits
      dest!: idle_triggered_closing add_session_closing queue_packet_closing)
    (auto simp: keeps_closing_def)

lemma close_all_closing: "close_all rs c = Some c' \<Longrightarrow> keeps_closing c c'"
  by (induction rs arbitrary: c) (auto split: bind_split_asm dest!: close_channels_closing
      intro: keeps_closing_trans)

lemma serve_exit_closing: "serve_exit c = Some c' \<Longrightarrow> keeps_closing c c'"
  by (auto simp: serve_exit_def cleanup_def Let_def split: bind_split_asm option.splits
      dest!: close_all_closing intro: keeps_closing_trans [OF keeps_closing_simps(1)])

lemma after_event_closing: "after_event c = Some c' \<Longrightarrow> keeps_closing c c'"
  by (auto simp: after_event_def split: if_splits dest!: serve_exit_closing)

lemma serve_closing: "serve e c = Some c' \<Longrightarrow> keeps_closing c c'"
  by (cases e) (auto split: bind_split_asm dest!: processPacket_closing closeSession_closing
      after_event_closing serve_exit_closing intro: keeps_closing_trans newSession_closing)

lemma closing_step: "conn_step c (Some c') \<Longrightarrow> keeps_closing c c'"
  by (erule conn_stepE) (auto simp: conn_setErr_def conn_readErr_def sess_readErr_def Let_def
      sess_setErr_def split: option.splits dest: serve_closing [OF sym])

text \<open>
  C9.  A connection is not left open without sessions.  When it has had a session and has
  none left and \<open>serve\<close> still runs, it is multiplexed, and with an idle timeout its idle
  timer runs, or has fired and the connection is closed or a goroutine of the timer is about
  to close it; \<open>Stop\<close> reports \<open>already triggered\<close>, so that a packet is dropped or a session
  refused, only in the latter case.  A timer that runs can fire, which starts such a
  goroutine, that goroutine can run, which closes the connection, and no step of any other
  goroutine in between takes it back.
\<close>

theorem idle_connection_closes:
  assumes "reachable client cfg c" "\<not> c_served c" "c_sess c = []"
  shows "(c_heap c \<noteq> [] \<longrightarrow> c_mux c) \<and>
    (c_heap c \<noteq> [] \<and> cf_IdleTimeout (c_cfg c) > 0 \<longrightarrow>
       c_idleT c = Some TRunning \<or> c_idleT c = Some TFired \<and> (c_done c \<or> c_closers c > 0)) \<and>
    (fst (idle_triggered c) \<longrightarrow> c_done c \<or> c_closers c > 0) \<and>
    (c_idleT c = Some TRunning \<longrightarrow>
       conn_step c (Some (timer_fire c)) \<and> c_closers (timer_fire c) > 0) \<and>
    (c_closers c > 0 \<longrightarrow> conn_step c (Some (run_closer c)) \<and> c_done (run_closer c)) \<and>
    (\<forall>c'. (c_done c \<or> c_closers c > 0) \<and> conn_step c (Some c') \<longrightarrow> c_done c' \<or> c_closers c' > 0)"
proof (intro conjI impI allI)
  note ok = conjunct1 [OF reachable_ok [OF assms(1)]]
  have t: "timer_inv (c_idleT c) (c_mux c) (c_checkMux c) (closing c) True (c_heap c = [])
      (idle_on (c_cfg c))"
    using conn_okD(3) [OF ok] assms(2,3) by (simp add: timer_ok_def)
  show mux: "c_mux c" if "c_heap c \<noteq> []"
    using reachable_ok [OF assms(1)] assms(2,3) that by (simp add: settled_def)
  show "c_idleT c = Some TRunning \<or> c_idleT c = Some TFired \<and> (c_done c \<or> c_closers c > 0)"
    if "c_heap c \<noteq> [] \<and> cf_IdleTimeout (c_cfg c) > 0"
    using timer_inv_idle [OF t] mux t that by (auto simp: timer_inv_def idle_on_def closing_def)
  show "c_done c \<or> c_closers c > 0" if "fst (idle_triggered c)"
    by (rule idle_triggered_cases [OF ok assms(2,3)]) (use that in \<open>simp_all add: closing_def\<close>)
  show "conn_step c (Some (timer_fire c))" if "c_idleT c = Some TRunning"
    using that by (rule step_timer)
  show "conn_step c (Some (run_closer c))" if "c_closers c > 0" using that by (rule step_closer)
  show "c_done c' \<or> c_closers c' > 0"
    if "(c_done c \<or> c_closers c > 0) \<and> conn_step c (Some c')" for c'
    using closing_step [of c c'] that by (simp add: keeps_closing_def closing_def)
qed (simp_all add: timer_fire_def run_closer_def)

definition idle_conn :: conn where
  "idle_conn = the (serve (ESessClose 0) sample_conn)"

lemma idle_conn_eq:
  "serve (ESessClose 0) sample_conn = Some idle_conn"
  "idle_conn = sample_conn\<lparr>c_sess := [], c_idleT := Some TRunning,
     c_heap := [(new_session 7)\<lparr>s_in := [mux_packet], s_done := True, s_in_closed := True,
       s_err := Some errSessionClosed\<rparr>]\<rparr>"
  by (simp_all add: idle_conn_def sample_conn_eq(2) closeSession_def close_channels_def
    close_chan_def new_session_def newConn_def sample_cfg_def Let_def sess_setErr_def
    upd_session_def after_event_def)

lemma reachable_idle: "reachable False sample_cfg idle_conn"
proof (rule reach_step [OF reachable_sample])
  have "conn_step sample_conn (serve (ESessClose 0) sample_conn)"
    by (rule step_serve) (simp_all add: sample_conn_eq(2) newConn_def)
  then show "conn_step sample_conn (Some idle_conn)"
    by (simp only: idle_conn_eq(1))
qed

theorem idle_connection_closes_witness: "c_mux idle_conn \<and> c_idleT idle_conn = Some TRunning"
  using idle_connection_closes [OF reachable_idle]
  by (simp add: idle_conn_eq(2) sample_conn_eq(2) newConn_def sample_cfg_def)

lemma upd_session_other:
  "q \<noteq> r \<Longrightarrow> c_heap (upd_session r f c) ! q = c_heap c ! q"
  by (simp add: upd_session_def)

lemma processPacket_eq:
  assumes "be32 (drop hdrID p) = i"
  shows "processPacket p c = (case sess_at (mux_status p c) i of
      Some r \<Rightarrow> queue_packet r p (mux_status p c)
    | None \<Rightarrow> (case (if c_sess (mux_status p c) = [] then idle_triggered (mux_status p c) else (False, mux_status p c)) of
          (True, c) \<Rightarrow> Some c
        | (False, c) \<Rightarrow> (case add_session i c of
              (r, c) \<Rightarrow> queue_packet r p (c\<lparr>c_handle := c_handle c @ [r]\<rparr>))))"
  unfolding processPacket_def Let_def mux_status_def [symmetric] sess_at_def [symmetric] assms ..

text \<open>A packet for a session in the table.\<close>

lemma processPacket_known:
  assumes "conn_ok c" "settled c" "\<not> c_served c" "be32 (drop hdrID p) = i" "sess_at c i = Some r"
  obtains c' where "processPacket p c = Some c'"
    "\<And>q. q < length (c_heap c) \<Longrightarrow> q \<noteq> r \<Longrightarrow> c_heap c' ! q = c_heap c ! q"
    "if s_in (c_heap c ! r) = [] then s_in (c_heap c' ! r) = [p] \<and> c_sess c' = c_sess c \<and> \<not> s_done (c_heap c' ! r)
     else sess_at c' i = None \<and> s_done (c_heap c' ! r) \<and> s_err (c_heap c' ! r) = Some errPacketQueueFull"
proof -
  let ?c = "mux_status p c" and ?d = "start_idle (remove_session r (mux_status p c))"
  have ok: "conn_ok ?c" "\<not> c_served ?c" using mux_status_ok [OF assms(1,2)] assms(3) by simp_all
  have r: "r < length (c_heap c)" "s_id (c_heap c ! r) = i"
    using conn_okD(1) [OF assms(1)] assms(5) unfolding table_ok_def by blast+
  then have o: "\<not> s_done (c_heap c ! r)" "\<not> s_in_closed (c_heap c ! r)"
    using conn_okD(2) [OF assms(1)] assms(3,5) by (auto simp: chans_ok_def Let_def)
  show ?thesis
  proof (cases "s_in (c_heap c ! r) = []")
    case True
    then have "processPacket p c = Some (upd_session r (\<lambda>s. s\<lparr>s_in := [p]\<rparr>) ?c)"
      unfolding processPacket_eq [OF assms(4)] using assms(5) o by (simp add: queue_packet_def)
    then show ?thesis by (rule that) (use True r o in \<open>simp_all add: upd_session_nth\<close>)
  next
    case False
    have pp: "processPacket p c = Some (sess_setErr r errPacketQueueFull ?d)"
      unfolding processPacket_eq [OF assms(4)] using assms(5) o r False closeSession_eq [OF ok, of r]
      by (simp add: queue_packet_def)
    have d: "sess_at ?d i = None" "s_done (c_heap ?d ! r)"
      "\<And>q. q < length (c_heap c) \<Longrightarrow> q \<noteq> r \<Longrightarrow> c_heap ?d ! q = c_heap c ! q"
      using r by (simp_all add: start_idle_def)
    show ?thesis by (rule that [OF pp]) (use r False d in \<open>simp_all add: sess_setErr_def upd_session_nth\<close>)
  qed
qed

text \<open>A packet for no session in the table.\<close>

lemma processPacket_new:
  assumes "conn_ok c" "settled c" "\<not> c_served c" "be32 (drop hdrID p) = i" "sess_at c i = None"
  obtains c' where "processPacket p c = Some c'"
    "if c_sess c = [] \<and> c_idleT c = Some TFired then closing c \<and> c_heap c' = c_heap c \<and> c_sess c' = []
     else c_heap c' = c_heap c @ [(new_session i)\<lparr>s_in := [p]\<rparr>] \<and>
       sess_at c' i = Some (length (c_heap c)) \<and> c_handle c' = c_handle c @ [length (c_heap c)]"
proof -
  let ?c = "mux_status p c" and ?r = "length (c_heap c)"
  have ok: "conn_ok ?c" "\<not> c_served ?c" using mux_status_ok [OF assms(1,2)] assms(3) by simp_all
  have tr: "idle_triggered ?c = (True, ?c) \<and> c_idleT c = Some TFired \<or>
      (\<exists>x. idle_triggered ?c = (False, ?c\<lparr>c_idleT := x\<rparr>)) \<and> c_idleT c \<noteq> Some TFired"
    if "c_sess c = []"
    using idle_triggered_fired [OF ok] that by simp
  show ?thesis
  proof (cases "c_sess c = [] \<and> c_idleT c = Some TFired")
    case True
    then have pp: "processPacket p c = Some ?c" unfolding processPacket_eq [OF assms(4)] using assms(5) tr by simp
    have "closing c"
      using conn_okD(3) [OF assms(1)] True unfolding timer_ok_def timer_inv_def by simp
    then show ?thesis using True by (intro that [OF pp]) simp_all
  next
    case False
    define d where "d = snd (if c_sess ?c = [] then idle_triggered ?c else (False, ?c))"
    have "(if c_sess ?c = [] then idle_triggered ?c else (False, ?c)) = (False, d) \<and>
        c_heap d = c_heap c \<and> c_sess d = c_sess c \<and> c_handle d = c_handle c"
      using False tr by (cases "c_sess c = []") (auto simp: d_def)
    then have d: "(if c_sess ?c = [] then idle_triggered ?c else (False, ?c)) = (False, d)"
        "c_heap d = c_heap c" "c_sess d = c_sess c" "c_handle d = c_handle c" by simp_all
    have "add_session i d = (?r, d\<lparr>c_heap := c_heap c @ [new_session i], c_sess := AList.update i ?r (c_sess c)\<rparr>)"
      by (simp add: add_session_def Let_def d)
    then have "processPacket p c = Some (d\<lparr>c_heap := c_heap c @ [(new_session i)\<lparr>s_in := [p]\<rparr>],
        c_sess := AList.update i ?r (c_sess c), c_handle := c_handle c @ [?r]\<rparr>)"
      unfolding processPacket_eq [OF assms(4)] d(1) using assms(5)
      by (simp add: queue_packet_def upd_session_def d)
    then show ?thesis by (rule that) (use False in \<open>auto simp: sess_at_def update_conv'\<close>)
  qed
qed

text \<open>
  C10.  Where a packet goes.  It is put into the queue of the session with the id in its
  header.  A packet for no known session starts a new one, whose handler goroutine is
  started, unless the connection has no session and its idle timer has fired: then the packet
  is dropped, and the connection is closed or a goroutine of the timer is about to close it.  A packet that finds
  the queue full closes its session with \<open>packet queue full\<close>.  No other session changes.
\<close>

theorem processPacket_routes:
  assumes "reachable client cfg c" "\<not> c_served c" "be32 (drop hdrID p) = i"
  shows "\<exists>c'. processPacket p c = Some c' \<and>
    (\<forall>q<length (c_heap c). map_of (c_sess c) i \<noteq> Some q \<longrightarrow> c_heap c' ! q = c_heap c ! q) \<and>
    (case map_of (c_sess c) i of
       Some r \<Rightarrow>
         (if s_in (c_heap c ! r) = [] then
            s_in (c_heap c' ! r) = [p] \<and> c_sess c' = c_sess c \<and> \<not> s_done (c_heap c' ! r)
          else map_of (c_sess c') i = None \<and> s_done (c_heap c' ! r) \<and>
            s_err (c_heap c' ! r) = Some errPacketQueueFull)
     | None \<Rightarrow>
         (if c_sess c = [] \<and> c_idleT c = Some TFired then
            (c_done c \<or> c_closers c > 0) \<and> c_heap c' = c_heap c \<and> c_sess c' = []
          else c_heap c' = c_heap c @ [(new_session i)\<lparr>s_in := [p]\<rparr>] \<and>
            map_of (c_sess c') i = Some (length (c_heap c)) \<and>
            c_handle c' = c_handle c @ [length (c_heap c)]))"
proof -
  have ok: "conn_ok c" "settled c" using reachable_ok [OF assms(1)] by simp_all
  show ?thesis
  proof (cases "sess_at c i")
    case None
    obtain c' where "processPacket p c = Some c'"
      "if c_sess c = [] \<and> c_idleT c = Some TFired then closing c \<and> c_heap c' = c_heap c \<and> c_sess c' = []
       else c_heap c' = c_heap c @ [(new_session i)\<lparr>s_in := [p]\<rparr>] \<and>
         sess_at c' i = Some (length (c_heap c)) \<and> c_handle c' = c_handle c @ [length (c_heap c)]"
      by (rule processPacket_new [OF ok assms(2,3) None])
    then show ?thesis using None by (auto simp: sess_at_def nth_append closing_def split: if_splits)
  next
    case (Some r)
    then show ?thesis
      by (rule processPacket_known [OF ok assms(2,3)]) (use Some in \<open>auto simp: sess_at_def split: if_splits\<close>)
  qed
qed

theorem processPacket_routes_witness:
  "\<exists>c'. processPacket mux_packet sample_conn = Some c' \<and>
     s_err (c_heap c' ! 0) = Some errPacketQueueFull"
  using processPacket_routes [OF reachable_sample, of mux_packet 7]
  by (auto simp: sample_conn_eq(2) newConn_def new_session_def mux_packet_def be32_def hdr_defs)

end
