(* ===== verification/PacketCodec.thy ===== *)
theory PacketCodec
  imports Packet
begin

text \<open>
  The contract every packet type of \<open>packet.go\<close> keeps between its \<open>marshal\<close> and its
  \<open>unmarshal\<close> method, as the locale \<open>wire_format\<close>, its interpretation for the seven
  packet types, and the properties of the \<open>packet\<close> interface that follow.
\<close>

subsection \<open>The read buffer\<close>

lemma rb_string_exact [simp]:
  "n = length s \<Longrightarrow> rb_string n (bytes_of_string s @ b) = Some (s, b)"
  by (simp add: rb_string_def)

lemma rb_string_0 [simp]: "rb_string 0 b = Some ([], b)"
  by (simp add: rb_string_def string_of_bytes_def)

lemma rb_string_exact_only [simp]:
  "n = length s \<Longrightarrow> rb_string n (bytes_of_string s) = Some (s, [])"
  by (simp add: rb_string_def)

lemma rb_bytes_exact [simp]: "n = length s \<Longrightarrow> rb_bytes n (s @ b) = Some (s, b)"
  by (simp add: rb_bytes_def)

lemma rb_slice_exact [simp]: "n = length s \<Longrightarrow> rb_slice n (s @ b) = Some (s, b)"
  by (simp add: rb_slice_def)

lemma unat_uint8_high [simp]: "n \<le> 65535 \<Longrightarrow> unat (uint8 (drop_bit 8 n)) = n div 256"
  by (simp add: unat_uint8 drop_bit_eq_div)

lemma rb_uint16_appendUint16 [simp]:
  "i \<le> 65535 \<Longrightarrow> rb_uint16 (uint8 (drop_bit 8 i) # uint8 i # b) = Some (i, b)"
  by (simp add: unat_uint8 [of i] push_bit_or_byte)

declare rb_uint16.simps(1) [simp del]

lemma rb_uint16_cons: "rb_uint16 (h # l # b) = Some (256 * unat h + unat l, b)"
  by (simp add: push_bit_or_byte rb_uint16.simps(1))

lemma uint16_value_bound: "256 * unat (h :: byte) + unat (l :: byte) \<le> 65535"
  using unat_byte_le [of h] unat_byte_le [of l] by linarith

lemma rb_uint16_zero [simp]: "rb_uint16 (uint8 0 # uint8 0 # b) = Some (0, b)"
  using rb_uint16_appendUint16 [of 0 b] by simp

lemma rb_args_roundtrip:
  "\<forall>s\<in>set ss. length s \<le> 255 \<Longrightarrow>
   rb_args (map (\<lambda>s. uint8 (length s)) ss) (concat (map bytes_of_string ss) @ b) = Some (Inr ss)"
  by (induction ss) auto

lemma rb_args_total: "\<exists>r. rb_args al b = Some r"
proof (induction al arbitrary: b)
  case (Cons n al)
  show ?case
    using Cons [of "drop (unat n) b"] by (auto simp: rb_string_def)
qed simp

lemma rb_args_bind [simp]: "\<exists>y. Option.bind (rb_args al b) (\<lambda>r. Some (f r)) = Some y"
  using rb_args_total [of al b] by auto

lemma rb_args_result:
  "rb_args al b = Some (Inr ss) \<Longrightarrow> length ss = length al \<and> (\<forall>s\<in>set ss. length s \<le> 255)"
proof (induction al arbitrary: b ss)
  case (Cons n al)
  obtain r where r: "rb_args al (drop (unat n) b) = Some r"
    using rb_args_total by blast
  with Cons.prems obtain ss' where "r = Inr ss'" "ss = string_of_bytes (take (unat n) b) # ss'"
    by (cases r) (auto simp: rb_string_def split: if_splits)
  then show ?case using Cons.IH r by (auto simp: min.coboundedI2)
qed simp

lemmas rb_simps = rb_uint16_cons rb_string_def rb_bytes_def rb_slice_def

subsection \<open>The contract of a packet type\<close>

locale wire_format =
  fixes enc :: "'p \<Rightarrow> bytes \<Rightarrow> bytes \<times> go_error option"
    and dec :: "bytes \<Rightarrow> 'p result option"
  assumes enc_appends: "fst (enc p b) = b @ fst (enc p [])"
    and enc_error: "snd (enc p b) = snd (enc p [])"
    and enc_failed: "snd (enc p []) \<noteq> None \<Longrightarrow> fst (enc p []) = []"
    and dec_enc: "snd (enc p []) = None \<Longrightarrow> dec (fst (enc p []) @ junk) = Some (Inr p)"
    and dec_total: "dec buf \<noteq> None"
    and enc_dec: "dec buf = Some (Inr p) \<Longrightarrow> snd (enc p []) = None"
    and enc_bounded: "length (fst (enc p [])) \<le> 196356"
begin

lemma decode_behind:
  assumes "snd (enc p hdr) = None"
  shows "dec (drop (length hdr) (fst (enc p hdr) @ junk)) = Some (Inr p)"
  using assms dec_enc [of p junk] by (simp add: enc_appends [of p hdr] enc_error [of p hdr])

lemma enc_inj:
  assumes "enc p b = (x, None)" "enc q b = (x, None)"
  shows "p = q"
  using decode_behind [of p b "[]"] decode_behind [of q b "[]"] assms by simp

lemma enc_prefix_free:
  assumes "enc p b = (x, None)" "enc q b = (x @ y, None)"
  shows "p = q"
  using decode_behind [of p b y] decode_behind [of q b "[]"] assms by simp

lemma normalise:
  assumes "dec buf = Some (Inr p)"
  shows "dec (fst (enc p [])) = Some (Inr p)"
  using dec_enc [of p "[]"] enc_dec [OF assms] by simp

lemma enc_length: "length (fst (enc p b)) \<le> length b + 196356"
  using enc_bounded [of p] by (simp add: enc_appends [of p b])

lemma dec_cases:
  obtains p where "dec buf = Some (Inr p)" | e where "dec buf = Some (Inl e)"
  using dec_total [of buf] by (cases "dec buf") (metis sum.exhaust)+

end

lemma sum_list_lengths_le:
  "\<forall>s\<in>set ss. length s \<le> 255 \<Longrightarrow> sum_list (map length ss) \<le> 255 * length ss"
  by (rule sum_list_le_mult) auto

lemma arg_bytes_le:
  "\<not> list_ex (\<lambda>s. 255 < length s) ss \<Longrightarrow> \<not> 255 < length ss \<Longrightarrow>
   sum_list (map length ss) \<le> 65025"
  using sum_list_lengths_le [of ss] by (fastforce simp: list_ex_iff not_less)

lemma length_concat_args [simp]:
  "length (concat (map bytes_of_string ss)) = sum_list (map length ss)"
  by (induction ss) auto

lemma uncons: "(Suc n \<le> length xs) = (\<exists>y ys. xs = y # ys \<and> n \<le> length ys)"
  by (cases xs) auto

lemma header_cases:
  "5 \<le> length xs \<Longrightarrow> \<exists>a b c d e r. xs = a # b # c # d # e # r"
  "6 \<le> length xs \<Longrightarrow> \<exists>a b c d e f r. xs = a # b # c # d # e # f # r"
  "8 \<le> length xs \<Longrightarrow> \<exists>a b c d e f g h r. xs = a # b # c # d # e # f # g # h # r"
  "9 \<le> length xs \<Longrightarrow> \<exists>a b c d e f g h i r. xs = a # b # c # d # e # f # g # h # i # r"
  by (simp_all add: not_less numeral_eq_Suc uncons) blast+

lemma map_sum_Inr [simp]: "(map_sum id f r = Inr y) = (\<exists>x. r = Inr x \<and> f x = y)"
  by (cases r) auto

lemmas flag_defs = AuthenReply_flags_def AuthenContinue_flags_def authenReplyFlagNoEcho_def
  authenContinueFlagAbort_def

lemmas enc_arith = appendUint16_def max_defs flag_defs Let_def

lemmas dec_arith = rb_simps max_defs Let_def not_less list_ex_iff uint16_value_bound min.coboundedI2

lemmas AuthenStart_codec = AuthenStart_marshal_def AuthenStart_unmarshal_def

interpretation wf_start: wire_format AuthenStart_marshal AuthenStart_unmarshal
proof (unfold_locales, goal_cases)
  case (4 p junk)
  then show ?case
    by (cases p)
       (auto simp: AuthenStart_codec enc_arith rb_args_roundtrip not_less list_ex_iff split: if_splits)
next
  case (5 buf)
  show ?case
    by (auto simp: AuthenStart_codec dec_arith dest!: header_cases)
next
  case (6 buf p)
  then show ?case
    by (auto simp: AuthenStart_codec dec_arith bind_eq_Some_conv dest!: header_cases rb_args_result split: if_splits)
next
  case (7 p)
  show ?case by (auto simp: AuthenStart_codec enc_arith dest: arg_bytes_le)
qed (auto simp: AuthenStart_codec enc_arith split: if_splits)

lemmas AuthenReply_codec = AuthenReply_marshal_def AuthenReply_unmarshal_def

interpretation wf_reply: wire_format AuthenReply_marshal AuthenReply_unmarshal
proof (unfold_locales, goal_cases)
  case (4 p junk)
  then show ?case
    by (cases p)
       (auto simp: AuthenReply_codec enc_arith rb_args_roundtrip not_less list_ex_iff split: if_splits)
next
  case (5 buf)
  show ?case
    by (auto simp: AuthenReply_codec dec_arith dest!: header_cases)
next
  case (6 buf p)
  then show ?case
    by (auto simp: AuthenReply_codec dec_arith bind_eq_Some_conv dest!: header_cases rb_args_result split: if_splits)
next
  case (7 p)
  show ?case by (auto simp: AuthenReply_codec enc_arith dest: arg_bytes_le)
qed (auto simp: AuthenReply_codec enc_arith split: if_splits)

lemmas AuthenContinue_codec = AuthenContinue_marshal_def AuthenContinue_unmarshal_def

interpretation wf_cont: wire_format AuthenContinue_marshal AuthenContinue_unmarshal
proof (unfold_locales, goal_cases)
  case (4 p junk)
  then show ?case
    by (cases p)
       (auto simp: AuthenContinue_codec enc_arith rb_args_roundtrip not_less list_ex_iff split: if_splits)
next
  case (5 buf)
  show ?case
    by (auto simp: AuthenContinue_codec dec_arith dest!: header_cases)
next
  case (6 buf p)
  then show ?case
    by (auto simp: AuthenContinue_codec dec_arith bind_eq_Some_conv dest!: header_cases rb_args_result split: if_splits)
next
  case (7 p)
  show ?case by (auto simp: AuthenContinue_codec enc_arith dest: arg_bytes_le)
qed (auto simp: AuthenContinue_codec enc_arith split: if_splits)

lemmas AuthorRequest_codec = AuthorRequest_marshal_def AuthorRequest_unmarshal_def

interpretation wf_authreq: wire_format AuthorRequest_marshal AuthorRequest_unmarshal
proof (unfold_locales, goal_cases)
  case (4 p junk)
  then show ?case
    by (cases p)
       (auto simp: AuthorRequest_codec enc_arith rb_args_roundtrip not_less list_ex_iff split: if_splits)
next
  case (5 buf)
  show ?case
    by (auto simp: AuthorRequest_codec dec_arith dest!: header_cases)
next
  case (6 buf p)
  then show ?case
    by (auto simp: AuthorRequest_codec dec_arith bind_eq_Some_conv dest!: header_cases rb_args_result split: if_splits)
next
  case (7 p)
  show ?case by (auto simp: AuthorRequest_codec enc_arith dest: arg_bytes_le)
qed (auto simp: AuthorRequest_codec enc_arith split: if_splits)

lemmas AuthorResponse_codec = AuthorResponse_marshal_def AuthorResponse_unmarshal_def

interpretation wf_authresp: wire_format AuthorResponse_marshal AuthorResponse_unmarshal
proof (unfold_locales, goal_cases)
  case (4 p junk)
  then show ?case
    by (cases p)
       (auto simp: AuthorResponse_codec enc_arith rb_args_roundtrip not_less list_ex_iff split: if_splits)
next
  case (5 buf)
  show ?case
    by (auto simp: AuthorResponse_codec dec_arith dest!: header_cases)
next
  case (6 buf p)
  then show ?case
    by (auto simp: AuthorResponse_codec dec_arith bind_eq_Some_conv dest!: header_cases rb_args_result split: if_splits)
next
  case (7 p)
  show ?case by (auto simp: AuthorResponse_codec enc_arith dest: arg_bytes_le)
qed (auto simp: AuthorResponse_codec enc_arith split: if_splits)

lemmas AcctRequest_codec = AcctRequest_marshal_def AcctRequest_unmarshal_def

interpretation wf_acctreq: wire_format AcctRequest_marshal AcctRequest_unmarshal
proof (unfold_locales, goal_cases)
  case (4 p junk)
  then show ?case
    by (cases p)
       (auto simp: AcctRequest_codec enc_arith rb_args_roundtrip not_less list_ex_iff split: if_splits)
next
  case (5 buf)
  show ?case
    by (auto simp: AcctRequest_codec dec_arith dest!: header_cases)
next
  case (6 buf p)
  then show ?case
    by (auto simp: AcctRequest_codec dec_arith bind_eq_Some_conv dest!: header_cases rb_args_result split: if_splits)
next
  case (7 p)
  show ?case by (auto simp: AcctRequest_codec enc_arith dest: arg_bytes_le)
qed (auto simp: AcctRequest_codec enc_arith split: if_splits)

lemmas AcctReply_codec = AcctReply_marshal_def AcctReply_unmarshal_def

interpretation wf_acctrep: wire_format AcctReply_marshal AcctReply_unmarshal
proof (unfold_locales, goal_cases)
  case (4 p junk)
  then show ?case
    by (cases p)
       (auto simp: AcctReply_codec enc_arith rb_args_roundtrip not_less list_ex_iff split: if_splits)
next
  case (5 buf)
  show ?case
    by (auto simp: AcctReply_codec dec_arith dest!: header_cases)
next
  case (6 buf p)
  then show ?case
    by (auto simp: AcctReply_codec dec_arith bind_eq_Some_conv dest!: header_cases rb_args_result split: if_splits)
next
  case (7 p)
  show ?case by (auto simp: AcctReply_codec enc_arith dest: arg_bytes_le)
qed (auto simp: AcctReply_codec enc_arith split: if_splits)

subsection \<open>Properties of the \<open>packet\<close> interface\<close>

text \<open>
  C1.  A packet that \<open>marshal\<close> accepts is read back unchanged by \<open>unmarshal\<close> of its type,
  behind any header \<open>hdr\<close> it was appended to and with any trailing bytes after it.
\<close>

theorem packet_roundtrip:
  assumes "snd (marshal p hdr) = None"
  shows "unmarshal (kind_of p) (drop (length hdr) (fst (marshal p hdr) @ junk)) = Some (Inr p)"
  using assms
  by (cases p) (simp_all add: wf_start.decode_behind wf_reply.decode_behind wf_cont.decode_behind
    wf_authreq.decode_behind wf_authresp.decode_behind wf_acctreq.decode_behind
    wf_acctrep.decode_behind del: drop_append)

definition sample_start :: AuthenStart where
  "sample_start = \<lparr>as_Action = AuthenActionLogin, as_PrivLvl = 1, as_AuthenType = 1,
     as_AuthenService = 1, as_User = ''alice'', as_Port = ''tty1'', as_RemAddr = ''10.0.0.9'',
     as_Data = [1, 2]\<rparr>"

theorem packet_roundtrip_witness:
  "unmarshal KAuthenStart
     (drop (length [0, 7 :: byte]) (fst (marshal (PAuthenStart sample_start) [0, 7]) @ [9])) =
   Some (Inr (PAuthenStart sample_start))"
  using packet_roundtrip [of "PAuthenStart sample_start" "[0, 7]" "[9]"]
  by (simp add: AuthenStart_marshal_def sample_start_def max_defs Let_def)

text \<open>
  C2.  \<open>unmarshal\<close> never panics, whatever bytes it is given, and the packet it
  returns is of the requested type, is accepted by \<open>marshal\<close> again (its lengths fit
  their fields), and decodes to itself once marshalled.
\<close>

theorem unmarshal_safe:
  "unmarshal k buf \<noteq> None \<and>
   (\<forall>p. unmarshal k buf = Some (Inr p) \<longrightarrow>
      kind_of p = k \<and> snd (marshal p []) = None \<and>
      unmarshal k (fst (marshal p [])) = Some (Inr p))"
proof (intro conjI allI impI)
  show "unmarshal k buf \<noteq> None"
    by (cases k) (simp_all add: wf_start.dec_total [simplified] wf_reply.dec_total [simplified]
      wf_cont.dec_total [simplified] wf_authreq.dec_total [simplified]
      wf_authresp.dec_total [simplified] wf_acctreq.dec_total [simplified]
      wf_acctrep.dec_total [simplified])
next
  fix p
  assume "unmarshal k buf = Some (Inr p)"
  then show "kind_of p = k" and "snd (marshal p []) = None"
    and "unmarshal k (fst (marshal p [])) = Some (Inr p)"
    by (cases k; auto simp: wf_start.enc_dec wf_reply.enc_dec wf_cont.enc_dec wf_authreq.enc_dec
      wf_authresp.enc_dec wf_acctreq.enc_dec wf_acctrep.enc_dec wf_start.normalise
      wf_reply.normalise wf_cont.normalise wf_authreq.normalise wf_authresp.normalise
      wf_acctreq.normalise wf_acctrep.normalise)+
qed

theorem unmarshal_safe_witness:
  "unmarshal KAcctReply [0, 1, 0, 0, 1, 65, 7] =
     Some (Inr (PAcctReply \<lparr>cr_Status = 1, cr_ServerMsg = ''A'', cr_Data = []\<rparr>)) \<and>
   snd (marshal (PAcctReply \<lparr>cr_Status = 1, cr_ServerMsg = ''A'', cr_Data = []\<rparr>) []) = None"
proof -
  have "unmarshal KAcctReply [0, 1, 0, 0, 1, 65, 7] =
     Some (Inr (PAcctReply \<lparr>cr_Status = 1, cr_ServerMsg = ''A'', cr_Data = []\<rparr>))"
    by code_simp
  then show ?thesis
    using unmarshal_safe [of KAcctReply "[0, 1, 0, 0, 1, 65, 7]"] by blast
qed

text \<open>
  C3.  \<open>maxBodyLen\<close>, the bound \<open>readPacketHeader\<close> puts on the length field of an incoming
  packet, is right: no marshalled body is longer, so every packet the package sends can be
  received, and the bound is attained, by an \<open>AuthorResponse\<close> with every field full.
\<close>

theorem marshal_within_maxBodyLen:
  "length (fst (marshal p b)) \<le> length b + maxBodyLen \<and>
   (\<exists>q. snd (marshal q []) = None \<and> length (fst (marshal q [])) = maxBodyLen)"
proof
  show "length (fst (marshal p b)) \<le> length b + maxBodyLen"
    unfolding maxBodyLen_def
    by (cases p) (simp_all add: wf_start.enc_length wf_reply.enc_length wf_cont.enc_length
      wf_authreq.enc_length wf_authresp.enc_length wf_acctreq.enc_length wf_acctrep.enc_length)
next
  let ?q = "PAuthorResponse \<lparr>ap_Status = AuthorStatusPassAdd,
    ap_Arg = replicate 255 (replicate 255 CHR ''a''), ap_ServerMsg = replicate 65535 CHR ''m'',
    ap_Data = replicate 65535 CHR ''d''\<rparr>"
  have "snd (marshal ?q []) = None \<and> length (fst (marshal ?q [])) = maxBodyLen"
    by (simp add: AuthorResponse_marshal_def enc_arith list_ex_iff sum_list_replicate
      length_concat maxBodyLen_def)
  then show "\<exists>q. snd (marshal q []) = None \<and> length (fst (marshal q [])) = maxBodyLen" ..
qed

end
