(* ===== verification/SessionIO.thy ===== *)
theory SessionIO
  imports Conn PacketCodec
begin

text \<open>
  \<open>session.readPacket\<close>, \<open>session.writePacket\<close> and \<open>session.close\<close> of
  \<open>pkg/public/tacplus/conn.go\<close>, seen from the goroutine that owns the session.  What the
  other goroutines do is an input: \<open>io_in\<close> is what the receive of \<open>readPacket\<close> yields in turn
  (the channel is closed after the last one), \<open>io_w\<close> how the selects of \<open>writePacket\<close> turn out
  (a write succeeds once the list is used up).  \<open>io_out\<close> collects the packets that were
  written to the network.  An action is \<open>None\<close> where the Go code panics.
\<close>

definition errInvalidSeqNo :: go_error where
  "errInvalidSeqNo = GoError ''invalid sequence number''"
definition errSessionNotFound :: go_error where
  "errSessionNotFound = GoError ''session not found or timed out''"

datatype recv = RPacket bytes | RCtx go_error

text \<open>
  \<open>WClosedBefore\<close>: \<open>s.done\<close> is closed when \<open>writePacket\<close> starts; \<open>WClosed\<close>: the second select
  takes \<open>s.done\<close>; \<open>WCtx\<close>: one of the selects takes \<open>ctx.Done()\<close>; \<open>WErr\<close>: the write fails.
\<close>

datatype wres = WOk | WErr go_error | WClosed | WClosedBefore | WCtx go_error

record sess_io =
  io_id :: "32 word"
  io_seq :: byte
  io_parity :: byte
  io_cfg :: ConnConfig
  io_in :: "recv list"
  io_w :: "wres list"
  io_serr :: "go_error option"
  io_cerr :: "go_error option"
  io_out :: "bytes list"
  io_closed :: bool

definition io_readErr :: "sess_io \<Rightarrow> go_error \<times> sess_io" where
  "io_readErr s =
     (case io_serr s of
        Some e \<Rightarrow> (e, s\<lparr>io_serr := Some errSessionClosed\<rparr>)
      | None \<Rightarrow>
          (let s = s\<lparr>io_serr := Some errSessionClosed\<rparr>
           in case io_cerr s of
                Some e \<Rightarrow> (e, s\<lparr>io_cerr := None\<rparr>)
              | None \<Rightarrow> (errSessionClosed, s)))"

definition sess_close :: "sess_io \<Rightarrow> sess_io" where
  "sess_close s = s\<lparr>io_closed := True\<rparr>"

text \<open>The result is the packet (\<open>nil\<close> is \<open>None\<close>) and the error, as in Go.\<close>

definition sess_readPacket ::
  "sess_io \<Rightarrow> ((bytes option \<times> go_error option) \<times> sess_io) option" where
  "sess_readPacket s =
     (case io_in s of
        [] \<Rightarrow> (case io_readErr s of (e, s) \<Rightarrow> Some ((None, Some e), s))
      | RCtx e # r \<Rightarrow> Some ((None, Some e), s\<lparr>io_in := r\<rparr>)
      | RPacket p # r \<Rightarrow>
          (let s = s\<lparr>io_in := r\<rparr>;
               seqno = p ! hdrSeqNo
           in if seqno \<noteq> io_seq s + 1 then
                (if io_seq s = 0 then Some ((Some p, Some errSessionNotFound), s)
                 else Some ((Some p, Some errInvalidSeqNo), s))
              else if seqno AND 1 = io_parity s then Some ((Some p, Some errInvalidSeqNo), s)
              else
                (case crypt p (cf_Secret (io_cfg s)) of
                   None \<Rightarrow> None
                 | Some q \<Rightarrow> Some ((Some q, None), s))))"

text \<open>The packet as it is sent: next sequence number, body length set, body obfuscated.\<close>

definition stamp :: "bytes \<Rightarrow> bytes" where
  "stamp p =
     (let p = p[hdrSeqNo := p ! hdrSeqNo + 1]
      in put_be32 hdrBodyLen (word_of_nat (length p - hdrLen)) p)"

definition seal :: "bytes \<Rightarrow> bytes \<Rightarrow> bytes option" where
  "seal key p = crypt (stamp p) key"

definition sess_writePacket ::
  "bytes \<Rightarrow> sess_io \<Rightarrow> (go_error option \<times> sess_io) option" where
  "sess_writePacket p s =
     (let (w, s) = (case io_w s of [] \<Rightarrow> (WOk, s) | w # ws \<Rightarrow> (w, s\<lparr>io_w := ws\<rparr>))
      in if w = WClosedBefore then (case io_readErr s of (e, s) \<Rightarrow> Some (Some e, s))
         else
           (case seal (cf_Secret (io_cfg s)) p of
              None \<Rightarrow> None
            | Some q \<Rightarrow>
                (let s = s\<lparr>io_seq := p ! hdrSeqNo + 1\<rparr>
                 in case w of
                      WOk \<Rightarrow> Some (None, s\<lparr>io_out := io_out s @ [q]\<rparr>)
                    | WErr e \<Rightarrow> Some (Some e, s)
                    | WCtx e \<Rightarrow> Some (Some e, s)
                    | _ \<Rightarrow> (case io_readErr s of (e, s) \<Rightarrow> Some (Some e, s)))))"

subsection \<open>What \<open>seal\<close> does to a packet\<close>

lemma length_put_be32 [simp]: "length (put_be32 i w p) = length p"
  by (simp add: put_be32_def)

lemma be32_of_bytes:
  fixes w :: "32 word"
  shows "push_bit 24 (ucast (ucast (drop_bit 24 w) :: byte)) OR
     push_bit 16 (ucast (ucast (drop_bit 16 w) :: byte)) OR
     push_bit 8 (ucast (ucast (drop_bit 8 w) :: byte)) OR ucast (ucast w :: byte) = w" (is "?l = w")
proof (rule bit_eqI)
  fix n assume "possible_bit TYPE(32 word) n"
  then have n: "n < 32" by simp
  have "n < 8 \<or> 8 \<le> n \<and> n < 16 \<or> 16 \<le> n \<and> n < 24 \<or> 24 \<le> n" by linarith
  with n show "bit ?l n = bit w n"
    by (elim disjE) (auto simp: bit_simps)
qed

lemma be32_put_be32:
  assumes "i + 4 \<le> length p"
  shows "be32 (drop i (put_be32 i w p)) = w"
proof -
  have n: "drop i (put_be32 i w p) ! k = put_be32 i w p ! (i + k)" for k
    using assms by (simp add: nth_drop)
  have "put_be32 i w p ! (i + 0) = ucast (drop_bit 24 w)"
    "put_be32 i w p ! (i + 1) = ucast (drop_bit 16 w)"
    "put_be32 i w p ! (i + 2) = ucast (drop_bit 8 w)" "put_be32 i w p ! (i + 3) = ucast w"
    using assms by (simp_all add: put_be32_def)
  then show ?thesis unfolding be32_def n by (simp only: be32_of_bytes)
qed

lemma length_stamp [simp]: "length (stamp p) = length p"
  by (simp add: stamp_def Let_def)

lemma stamp_nth:
  "12 \<le> length p \<Longrightarrow> i < 8 \<Longrightarrow> stamp p ! i = (if i = 2 then p ! 2 + 1 else p ! i)"
  by (simp add: stamp_def put_be32_def hdr_defs Let_def)

lemma stamp_body: "drop 12 (stamp p) = drop 12 p"
  by (simp add: stamp_def put_be32_def hdr_defs Let_def)

lemma stamp_length: "12 \<le> length p \<Longrightarrow> be32 (drop 8 (stamp p)) = word_of_nat (length p - 12)"
  by (simp add: stamp_def be32_put_be32 hdr_defs Let_def)

lemma stamp_id: "12 \<le> length p \<Longrightarrow> take 4 (drop 4 (stamp p)) = take 4 (drop 4 p)"
  by (rule nth_equalityI) (auto simp: stamp_nth)

lemma seal_total: "12 \<le> length p \<Longrightarrow> \<exists>q. seal key p = Some q"
  unfolding seal_def by (rule tac.cipher_total) simp

lemma seal_result:
  assumes "seal key p = Some q"
  shows "12 \<le> length p" "length q = length p" "crypt q key = Some (stamp p)"
    "\<And>i. i < 8 \<Longrightarrow> q ! i = (if i = 2 then p ! 2 + 1 else p ! i)"
    "be32 (drop 8 q) = word_of_nat (length p - 12)"
proof -
  note c = assms [unfolded seal_def]
  note k = tac.cipher_keeps [OF c]
  show l: "12 \<le> length p" and "length q = length p" using k by simp_all
  show "crypt q key = Some (stamp p)" by (rule tac.cipher_involutive [OF c])
  show "q ! i = (if i = 2 then p ! 2 + 1 else p ! i)" if "i < 8" for i
    using tac.cipher_header [OF c, of i] that l by (simp add: stamp_nth)
  have "be32 (drop 8 q) = be32 (drop 8 (stamp p))"
    using tac.cipher_header [OF c] l k by (simp add: be32_def)
  with l show "be32 (drop 8 q) = word_of_nat (length p - 12)" by (simp add: stamp_length)
qed

text \<open>
  C11.  What one end of a session writes the other end reads: when \<open>writePacket\<close> succeeds on
  \<open>p\<close>, a peer with the same secret whose last sequence number is that of \<open>p\<close>, and whose
  parity differs from that of the new number, reads a packet with the same body, type, flags
  and session id, the next sequence number and the right length.
\<close>

theorem session_write_read:
  assumes "sess_writePacket p s = Some (None, s')"
    and "io_in r = RPacket (last (io_out s')) # rest"
    and "io_seq r = p ! hdrSeqNo" "io_parity r \<noteq> (p ! hdrSeqNo + 1) AND 1"
    and "cf_Secret (io_cfg r) = cf_Secret (io_cfg s)"
  shows "\<exists>q r'. sess_readPacket r = Some ((Some q, None), r') \<and> io_in r' = rest \<and>
    drop hdrLen q = drop hdrLen p \<and> length q = length p \<and>
    q ! hdrVer = p ! hdrVer \<and> q ! hdrType = p ! hdrType \<and> q ! hdrFlags = p ! hdrFlags \<and>
    q ! hdrSeqNo = p ! hdrSeqNo + 1 \<and> take 4 (drop hdrID q) = take 4 (drop hdrID p) \<and>
    be32 (drop hdrBodyLen q) = word_of_nat (length p - hdrLen) \<and> io_seq s' = q ! hdrSeqNo"
proof -
  obtain w where q: "seal (cf_Secret (io_cfg s)) p = Some w" "last (io_out s') = w"
      "io_seq s' = p ! hdrSeqNo + 1"
    using assms(1) by (auto simp: sess_writePacket_def io_readErr_def Let_def
      split: list.splits wres.splits option.splits if_splits)
  note r = seal_result [OF q(1)]
  have "sess_readPacket r = Some ((Some (stamp p), None), r\<lparr>io_in := rest\<rparr>)"
    using assms(2-5) r(3) r(4) [of 2] by (simp add: sess_readPacket_def q(2) Let_def hdr_defs)
  moreover have "stamp p ! 0 = p ! 0" "stamp p ! 1 = p ! 1" "stamp p ! 3 = p ! 3" "stamp p ! 2 = p ! 2 + 1"
    using r(1) by (simp_all add: stamp_nth)
  ultimately show ?thesis
    using q(3) r(1) by (simp add: hdr_defs stamp_body stamp_length stamp_id)
qed

definition sample_io :: "byte \<Rightarrow> byte \<Rightarrow> sess_io" where
  "sample_io parity seq = \<lparr>io_id = 7, io_seq = seq, io_parity = parity, io_cfg = sample_cfg, io_in = [],
     io_w = [], io_serr = None, io_cerr = None, io_out = [], io_closed = False\<rparr>"

lemma write_ok:
  assumes "io_w s = []" "seal (cf_Secret (io_cfg s)) p = Some q"
  shows "sess_writePacket p s =
    Some (None, s\<lparr>io_seq := p ! hdrSeqNo + 1, io_out := io_out s @ [q]\<rparr>)"
  using assms by (simp add: sess_writePacket_def Let_def)

theorem session_write_read_witness:
  "\<exists>s' q r'. sess_writePacket [0xc0, 1, 0, 4, 0, 0, 0, 7, 0, 0, 0, 0, 65] (sample_io 1 0) = Some (None, s') \<and>
     sess_readPacket (sample_io 0 0\<lparr>io_in := [RPacket (last (io_out s'))]\<rparr>) = Some ((Some q, None), r') \<and>
     q ! hdrSeqNo = 1 \<and> drop 12 q = [65]"
proof -
  let ?p = "[0xc0, 1, 0, 4, 0, 0, 0, 7, 0, 0, 0, 0, 65] :: bytes" and ?s = "sample_io 1 0"
  obtain q where "seal (cf_Secret (io_cfg ?s)) ?p = Some q" using seal_total [of ?p] by auto
  then have w: "sess_writePacket ?p ?s = Some (None, ?s\<lparr>io_seq := 1, io_out := [q]\<rparr>)"
    by (subst write_ok) (simp_all add: sample_io_def hdr_defs)
  show ?thesis
    using session_write_read [OF w, of "sample_io 0 0\<lparr>io_in := [RPacket q]\<rparr>" "[]"] w
    by (auto simp: sample_io_def hdr_defs)
qed

end
