(* ===== verification/ServerSession.thy ===== *)
theory ServerSession
  imports SessionIO
begin

text \<open>
  The server side of \<open>pkg/public/tacplus/server.go\<close>: \<open>ServerSession\<close> with its prompts, the
  three request dispatchers and \<open>serveSession\<close>.  An action takes and returns the state of the
  session; its result is \<open>None\<close> when it panics, with the state the panic leaves, because
  \<open>serveSession\<close> recovers and still runs its deferred \<open>close\<close>.  The log output is left out.
\<close>

subsection \<open>Actions of one end of a session\<close>

text \<open>\<open>ServerSession\<close> and \<open>ClientSession\<close>: the session and the current raw packet.\<close>

record end_session =
  es_io :: sess_io
  es_p :: "bytes option"

type_synonym 'a act = "end_session \<Rightarrow> 'a option \<times> end_session"

definition act_return :: "'a \<Rightarrow> 'a act" where
  "act_return x s = (Some x, s)"

definition act_bind :: "'a act \<Rightarrow> ('a \<Rightarrow> 'b act) \<Rightarrow> 'b act" where
  "act_bind m f s = (case m s of (None, s) \<Rightarrow> (None, s) | (Some x, s) \<Rightarrow> f x s)"

definition act_panic :: "'a act" where
  "act_panic s = (None, s)"

definition set_p :: "bytes option \<Rightarrow> unit act" where
  "set_p p s = (Some (), s\<lparr>es_p := p\<rparr>)"

definition get_p :: "bytes option act" where
  "get_p s = (Some (es_p s), s)"

text \<open>\<open>s.p\<close> where the code slices it at \<open>hdrLen\<close>: a panic when it is \<open>nil\<close> or too short.\<close>

definition sliced_p :: "bytes act" where
  "sliced_p s =
     (case es_p s of
        None \<Rightarrow> (None, s)
      | Some p \<Rightarrow> if length p < hdrLen then (None, s) else (Some p, s))"

definition act_read :: "(bytes option \<times> go_error option) act" where
  "act_read s =
     (case sess_readPacket (es_io s) of
        None \<Rightarrow> (None, s)
      | Some (r, io) \<Rightarrow> (Some r, s\<lparr>es_io := io\<rparr>))"

definition act_write :: "bytes \<Rightarrow> go_error option act" where
  "act_write p s =
     (case sess_writePacket p (es_io s) of
        None \<Rightarrow> (None, s)
      | Some (r, io) \<Rightarrow> (Some r, s\<lparr>es_io := io\<rparr>))"

lemmas act_defs = act_return_def act_bind_def act_panic_def set_p_def get_p_def sliced_p_def

subsection \<open>\<open>ServerSession\<close>\<close>

definition ss_close :: "unit act" where
  "ss_close s = (Some (), s\<lparr>es_p := None, es_io := sess_close (es_io s)\<rparr>)"

definition ss_writePacket :: "bytes \<Rightarrow> go_error option act" where
  "ss_writePacket p s =
     (let p = (if p ! hdrSeqNo = 1 then
                 (if cf_Mux (io_cfg (es_io s)) \<or> cf_LegacyMux (io_cfg (es_io s))
                  then p[hdrFlags := p ! hdrFlags AND hdrFlagSingleConnect]
                  else p[hdrFlags := 0])
               else p)
      in act_write p s)"

text \<open>The message of an error reply is cut to the largest length that \<open>marshal\<close> accepts.\<close>

definition error_reply :: "bytes \<Rightarrow> go_error \<Rightarrow> bytes" where
  "error_reply p e =
     (let msg = (if length (err_msg e) > maxUint16 then take maxUint16 (err_msg e) else err_msg e);
          t = p ! hdrType
      in if t = sessTypeAuthen then
           fst (AuthenReply_marshal \<lparr>ar_Status = AuthenStatusError, ar_NoEcho = False,
                  ar_ServerMsg = msg, ar_Data = []\<rparr> p)
         else if t = sessTypeAuthor then
           fst (AuthorResponse_marshal \<lparr>ap_Status = AuthorStatusError, ap_Arg = [],
                  ap_ServerMsg = msg, ap_Data = []\<rparr> p)
         else if t = sessTypeAcct then
           fst (AcctReply_marshal \<lparr>cr_Status = AcctStatusError, cr_ServerMsg = msg, cr_Data = []\<rparr> p)
         else p)"

definition sendError :: "go_error \<Rightarrow> unit act" where
  "sendError e =
     act_bind get_p (\<lambda>p.
       if p = None then act_return ()
       else
         act_bind sliced_p (\<lambda>p.
         act_bind (ss_writePacket (error_reply (take hdrLen p) e)) (\<lambda>_.
         ss_close)))"

definition sendReply :: "AuthenReply \<Rightarrow> AuthenContinue result act" where
  "sendReply r =
     act_bind get_p (\<lambda>p.
       if p = None then act_return (Inl errSessionClosed)
       else
         act_bind sliced_p (\<lambda>p.
         case AuthenReply_marshal r (take hdrLen p) of
           (_, Some err) \<Rightarrow> act_return (Inl err)
         | (p, None) \<Rightarrow>
             act_bind (ss_writePacket p) (\<lambda>err.
             case err of
               Some err \<Rightarrow> act_bind ss_close (\<lambda>_. act_return (Inl err))
             | None \<Rightarrow>
                 act_bind act_read (\<lambda>(p, err).
                 act_bind (set_p p) (\<lambda>_.
                 case err of
                   Some err \<Rightarrow> act_bind (sendError err) (\<lambda>_. act_return (Inl err))
                 | None \<Rightarrow>
                     act_bind sliced_p (\<lambda>p.
                     case AuthenContinue_unmarshal (drop hdrLen p) of
                       None \<Rightarrow> act_panic
                     | Some (Inl err) \<Rightarrow> act_bind (sendError err) (\<lambda>_. act_return (Inl err))
                     | Some (Inr c) \<Rightarrow> act_return (Inr c)))))))"

definition GetData :: "string \<Rightarrow> bool \<Rightarrow> AuthenContinue result act" where
  "GetData message noEcho =
     sendReply \<lparr>ar_Status = AuthenStatusGetData, ar_NoEcho = noEcho, ar_ServerMsg = message, ar_Data = []\<rparr>"

definition GetUser :: "string \<Rightarrow> AuthenContinue result act" where
  "GetUser message =
     sendReply \<lparr>ar_Status = AuthenStatusGetUser, ar_NoEcho = False, ar_ServerMsg = message, ar_Data = []\<rparr>"

definition GetPass :: "string \<Rightarrow> AuthenContinue result act" where
  "GetPass message =
     sendReply \<lparr>ar_Status = AuthenStatusGetPass, ar_NoEcho = True, ar_ServerMsg = message, ar_Data = []\<rparr>"

definition IsSingleConnect :: "end_session \<Rightarrow> bool" where
  "IsSingleConnect s =
     (case es_p s of
        None \<Rightarrow> False
      | Some p \<Rightarrow> if length p < hdrLen then False else p ! hdrFlags AND hdrFlagSingleConnect \<noteq> 0)"

subsection \<open>The request dispatchers\<close>

text \<open>The \<open>RequestHandler\<close> interface; a \<open>nil\<close> reply is \<open>None\<close>.\<close>

record request_handler =
  HandleAuthenStart :: "AuthenStart \<Rightarrow> AuthenReply option act"
  HandleAuthorRequest :: "AuthorRequest \<Rightarrow> AuthorResponse option act"
  HandleAcctRequest :: "AcctRequest \<Rightarrow> AcctReply option act"

definition wrap_err :: "string \<Rightarrow> go_error \<Rightarrow> go_error" where
  "wrap_err pre e = GoError (pre @ err_msg e)"

definition minor_version_error :: "string \<Rightarrow> byte \<Rightarrow> go_error" where
  "minor_version_error what v =
     GoError (''unsupported '' @ what @ '' minor version '' @ dec_digits (unat (v AND 0xf)))"

text \<open>
  The part the three dispatchers share: decode the body, check the version, call the handler,
  marshal its reply behind the header of the request.  They return \<open>s.p\<close> and the error.
\<close>

definition dispatch ::
  "(bytes \<Rightarrow> 'q result option) \<Rightarrow> ('q \<Rightarrow> byte) \<Rightarrow> string \<Rightarrow> ('q \<Rightarrow> 'r option act) \<Rightarrow>
   ('r \<Rightarrow> bytes \<Rightarrow> bytes \<times> go_error option) \<Rightarrow> string \<Rightarrow> (bytes option \<times> go_error option) act" where
  "dispatch dec ver what handle enc bad =
     act_bind sliced_p (\<lambda>p.
     case dec (drop hdrLen p) of
       None \<Rightarrow> act_panic
     | Some (Inl err) \<Rightarrow> act_return (Some p, Some err)
     | Some (Inr q) \<Rightarrow>
         if p ! hdrVer \<noteq> ver q then
           (let err = minor_version_error what (p ! hdrVer);
                p = p[hdrVer := ver q]
            in act_bind (set_p (Some p)) (\<lambda>_. act_return (Some p, Some err)))
         else
           act_bind (handle q) (\<lambda>reply.
           case reply of
             None \<Rightarrow> act_return (None, None)
           | Some r \<Rightarrow>
               act_bind sliced_p (\<lambda>p.
               case enc r (take hdrLen p) of
                 (p, err) \<Rightarrow>
                   act_bind (set_p (Some p)) (\<lambda>_.
                   act_return (Some p, map_option (wrap_err bad) err)))))"

definition handleAuthenStart :: "request_handler \<Rightarrow> (bytes option \<times> go_error option) act" where
  "handleAuthenStart h = dispatch AuthenStart_unmarshal AuthenStart_version ''authentication''
     (HandleAuthenStart h) AuthenReply_marshal ''Bad ServerAddr AuthenReply: ''"

definition handleAuthorRequest :: "request_handler \<Rightarrow> (bytes option \<times> go_error option) act" where
  "handleAuthorRequest h = dispatch AuthorRequest_unmarshal (\<lambda>_. verDefault) ''authorization''
     (HandleAuthorRequest h) AuthorResponse_marshal ''Bad ServerAddr AuthorResponse: ''"

definition handleAcctRequest :: "request_handler \<Rightarrow> (bytes option \<times> go_error option) act" where
  "handleAcctRequest h = dispatch AcctRequest_unmarshal (\<lambda>_. verDefault) ''accounting''
     (HandleAcctRequest h) AcctReply_marshal ''Bad ServerAddr AcctReply: ''"

subsection \<open>\<open>serveSession\<close>\<close>

definition session_body :: "request_handler \<Rightarrow> unit act" where
  "session_body h =
     act_bind act_read (\<lambda>(p, err).
     act_bind (set_p p) (\<lambda>_.
     case err of
       Some err \<Rightarrow> sendError err
     | None \<Rightarrow>
         act_bind sliced_p (\<lambda>p.
         act_bind
           (let t = p ! hdrType
            in if t = sessTypeAuthen then handleAuthenStart h
               else if t = sessTypeAuthor then handleAuthorRequest h
               else if t = sessTypeAcct then handleAcctRequest h
               else act_return (Some p, Some (GoError (''invalid session type '' @ dec_digits (unat t)))))
           (\<lambda>(p, err).
         act_bind (set_p p) (\<lambda>_.
         case err of
           Some err \<Rightarrow> sendError err
         | None \<Rightarrow>
             (case p of
                None \<Rightarrow> act_return ()
              | Some p \<Rightarrow> act_bind (ss_writePacket p) (\<lambda>_. act_return ())))))))"

text \<open>
  The session and whether the handler goroutine panicked; the deferred \<open>close\<close> runs in both
  cases, and the panic is recovered.
\<close>

definition serveSession :: "request_handler \<Rightarrow> sess_io \<Rightarrow> bool \<times> sess_io" where
  "serveSession h io =
     (case session_body h \<lparr>es_io = io, es_p = None\<rparr> of
        (r, s) \<Rightarrow> (r = None, es_io (snd (ss_close s))))"

end
