(* ===== verification/ClientSession.thy ===== *)
theory ClientSession
  imports ServerSession
begin

text \<open>
  The client side of \<open>pkg/public/tacplus/client.go\<close>: \<open>ClientSession\<close> and the three requests
  of \<open>Client\<close>, each on a session it was given, and \<open>newClientSession\<close> of \<open>conn.go\<close>, which
  draws ids until one is free.  Dialling and the connection cache of \<open>Client\<close> are left out.
\<close>

definition cs_close :: "unit act" where
  "cs_close s = (Some (), s\<lparr>es_p := None, es_io := sess_close (es_io s)\<rparr>)"

text \<open>
  \<open>sendRequest\<close>: \<open>rep\<close> is the kind of packet to decode the reply into, or \<open>None\<close> for no reply;
  the result is the decoded reply or the error.
\<close>

definition sendRequest :: "packet \<Rightarrow> packet_kind option \<Rightarrow> packet option result act" where
  "sendRequest req rep =
     act_bind get_p (\<lambda>p.
       if p = None then act_return (Inl errSessionClosed)
       else
         act_bind sliced_p (\<lambda>p.
         case marshal req (take hdrLen p) of
           (_, Some err) \<Rightarrow> act_return (Inl err)
         | (p, None) \<Rightarrow>
             act_bind (act_write p) (\<lambda>err.
             case err of
               Some err \<Rightarrow> act_return (Inl err)
             | None \<Rightarrow>
                 (case rep of
                    None \<Rightarrow> act_return (Inr None)
                  | Some k \<Rightarrow>
                      act_bind act_read (\<lambda>(p, err).
                      act_bind (set_p p) (\<lambda>_.
                      case err of
                        Some err \<Rightarrow> act_return (Inl err)
                      | None \<Rightarrow>
                          act_bind sliced_p (\<lambda>p.
                          case unmarshal k (drop hdrLen p) of
                            None \<Rightarrow> act_panic
                          | Some r \<Rightarrow> act_return (map_sum id Some r))))))))"

definition Abort :: "string \<Rightarrow> go_error option act" where
  "Abort reason =
     (let reason = (if length reason > maxUint16 then take maxUint16 reason else reason)
      in act_bind (sendRequest (PAuthenContinue \<lparr>ac_Abort = True, ac_Message = reason\<rparr>) None) (\<lambda>r.
         act_bind cs_close (\<lambda>_.
         act_return (case r of Inl e \<Rightarrow> Some e | Inr _ \<Rightarrow> None))))"

fun the_reply :: "packet option \<Rightarrow> AuthenReply" where
  "the_reply (Some (PAuthenReply r)) = r"
| "the_reply _ = \<lparr>ar_Status = 0, ar_NoEcho = False, ar_ServerMsg = [], ar_Data = []\<rparr>"

definition Continue :: "string \<Rightarrow> AuthenReply result act" where
  "Continue msg s =
     (if io_seq (es_io s) \<ge> 0xfe then
        act_bind (Abort []) (\<lambda>_. act_return (Inl (GoError ''session aborted, too many packets''))) s
      else
        act_bind (sendRequest (PAuthenContinue \<lparr>ac_Abort = False, ac_Message = msg\<rparr>) (Some KAuthenReply))
          (\<lambda>r. case r of
             Inl err \<Rightarrow> act_bind cs_close (\<lambda>_. act_return (Inl err))
           | Inr rep \<Rightarrow>
               (let rep = the_reply rep
                in if AuthenReply_last rep then act_bind cs_close (\<lambda>_. act_return (Inr rep))
                   else act_return (Inr rep))) s)"

text \<open>
  The raw packet \<open>startSession\<close> builds (1024 zero bytes with the header fields set), and the
  request it sends on the new session.
\<close>

definition request_packet :: "byte \<Rightarrow> byte \<Rightarrow> sess_io \<Rightarrow> bytes" where
  "request_packet ver t s =
     (let p = (replicate 1024 0)[hdrVer := ver, hdrType := t];
          p = (if cf_Mux (io_cfg s) \<and> \<not> cf_LegacyMux (io_cfg s)
               then p[hdrFlags := hdrFlagSingleConnect] else p)
      in put_be32 hdrID (io_id s) p)"

definition startSession ::
  "byte \<Rightarrow> byte \<Rightarrow> packet \<Rightarrow> packet_kind \<Rightarrow> sess_io \<Rightarrow> packet option result option \<times> end_session" where
  "startSession ver t req rep s =
     act_bind (sendRequest req (Some rep))
       (\<lambda>r. case r of
          Inl err \<Rightarrow> act_bind (\<lambda>s. (Some (), s\<lparr>es_io := sess_close (es_io s)\<rparr>)) (\<lambda>_. act_return (Inl err))
        | Inr rep \<Rightarrow> act_return (Inr rep))
       \<lparr>es_io = s, es_p = Some (request_packet ver t s)\<rparr>"

fun the_author_response :: "packet option \<Rightarrow> AuthorResponse" where
  "the_author_response (Some (PAuthorResponse r)) = r"
| "the_author_response _ = \<lparr>ap_Status = 0, ap_Arg = [], ap_ServerMsg = [], ap_Data = []\<rparr>"

fun the_acct_reply :: "packet option \<Rightarrow> AcctReply" where
  "the_acct_reply (Some (PAcctReply r)) = r"
| "the_acct_reply _ = \<lparr>cr_Status = 0, cr_ServerMsg = [], cr_Data = []\<rparr>"

text \<open>\<open>s.close()\<close> of the embedded session, after the reply; \<open>cs.p\<close> is not reset there.\<close>

definition closed :: "end_session \<Rightarrow> sess_io" where
  "closed s = sess_close (es_io s)"

definition SendAcctRequest :: "AcctRequest \<Rightarrow> sess_io \<Rightarrow> AcctReply result option \<times> sess_io" where
  "SendAcctRequest req s =
     (case startSession verDefault sessTypeAcct (PAcctRequest req) KAcctReply s of
        (None, s) \<Rightarrow> (None, es_io s)
      | (Some (Inl e), s) \<Rightarrow> (Some (Inl e), es_io s)
      | (Some (Inr r), s) \<Rightarrow> (Some (Inr (the_acct_reply r)), closed s))"

definition SendAuthorRequest :: "AuthorRequest \<Rightarrow> sess_io \<Rightarrow> AuthorResponse result option \<times> sess_io" where
  "SendAuthorRequest req s =
     (case startSession verDefault sessTypeAuthor (PAuthorRequest req) KAuthorResponse s of
        (None, s) \<Rightarrow> (None, es_io s)
      | (Some (Inl e), s) \<Rightarrow> (Some (Inl e), es_io s)
      | (Some (Inr r), s) \<Rightarrow> (Some (Inr (the_author_response r)), closed s))"

text \<open>The third component is the open client session of an authentication that goes on.\<close>

definition SendAuthenStart ::
  "AuthenStart \<Rightarrow> sess_io \<Rightarrow> (AuthenReply \<times> end_session option) result option \<times> sess_io" where
  "SendAuthenStart req s =
     (case startSession (AuthenStart_version req) sessTypeAuthen (PAuthenStart req) KAuthenReply s of
        (None, s) \<Rightarrow> (None, es_io s)
      | (Some (Inl e), s) \<Rightarrow> (Some (Inl e), es_io s)
      | (Some (Inr r), s) \<Rightarrow>
          (let rep = the_reply r
           in if AuthenReply_last rep then (Some (Inr (rep, None)), closed s)
              else (Some (Inr (rep, Some s)), es_io s)))"

subsection \<open>\<open>newClientSession\<close>\<close>

text \<open>
  \<open>ids\<close> is what \<open>rand.Read\<close> yields in turn; \<open>ev\<close> which case of the select is taken in each
  turn: \<open>c.done\<close>, \<open>ctx.Done()\<close> with its error, or the request reaching the serve goroutine.
  \<open>None\<close> means that the ids are used up.
\<close>

datatype ncs_event = NDone | NCtx go_error | NRequest

fun newClientSession ::
  "(32 word result \<times> ncs_event) list \<Rightarrow> conn \<Rightarrow> (nat result \<times> conn) option" where
  "newClientSession [] c = None"
| "newClientSession ((Inl err, _) # r) c = Some (Inl err, c)"
| "newClientSession ((Inr i, NDone) # r) c =
     (case conn_readErr c of
        (Some err, c) \<Rightarrow> Some (Inl err, c)
      | (None, c) \<Rightarrow> Some (Inl errConnectionClosed, c))"
| "newClientSession ((Inr i, NCtx err) # r) c = Some (Inl err, c)"
| "newClientSession ((Inr i, NRequest) # r) c =
     (case newSession i c of
        (Inl err, c) \<Rightarrow> if err \<noteq> errSessionIDInUse then Some (Inl err, c) else newClientSession r c
      | (Inr s, c) \<Rightarrow> Some (Inr s, c))"

end
