(* ===== verification/EndToEnd.thy ===== *)
theory EndToEnd
  imports ClientSession
begin

text \<open>
  A client and a server session put together: the requests of \<open>client.go\<close> against
  \<open>serveSession\<close> of \<open>server.go\<close>, over the raw packets they exchange.
\<close>

subsection \<open>One turn of each side\<close>

definition first_reply_flags :: "ConnConfig \<Rightarrow> bytes \<Rightarrow> bytes" where
  "first_reply_flags cfg p =
     (if p ! hdrSeqNo = 1 then
        (if cf_Mux cfg \<or> cf_LegacyMux cfg then p[hdrFlags := p ! hdrFlags AND hdrFlagSingleConnect]
         else p[hdrFlags := 0])
      else p)"

lemma first_reply_flags_props:
  "length (first_reply_flags cfg p) = length p"
  "drop 12 (first_reply_flags cfg p) = drop 12 p"
  "i \<noteq> 3 \<Longrightarrow> first_reply_flags cfg p ! i = p ! i"
  by (simp_all add: first_reply_flags_def hdr_defs)

lemma act_write_ok:
  assumes "io_w (es_io s) = []" "seal (cf_Secret (io_cfg (es_io s))) p = Some q"
  shows "act_write p s = (Some None, s\<lparr>es_io := (es_io s)\<lparr>io_seq := p ! hdrSeqNo + 1,
           io_out := io_out (es_io s) @ [q]\<rparr>\<rparr>)"
  using write_ok [OF assms] by (simp add: act_write_def)

lemma ss_writePacket_ok:
  assumes "io_w (es_io s) = []"
    and "seal (cf_Secret (io_cfg (es_io s))) (first_reply_flags (io_cfg (es_io s)) p) = Some q"
  shows "ss_writePacket p s = (Some None, s\<lparr>es_io := (es_io s)\<lparr>io_seq := p ! hdrSeqNo + 1,
           io_out := io_out (es_io s) @ [q]\<rparr>\<rparr>)"
proof -
  have "ss_writePacket p s = act_write (first_reply_flags (io_cfg (es_io s)) p) s"
    by (simp add: ss_writePacket_def first_reply_flags_def Let_def)
  then show ?thesis
    using act_write_ok [OF assms] by (simp add: first_reply_flags_props hdr_defs)
qed

lemma act_read_ok:
  assumes "io_in (es_io s) = RPacket w # rest" "w ! 2 = io_seq (es_io s) + 1"
    and "w ! 2 AND 1 \<noteq> io_parity (es_io s)" "crypt w (cf_Secret (io_cfg (es_io s))) = Some p"
  shows "act_read s = (Some (Some p, None), s\<lparr>es_io := (es_io s)\<lparr>io_in := rest\<rparr>\<rparr>)"
  using assms by (simp add: act_read_def sess_readPacket_def hdr_defs Let_def)

lemma dispatch_ok:
  assumes "es_p s = Some p" "hdrLen \<le> length p" "dec (drop hdrLen p) = Some (Inr q)"
    and "p ! hdrVer = ver q" "handle q s = (Some (Some r), s)" "enc r (take hdrLen p) = (p', None)"
  shows "dispatch dec ver what handle enc bad s = (Some (Some p', None), s\<lparr>es_p := Some p'\<rparr>)"
  using assms by (simp add: dispatch_def act_defs Let_def)

text \<open>A session whose handler answers without a prompt.\<close>

lemma session_body_one_shot:
  assumes in_: "io_in io = RPacket w # rest" and seq: "w ! 2 = io_seq io + 1"
    and par: "w ! 2 AND 1 \<noteq> io_parity io" and dec: "crypt w (cf_Secret (io_cfg io)) = Some p"
    and w: "io_w io = []"
    and d: "(if p ! hdrType = sessTypeAuthen then handleAuthenStart h
             else if p ! hdrType = sessTypeAuthor then handleAuthorRequest h
             else if p ! hdrType = sessTypeAcct then handleAcctRequest h
             else act_return (Some p, Some (GoError (''invalid session type '' @ dec_digits (unat (p ! hdrType))))))
          \<lparr>es_io = io\<lparr>io_in := rest\<rparr>, es_p = Some p\<rparr> =
        (Some (Some p', None), \<lparr>es_io = io\<lparr>io_in := rest\<rparr>, es_p = Some p'\<rparr>)"
    and l: "12 \<le> length p'"
  shows "\<exists>q. seal (cf_Secret (io_cfg io)) (first_reply_flags (io_cfg io) p') = Some q \<and>
    session_body h \<lparr>es_io = io, es_p = None\<rparr> = (Some (), \<lparr>es_io = io\<lparr>io_in := rest,
       io_seq := p' ! hdrSeqNo + 1, io_out := io_out io @ [q]\<rparr>, es_p = Some p'\<rparr>)"
proof -
  obtain q where q: "seal (cf_Secret (io_cfg io)) (first_reply_flags (io_cfg io) p') = Some q"
    using seal_total [of "first_reply_flags (io_cfg io) p'"] l by (auto simp: first_reply_flags_props)
  have r: "act_read \<lparr>es_io = io, es_p = None\<rparr> =
      (Some (Some p, None), \<lparr>es_io = io\<lparr>io_in := rest\<rparr>, es_p = None\<rparr>)"
    using act_read_ok [of "\<lparr>es_io = io, es_p = None\<rparr>"] in_ seq par dec by simp
  have pl: "hdrLen \<le> length p"
    using tac.cipher_keeps [OF dec] by (simp add: hdrLen_def)
  have wr: "ss_writePacket p' \<lparr>es_io = io\<lparr>io_in := rest\<rparr>, es_p = Some p'\<rparr> =
     (Some None, \<lparr>es_io = io\<lparr>io_in := rest, io_seq := p' ! hdrSeqNo + 1, io_out := io_out io @ [q]\<rparr>,
        es_p = Some p'\<rparr>)"
    using ss_writePacket_ok [of "\<lparr>es_io = io\<lparr>io_in := rest\<rparr>, es_p = Some p'\<rparr>" p' q] q w by simp
  have "session_body h \<lparr>es_io = io, es_p = None\<rparr> = (Some (), \<lparr>es_io = io\<lparr>io_in := rest,
       io_seq := p' ! hdrSeqNo + 1, io_out := io_out io @ [q]\<rparr>, es_p = Some p'\<rparr>)"
    unfolding session_body_def using r pl d wr by (simp add: act_defs Let_def)
  with q show ?thesis by blast
qed

subsection \<open>A request and its answer\<close>

lemma marshal_appends:
  "snd (marshal p []) = None \<Longrightarrow> marshal p b = (b @ fst (marshal p []), None)"
  by (cases p; simp; rule prod_eqI;
      simp add: wf_start.enc_error [of _ b] wf_reply.enc_error [of _ b] wf_cont.enc_error [of _ b]
        wf_authreq.enc_error [of _ b] wf_authresp.enc_error [of _ b] wf_acctreq.enc_error [of _ b]
        wf_acctrep.enc_error [of _ b];
      rule wf_start.enc_appends wf_reply.enc_appends wf_cont.enc_appends wf_authreq.enc_appends
        wf_authresp.enc_appends wf_acctreq.enc_appends wf_acctrep.enc_appends)

lemma unmarshal_marshalled:
  "snd (marshal p []) = None \<Longrightarrow> unmarshal (kind_of p) (fst (marshal p [])) = Some (Inr p)"
  by (cases p)
     (simp_all add: wf_start.dec_enc [where junk = "[]", simplified]
       wf_reply.dec_enc [where junk = "[]", simplified] wf_cont.dec_enc [where junk = "[]", simplified]
       wf_authreq.dec_enc [where junk = "[]", simplified] wf_authresp.dec_enc [where junk = "[]", simplified]
       wf_acctreq.dec_enc [where junk = "[]", simplified] wf_acctrep.dec_enc [where junk = "[]", simplified])

lemma sendRequest_ok:
  assumes "es_p e = Some p0" "hdrLen \<le> length p0" "marshal req (take hdrLen p0) = (p, None)"
    and "io_w (es_io e) = []" "seal (cf_Secret (io_cfg (es_io e))) p = Some w"
    and "io_in (es_io e) = RPacket v # rest" "v ! 2 = p ! 2 + 2" "v ! 2 AND 1 \<noteq> io_parity (es_io e)"
    and "crypt v (cf_Secret (io_cfg (es_io e))) = Some q" "unmarshal k (drop hdrLen q) = Some (Inr rep)"
  shows "sendRequest req (Some k) e = (Some (Inr (Some rep)),
    \<lparr>es_io = (es_io e)\<lparr>io_seq := p ! 2 + 1, io_out := io_out (es_io e) @ [w], io_in := rest\<rparr>,
     es_p = Some q\<rparr>)"
proof -
  let ?e = "e\<lparr>es_io := (es_io e)\<lparr>io_seq := p ! 2 + 1, io_out := io_out (es_io e) @ [w]\<rparr>\<rparr>"
  have "act_write p e = (Some None, ?e)"
    using act_write_ok [OF assms(4,5)] by (simp add: hdr_defs)
  moreover have "act_read ?e = (Some (Some q, None), ?e\<lparr>es_io := (es_io ?e)\<lparr>io_in := rest\<rparr>\<rparr>)"
    using assms(6-9) by (intro act_read_ok) simp_all
  moreover have "hdrLen \<le> length q"
    using tac.cipher_keeps [OF assms(9)] by (simp add: hdrLen_def)
  ultimately show ?thesis
    using assms(1-3,10) by (simp add: sendRequest_def act_defs Let_def)
qed

lemma request_packet_props:
  "length (request_packet ver t s) = 1024" "request_packet ver t s ! 0 = ver"
  "request_packet ver t s ! 1 = t" "request_packet ver t s ! 2 = 0"
  by (simp_all add: request_packet_def put_be32_def hdr_defs Let_def nth_list_update)

text \<open>
  \<open>ends k c s\<close>: two fresh ends of one session, the client \<open>c\<close> and the server \<open>s\<close>, with the
  shared secret \<open>k\<close> and no failing writes.
\<close>

definition ends :: "bytes \<Rightarrow> sess_io \<Rightarrow> sess_io \<Rightarrow> bool" where
  "ends k c s =
     (io_seq c = 0 \<and> io_parity c = 1 \<and> io_w c = [] \<and> cf_Secret (io_cfg c) = k \<and>
      io_seq s = 0 \<and> io_parity s = 0 \<and> io_w s = [] \<and> cf_Secret (io_cfg s) = k)"

definition by_type :: "request_handler \<Rightarrow> bytes \<Rightarrow> (bytes option \<times> go_error option) act" where
  "by_type h p =
     (if p ! hdrType = sessTypeAuthen then handleAuthenStart h
      else if p ! hdrType = sessTypeAuthor then handleAuthorRequest h
      else if p ! hdrType = sessTypeAcct then handleAcctRequest h
      else act_return (Some p, Some (GoError (''invalid session type '' @ dec_digits (unat (p ! hdrType))))))"

lemma request_response:
  assumes ends: "ends k c s"
    and req: "snd (marshal req []) = None" and resp: "snd (marshal resp []) = None"
    and h: "\<And>io p. 12 \<le> length p \<Longrightarrow> p ! 0 = ver \<Longrightarrow> p ! 1 = t \<Longrightarrow> drop 12 p = fst (marshal req []) \<Longrightarrow>
      by_type h p \<lparr>es_io = io, es_p = Some p\<rparr> =
        (Some (Some (take 12 p @ fst (marshal resp [])), None),
         \<lparr>es_io = io, es_p = Some (take 12 p @ fst (marshal resp []))\<rparr>)"
  shows "\<exists>w v s' e.
    serveSession h (s\<lparr>io_in := RPacket w # rest\<rparr>) = (False, s') \<and>
    io_out s' = io_out s @ [v] \<and> io_closed s' \<and> io_seq s' = 2 \<and>
    startSession ver t req (kind_of resp) (c\<lparr>io_in := [RPacket v]\<rparr>) = (Some (Inr (Some resp)), e) \<and>
    io_out (es_io e) = io_out c @ [w] \<and> io_in (es_io e) = []"
proof -
  define p0 where "p0 = request_packet ver t c"
  define P where "P = take 12 p0 @ fst (marshal req [])"
  have p0: "length p0 = 1024" "p0 ! 0 = ver" "p0 ! 1 = t" "p0 ! 2 = 0"
    by (simp_all only: p0_def request_packet_props)
  have P: "12 \<le> length P" "P ! 0 = ver" "P ! 1 = t" "P ! 2 = 0" "drop 12 P = fst (marshal req [])"
    using p0 by (simp_all add: P_def nth_append)
  obtain w where w: "seal k P = Some w" using seal_total [OF P(1)] by blast
  note sw = seal_result [OF w]
  have w2: "w ! 2 = 1" using sw(4) [of 2] P by simp
  let ?p = "stamp P" and ?s = "s\<lparr>io_in := RPacket w # rest\<rparr>"
  let ?r = "take 12 ?p @ fst (marshal resp [])"
  have p: "12 \<le> length ?p" "?p ! 0 = ver" "?p ! 1 = t" "?p ! 2 = 1" "drop 12 ?p = fst (marshal req [])"
    using P by (simp_all add: stamp_nth stamp_body)
  have r: "12 \<le> length ?r" "?r ! 2 = 1" "drop 12 ?r = fst (marshal resp [])"
    using p by (simp_all add: nth_append)
  have dt: "by_type h ?p \<lparr>es_io = ?s\<lparr>io_in := rest\<rparr>, es_p = Some ?p\<rparr> =
      (Some (Some ?r, None), \<lparr>es_io = ?s\<lparr>io_in := rest\<rparr>, es_p = Some ?r\<rparr>)"
    by (rule h [OF p(1-3,5)])
  have "\<exists>q. seal (cf_Secret (io_cfg ?s)) (first_reply_flags (io_cfg ?s) ?r) = Some q \<and>
    session_body h \<lparr>es_io = ?s, es_p = None\<rparr> = (Some (), \<lparr>es_io = ?s\<lparr>io_in := rest,
       io_seq := ?r ! hdrSeqNo + 1, io_out := io_out ?s @ [q]\<rparr>, es_p = Some ?r\<rparr>)"
    using ends w2 sw(3) dt [unfolded by_type_def] r(1)
    by (intro session_body_one_shot) (simp_all add: ends_def)
  then obtain v where v: "seal k (first_reply_flags (io_cfg s) ?r) = Some v"
    and body: "session_body h \<lparr>es_io = ?s, es_p = None\<rparr> = (Some (), \<lparr>es_io = ?s\<lparr>io_in := rest,
       io_seq := 2, io_out := io_out s @ [v]\<rparr>, es_p = Some ?r\<rparr>)"
    using ends r(2) by (auto simp: ends_def hdr_defs)
  have serve: "serveSession h ?s = (False, sess_close (?s\<lparr>io_in := rest, io_seq := 2, io_out := io_out s @ [v]\<rparr>))"
    by (simp add: serveSession_def body ss_close_def)
  note sv = seal_result [OF v]
  have v2: "v ! 2 = 2" using sv(4) [of 2] r(2) by (simp add: first_reply_flags_props)
  have vb: "drop 12 (stamp (first_reply_flags (io_cfg s) ?r)) = fst (marshal resp [])"
    by (simp only: stamp_body first_reply_flags_props r(3))
  let ?c = "c\<lparr>io_in := [RPacket v]\<rparr>"
  have "request_packet ver t ?c = p0" by (simp add: p0_def request_packet_def)
  moreover have "sendRequest req (Some (kind_of resp)) \<lparr>es_io = ?c, es_p = Some p0\<rparr> =
     (Some (Inr (Some resp)), \<lparr>es_io = (es_io \<lparr>es_io = ?c, es_p = Some p0\<rparr>)\<lparr>io_seq := P ! 2 + 1,
        io_out := io_out (es_io \<lparr>es_io = ?c, es_p = Some p0\<rparr>) @ [w], io_in := []\<rparr>,
        es_p = Some (stamp (first_reply_flags (io_cfg s) ?r))\<rparr>)"
  proof (rule sendRequest_ok)
    show "marshal req (take hdrLen p0) = (P, None)"
      using marshal_appends [OF req, of "take hdrLen p0"] by (simp add: P_def hdrLen_def)
    show "unmarshal (kind_of resp) (drop hdrLen (stamp (first_reply_flags (io_cfg s) ?r))) = Some (Inr resp)"
      using unmarshal_marshalled [OF resp] by (simp only: hdrLen_def vb)
  qed (use ends w v2 sv(3) P(4) p0(1) in \<open>simp_all add: ends_def hdrLen_def\<close>)
  ultimately have st: "startSession ver t req (kind_of resp) ?c =
      (Some (Inr (Some resp)), \<lparr>es_io = ?c\<lparr>io_seq := P ! 2 + 1, io_out := io_out c @ [w], io_in := []\<rparr>,
        es_p = Some (stamp (first_reply_flags (io_cfg s) ?r))\<rparr>)"
    by (simp add: startSession_def act_bind_def act_return_def)
  show ?thesis
    by (rule exI [of _ w], rule exI [of _ v], rule exI, rule exI, intro conjI, rule serve)
       ((simp add: sess_close_def)+, rule st, simp_all)
qed

lemma act_return_conv: "act_return x s = (Some x, s)"
  by (simp add: act_return_def)

lemma sess_types_distinct [simp]:
  "sessTypeAuthor \<noteq> sessTypeAuthen" "sessTypeAcct \<noteq> sessTypeAuthen" "sessTypeAcct \<noteq> sessTypeAuthor"
  by (simp_all add: sessTypeAuthen_def sessTypeAuthor_def sessTypeAcct_def)

text \<open>
  C13.  An authorization request is answered by what the handler returns: the client's
  \<open>SendAuthorRequest\<close> writes one packet; \<open>serveSession\<close>, receiving it, passes the decoded
  request to the handler, writes one packet and closes its session without a panic; and
  with that packet the client returns the handler's response and closes its session.
\<close>

theorem author_request_answered:
  assumes "ends k c s" "snd (AuthorRequest_marshal req []) = None"
    and "snd (AuthorResponse_marshal resp []) = None"
    and "\<And>e. HandleAuthorRequest h req e = (Some (Some resp), e)"
  shows "\<exists>w v s' c'.
    serveSession h (s\<lparr>io_in := RPacket w # rest\<rparr>) = (False, s') \<and>
    io_out s' = io_out s @ [v] \<and> io_closed s' \<and>
    SendAuthorRequest req (c\<lparr>io_in := [RPacket v]\<rparr>) = (Some (Inr resp), c') \<and>
    io_out c' = io_out c @ [w] \<and> io_closed c'"
proof -
  have h: "by_type h p \<lparr>es_io = io, es_p = Some p\<rparr> =
      (Some (Some (take 12 p @ fst (AuthorResponse_marshal resp [])), None),
       \<lparr>es_io = io, es_p = Some (take 12 p @ fst (AuthorResponse_marshal resp []))\<rparr>)"
    if "12 \<le> length p" "p ! 0 = verDefault" "p ! 1 = sessTypeAuthor"
      "drop 12 p = fst (AuthorRequest_marshal req [])" for io p
  proof -
    have "AuthorResponse_marshal resp (take 12 p) = (take 12 p @ fst (AuthorResponse_marshal resp []), None)"
      using assms(3) marshal_appends [of "PAuthorResponse resp" "take 12 p"] by simp
    moreover have "AuthorRequest_unmarshal (drop hdrLen p) = Some (Inr req)"
      using that(4) wf_authreq.dec_enc [OF assms(2), of "[]"] by (simp add: hdrLen_def)
    ultimately show ?thesis
      using that(1-3) assms(4)
      by (simp add: by_type_def handleAuthorRequest_def hdr_defs flip: One_nat_def)
         (subst dispatch_ok; simp add: hdr_defs)
  qed
  have m: "snd (marshal (PAuthorRequest req) []) = None" "snd (marshal (PAuthorResponse resp) []) = None"
    using assms(2,3) by simp_all
  obtain w v s' e where r: "serveSession h (s\<lparr>io_in := RPacket w # rest\<rparr>) = (False, s')"
      "io_out s' = io_out s @ [v]" "io_closed s'"
      "startSession verDefault sessTypeAuthor (PAuthorRequest req) (kind_of (PAuthorResponse resp))
         (c\<lparr>io_in := [RPacket v]\<rparr>) = (Some (Inr (Some (PAuthorResponse resp))), e)"
      "io_out (es_io e) = io_out c @ [w]"
    using request_response [OF assms(1) m, of verDefault sessTypeAuthor h rest] h by auto
  then have "SendAuthorRequest req (c\<lparr>io_in := [RPacket v]\<rparr>) = (Some (Inr resp), sess_close (es_io e))"
    by (simp add: SendAuthorRequest_def closed_def)
  with r(5) have "SendAuthorRequest req (c\<lparr>io_in := [RPacket v]\<rparr>) = (Some (Inr resp), sess_close (es_io e)) \<and>
      io_out (sess_close (es_io e)) = io_out c @ [w] \<and> io_closed (sess_close (es_io e))"
    by (simp add: sess_close_def)
  with r(1-3) show ?thesis by blast
qed

definition sample_request :: AuthorRequest where
  "sample_request = \<lparr>aq_AuthenMethod = 6, aq_PrivLvl = 1, aq_AuthenType = 1, aq_AuthenService = 1,
     aq_User = ''alice'', aq_Port = ''tty1'', aq_RemAddr = ''10.0.0.9'',
     aq_Arg = [''service=shell'', ''cmd=show'']\<rparr>"

definition sample_response :: AuthorResponse where
  "sample_response = \<lparr>ap_Status = AuthorStatusPassAdd, ap_Arg = [''priv-lvl=15''], ap_ServerMsg = [],
     ap_Data = []\<rparr>"

definition sample_handler :: request_handler where
  "sample_handler = \<lparr>HandleAuthenStart = (\<lambda>_. act_return None),
     HandleAuthorRequest = (\<lambda>_. act_return (Some sample_response)),
     HandleAcctRequest = (\<lambda>_. act_return None)\<rparr>"

theorem author_request_answered_witness:
  "\<exists>w v s' c'.
    serveSession sample_handler (sample_io 0 0\<lparr>io_in := [RPacket w]\<rparr>) = (False, s') \<and>
    io_out s' = [v] \<and>
    SendAuthorRequest sample_request (sample_io 1 0\<lparr>io_in := [RPacket v]\<rparr>) =
      (Some (Inr sample_response), c')"
proof -
  have "ends [115] (sample_io 1 0) (sample_io 0 0)"
    by (simp add: ends_def sample_io_def sample_cfg_def)
  moreover have "snd (AuthorRequest_marshal sample_request []) = None"
    "snd (AuthorResponse_marshal sample_response []) = None"
    by (simp_all add: AuthorRequest_marshal_def AuthorResponse_marshal_def sample_request_def
      sample_response_def max_defs Let_def)
  ultimately show ?thesis
    using author_request_answered [of "[115]" "sample_io 1 0" "sample_io 0 0" sample_request
        sample_response sample_handler "[]"]
    by (simp add: sample_handler_def act_return_def) (auto simp: sample_io_def)
qed

subsection \<open>Requests the server refuses by itself\<close>

text \<open>
  The error \<open>serveSession\<close> finds in a decrypted request before any handler runs: the body
  does not decode, the version does not fit the request, or there is no such session type.
\<close>

definition body_error :: "('q \<Rightarrow> byte) \<Rightarrow> string \<Rightarrow> bytes \<Rightarrow> 'q result option \<Rightarrow> go_error option" where
  "body_error ver what p d =
     (case d of
        Some (Inl e) \<Rightarrow> Some e
      | Some (Inr q) \<Rightarrow> if p ! hdrVer \<noteq> ver q then Some (minor_version_error what (p ! hdrVer)) else None
      | None \<Rightarrow> None)"

definition request_error :: "bytes \<Rightarrow> go_error option" where
  "request_error p =
     (let t = p ! hdrType; b = drop hdrLen p
      in if t = sessTypeAuthen then
           body_error AuthenStart_version ''authentication'' p (AuthenStart_unmarshal b)
         else if t = sessTypeAuthor then
           body_error (\<lambda>_. verDefault) ''authorization'' p (AuthorRequest_unmarshal b)
         else if t = sessTypeAcct then
           body_error (\<lambda>_. verDefault) ''accounting'' p (AcctRequest_unmarshal b)
         else Some (GoError (''invalid session type '' @ dec_digits (unat t))))"

text \<open>The reply of \<open>sendError\<close>, by session type, with the message cut to 65535 bytes.\<close>

definition error_packet :: "byte \<Rightarrow> go_error \<Rightarrow> packet option" where
  "error_packet t e =
     (let msg = take 65535 (err_msg e)
      in if t = sessTypeAuthen then
           Some (PAuthenReply \<lparr>ar_Status = AuthenStatusError, ar_NoEcho = False, ar_ServerMsg = msg, ar_Data = []\<rparr>)
         else if t = sessTypeAuthor then
           Some (PAuthorResponse \<lparr>ap_Status = AuthorStatusError, ap_Arg = [], ap_ServerMsg = msg, ap_Data = []\<rparr>)
         else if t = sessTypeAcct then
           Some (PAcctReply \<lparr>cr_Status = AcctStatusError, cr_ServerMsg = msg, cr_Data = []\<rparr>)
         else None)"

lemma error_reply_eq:
  "error_reply p e = p @ (case error_packet (p ! hdrType) e of None \<Rightarrow> [] | Some r \<Rightarrow> fst (marshal r []))"
proof -
  have "(if length (err_msg e) > maxUint16 then take maxUint16 (err_msg e) else err_msg e) =
      take 65535 (err_msg e)"
    by (simp add: max_defs)
  then show ?thesis
    by (simp add: error_reply_def error_packet_def Let_def wf_reply.enc_appends [of _ p]
      wf_authresp.enc_appends [of _ p] wf_acctrep.enc_appends [of _ p])
qed

lemma error_packet_marshals:
  "error_packet t e = Some r \<Longrightarrow> snd (marshal r []) = None"
  by (auto simp: error_packet_def Let_def AuthenReply_marshal_def AuthorResponse_marshal_def
      AcctReply_marshal_def max_defs split: if_splits)

lemma sendError_ok:
  assumes "es_p s = Some p" "12 \<le> length p" "io_w (es_io s) = []" "cf_Secret (io_cfg (es_io s)) = k"
  shows "\<exists>q r s'. sendError e s = (Some (), s') \<and> es_p s' = None \<and>
    io_out (es_io s') = io_out (es_io s) @ [q] \<and>
    crypt q k = Some r \<and> r ! hdrType = p ! hdrType \<and> r ! hdrSeqNo = p ! hdrSeqNo + 1 \<and>
    (\<forall>x. error_packet (p ! hdrType) e = Some x \<longrightarrow> unmarshal (kind_of x) (drop hdrLen r) = Some (Inr x))"
proof -
  let ?b = "error_reply (take hdrLen p) e"
  let ?f = "first_reply_flags (io_cfg (es_io s)) ?b"
  have b: "?b = take 12 p @ (case error_packet (p ! 1) e of None \<Rightarrow> [] | Some r \<Rightarrow> fst (marshal r []))"
    using assms(2) by (simp add: error_reply_eq hdr_defs)
  then have l: "12 \<le> length ?f" using assms(2) by (simp add: first_reply_flags_props)
  obtain q where q: "seal k ?f = Some q" using seal_total [OF l] by blast
  note sq = seal_result [OF q]
  let ?s = "s\<lparr>es_io := (es_io s)\<lparr>io_seq := ?b ! hdrSeqNo + 1, io_out := io_out (es_io s) @ [q]\<rparr>\<rparr>"
  have "ss_writePacket ?b s = (Some None, ?s)"
    using ss_writePacket_ok [of s ?b q] assms(3,4) q by simp
  then have e: "sendError e s = (Some (), snd (ss_close ?s))"
    using assms(1,2) by (simp add: sendError_def act_defs hdrLen_def ss_close_def)
  have h: "?b ! i = p ! i" if "i < 12" for i
    using that assms(2) by (simp add: b nth_append)
  have "drop 12 (stamp ?f) = (case error_packet (p ! 1) e of None \<Rightarrow> [] | Some r \<Rightarrow> fst (marshal r []))"
    using assms(2) by (simp add: stamp_body first_reply_flags_props b)
  then have u: "unmarshal (kind_of x) (drop hdrLen (stamp ?f)) = Some (Inr x)"
    if "error_packet (p ! hdrType) e = Some x" for x
    using that unmarshal_marshalled [OF error_packet_marshals [OF that]] by (simp add: hdr_defs)
  have "stamp ?f ! 1 = p ! 1" "stamp ?f ! 2 = p ! 2 + 1"
    using l h [of 1] h [of 2] by (simp_all add: stamp_nth first_reply_flags_props)
  with e sq(3) u show ?thesis by (auto simp: ss_close_def sess_close_def hdr_defs)
qed

lemma dispatch_refused:
  assumes "es_p s = Some p" "hdrLen \<le> length p" "body_error ver what p (dec (drop hdrLen p)) = Some e"
  shows "\<exists>p'. dispatch dec ver what handle enc bad s = (Some (Some p', Some e), s\<lparr>es_p := Some p'\<rparr>) \<and>
    12 \<le> length p' \<and> p' ! 1 = p ! 1 \<and> p' ! 2 = p ! 2"
  using assms
  by (auto simp: dispatch_def act_defs body_error_def hdr_defs Let_def split: option.splits sum.splits if_splits)

lemma by_type_refused:
  assumes "request_error p = Some e" "hdrLen \<le> length p" "es_p s = Some p"
  shows "\<exists>p'. by_type h p s = (Some (Some p', Some e), s\<lparr>es_p := Some p'\<rparr>) \<and>
    12 \<le> length p' \<and> p' ! 1 = p ! 1 \<and> p' ! 2 = p ! 2"
proof -
  have self: "s\<lparr>es_p := Some p\<rparr> = s" using assms(3) by simp
  consider "p ! hdrType = sessTypeAuthen" | "p ! hdrType = sessTypeAuthor" | "p ! hdrType = sessTypeAcct"
    | "p ! hdrType \<notin> {sessTypeAuthen, sessTypeAuthor, sessTypeAcct}" by blast
  then show ?thesis
  proof cases
    case 1
    then show ?thesis
      using dispatch_refused [OF assms(3,2), of AuthenStart_version "''authentication''" AuthenStart_unmarshal e]
        assms(1,2) by (simp add: by_type_def handleAuthenStart_def request_error_def Let_def hdrLen_def) blast
  next
    case 2
    then have "p ! hdrType \<noteq> sessTypeAuthen" by simp
    with 2 show ?thesis
      using dispatch_refused [OF assms(3,2), of "\<lambda>_. verDefault" "''authorization''" AuthorRequest_unmarshal e]
        assms(1,2) by (simp add: by_type_def handleAuthorRequest_def request_error_def Let_def hdrLen_def) blast
  next
    case 3
    then have "p ! hdrType \<noteq> sessTypeAuthen" "p ! hdrType \<noteq> sessTypeAuthor" by simp_all
    with 3 show ?thesis
      using dispatch_refused [OF assms(3,2), of "\<lambda>_. verDefault" "''accounting''" AcctRequest_unmarshal e]
        assms(1,2) by (simp add: by_type_def handleAcctRequest_def request_error_def Let_def hdrLen_def) blast
  next
    case 4
    then show ?thesis
      using assms self
      by (auto simp: by_type_def request_error_def Let_def act_return_def hdrLen_def)
  qed
qed

text \<open>
  C14.  A first packet that the server cannot use is refused without its handler being
  asked: when the body does not decode, as with a wrong secret, the version does not fit or
  the session type is unknown, \<open>serveSession\<close> of any handler writes exactly one packet, with
  the next sequence number, whose body is the error reply of that session type carrying the
  error message, does not panic, and closes the session.
\<close>

theorem bad_request_refused:
  assumes "io_in io = RPacket w # rest" "w ! hdrSeqNo = io_seq io + 1"
    and "w ! hdrSeqNo AND 1 \<noteq> io_parity io" "crypt w k = Some p" "cf_Secret (io_cfg io) = k"
    and "io_w io = []" "request_error p = Some e"
  shows "\<exists>q r s'. serveSession h io = (False, s') \<and> io_out s' = io_out io @ [q] \<and> io_closed s' \<and>
    crypt q k = Some r \<and> r ! hdrType = p ! hdrType \<and> r ! hdrSeqNo = p ! hdrSeqNo + 1 \<and>
    (\<forall>x. error_packet (p ! hdrType) e = Some x \<longrightarrow> unmarshal (kind_of x) (drop hdrLen r) = Some (Inr x))"
proof -
  let ?e = "\<lparr>es_io = io\<lparr>io_in := rest\<rparr>, es_p = Some p\<rparr>"
  have l: "hdrLen \<le> length p" using tac.cipher_keeps [OF assms(4)] by (simp add: hdrLen_def)
  have r: "act_read \<lparr>es_io = io, es_p = None\<rparr> =
      (Some (Some p, None), \<lparr>es_io = io\<lparr>io_in := rest\<rparr>, es_p = None\<rparr>)"
    using act_read_ok [of "\<lparr>es_io = io, es_p = None\<rparr>"] assms by (simp add: hdr_defs)
  obtain p' where d: "by_type h p ?e = (Some (Some p', Some e), ?e\<lparr>es_p := Some p'\<rparr>)"
    and p': "12 \<le> length p'" "p' ! 1 = p ! 1" "p' ! 2 = p ! 2"
    using by_type_refused [OF assms(7) l, of ?e h] by auto
  let ?f = "?e\<lparr>es_p := Some p'\<rparr>"
  obtain q r' s' where se: "sendError e ?f = (Some (), s')" "io_out (es_io s') = io_out io @ [q]"
      "crypt q k = Some r'" "r' ! hdrType = p ! hdrType" "r' ! hdrSeqNo = p ! hdrSeqNo + 1"
      "\<forall>x. error_packet (p ! hdrType) e = Some x \<longrightarrow> unmarshal (kind_of x) (drop hdrLen r') = Some (Inr x)"
    using sendError_ok [of ?f p' k e] p' assms(5,6) by (auto simp: hdr_defs)
  have "session_body h \<lparr>es_io = io, es_p = None\<rparr> = (Some (), s')"
    unfolding session_body_def using r l d [unfolded by_type_def] se(1)
    by (simp add: act_bind_def set_p_def sliced_p_def Let_def)
  then have "serveSession h io = (False, sess_close (es_io s'))"
    by (simp add: serveSession_def ss_close_def)
  moreover have "io_out (sess_close (es_io s')) = io_out io @ [q] \<and> io_closed (sess_close (es_io s'))"
    using se(2) by (simp add: sess_close_def)
  ultimately show ?thesis using se(3-6) by blast
qed

theorem bad_request_refused_witness:
  "\<exists>w q s'. crypt w [115] = Some [0xc0, 2, 1, 0, 0, 0, 0, 7, 0, 0, 0, 1, 0] \<and>
     serveSession sample_handler (sample_io 0 0\<lparr>io_in := [RPacket w]\<rparr>) = (False, s') \<and> io_out s' = [q]"
proof -
  let ?p = "[0xc0, 2, 1, 0, 0, 0, 0, 7, 0, 0, 0, 1, 0] :: bytes"
  obtain w where w: "crypt ?p [115] = Some w" using tac.cipher_total [of ?p] by auto
  then have c: "crypt w [115] = Some ?p" by (rule tac.cipher_involutive)
  have s: "w ! 2 = 1" using tac.cipher_header [OF w, of 2] by simp
  have "request_error ?p = Some errBadPacket"
    by (simp add: request_error_def body_error_def AuthorRequest_unmarshal_def sessTypeAuthor_def
      sessTypeAuthen_def hdr_defs)
  then show ?thesis
    using bad_request_refused [of "sample_io 0 0\<lparr>io_in := [RPacket w]\<rparr>" w "[]" "[115]" ?p errBadPacket
        sample_handler] c s
    by (auto simp: sample_io_def sample_cfg_def hdr_defs)
qed

end
