(* ===== verification/ClientCache.thy ===== *)
theory ClientCache
  imports ClientSession
begin

text \<open>
  The connections of a \<open>Client\<close> (\<open>pkg/public/tacplus/client.go\<close>): \<open>newSession\<close> with the multiplexed
  connection it caches, the goroutines that forget and close connections, and \<open>Close\<close>, for any number
  of calls that run at once.  Each connection is the one of theory Conn with all its goroutines.
  The second part is the accept loop of \<open>Server.Serve\<close>.
\<close>

subsection \<open>State\<close>

text \<open>
  Where a call of \<open>newSession\<close> stands: before the cached connection is read, on the connection \<open>k\<close> it
  found, before dialling, on the connection it made, before that is closed again, before it is cached
  with the session \<open>q\<close> on it, and at the return.  \<open>CClosing\<close> is \<open>Close\<close> after it has read the cached
  connection.
\<close>

datatype call =
    CStart
  | CTry nat
  | CDial
  | COpen nat
  | CAbort nat go_error
  | CCache nat nat
  | CReturn "(nat \<times> nat) result"
  | CClosing "nat option"
  | CClosed

text \<open>
  Connections are indices into \<open>cl_conns\<close>; \<open>cl_clear\<close>: the goroutines that wait for \<open>conn.done\<close> and
  then reset \<open>c.conn\<close>; \<open>cl_close\<close>: those that wait for the end of a session and then close its connection.
\<close>

record tac_client =
  cl_cfg :: ConnConfig
  cl_conn :: "nat option"
  cl_conns :: "conn list"
  cl_calls :: "call list"
  cl_clear :: "nat list"
  cl_close :: "(nat \<times> nat) list"

definition new_client :: "ConnConfig \<Rightarrow> tac_client" where
  "new_client cfg = \<lparr>cl_cfg = cfg, cl_conn = None, cl_conns = [], cl_calls = [], cl_clear = [], cl_close = []\<rparr>"

definition client_mux :: "ConnConfig \<Rightarrow> bool" where
  "client_mux cfg = (cf_Mux cfg \<or> cf_LegacyMux cfg)"

definition goto :: "nat \<Rightarrow> call \<Rightarrow> tac_client \<Rightarrow> tac_client" where
  "goto i p s = s\<lparr>cl_calls := (cl_calls s)[i := p]\<rparr>"

definition set_conn :: "nat \<Rightarrow> conn \<Rightarrow> tac_client \<Rightarrow> tac_client" where
  "set_conn k c s = s\<lparr>cl_conns := (cl_conns s)[k := c]\<rparr>"

subsection \<open>The sections of \<open>newSession\<close>\<close>

text \<open>
  One turn of the loop of \<open>conn.newClientSession\<close>: the id that \<open>rand.Read\<close> gave and the case that the
  select takes; the result, \<open>None\<close> for another turn, and the connection after it.
\<close>

type_synonym ncs_input = "32 word result \<times> ncs_event"

fun turn_ready :: "ncs_input \<Rightarrow> conn \<Rightarrow> bool" where
  "turn_ready (Inr _, NDone) c = c_done c"
| "turn_ready (Inr _, NRequest) c = (\<not> c_served c)"
| "turn_ready _ c = True"

fun turn_conn :: "ncs_input \<Rightarrow> conn \<Rightarrow> conn option" where
  "turn_conn (Inr _, NDone) c = Some (snd (conn_readErr c))"
| "turn_conn (Inr i, NRequest) c = serve (ESessReq i) c"
| "turn_conn _ c = Some c"

definition turn_result :: "ncs_input \<Rightarrow> conn \<Rightarrow> nat result option" where
  "turn_result x c = map_option fst (newClientSession [x] c)"

text \<open>The first section under the lock.\<close>

definition read_cached :: "tac_client \<Rightarrow> call" where
  "read_cached s =
     (if client_mux (cl_cfg s) then (case cl_conn s of Some k \<Rightarrow> CTry k | None \<Rightarrow> CDial) else CDial)"

text \<open>After a turn on the cached connection, whose error is dropped, and on a new one.\<close>

definition after_try :: "nat \<Rightarrow> nat result option \<Rightarrow> call" where
  "after_try k r = (case r of None \<Rightarrow> CTry k | Some (Inl _) \<Rightarrow> CDial | Some (Inr q) \<Rightarrow> CReturn (Inr (k, q)))"

definition after_open :: "ConnConfig \<Rightarrow> nat \<Rightarrow> nat result option \<Rightarrow> call" where
  "after_open cfg k r =
     (case r of None \<Rightarrow> COpen k | Some (Inl e) \<Rightarrow> CAbort k e
      | Some (Inr q) \<Rightarrow> if client_mux cfg then CCache k q else CReturn (Inr (k, q)))"

text \<open>The second section under the lock.\<close>

definition cache_conn :: "nat \<Rightarrow> nat \<Rightarrow> tac_client \<Rightarrow> tac_client" where
  "cache_conn k q s =
     (if cl_conn s = None then s\<lparr>cl_conn := Some k, cl_clear := cl_clear s @ [k]\<rparr>
      else s\<lparr>cl_close := cl_close s @ [(k, q)]\<rparr>)"

subsection \<open>The interleaving\<close>

inductive client_step :: "tac_client \<Rightarrow> tac_client \<Rightarrow> bool" where
  cl_call: "client_step s (s\<lparr>cl_calls := cl_calls s @ [CStart]\<rparr>)"
| cl_start: "i < length (cl_calls s) \<Longrightarrow> cl_calls s ! i = CStart \<Longrightarrow> client_step s (goto i (read_cached s) s)"
| cl_try: "i < length (cl_calls s) \<Longrightarrow> cl_calls s ! i = CTry k \<Longrightarrow> turn_ready x (cl_conns s ! k) \<Longrightarrow>
    turn_conn x (cl_conns s ! k) = Some c \<Longrightarrow>
    client_step s (goto i (after_try k (turn_result x (cl_conns s ! k))) (set_conn k c s))"
| cl_dial_fails: "i < length (cl_calls s) \<Longrightarrow> cl_calls s ! i = CDial \<Longrightarrow> client_step s (goto i (CReturn (Inl e)) s)"
| cl_dial: "i < length (cl_calls s) \<Longrightarrow> cl_calls s ! i = CDial \<Longrightarrow>
    client_step s (goto i (COpen (length (cl_conns s))) (s\<lparr>cl_conns := cl_conns s @ [newConn True (cl_cfg s)]\<rparr>))"
| cl_open: "i < length (cl_calls s) \<Longrightarrow> cl_calls s ! i = COpen k \<Longrightarrow> turn_ready x (cl_conns s ! k) \<Longrightarrow>
    turn_conn x (cl_conns s ! k) = Some c \<Longrightarrow>
    client_step s (goto i (after_open (cl_cfg s) k (turn_result x (cl_conns s ! k))) (set_conn k c s))"
| cl_abort: "i < length (cl_calls s) \<Longrightarrow> cl_calls s ! i = CAbort k e \<Longrightarrow>
    client_step s (goto i (CReturn (Inl e)) (set_conn k (conn_close (cl_conns s ! k)) s))"
| cl_cache: "i < length (cl_calls s) \<Longrightarrow> cl_calls s ! i = CCache k q \<Longrightarrow>
    client_step s (goto i (CReturn (Inr (k, q))) (cache_conn k q s))"
| cl_forget: "k \<in> set (cl_clear s) \<Longrightarrow> c_done (cl_conns s ! k) \<Longrightarrow>
    client_step s (s\<lparr>cl_conn := None, cl_clear := remove1 k (cl_clear s)\<rparr>)"
| cl_ended: "(k, q) \<in> set (cl_close s) \<Longrightarrow> s_done (c_heap (cl_conns s ! k) ! q) \<Longrightarrow>
    client_step s (set_conn k (conn_close (cl_conns s ! k)) (s\<lparr>cl_close := remove1 (k, q) (cl_close s)\<rparr>))"
| cl_Close: "client_step s (s\<lparr>cl_calls := cl_calls s @ [CClosing (cl_conn s)]\<rparr>)"
| cl_closes: "i < length (cl_calls s) \<Longrightarrow> cl_calls s ! i = CClosing k \<Longrightarrow>
    client_step s (goto i CClosed (case k of None \<Rightarrow> s | Some k \<Rightarrow> set_conn k (conn_close (cl_conns s ! k)) s))"
| cl_conn: "k < length (cl_conns s) \<Longrightarrow> conn_step (cl_conns s ! k) (Some c) \<Longrightarrow> client_step s (set_conn k c s)"

inductive client_reachable :: "ConnConfig \<Rightarrow> tac_client \<Rightarrow> bool" for cfg where
  client_new: "client_reachable cfg (new_client cfg)"
| client_next: "client_reachable cfg s \<Longrightarrow> client_step s s' \<Longrightarrow> client_reachable cfg s'"


subsection \<open>What the steps of a connection keep\<close>

definition grows :: "conn \<Rightarrow> conn \<Rightarrow> bool" where
  "grows c c' = ((c_done c \<longrightarrow> c_done c') \<and> length (c_heap c) \<le> length (c_heap c') \<and> c_client c' = c_client c \<and>
     (\<not> c_mux c \<and> \<not> c_checkMux c \<longrightarrow> \<not> c_mux c' \<and> \<not> c_checkMux c'))"

lemma grows_refl [simp]: "grows c c"
  by (simp add: grows_def)

lemma grows_trans: "grows a b \<Longrightarrow> grows b c \<Longrightarrow> grows a c"
  unfolding grows_def by (meson order_trans)

lemma grows_upd [simp]: "grows c (upd_session r f c)"
  by (simp add: grows_def)

lemma grows_conn_close [simp]: "grows c (conn_close c)"
  by (simp add: grows_def conn_close_def)

lemma grows_field [simp]:
  "grows c (x\<lparr>c_err := e\<rparr>) = grows c x" "grows c (x\<lparr>c_idleT := t\<rparr>) = grows c x"
  "grows c (x\<lparr>c_sess := ss\<rparr>) = grows c x" "grows c (x\<lparr>c_handle := hs\<rparr>) = grows c x"
  "grows c (x\<lparr>c_ncClosed := b\<rparr>) = grows c x" "grows c (x\<lparr>c_served := b\<rparr>) = grows c x"
  "grows (x\<lparr>c_handle := hs\<rparr>) c = grows x c"
  by (simp_all add: grows_def)

lemma grows_timer [simp]: "grows c (timer_fire c)" "grows c (run_closer c)"
  by (simp_all add: grows_def timer_fire_def run_closer_def conn_close_def)

lemma grows_close_channels: "close_channels r c = Some c' \<Longrightarrow> grows c c'"
  by (auto simp: close_channels_def Let_def split: bind_split_asm)

lemma grows_closeSession: "closeSession r c = Some c' \<Longrightarrow> grows c c'"
  by (auto simp: closeSession_def Let_def sess_setErr_def grows_def close_channels_def split: if_splits bind_split_asm)

lemma grows_queue_packet: "queue_packet r p c = Some c' \<Longrightarrow> grows c c'"
  by (auto simp: queue_packet_def Let_def sess_setErr_def split: if_splits dest!: grows_closeSession
      intro: grows_trans)

lemma grows_idle_triggered: "idle_triggered c = (b, c') \<Longrightarrow> grows c c'"
  by (auto simp: idle_triggered_def split: option.splits prod.splits)

lemma grows_add_session: "add_session i c = (r, c') \<Longrightarrow> grows c c'"
  by (auto simp: add_session_def Let_def grows_def)

lemma grows_newSession: "grows c (snd (newSession i c))"
  by (auto simp: newSession_def split: prod.split bool.split dest!: grows_idle_triggered grows_add_session
      intro: grows_trans)

lemma grows_close_all: "close_all rs c = Some c' \<Longrightarrow> grows c c'"
  by (induction rs c rule: close_all.induct)
    (auto split: bind_split_asm dest: grows_close_channels intro: grows_trans)



lemma grows_serve_exit: "serve_exit c = Some c' \<Longrightarrow> grows c c'"
  by (auto simp: serve_exit_def cleanup_def Let_def split: bind_split_asm option.splits dest!: grows_close_all
      intro: grows_trans [OF grows_conn_close])

lemma grows_after_event: "after_event c = Some c' \<Longrightarrow> grows c c'"
  by (auto simp: after_event_def split: if_splits dest: grows_serve_exit)

lemma grows_processPacket:
  assumes "processPacket p c = Some c'"
  shows "grows c c'"
  using assms
  by (auto simp: processPacket_def Let_def grows_def split: if_splits option.splits prod.splits bool.splits
      dest!: grows_queue_packet grows_idle_triggered grows_add_session)

lemma grows_serve: "serve e c = Some c' \<Longrightarrow> grows c c'"
  by (cases e) (auto split: bind_split_asm dest!: grows_after_event grows_processPacket grows_closeSession
      intro: grows_trans grows_newSession grows_serve_exit)

lemma grows_step: "conn_step c (Some c') \<Longrightarrow> grows c c'"
  by (cases rule: conn_step.cases, assumption)
    (auto simp: conn_setErr_def sess_readErr_def sess_setErr_def conn_readErr_def Let_def dest: grows_serve [OF sym]
      intro: grows_trans [OF _ grows_conn_close] split: option.splits)


lemma reachable_step: "reachable client cfg c \<Longrightarrow> conn_step c (Some c') \<Longrightarrow> reachable client cfg c'"
  by (rule reachable.reach_step)

lemma turn_reachable:
  assumes "reachable True cfg c" "c_client c" "turn_ready x c" "turn_conn x c = Some c'"
  shows "reachable True cfg c'"
  using assms(3,4)
proof (cases rule: turn_conn.cases [of "(x, c)"])
  case (1 i c1)
  then show ?thesis using assms by (auto intro: reachable_step step_takeErr)
next
  case (2 i c1)
  have "conn_step c (serve (ESessReq i) c)"
    using assms 2 by (intro step_serve) auto
  then show ?thesis using 2 assms by (auto intro: reachable_step)
qed (use assms in auto)

lemma turn_grows: "turn_conn x c = Some c' \<Longrightarrow> grows c c'"
  by (cases "(x, c)" rule: turn_conn.cases) (auto simp: conn_readErr_def split: option.splits
      intro: grows_trans [OF grows_newSession] dest!: grows_after_event)

lemma newSession_result:
  assumes "newSession i c = (Inr q, c')"
  shows "q < length (c_heap c')"
  using assms by (auto simp: newSession_def add_session_def Let_def split: if_splits prod.splits bool.splits)

lemma turn_session:
  assumes "turn_result x c = Some (Inr q)" "turn_conn x c = Some c'"
  shows "q < length (c_heap c')"
proof -
  obtain i where x: "x = (Inr i, NRequest)" "fst (newSession i c) = Inr q"
    using assms(1) by (cases "([x], c)" rule: newClientSession.cases)
      (auto simp: turn_result_def conn_readErr_def split: option.splits sum.splits prod.splits if_splits)
  then have "q < length (c_heap (snd (newSession i c)))"
    using newSession_result by (cases "newSession i c") auto
  moreover have "grows (snd (newSession i c)) c'"
    using assms(2) x(1) by (auto dest: grows_after_event)
  ultimately show ?thesis by (simp add: grows_def)
qed


subsection \<open>The invariant\<close>

text \<open>The connection that a call has made and not yet handed over.\<close>

fun in_hand :: "call \<Rightarrow> nat option" where
  "in_hand (COpen k) = Some k"
| "in_hand (CAbort k _) = Some k"
| "in_hand (CCache k _) = Some k"
| "in_hand _ = None"

definition session_on :: "tac_client \<Rightarrow> nat \<Rightarrow> nat \<Rightarrow> bool" where
  "session_on s k q = (k < length (cl_conns s) \<and> q < length (c_heap (cl_conns s ! k)))"

fun call_ok :: "tac_client \<Rightarrow> call \<Rightarrow> bool" where
  "call_ok s (CTry k) = (k < length (cl_conns s))"
| "call_ok s (COpen k) = (k < length (cl_conns s))"
| "call_ok s (CAbort k _) = (k < length (cl_conns s))"
| "call_ok s (CCache k q) = (session_on s k q \<and> client_mux (cl_cfg s))"
| "call_ok s (CReturn (Inr (k, q))) = session_on s k q"
| "call_ok s (CClosing (Some k)) = (k < length (cl_conns s))"
| "call_ok s _ = True"

text \<open>A connection is handed over when it is closed, cached, watched, or closes with its sessions.\<close>

definition handed_over :: "tac_client \<Rightarrow> nat \<Rightarrow> bool" where
  "handed_over s k =
     (c_done (cl_conns s ! k) \<or> cl_conn s = Some k \<or> k \<in> fst ` set (cl_close s) \<or>
      \<not> client_mux (cl_cfg s) \<and> c_heap (cl_conns s ! k) \<noteq> [])"

definition conns_ok :: "tac_client \<Rightarrow> bool" where
  "conns_ok s = (\<forall>c\<in>set (cl_conns s). reachable True (cl_cfg s) c \<and> c_client c \<and>
     (\<not> client_mux (cl_cfg s) \<longrightarrow> \<not> c_mux c \<and> \<not> c_checkMux c))"

definition cached_ok :: "tac_client \<Rightarrow> bool" where
  "cached_ok s = (case cl_conn s of None \<Rightarrow> cl_clear s = []
     | Some k \<Rightarrow> cl_clear s = [k] \<and> k < length (cl_conns s))"

definition watched_ok :: "tac_client \<Rightarrow> bool" where
  "watched_ok s = (\<forall>(k, q)\<in>set (cl_close s). session_on s k q \<and> cl_conn s \<noteq> Some k)"

definition sole :: "tac_client \<Rightarrow> nat \<Rightarrow> nat \<Rightarrow> bool" where
  "sole s i k = (cl_conn s \<noteq> Some k \<and> k \<notin> fst ` set (cl_close s) \<and>
     (\<forall>j<length (cl_calls s). in_hand (cl_calls s ! j) = Some k \<longrightarrow> j = i))"

definition calls_ok :: "tac_client \<Rightarrow> bool" where
  "calls_ok s = (\<forall>i<length (cl_calls s). call_ok s (cl_calls s ! i) \<and>
     (\<forall>k. in_hand (cl_calls s ! i) = Some k \<longrightarrow> sole s i k))"

definition owned_ok :: "tac_client \<Rightarrow> bool" where
  "owned_ok s = (\<forall>k<length (cl_conns s). handed_over s k \<or>
     (\<exists>i<length (cl_calls s). in_hand (cl_calls s ! i) = Some k))"

definition client_ok :: "tac_client \<Rightarrow> bool" where
  "client_ok s = (conns_ok s \<and> cached_ok s \<and> watched_ok s \<and> calls_ok s \<and> owned_ok s)"

lemma goto_simps [simp]:
  "cl_cfg (goto i p s) = cl_cfg s" "cl_conn (goto i p s) = cl_conn s" "cl_conns (goto i p s) = cl_conns s"
  "cl_calls (goto i p s) = (cl_calls s)[i := p]" "cl_clear (goto i p s) = cl_clear s" "cl_close (goto i p s) = cl_close s"
  by (simp_all add: goto_def)

lemma set_conn_simps [simp]:
  "cl_cfg (set_conn k c s) = cl_cfg s" "cl_conn (set_conn k c s) = cl_conn s"
  "cl_conns (set_conn k c s) = (cl_conns s)[k := c]" "cl_calls (set_conn k c s) = cl_calls s"
  "cl_clear (set_conn k c s) = cl_clear s" "cl_close (set_conn k c s) = cl_close s"
  by (simp_all add: set_conn_def)

lemma call_ok_cong:
  "call_ok s p \<Longrightarrow> cl_cfg s' = cl_cfg s \<Longrightarrow> length (cl_conns s) \<le> length (cl_conns s') \<Longrightarrow>
   (\<And>k q. session_on s k q \<Longrightarrow> session_on s' k q) \<Longrightarrow> call_ok s' p"
  by (cases "(s, p)" rule: call_ok.cases) auto

lemma session_on_goto [simp]: "session_on (goto i p s) = session_on s"
  by (simp add: session_on_def fun_eq_iff)

lemma call_ok_goto [simp]: "call_ok (goto i p s) r = call_ok s r"
  by (cases "(s, r)" rule: call_ok.cases) simp_all

lemma growsD:
  assumes "grows c c'"
  shows "c_done c \<Longrightarrow> c_done c'" "length (c_heap c) \<le> length (c_heap c')" "c_client c' = c_client c"
    "\<not> c_mux c \<Longrightarrow> \<not> c_checkMux c \<Longrightarrow> \<not> c_mux c' \<and> \<not> c_checkMux c'"
  using assms by (simp_all add: grows_def)

lemma session_on_set_conn:
  assumes "session_on s k q" "grows (cl_conns s ! m) c"
  shows "session_on (set_conn m c s) k q"
  using assms growsD(2) [OF assms(2)] by (cases "k = m") (simp_all add: session_on_def)

lemma handed_over_set_conn:
  assumes "handed_over s k" "grows (cl_conns s ! m) c" "k < length (cl_conns s)"
  shows "handed_over (set_conn m c s) k"
  using assms growsD(1,2) [OF assms(2)] by (cases "k = m") (auto simp: handed_over_def)

lemma calls_okD:
  assumes "client_ok s" "i < length (cl_calls s)"
  shows "call_ok s (cl_calls s ! i)" "in_hand (cl_calls s ! i) = Some k \<Longrightarrow> sole s i k"
  using assms unfolding client_ok_def calls_ok_def by blast+

lemma sole_set_conn [simp]: "sole (set_conn m c s) i k = sole s i k"
  by (simp add: sole_def)

lemma owned_okD:
  assumes "client_ok s" "k < length (cl_conns s)"
  obtains "handed_over s k" | i where "i < length (cl_calls s)" "in_hand (cl_calls s ! i) = Some k"
  using assms unfolding client_ok_def owned_ok_def by blast

text \<open>A connection makes steps.\<close>

lemma client_ok_conn:
  assumes "client_ok s" "k < length (cl_conns s)" "reachable True (cl_cfg s) c" "grows (cl_conns s ! k) c"
  shows "client_ok (set_conn k c s)"
proof -
  let ?s = "set_conn k c s"
  have "cl_conns s ! k \<in> set (cl_conns s)" using assms(2) by simp
  then have c: "c_client c" "\<not> client_mux (cl_cfg s) \<longrightarrow> \<not> c_mux c \<and> \<not> c_checkMux c"
    using assms(1) growsD(3,4) [OF assms(4)] by (simp_all add: client_ok_def conns_ok_def)
  have "d = c \<or> d \<in> set (cl_conns s)" if "d \<in> set (cl_conns ?s)" for d
    using that set_update_subset_insert [of "cl_conns s" k c] by auto
  then have "conns_ok ?s"
    using assms(1,3) c unfolding client_ok_def conns_ok_def set_conn_simps by blast
  moreover have "cached_ok ?s"
    using assms(1) by (simp add: client_ok_def cached_ok_def split: option.splits)
  moreover have "watched_ok ?s"
    using assms(1) session_on_set_conn [OF _ assms(4)] unfolding client_ok_def watched_ok_def set_conn_simps by blast
  moreover have "call_ok ?s p" if "call_ok s p" for p
    by (rule call_ok_cong [OF that]) (simp_all add: session_on_set_conn [OF _ assms(4)])
  then have "calls_ok ?s"
    using assms(1) unfolding client_ok_def calls_ok_def set_conn_simps sole_set_conn by blast
  moreover have "owned_ok ?s"
    using assms(1) handed_over_set_conn [OF _ assms(4)] by (auto simp: client_ok_def owned_ok_def)
  ultimately show ?thesis by (simp add: client_ok_def)
qed

text \<open>A call goes on; a connection that it held is handed over.\<close>

lemma client_ok_goto:
  assumes "client_ok s" "i < length (cl_calls s)" "call_ok s p" "in_hand p = None \<or> in_hand p = in_hand (cl_calls s ! i)"
    and "\<And>k. in_hand (cl_calls s ! i) = Some k \<Longrightarrow> in_hand p = None \<Longrightarrow> handed_over s k"
  shows "client_ok (goto i p s)"
proof -
  let ?c = "(cl_calls s)[i := p]"
  have held: "in_hand (cl_calls s ! j) = Some k" if "in_hand (?c ! j) = Some k" for j k
    using that assms(2,4) by (cases "j = i") auto
  have "calls_ok (goto i p s)"
    unfolding calls_ok_def
  proof (intro allI impI conjI)
    fix j assume j: "j < length (cl_calls (goto i p s))"
    show "call_ok (goto i p s) (cl_calls (goto i p s) ! j)"
      using assms(1,3) j by (cases "j = i") (simp_all add: client_ok_def calls_ok_def)
    fix k assume "in_hand (cl_calls (goto i p s) ! j) = Some k"
    then have "sole s j k" using calls_okD(2) [OF assms(1), of j k] held [of j k] j by simp
    then show "sole (goto i p s) j k" using held by (auto simp: sole_def)
  qed
  moreover have "owned_ok (goto i p s)"
    unfolding owned_ok_def
  proof (intro allI impI)
    fix k assume "k < length (cl_conns (goto i p s))"
    then have k: "k < length (cl_conns s)" by simp
    show "handed_over (goto i p s) k \<or>
        (\<exists>j<length (cl_calls (goto i p s)). in_hand (cl_calls (goto i p s) ! j) = Some k)"
    proof (cases rule: owned_okD [OF assms(1) k])
      case (2 j)
      show ?thesis
      proof (cases "j = i \<and> in_hand p = None")
        case True
        then show ?thesis using assms(5) [of k] 2 by (simp add: handed_over_def)
      next
        case False
        then have "in_hand (?c ! j) = Some k" using 2 assms(2,4) by (cases "j = i") auto
        then show ?thesis using 2(1) by auto
      qed
    qed (simp add: handed_over_def)
  qed
  ultimately show ?thesis
    using assms(1) by (simp add: client_ok_def conns_ok_def cached_ok_def watched_ok_def split: option.splits)
qed


lemma client_ok_turn:
  assumes "client_ok s" "k < length (cl_conns s)" "turn_ready x (cl_conns s ! k)" "turn_conn x (cl_conns s ! k) = Some c"
  shows "client_ok (set_conn k c s)" "turn_result x (cl_conns s ! k) = Some (Inr q) \<Longrightarrow> session_on (set_conn k c s) k q"
proof -
  have "reachable True (cl_cfg s) (cl_conns s ! k)" "c_client (cl_conns s ! k)"
    using assms(1,2) by (simp_all add: client_ok_def conns_ok_def)
  then show "client_ok (set_conn k c s)"
    using assms by (intro client_ok_conn turn_reachable [OF _ _ assms(3,4)] turn_grows [OF assms(4)])
  show "session_on (set_conn k c s) k q" if "turn_result x (cl_conns s ! k) = Some (Inr q)"
    using turn_session [OF that assms(4)] assms(2) by (simp add: session_on_def)
qed

lemma client_ok_closed:
  assumes "client_ok s" "k < length (cl_conns s)"
  shows "client_ok (set_conn k (conn_close (cl_conns s ! k)) s)"
  using assms by (intro client_ok_conn reachable_step [OF _ step_close]) (simp_all add: client_ok_def conns_ok_def)

text \<open>A new call, with no connection in hand.\<close>

lemma client_ok_add:
  assumes "client_ok s" "call_ok s p" "in_hand p = None"
  shows "client_ok (s\<lparr>cl_calls := cl_calls s @ [p]\<rparr>)"
proof -
  let ?s = "s\<lparr>cl_calls := cl_calls s @ [p]\<rparr>"
  have c: "call_ok ?s r = call_ok s r" for r
    by (cases "(s, r)" rule: call_ok.cases) (simp_all add: session_on_def)
  have h: "handed_over ?s = handed_over s" by (simp add: handed_over_def fun_eq_iff)
  have held: "j < length (cl_calls s) \<and> in_hand (cl_calls s ! j) = Some k"
    if "j < Suc (length (cl_calls s))" "in_hand ((cl_calls s @ [p]) ! j) = Some k" for j k
    using that assms(3) by (cases "j = length (cl_calls s)") (simp_all add: nth_append)
  have "conns_ok ?s" "cached_ok ?s" "watched_ok ?s"
    using assms(1) by (simp_all add: client_ok_def conns_ok_def cached_ok_def watched_ok_def session_on_def split: option.splits)
  moreover have "calls_ok ?s"
    unfolding calls_ok_def
  proof (intro allI impI conjI)
    fix j assume j: "j < length (cl_calls ?s)"
    show "call_ok ?s (cl_calls ?s ! j)"
      using calls_okD(1) [OF assms(1), of j] j assms(2) c by (cases "j = length (cl_calls s)") (simp_all add: nth_append)
    fix k assume "in_hand (cl_calls ?s ! j) = Some k"
    then have "sole s j k" using held [of j k] j calls_okD(2) [OF assms(1), of j k] by simp
    then show "sole ?s j k" using held by (auto simp: sole_def)
  qed
  moreover have "owned_ok ?s"
    unfolding owned_ok_def h
  proof (intro allI impI)
    fix k assume "k < length (cl_conns ?s)"
    then have k: "k < length (cl_conns s)" by simp
    show "handed_over s k \<or> (\<exists>j<length (cl_calls ?s). in_hand (cl_calls ?s ! j) = Some k)"
    proof (cases rule: owned_okD [OF assms(1) k])
      case (2 j)
      then show ?thesis by (auto simp: nth_append intro!: exI [of _ j])
    qed simp
  qed
  ultimately show ?thesis by (simp add: client_ok_def)
qed

text \<open>A new connection, in the hand of the call that dialled it.\<close>

lemma in_hand_bound: "call_ok s p \<Longrightarrow> in_hand p = Some k \<Longrightarrow> k < length (cl_conns s)"
  by (cases "(s, p)" rule: call_ok.cases) (auto simp: session_on_def)

lemma client_ok_dial:
  assumes "client_ok s" "i < length (cl_calls s)" "in_hand (cl_calls s ! i) = None"
  shows "client_ok (goto i (COpen (length (cl_conns s))) (s\<lparr>cl_conns := cl_conns s @ [newConn True (cl_cfg s)]\<rparr>))"
    (is "client_ok (goto i ?p ?s)")
proof -
  let ?n = "length (cl_conns s)" and ?c = "(cl_calls s)[i := COpen (length (cl_conns s))]"
  have so: "session_on ?s k q" if "session_on s k q" for k q
    using that by (simp add: session_on_def nth_append)
  have co: "call_ok ?s r" if "call_ok s r" for r
    by (rule call_ok_cong [OF that]) (simp_all add: so)
  have held: "(if j = i then k = ?n else in_hand (cl_calls s ! j) = Some k \<and> k \<noteq> ?n)"
    if "j < length (cl_calls s)" "in_hand (?c ! j) = Some k" for j k
    using that assms(2) in_hand_bound [OF calls_okD(1) [OF assms(1)], of j k] by (cases "j = i") auto
  have new: "cl_conn s \<noteq> Some ?n" "?n \<notin> fst ` set (cl_close s)"
    using assms(1) by (auto simp: client_ok_def cached_ok_def watched_ok_def session_on_def)
  have "reachable True (cl_cfg s) (newConn True (cl_cfg s))" by (rule reach_new)
  then have "conns_ok (goto i ?p ?s)"
    using assms(1) by (auto simp: client_ok_def conns_ok_def newConn_def client_mux_def)
  moreover have "cached_ok (goto i ?p ?s)" "watched_ok (goto i ?p ?s)"
    using assms(1) so by (auto simp: client_ok_def cached_ok_def watched_ok_def split: option.splits)
  moreover have "calls_ok (goto i ?p ?s)"
    unfolding calls_ok_def
  proof (intro allI impI conjI)
    fix j assume "j < length (cl_calls (goto i ?p ?s))"
    then have j: "j < length (cl_calls s)" by simp
    show "call_ok (goto i ?p ?s) (cl_calls (goto i ?p ?s) ! j)"
      using co [OF calls_okD(1) [OF assms(1) j]] j by (cases "j = i") simp_all
    fix k assume "in_hand (cl_calls (goto i ?p ?s) ! j) = Some k"
    then have k: "in_hand (?c ! j) = Some k" by simp
    have u: "j' = j" if "j' < length (cl_calls s)" "in_hand (?c ! j') = Some k" for j'
    proof (cases "j = i")
      case True
      then show ?thesis using held [OF j k] held [OF that] by (cases "j' = i") simp_all
    next
      case False
      then have "sole s j k" "k \<noteq> ?n" using held [OF j k] calls_okD(2) [OF assms(1) j, of k] by simp_all
      then show ?thesis using held [OF that] that(1) by (cases "j' = i") (simp_all add: sole_def)
    qed
    show "sole (goto i ?p ?s) j k"
    proof (cases "j = i")
      case True
      then show ?thesis using held [OF j k] new u by (simp add: sole_def)
    next
      case False
      then show ?thesis using held [OF j k] calls_okD(2) [OF assms(1) j, of k] u by (simp add: sole_def)
    qed
  qed
  moreover have "owned_ok (goto i ?p ?s)"
    unfolding owned_ok_def
  proof (intro allI impI)
    fix k assume k: "k < length (cl_conns (goto i ?p ?s))"
    show "handed_over (goto i ?p ?s) k \<or>
        (\<exists>j<length (cl_calls (goto i ?p ?s)). in_hand (cl_calls (goto i ?p ?s) ! j) = Some k)"
    proof (cases "k = ?n")
      case True
      then show ?thesis using assms(2) by (auto intro: exI [of _ i])
    next
      case False
      with k have k: "k < length (cl_conns s)" by simp
      show ?thesis
      proof (cases rule: owned_okD [OF assms(1) k])
        case 1
        then show ?thesis using k by (simp add: handed_over_def nth_append)
      next
        case (2 j)
        then have "j \<noteq> i" using assms(3) by auto
        then show ?thesis using 2 by (auto intro: exI [of _ j])
      qed
    qed
  qed
  ultimately show ?thesis by (simp add: client_ok_def)
qed


text \<open>The second section under the lock: the connection is cached or watched.\<close>

lemma client_ok_cache:
  assumes "client_ok s" "i < length (cl_calls s)" "cl_calls s ! i = CCache k q"
  shows "client_ok (goto i (CReturn (Inr (k, q))) (cache_conn k q s))" (is "client_ok (goto i ?p ?s)")
proof -
  have so: "session_on s k q" and sole: "sole s i k"
    using calls_okD(1) [OF assms(1,2)] calls_okD(2) [OF assms(1,2), of k] assms(3) by simp_all
  have keep: "cl_conns ?s = cl_conns s" "cl_calls ?s = cl_calls s" "cl_cfg ?s = cl_cfg s"
    by (simp_all add: cache_conn_def)
  have on: "session_on ?s = session_on s" by (simp add: session_on_def keep fun_eq_iff)
  have co: "call_ok ?s r" if "call_ok s r" for r
    by (rule call_ok_cong [OF that]) (simp_all add: keep on)
  have held: "j \<noteq> i \<and> k' \<noteq> k \<and> in_hand (cl_calls s ! j) = Some k'"
    if "j < length (cl_calls s)" "in_hand ((cl_calls s)[i := ?p] ! j) = Some k'" for j k'
    using that sole assms(2) by (cases "j = i") (auto simp: sole_def)
  have "conns_ok (goto i ?p ?s)"
    using assms(1) by (simp add: client_ok_def conns_ok_def keep)
  moreover have "cached_ok (goto i ?p ?s)"
    using assms(1) so by (simp add: client_ok_def cached_ok_def cache_conn_def session_on_def split: option.splits)
  moreover have "session_on ?s m r \<and> cl_conn ?s \<noteq> Some m" if "(m, r) \<in> set (cl_close ?s)" for m r
  proof -
    have "session_on s m r \<and> cl_conn s \<noteq> Some m" if "(m, r) \<in> set (cl_close s)"
      using assms(1) that unfolding client_ok_def watched_ok_def by blast
    moreover have "(m, r) \<in> set (cl_close s) \<or> (m, r) = (k, q) \<and> cl_conn s \<noteq> None"
      using that by (auto simp: cache_conn_def split: if_splits)
    moreover have "(m, r) \<in> set (cl_close s) \<Longrightarrow> m \<noteq> k" using sole by (force simp: sole_def)
    ultimately show ?thesis using so sole unfolding on by (auto simp: cache_conn_def sole_def)
  qed
  then have "watched_ok (goto i ?p ?s)" by (auto simp: watched_ok_def)
  moreover have "calls_ok (goto i ?p ?s)"
    unfolding calls_ok_def
  proof (intro allI impI conjI)
    fix j assume "j < length (cl_calls (goto i ?p ?s))"
    then have j: "j < length (cl_calls s)" by (simp add: keep)
    show "call_ok (goto i ?p ?s) (cl_calls (goto i ?p ?s) ! j)"
      using co [OF calls_okD(1) [OF assms(1) j]] j so on keep by (cases "j = i") simp_all
    fix k' assume "in_hand (cl_calls (goto i ?p ?s) ! j) = Some k'"
    then have k': "in_hand ((cl_calls s)[i := ?p] ! j) = Some k'" by (simp add: keep)
    then have sk: "sole s j k'" "k' \<noteq> k" using held [OF j k'] calls_okD(2) [OF assms(1) j] by simp_all
    then have "cl_conn ?s \<noteq> Some k'" "k' \<notin> fst ` set (cl_close ?s)"
      by (simp_all add: sole_def cache_conn_def)
    then show "sole (goto i ?p ?s) j k'"
      using held sk(1) by (auto simp: sole_def keep)
  qed
  moreover have "owned_ok (goto i ?p ?s)"
    unfolding owned_ok_def
  proof (intro allI impI)
    fix k' assume "k' < length (cl_conns (goto i ?p ?s))"
    then have k: "k' < length (cl_conns s)" by (simp add: keep)
    show "handed_over (goto i ?p ?s) k' \<or>
        (\<exists>j<length (cl_calls (goto i ?p ?s)). in_hand (cl_calls (goto i ?p ?s) ! j) = Some k')"
    proof (cases rule: owned_okD [OF assms(1) k])
      case 1
      then show ?thesis by (auto simp: handed_over_def cache_conn_def)
    next
      case (2 j)
      show ?thesis
      proof (cases "j = i")
        case True
        then show ?thesis using 2 assms(3) by (auto simp: handed_over_def cache_conn_def)
      next
        case False
        then show ?thesis using 2 by (auto simp: keep intro: exI [of _ j])
      qed
    qed
  qed
  ultimately show ?thesis by (simp add: client_ok_def)
qed

lemma client_ok_drop:
  assumes "client_ok s" "c_done (cl_conns s ! k)" and t: "cl_cfg t = cl_cfg s" "cl_conns t = cl_conns s" "cl_calls t = cl_calls s"
    and c: "cached_ok t" "cl_conn t = None \<and> cl_conn s = Some k \<or> cl_conn t = cl_conn s"
    and w: "set (cl_close t) \<subseteq> set (cl_close s)" "\<And>m. m \<in> fst ` set (cl_close s) \<Longrightarrow> m = k \<or> m \<in> fst ` set (cl_close t)"
  shows "client_ok t"
proof -
  have on: "session_on t = session_on s" by (simp add: session_on_def t fun_eq_iff)
  have co: "call_ok t r" if "call_ok s r" for r
    by (rule call_ok_cong [OF that]) (simp_all add: t on)
  have so: "sole t i m" if "sole s i m" for i m
    using that c(2) w(1) by (auto simp: sole_def t)
  have ho: "handed_over t m" if "handed_over s m" for m
    using that assms(2) c(2) w(2) [of m] unfolding handed_over_def t by (metis option.inject)
  have "conns_ok t" using assms(1) by (simp add: client_ok_def conns_ok_def t)
  moreover have "session_on t m q \<and> cl_conn t \<noteq> Some m" if "(m, q) \<in> set (cl_close t)" for m q
  proof -
    have "session_on s m q \<and> cl_conn s \<noteq> Some m"
      using assms(1) w(1) that unfolding client_ok_def watched_ok_def by blast
    then show ?thesis using c(2) by (auto simp: on)
  qed
  then have "watched_ok t" by (auto simp: watched_ok_def)
  moreover have "calls_ok t" using assms(1) co so unfolding client_ok_def calls_ok_def t by blast
  moreover have "owned_ok t" using assms(1) ho unfolding client_ok_def owned_ok_def t by blast
  ultimately show ?thesis using c(1) by (simp add: client_ok_def)
qed

lemma client_ok_step:
  assumes "client_step s s'" "client_ok s"
  shows "client_ok s' \<and> cl_cfg s' = cl_cfg s"
  using assms(1)
proof (cases rule: client_step.cases)
  case cl_call
  then show ?thesis using client_ok_add [OF assms(2), of CStart] by simp
next
  case (cl_start i)
  have "call_ok s (read_cached s)" "in_hand (read_cached s) = None"
    using assms(2) by (auto simp: read_cached_def client_ok_def cached_ok_def split: option.splits)
  then show ?thesis using cl_start client_ok_goto [OF assms(2) cl_start(2)] by simp
next
  case (cl_try i k x c)
  have k: "k < length (cl_conns s)" using calls_okD(1) [OF assms(2) cl_try(2)] cl_try(3) by simp
  note turn = client_ok_turn [OF assms(2) k cl_try(4,5)]
  have "call_ok (set_conn k c s) (after_try k (turn_result x (cl_conns s ! k)))"
    using turn(2) k by (auto simp: after_try_def split: option.splits sum.splits)
  moreover have "in_hand (after_try k (turn_result x (cl_conns s ! k))) = None"
    by (simp add: after_try_def split: option.splits sum.splits)
  ultimately show ?thesis using cl_try client_ok_goto [OF turn(1), of i] by simp
next
  case (cl_dial_fails i e)
  then show ?thesis using client_ok_goto [OF assms(2) cl_dial_fails(2), of "CReturn (Inl e)"] by simp
next
  case (cl_dial i)
  then show ?thesis using client_ok_dial [OF assms(2) cl_dial(2)] by simp
next
  case (cl_open i k x c)
  let ?p = "after_open (cl_cfg s) k (turn_result x (cl_conns s ! k))"
  have k: "k < length (cl_conns s)" using calls_okD(1) [OF assms(2) cl_open(2)] cl_open(3) by simp
  note turn = client_ok_turn [OF assms(2) k cl_open(4,5)]
  have "call_ok (set_conn k c s) ?p"
    using turn(2) k by (auto simp: after_open_def split: option.splits sum.splits)
  moreover have "in_hand ?p = None \<or> in_hand ?p = in_hand (cl_calls (set_conn k c s) ! i)"
    using cl_open(3) by (simp add: after_open_def split: option.splits sum.splits)
  moreover have "handed_over (set_conn k c s) k" if "in_hand ?p = None"
    using that turn(2) k by (auto simp: after_open_def handed_over_def session_on_def split: option.splits sum.splits if_splits)
  ultimately show ?thesis using cl_open client_ok_goto [OF turn(1), of i ?p] by simp
next
  case (cl_abort i k e)
  have k: "k < length (cl_conns s)" using calls_okD(1) [OF assms(2) cl_abort(2)] cl_abort(3) by simp
  then show ?thesis
    using cl_abort client_ok_goto [OF client_ok_closed [OF assms(2) k], of i "CReturn (Inl e)"] by (simp add: handed_over_def)
next
  case (cl_cache i k q)
  then show ?thesis using client_ok_cache [OF assms(2) cl_cache(2,3)] by (simp add: cache_conn_def)
next
  case (cl_forget k)
  have "cl_conn s = Some k" "cl_clear s = [k]"
    using assms(2) cl_forget(2) by (auto simp: client_ok_def cached_ok_def split: option.splits)
  then show ?thesis
    using client_ok_drop [OF assms(2) cl_forget(3), of s'] by (simp add: cl_forget(1) cached_ok_def)
next
  case (cl_ended k q)
  have k: "k < length (cl_conns s)" using assms(2) cl_ended(2) by (auto simp: client_ok_def watched_ok_def session_on_def)
  let ?t = "set_conn k (conn_close (cl_conns s ! k)) s"
  have "cached_ok s'" using client_ok_closed [OF assms(2) k] by (simp add: cl_ended(1) client_ok_def cached_ok_def split: option.splits)
  moreover have "m = k \<or> m \<in> fst ` set (remove1 (k, q) (cl_close s))" if m: "m \<in> fst ` set (cl_close s)" for m
  proof -
    obtain r where r: "(m, r) \<in> set (cl_close s)" using m by auto
    show ?thesis
    proof (cases "(m, r) = (k, q)")
      case False
      then have "(m, r) \<in> set (remove1 (k, q) (cl_close s))" using r by (simp add: in_set_remove1)
      then show ?thesis by force
    qed simp
  qed
  ultimately show ?thesis
    using client_ok_drop [OF client_ok_closed [OF assms(2) k], of k s'] k set_remove1_subset [of "(k, q)" "cl_close s"]
    by (simp add: cl_ended(1) set_conn_def)
next
  case cl_Close
  have "call_ok s (CClosing (cl_conn s))"
    using assms(2) by (cases "cl_conn s") (simp_all add: client_ok_def cached_ok_def)
  then show ?thesis using client_ok_add [OF assms(2), of "CClosing (cl_conn s)"] cl_Close by simp
next
  case (cl_closes i k)
  then show ?thesis
    using calls_okD(1) [OF assms(2) cl_closes(2)] client_ok_closed [OF assms(2)] assms(2)
      client_ok_goto [of "case k of None \<Rightarrow> s | Some k \<Rightarrow> set_conn k (conn_close (cl_conns s ! k)) s" i CClosed]
    by (cases k) simp_all
next
  case (cl_conn k c)
  have "reachable True (cl_cfg s) c"
    using assms(2) cl_conn(2,3) by (auto simp: client_ok_def conns_ok_def intro: reachable_step)
  then show ?thesis using client_ok_conn [OF assms(2) cl_conn(2) _ grows_step [OF cl_conn(3)]] cl_conn(1) by simp
qed

lemma client_reachable_ok: "client_reachable cfg s \<Longrightarrow> client_ok s \<and> cl_cfg s = cfg"
proof (induction rule: client_reachable.induct)
  case client_new
  show ?case by (simp add: new_client_def client_ok_def conns_ok_def cached_ok_def watched_ok_def calls_ok_def owned_ok_def)
next
  case (client_next s s')
  then show ?case using client_ok_step by metis
qed


subsection \<open>Properties\<close>

lemma one_session_conn:
  assumes "client_ok s" "k < length (cl_conns s)" "\<not> client_mux (cl_cfg s)" "c_heap (cl_conns s ! k) \<noteq> []"
  shows "c_done (cl_conns s ! k) \<or> c_sess (cl_conns s ! k) \<noteq> []"
proof -
  let ?c = "cl_conns s ! k"
  have "reachable True (cl_cfg s) ?c" "\<not> c_mux ?c"
    using assms(1-3) by (simp_all add: client_ok_def conns_ok_def)
  moreover have "c_served ?c \<Longrightarrow> c_done ?c" "settled ?c"
    using reachable_ok [OF calculation(1)] by (simp_all add: conn_ok_def exit_ok_def)
  ultimately show ?thesis using assms(4) by (auto simp: settled_def)
qed

text \<open>
  C12.  A client does not leak connections, whatever calls of \<open>newSession\<close> and \<open>Close\<close> overlap and whatever
  the goroutines of the connections do.  Each connection it made is closed, is the cached one, closes with
  the session that a goroutine watches on it, carries an open session and closes with the last one, or
  is still in the hand of exactly one call.  Exactly one goroutine waits to forget the cached connection, none
  when there is none, and none closes the cached connection with a session.  When a watched session has
  ended, the next step of its goroutine closes the connection.
\<close>

theorem no_connection_leaked:
  assumes "client_reachable cfg s" "k < length (cl_conns s)"
  shows "(c_done (cl_conns s ! k) \<or> cl_conn s = Some k \<or> (\<exists>q. (k, q) \<in> set (cl_close s) \<and> session_on s k q) \<or>
      \<not> client_mux cfg \<and> c_sess (cl_conns s ! k) \<noteq> [] \<or>
      (\<exists>!i. i < length (cl_calls s) \<and> in_hand (cl_calls s ! i) = Some k)) \<and>
    cl_clear s = (case cl_conn s of None \<Rightarrow> [] | Some j \<Rightarrow> [j]) \<and>
    (cl_conn s = Some k \<longrightarrow> k \<notin> fst ` set (cl_close s)) \<and>
    (\<forall>q. (k, q) \<in> set (cl_close s) \<longrightarrow> s_done (c_heap (cl_conns s ! k) ! q) \<longrightarrow>
       (\<exists>s'. client_step s s' \<and> c_done (cl_conns s' ! k)))"
proof -
  have ok: "client_ok s" "cl_cfg s = cfg" using client_reachable_ok [OF assms(1)] by simp_all
  have w: "session_on s k q" "cl_conn s \<noteq> Some k" if "(k, q) \<in> set (cl_close s)" for q
    using ok(1) that unfolding client_ok_def watched_ok_def by blast+
  have "\<exists>!i. i < length (cl_calls s) \<and> in_hand (cl_calls s ! i) = Some k"
    if "i < length (cl_calls s)" "in_hand (cl_calls s ! i) = Some k" for i
    using that calls_okD(2) [OF ok(1) that] unfolding sole_def by blast
  moreover have "c_done (cl_conns s ! k) \<or> cl_conn s = Some k \<or> (\<exists>q. (k, q) \<in> set (cl_close s) \<and> session_on s k q) \<or>
      \<not> client_mux cfg \<and> c_sess (cl_conns s ! k) \<noteq> []" if "handed_over s k"
    using that w(1) one_session_conn [OF ok(1) assms(2)] ok(2) by (auto simp: handed_over_def)
  ultimately have "c_done (cl_conns s ! k) \<or> cl_conn s = Some k \<or> (\<exists>q. (k, q) \<in> set (cl_close s) \<and> session_on s k q) \<or>
      \<not> client_mux cfg \<and> c_sess (cl_conns s ! k) \<noteq> [] \<or>
      (\<exists>!i. i < length (cl_calls s) \<and> in_hand (cl_calls s ! i) = Some k)"
    by (metis owned_okD [OF ok(1) assms(2)])
  moreover have "cl_clear s = (case cl_conn s of None \<Rightarrow> [] | Some j \<Rightarrow> [j])"
    using ok(1) by (simp add: client_ok_def cached_ok_def split: option.splits)
  moreover have "\<exists>s'. client_step s s' \<and> c_done (cl_conns s' ! k)"
    if "(k, q) \<in> set (cl_close s)" "s_done (c_heap (cl_conns s ! k) ! q)" for q
    using client_step.cl_ended [OF that] assms(2) by (intro exI conjI) (assumption, simp)
  ultimately show ?thesis using w(2) by auto
qed


text \<open>Two calls that both find no cached connection: the second connection is watched.\<close>

definition legacy_cfg :: ConnConfig where
  "legacy_cfg = \<lparr>cf_Mux = False, cf_LegacyMux = True, cf_Secret = [115], cf_IdleTimeout = 60,
     cf_ReadTimeout = 0, cf_WriteTimeout = 0\<rparr>"

definition opened_conn :: conn where
  "opened_conn = (newConn True legacy_cfg)\<lparr>c_sess := [(7, 0)], c_heap := [new_session 7]\<rparr>"

lemma open_turn:
  "turn_ready (Inr 7, NRequest) (newConn True legacy_cfg)"
  "turn_conn (Inr 7, NRequest) (newConn True legacy_cfg) = Some opened_conn"
  "turn_result (Inr 7, NRequest) (newConn True legacy_cfg) = Some (Inr 0)"
  by (simp_all add: turn_result_def opened_conn_def newConn_def legacy_cfg_def newSession_def idle_triggered_def
      add_session_def after_event_def Let_def)

definition two_calls :: "call \<Rightarrow> call \<Rightarrow> conn list \<Rightarrow> tac_client" where
  "two_calls p q cs = (new_client legacy_cfg)\<lparr>cl_calls := [p, q], cl_conns := cs\<rparr>"

definition racing_client :: tac_client where
  "racing_client = (two_calls (CReturn (Inr (0, 0))) (CReturn (Inr (1, 0))) [opened_conn, opened_conn])
     \<lparr>cl_conn := Some 0, cl_clear := [0], cl_close := [(1, 0)]\<rparr>"

lemma racing_client_reachable: "client_reachable legacy_cfg racing_client"
proof -
  note d = two_calls_def new_client_def goto_def set_conn_def read_cached_def client_mux_def legacy_cfg_def
  let ?n = "newConn True legacy_cfg"
  have "client_reachable legacy_cfg (two_calls CStart CStart [])"
    using client_next [OF client_next [OF client_new cl_call] cl_call, of legacy_cfg] by (simp add: two_calls_def new_client_def)
  then have "client_reachable legacy_cfg (two_calls CDial CStart [])"
    by (rule client_next) (use cl_start [of 0 "two_calls CStart CStart []"] in \<open>simp add: d\<close>)
  then have "client_reachable legacy_cfg (two_calls CDial CDial [])"
    by (rule client_next) (use cl_start [of 1 "two_calls CDial CStart []"] in \<open>simp add: d\<close>)
  then have "client_reachable legacy_cfg (two_calls (COpen 0) CDial [?n])"
    by (rule client_next) (use cl_dial [of 0 "two_calls CDial CDial []"] in \<open>simp add: d\<close>)
  then have "client_reachable legacy_cfg (two_calls (COpen 0) (COpen 1) [?n, ?n])"
    by (rule client_next) (use cl_dial [of 1 "two_calls (COpen 0) CDial [?n]"] in \<open>simp add: d\<close>)
  then have "client_reachable legacy_cfg (two_calls (CCache 0 0) (COpen 1) [opened_conn, ?n])"
    by (rule client_next) (use cl_open [of 0 "two_calls (COpen 0) (COpen 1) [?n, ?n]" 0 "(Inr 7, NRequest)" opened_conn] open_turn
        in \<open>simp add: d after_open_def\<close>)
  then have "client_reachable legacy_cfg (two_calls (CCache 0 0) (CCache 1 0) [opened_conn, opened_conn])"
    by (rule client_next) (use cl_open [of 1 "two_calls (CCache 0 0) (COpen 1) [opened_conn, ?n]" 1 "(Inr 7, NRequest)" opened_conn] open_turn
        in \<open>simp add: d after_open_def\<close>)
  then have "client_reachable legacy_cfg ((two_calls (CReturn (Inr (0, 0))) (CCache 1 0) [opened_conn, opened_conn])\<lparr>cl_conn := Some 0, cl_clear := [0]\<rparr>)"
    by (rule client_next) (use cl_cache [of 0 "two_calls (CCache 0 0) (CCache 1 0) [opened_conn, opened_conn]" 0 0]
        in \<open>simp add: d cache_conn_def\<close>)
  then show ?thesis
    by (rule client_next) (use cl_cache [of 1 "(two_calls (CReturn (Inr (0, 0))) (CCache 1 0) [opened_conn, opened_conn])\<lparr>cl_conn := Some 0, cl_clear := [0]\<rparr>" 1 0]
        in \<open>simp add: d cache_conn_def racing_client_def\<close>)
qed

theorem no_connection_leaked_witness:
  "cl_conn racing_client = Some 0 \<and> 0 \<notin> fst ` set (cl_close racing_client) \<and> (\<exists>q. (1, q) \<in> set (cl_close racing_client))"
  using no_connection_leaked [OF racing_client_reachable, of 0] no_connection_leaked [OF racing_client_reachable, of 1]
  by (simp add: racing_client_def two_calls_def new_client_def)


subsection \<open>The accept loop of a server\<close>

text \<open>What \<open>l.Accept\<close> returns: a connection, an error that is \<open>Temporary\<close>, or another error.\<close>

datatype accepted = Accepted nat | Temporary go_error | Fatal go_error

definition next_delay :: "int \<Rightarrow> int" where
  "next_delay tempDelay =
     (let tempDelay = (if tempDelay = 0 then 5 * 10 ^ 6 else tempDelay * 2)
      in if tempDelay > 10 ^ 9 then 10 ^ 9 else tempDelay)"

text \<open>
  \<open>Server.Serve\<close> over the results of \<open>Accept\<close>: the connections that \<open>ServeConn\<close> is started for, the
  times slept, and the error returned once the listener is closed; \<open>None\<close> while it waits for the next.
\<close>

fun Server_Serve :: "accepted list \<Rightarrow> int \<Rightarrow> nat list \<times> int list \<times> go_error option" where
  "Server_Serve [] tempDelay = ([], [], None)"
| "Server_Serve (Accepted c # rest) tempDelay =
     (case Server_Serve rest 0 of (cs, ds, r) \<Rightarrow> (c # cs, ds, r))"
| "Server_Serve (Temporary err # rest) tempDelay =
     (let tempDelay = next_delay tempDelay
      in case Server_Serve rest tempDelay of (cs, ds, r) \<Rightarrow> (cs, tempDelay # ds, r))"
| "Server_Serve (Fatal err # rest) tempDelay = ([], [], Some err)"

text \<open>
  Every connection accepted before the first fatal error is served, in order, and the waits stay between
  five milliseconds and a second.
\<close>

fun is_fatal :: "accepted \<Rightarrow> bool" where
  "is_fatal (Fatal _) = True"
| "is_fatal _ = False"

fun accepted_conn :: "accepted \<Rightarrow> nat option" where
  "accepted_conn (Accepted c) = Some c"
| "accepted_conn _ = None"

lemma Server_Serve_accepts:
  assumes "d = 0 \<or> 5 * 10 ^ 6 \<le> d"
  shows "fst (Server_Serve rs d) = List.map_filter accepted_conn (takeWhile (\<lambda>r. \<not> is_fatal r) rs) \<and>
    (\<forall>t\<in>set (fst (snd (Server_Serve rs d))). 5 * 10 ^ 6 \<le> t \<and> t \<le> 10 ^ 9) \<and>
    (snd (snd (Server_Serve rs d)) = None \<longleftrightarrow> \<not> list_ex is_fatal rs)"
  using assms
proof (induction rs d rule: Server_Serve.induct)
  case (2 c rest d)
  then show ?case by (cases "Server_Serve rest 0") (simp add: List.map_filter_def)
next
  case (3 err rest d)
  have b: "5 * 10 ^ 6 \<le> next_delay d" "next_delay d \<le> 10 ^ 9" using 3(2) by (auto simp: next_delay_def Let_def)
  then show ?case using 3(1) [OF refl] by (cases "Server_Serve rest (next_delay d)") (simp add: List.map_filter_def Let_def)
qed (simp_all add: List.map_filter_def)

end
