(* ===== verification/Framing.thy ===== *)
theory Framing
  imports Crypt
begin

text \<open>
  Reading raw packets off a connection: \<open>readPacketHeader\<close>, \<open>readPacketBody\<close>,
  \<open>readPacket\<close> and \<open>readLoop\<close> of \<open>pkg/public/tacplus/conn.go\<close>.  The network is the list
  of what the reads of \<open>net.Conn\<close> can return, each some bytes with an optional error; a read
  with a smaller buffer than the bytes at hand leaves the rest, and a read with nothing left
  to return blocks.  \<open>None\<close> is a call that does not return, in the blocking read.
\<close>

definition io_EOF :: go_error where "io_EOF = GoError ''EOF''"
definition errUnexpectedEOF :: go_error where "errUnexpectedEOF = GoError ''unexpected EOF''"

lemma EOF_not_unexpected [simp]: "errUnexpectedEOF \<noteq> io_EOF" "io_EOF \<noteq> errUnexpectedEOF"
  by (simp_all add: io_EOF_def errUnexpectedEOF_def)

subsection \<open>The receiving side of \<open>net.Conn\<close>\<close>

text \<open>
  \<open>rd\<close>: what the reads return; \<open>dl\<close>: the results of the coming \<open>SetReadDeadline\<close> calls,
  which succeed once the list is used up; \<open>armed\<close>: a read deadline is set.
\<close>

record net =
  rd :: "(bytes \<times> go_error option) list"
  dl :: "go_error option list"
  armed :: bool

fun net_read :: "nat \<Rightarrow> net \<Rightarrow> (bytes \<times> go_error option \<times> net) option" where
  "net_read m w =
     (case rd w of
        [] \<Rightarrow> None
      | (c, e) # es \<Rightarrow>
          if length c \<le> m then Some (c, e, w\<lparr>rd := es\<rparr>)
          else Some (take m c, None, w\<lparr>rd := (drop m c, e) # es\<rparr>))"

definition set_deadline :: "bool \<Rightarrow> net \<Rightarrow> go_error option \<times> net" where
  "set_deadline on w =
     (case dl w of
        [] \<Rightarrow> (None, w\<lparr>armed := on\<rparr>)
      | None # ds \<Rightarrow> (None, w\<lparr>dl := ds, armed := on\<rparr>)
      | Some e # ds \<Rightarrow> (Some e, w\<lparr>dl := ds\<rparr>))"

subsection \<open>Reading one packet\<close>

text \<open>\<open>rt\<close> is \<open>ReadTimeout > 0\<close>; \<open>h\<close> is the part of the header that has been read.\<close>

partial_function (option) header_loop ::
  "bool \<Rightarrow> bytes \<Rightarrow> net \<Rightarrow> (bytes result \<times> net) option" where
  "header_loop rt h w =
     Option.bind (net_read (hdrLen - length h) w) (\<lambda>(c, e, w).
       let (e, w) = (if h = [] \<and> c \<noteq> [] \<and> rt \<and> (e = None \<or> length c = hdrLen)
                     then set_deadline True w else (e, w));
           h = h @ c
       in if length h = hdrLen then Some (Inr h, w)
          else if e = None then header_loop rt h w
          else if e = Some io_EOF \<and> h \<noteq> [] then Some (Inl errUnexpectedEOF, w)
          else Some (Inl (the e), w))"

definition readPacketHeader :: "bool \<Rightarrow> net \<Rightarrow> (bytes result \<times> net) option" where
  "readPacketHeader rt w = header_loop rt [] w"

partial_function (option) body_loop ::
  "nat \<Rightarrow> bytes \<Rightarrow> net \<Rightarrow> (bytes result \<times> net) option" where
  "body_loop l p w =
     Option.bind (net_read (l - length p) w) (\<lambda>(c, e, w).
       let p = p @ c
       in if length p = l then Some (Inr p, w)
          else if e = None then body_loop l p w
          else if e = Some io_EOF then Some (Inl errUnexpectedEOF, w)
          else Some (Inl (the e), w))"

definition readPacketBody :: "bytes \<Rightarrow> net \<Rightarrow> (bytes result \<times> net) option" where
  "readPacketBody h w =
     (let s = unat (be32 (drop hdrBodyLen h))
      in if s > maxBodyLen then Some (Inl (GoError ''packet too large''), w)
         else if s = 0 then Some (Inr h, w)
         else body_loop (length h + s) h w)"

definition readPacket :: "bool \<Rightarrow> net \<Rightarrow> (bytes result \<times> net) option" where
  "readPacket rt w =
     (case (if rt then set_deadline False w else (None, w)) of
        (Some e, w) \<Rightarrow> Some (Inl e, w)
      | (None, w) \<Rightarrow>
          (case readPacketHeader rt w of
             None \<Rightarrow> None
           | Some (Inl e, w) \<Rightarrow> Some (Inl e, w)
           | Some (Inr h, w) \<Rightarrow>
               let v = h ! hdrVer
               in if drop_bit 4 v \<noteq> verMajor
                  then Some (Inl (GoError (''unsupported major version '' @ dec_digits (unat (drop_bit 4 v)))), w)
                  else readPacketBody h w))"

subsection \<open>\<open>readLoop\<close>\<close>

text \<open>
  \<open>sees_done k\<close> says whether the select of the \<open>k\<close>-th turn takes its \<open>c.done\<close> case.  The
  result holds the packets sent to \<open>c.rc\<close>, in order, and how the loop ended: by seeing
  \<open>c.done\<close> closed, or by closing the connection, with the error left in \<open>c.err\<close> if any.
\<close>

datatype loop_exit = SawDone | ClosedConn "go_error option"

partial_function (option) readLoop ::
  "bool \<Rightarrow> (nat \<Rightarrow> bool) \<Rightarrow> nat \<Rightarrow> bytes list \<Rightarrow> net \<Rightarrow> (bytes list \<times> loop_exit) option" where
  "readLoop rt sees_done k out w =
     Option.bind (readPacket rt w) (\<lambda>(r, w).
       case r of
         Inl err \<Rightarrow>
           Some (out, if sees_done k then SawDone
                      else ClosedConn (if err = io_EOF then None else Some err))
       | Inr p \<Rightarrow>
           if sees_done k then Some (out, SawDone)
           else readLoop rt sees_done (Suc k) (out @ [p]) w)"

subsection \<open>Streams without deadline errors\<close>

text \<open>
  \<open>feeds w bs t\<close>: the coming reads return the bytes \<open>bs\<close> without an error, cut into
  chunks in any way (empty chunks included), and then whatever \<open>t\<close> holds.
\<close>

definition feeds :: "net \<Rightarrow> bytes \<Rightarrow> (bytes \<times> go_error option) list \<Rightarrow> bool" where
  "feeds w bs t =
     (\<exists>cs. rd w = map (\<lambda>c. (c, None)) cs @ t \<and> concat cs = bs \<and> dl w = [])"

lemma feeds_deadline: "feeds w bs t \<Longrightarrow> set_deadline on w = (None, w\<lparr>armed := on\<rparr>)"
  by (auto simp: feeds_def set_deadline_def)

lemma feeds_armed [simp]: "feeds (w\<lparr>armed := a\<rparr>) bs t = feeds w bs t"
  by (simp add: feeds_def)

lemma feeds_chunks:
  assumes "feeds w bs t"
  obtains cs where "rd w = map (\<lambda>c. (c, None)) cs @ t" "bs = concat cs" "dl w = []"
  using assms by (auto simp: feeds_def)

lemma feedsI: "rd w = map (\<lambda>c. (c, None)) cs @ t \<Longrightarrow> dl w = [] \<Longrightarrow> feeds w (concat cs) t"
  by (auto simp: feeds_def)

lemma body_loop_chunks:
  assumes "rd w = map (\<lambda>c. (c, None)) cs @ t" "dl w = []"
    and "length p < l" "l - length p \<le> length (concat cs)"
  shows "\<exists>w'. body_loop l p w = Some (Inr (p @ take (l - length p) (concat cs)), w') \<and>
           feeds w' (drop (l - length p) (concat cs)) t"
  using assms
proof (induction cs arbitrary: w p)
  case (Cons c cs)
  let ?m = "l - length p"
  consider "length c < ?m" | "length c = ?m" | "length c > ?m" by linarith
  then show ?case
  proof cases
    case 1
    with Cons.prems Cons.IH [of "w\<lparr>rd := map (\<lambda>c. (c, None)) cs @ t\<rparr>" "p @ c"]
    show ?thesis by (subst body_loop.simps) (auto simp: diff_diff_left Let_def)
  next
    case 2
    with Cons.prems feedsI [of "w\<lparr>rd := map (\<lambda>c. (c, None)) cs @ t\<rparr>" cs t]
    show ?thesis by (subst body_loop.simps) (simp add: Let_def)
  next
    case 3
    with Cons.prems feedsI [of "w\<lparr>rd := map (\<lambda>c. (c, None)) (drop ?m c # cs) @ t\<rparr>" "drop ?m c # cs" t]
    show ?thesis by (subst body_loop.simps) (simp add: Let_def min_def)
  qed
qed simp

lemma body_loop_cut:
  assumes "rd w = map (\<lambda>c. (c, None)) cs @ ([], Some e) # t"
    and "length p < l" "length (concat cs) < l - length p"
  shows "\<exists>w'. body_loop l p w = Some (Inl (if e = io_EOF then errUnexpectedEOF else e), w')"
  using assms
proof (induction cs arbitrary: w p)
  case Nil
  then show ?case by (subst body_loop.simps) (simp add: Let_def)
next
  case (Cons c cs)
  with Cons.IH [of "w\<lparr>rd := map (\<lambda>c. (c, None)) cs @ ([], Some e) # t\<rparr>" "p @ c"]
  show ?case by (subst body_loop.simps) (simp add: Let_def)
qed

lemma header_loop_chunks:
  assumes "rd w = map (\<lambda>c. (c, None)) cs @ t" "dl w = []"
    and "length h < hdrLen" "hdrLen - length h \<le> length (concat cs)"
  shows "\<exists>w'. header_loop rt h w = Some (Inr (h @ take (hdrLen - length h) (concat cs)), w') \<and>
           feeds w' (drop (hdrLen - length h) (concat cs)) t"
  using assms
proof (induction cs arbitrary: w h)
  case (Cons c cs)
  let ?m = "hdrLen - length h"
  let ?a = "\<lambda>w. w\<lparr>armed := (if h = [] \<and> c \<noteq> [] \<and> rt then True else armed w)\<rparr>"
  consider "length c < ?m" | "length c = ?m" | "length c > ?m" by linarith
  then show ?case
  proof cases
    case 1
    with Cons.prems Cons.IH [of "?a (w\<lparr>rd := map (\<lambda>c. (c, None)) cs @ t\<rparr>)" "h @ c"]
    show ?thesis
      by (subst header_loop.simps) (auto simp: diff_diff_left set_deadline_def Let_def)
  next
    case 2
    with Cons.prems feedsI [of "?a (w\<lparr>rd := map (\<lambda>c. (c, None)) cs @ t\<rparr>)" cs t]
    show ?thesis by (subst header_loop.simps) (auto simp: Let_def set_deadline_def)
  next
    case 3
    with Cons.prems
      feedsI [of "?a (w\<lparr>rd := map (\<lambda>c. (c, None)) (drop ?m c # cs) @ t\<rparr>)" "drop ?m c # cs" t]
    show ?thesis by (subst header_loop.simps) (auto simp: Let_def min_def set_deadline_def)
  qed
qed simp

lemma header_loop_cut:
  assumes "rd w = map (\<lambda>c. (c, None)) cs @ ([], Some e) # t" "dl w = []"
    and "length h < hdrLen" "length (concat cs) < hdrLen - length h"
  shows "\<exists>w'. header_loop rt h w =
           Some (Inl (if e = io_EOF \<and> h @ concat cs \<noteq> [] then errUnexpectedEOF else e), w')"
  using assms
proof (induction cs arbitrary: w h)
  case Nil
  then show ?case by (subst header_loop.simps) (simp add: Let_def)
next
  case (Cons c cs)
  define E where "E = (if e = io_EOF \<and> h @ concat (c # cs) \<noteq> [] then errUnexpectedEOF else e)"
  have l: "length (h @ c) < hdrLen" "length (concat cs) < hdrLen - length (h @ c)"
    using Cons.prems(3,4) by auto
  have ih: "\<exists>w'. header_loop rt (h @ c) w2 = Some (Inl E, w')"
    if "rd w2 = map (\<lambda>c. (c, None)) cs @ ([], Some e) # t" "dl w2 = []" for w2
    using Cons.IH [OF that l] unfolding append_assoc E_def concat.simps .
  have "\<exists>w'. header_loop rt h w = Some (Inl E, w')"
    using Cons.prems(1,2) l ih [of "w\<lparr>rd := map (\<lambda>c. (c, None)) cs @ ([], Some e) # t\<rparr>"]
      ih [of "w\<lparr>rd := map (\<lambda>c. (c, None)) cs @ ([], Some e) # t, armed := True\<rparr>"]
    by (subst header_loop.simps) (auto simp: Let_def set_deadline_def)
  then show ?case by (simp only: E_def)
qed

subsection \<open>Whole packets\<close>

definition wire_packet :: "bytes \<Rightarrow> bool" where
  "wire_packet p =
     (hdrLen \<le> length p \<and> drop_bit 4 (p ! hdrVer) = verMajor \<and>
      length p = hdrLen + unat (be32 (drop hdrBodyLen p)) \<and>
      length p \<le> hdrLen + maxBodyLen)"

definition unread :: "net \<Rightarrow> bytes" where
  "unread w = concat (map fst (rd w))"

lemma be32_header: "hdrLen \<le> length p \<Longrightarrow> be32 (drop hdrBodyLen (take hdrLen p)) = be32 (drop hdrBodyLen p)"
  by (simp add: be32_def hdr_defs)

lemma readPacketBody_chunks:
  assumes "feeds w (b @ rest) t" "length h = hdrLen" "wire_packet (h @ b)"
  shows "\<exists>w'. readPacketBody h w = Some (Inr (h @ b), w') \<and> feeds w' rest t"
proof -
  obtain cs where cs: "rd w = map (\<lambda>c. (c, None)) cs @ t" "b @ rest = concat cs" "dl w = []"
    using assms(1) by (rule feeds_chunks)
  have s: "unat (be32 (drop hdrBodyLen h)) = length b" "length b \<le> maxBodyLen"
    using assms(2,3) be32_header [of "h @ b"] by (auto simp: wire_packet_def)
  show ?thesis
  proof (cases "b = []")
    case True
    with assms s show ?thesis by (simp add: readPacketBody_def)
  next
    case False
    with cs body_loop_chunks [of w cs t h "length h + length b"] s
    show ?thesis by (simp add: readPacketBody_def flip: cs(2))
  qed
qed

lemma readPacket_chunks:
  assumes "feeds w (p @ rest) t" "wire_packet p"
  shows "\<exists>w'. readPacket rt w = Some (Inr p, w') \<and> feeds w' rest t"
proof -
  let ?w = "if rt then w\<lparr>armed := False\<rparr> else w"
  have "feeds ?w (p @ rest) t" using assms(1) by simp
  then obtain cs where cs: "rd ?w = map (\<lambda>c. (c, None)) cs @ t" "p @ rest = concat cs" "dl ?w = []"
    by (rule feeds_chunks)
  have l: "hdrLen \<le> length p" and v: "drop_bit 4 (p ! hdrVer) = verMajor"
    using assms(2) unfolding wire_packet_def by blast+
  have "\<exists>w1. readPacketHeader rt ?w = Some (Inr (take hdrLen p), w1) \<and>
      feeds w1 (drop hdrLen p @ rest) t"
    using header_loop_chunks [OF cs(1) cs(3), of "[]" rt] l unfolding cs(2) [symmetric]
    by (simp add: readPacketHeader_def hdrLen_def)
  then obtain w1 where
    w1: "readPacketHeader rt ?w = Some (Inr (take hdrLen p), w1)"
        "feeds w1 (drop hdrLen p @ rest) t"
    by blast
  have "length (take hdrLen p) = hdrLen" "wire_packet (take hdrLen p @ drop hdrLen p)"
    using l assms(2) by simp_all
  from readPacketBody_chunks [OF w1(2) this]
  obtain w2 where "readPacketBody (take hdrLen p) w1 = Some (Inr p, w2)" "feeds w2 rest t"
    unfolding append_take_drop_id by blast
  moreover have "drop_bit 4 (take hdrLen p ! hdrVer) = verMajor"
    using v by (simp add: hdr_defs)
  ultimately show ?thesis
    using w1(1) feeds_deadline [OF assms(1)] by (cases rt) (simp_all add: readPacket_def Let_def)
qed

lemma readPacket_cut:
  assumes "feeds w q (([], Some e) # t)" "wire_packet (q @ x)" "x \<noteq> []"
  shows "\<exists>w'. readPacket rt w =
           Some (Inl (if e = io_EOF \<and> q \<noteq> [] then errUnexpectedEOF else e), w')"
proof -
  let ?w = "if rt then w\<lparr>armed := False\<rparr> else w"
  have "feeds ?w q (([], Some e) # t)" using assms(1) by simp
  then obtain cs where cs: "rd ?w = map (\<lambda>c. (c, None)) cs @ ([], Some e) # t" "q = concat cs" "dl ?w = []"
    by (rule feeds_chunks)
  note d = feeds_deadline [OF assms(1)]
  show ?thesis
  proof (cases "length q < hdrLen")
    case True
    have "\<exists>w'. readPacketHeader rt ?w =
        Some (Inl (if e = io_EOF \<and> q \<noteq> [] then errUnexpectedEOF else e), w')"
      using header_loop_cut [OF cs(1) cs(3), of "[]" rt] True unfolding cs(2) [symmetric]
      by (simp add: readPacketHeader_def hdrLen_def)
    then show ?thesis using d by (auto simp: readPacket_def)
  next
    case False
    let ?h = "take hdrLen q"
    have "\<exists>w1. readPacketHeader rt ?w = Some (Inr ?h, w1) \<and>
        feeds w1 (drop hdrLen q) (([], Some e) # t)"
      using header_loop_chunks [OF cs(1) cs(3), of "[]" rt] False unfolding cs(2) [symmetric]
      by (simp add: readPacketHeader_def hdrLen_def)
    then obtain w1 where
      w1: "readPacketHeader rt ?w = Some (Inr ?h, w1)"
          "feeds w1 (drop hdrLen q) (([], Some e) # t)"
      by blast
    have s: "unat (be32 (drop hdrBodyLen ?h)) = length (q @ x) - hdrLen"
        "length (q @ x) - hdrLen \<le> maxBodyLen"
      using assms(2) be32_header [of "q @ x"] False by (auto simp: wire_packet_def)
    have v: "drop_bit 4 (?h ! hdrVer) = verMajor"
      using assms(2) False by (cases q) (simp_all add: wire_packet_def hdr_defs)
    obtain cs' where cs': "rd w1 = map (\<lambda>c. (c, None)) cs' @ ([], Some e) # t"
        "drop hdrLen q = concat cs'"
      using w1(2) by (rule feeds_chunks)
    have "length (concat cs') = length q - hdrLen" using cs'(2) by (metis length_drop)
    with assms(3) False have l: "length ?h < length (q @ x)"
        "length (concat cs') < length (q @ x) - length ?h"
      by (cases x; simp add: less_diff_conv)+
    obtain w2 where "body_loop (length (q @ x)) ?h w1 =
        Some (Inl (if e = io_EOF then errUnexpectedEOF else e), w2)"
      using body_loop_cut [OF cs'(1) l] by blast
    moreover have "q \<noteq> []" "length (q @ x) - hdrLen \<noteq> 0" "hdrLen + (length (q @ x) - hdrLen) = length (q @ x)"
      using False l(1) by (auto simp: hdrLen_def)
    ultimately show ?thesis
      using w1(1) v s False d
      by (auto simp: readPacket_def readPacketBody_def Let_def split: if_splits)
  qed
qed

lemma readLoop_chunks:
  assumes "feeds w (concat ps @ q) (([], Some e) # t)" "\<forall>p\<in>set ps. wire_packet p"
    and "wire_packet (q @ x)" "x \<noteq> []" "\<forall>k. \<not> sees_done k"
  shows "readLoop rt sees_done k out w = Some (out @ ps,
           ClosedConn (if e = io_EOF then (if q = [] then None else Some errUnexpectedEOF) else Some e))"
  using assms
proof (induction ps arbitrary: w k out)
  case Nil
  then obtain w' where "readPacket rt w =
      Some (Inl (if e = io_EOF \<and> q \<noteq> [] then errUnexpectedEOF else e), w')"
    using readPacket_cut [of w q e t x rt] by auto
  with Nil.prems show ?case by (subst readLoop.simps) auto
next
  case (Cons p ps)
  then obtain w' where "readPacket rt w = Some (Inr p, w')"
    and "feeds w' (concat ps @ q) (([], Some e) # t)"
    using readPacket_chunks [of w p "concat ps @ q" _ rt] by (metis append_assoc concat.simps(2)
      list.set_intros(1))
  moreover from this Cons.IH [of w' "Suc k" "out @ [p]"] Cons.prems(2-5)
  have "readLoop rt sees_done (Suc k) (out @ [p]) w' = Some (out @ p # ps,
      ClosedConn (if e = io_EOF then (if q = [] then None else Some errUnexpectedEOF) else Some e))"
    by (metis append.assoc append_Cons append_Nil list.set_intros(2))
  moreover have "\<not> sees_done k" using Cons.prems(5) by blast
  ultimately show ?case by (subst readLoop.simps) (simp only: bind.simps prod.case sum.case if_False)
qed

subsection \<open>What a returned packet looks like\<close>

lemma net_read_unread:
  "net_read m w = Some (c, e, w') \<Longrightarrow> unread w = c @ unread w' \<and> length c \<le> m"
  by (auto simp: unread_def split: list.splits if_splits)

lemma set_deadline_unread: "set_deadline on w = (e, w') \<Longrightarrow> unread w' = unread w"
  by (auto simp: unread_def set_deadline_def split: list.splits option.splits)

lemma body_loop_result:
  assumes "body_loop l p w = Some y"
  shows "\<forall>q. fst y = Inr q \<longrightarrow> length q = l \<and> p @ unread w = q @ unread (snd y)"
proof (rule body_loop.raw_induct [OF _ assms, where P = "\<lambda>l p w y. \<forall>q. fst y = Inr q \<longrightarrow>
    length q = l \<and> p @ unread w = q @ unread (snd y)"])
  fix f l p w y
  assume ih: "\<And>l p w y. f l p w = Some y \<Longrightarrow>
      \<forall>q. fst y = Inr q \<longrightarrow> length q = l \<and> p @ unread w = q @ unread (snd y)"
    and y: "net_read (l - length p) w \<bind> (\<lambda>(c, e, w). let p = p @ c
       in if length p = l then Some (Inr p, w)
          else if e = None then f l p w
          else if e = Some io_EOF then Some (Inl errUnexpectedEOF, w)
          else Some (Inl (the e), w)) = Some y"
  from y obtain c e v where v: "net_read (l - length p) w = Some (c, e, v)"
    by (auto simp: bind_eq_Some_conv simp del: net_read.simps)
  with y ih [of l "p @ c" v y] net_read_unread [OF v]
  show "\<forall>q. fst y = Inr q \<longrightarrow> length q = l \<and> p @ unread w = q @ unread (snd y)"
    by (auto simp: Let_def simp del: net_read.simps split: if_splits)
qed

lemma header_loop_result:
  assumes "header_loop rt h w = Some y"
  shows "\<forall>q. fst y = Inr q \<longrightarrow> length q = hdrLen \<and> h @ unread w = q @ unread (snd y)"
proof (rule header_loop.raw_induct [OF _ assms, where P = "\<lambda>rt h w y. \<forall>q. fst y = Inr q \<longrightarrow>
    length q = hdrLen \<and> h @ unread w = q @ unread (snd y)"])
  fix f rt h w y
  assume ih: "\<And>rt h w y. f rt h w = Some y \<Longrightarrow>
      \<forall>q. fst y = Inr q \<longrightarrow> length q = hdrLen \<and> h @ unread w = q @ unread (snd y)"
    and y: "net_read (hdrLen - length h) w \<bind> (\<lambda>(c, e, w).
       let (e, w) = (if h = [] \<and> c \<noteq> [] \<and> rt \<and> (e = None \<or> length c = hdrLen)
                     then set_deadline True w else (e, w));
           h = h @ c
       in if length h = hdrLen then Some (Inr h, w)
          else if e = None then f rt h w
          else if e = Some io_EOF \<and> h \<noteq> [] then Some (Inl errUnexpectedEOF, w)
          else Some (Inl (the e), w)) = Some y"
  from y obtain c e v where v: "net_read (hdrLen - length h) w = Some (c, e, v)"
    by (auto simp: bind_eq_Some_conv simp del: net_read.simps)
  obtain e' v' where d: "(if h = [] \<and> c \<noteq> [] \<and> rt \<and> (e = None \<or> length c = hdrLen)
      then set_deadline True v else (e, v)) = (e', v')"
    by (metis surj_pair)
  then have "unread v' = unread v" by (auto dest: set_deadline_unread split: if_splits)
  moreover have "(if length (h @ c) = hdrLen then Some (Inr (h @ c), v')
      else if e' = None then f rt (h @ c) v'
      else if e' = Some io_EOF \<and> h @ c \<noteq> [] then Some (Inl errUnexpectedEOF, v')
      else Some (Inl (the e'), v')) = Some y"
    using y unfolding v bind.simps prod.case d Let_def .
  ultimately show "\<forall>q. fst y = Inr q \<longrightarrow> length q = hdrLen \<and> h @ unread w = q @ unread (snd y)"
    using ih [of rt "h @ c" v' y] net_read_unread [OF v] by (auto split: if_splits)
qed

lemma readPacketBody_result:
  assumes "readPacketBody h w = Some (Inr p, w')" "length h = hdrLen"
  shows "h @ unread w = p @ unread w' \<and> take hdrLen p = h \<and>
    length p = hdrLen + unat (be32 (drop hdrBodyLen p)) \<and> length p \<le> hdrLen + maxBodyLen"
proof -
  let ?s = "unat (be32 (drop hdrBodyLen h))"
  have "h @ unread w = p @ unread w' \<and> length p = hdrLen + ?s \<and> ?s \<le> maxBodyLen"
    using assms body_loop_result [of "hdrLen + ?s" h w "(Inr p, w')"]
    by (auto simp: readPacketBody_def Let_def split: if_splits)
  moreover from this have "take hdrLen p = h"
    using assms(2) by (metis append_eq_append_conv_if le_add1 take_all_iff take_append_exact)
  ultimately show ?thesis
    using be32_header [of p] by simp
qed

lemma readPacket_result:
  assumes "readPacket rt w = Some (Inr p, w')"
  shows "wire_packet p \<and> unread w = p @ unread w'"
proof -
  obtain e w0 where w0: "(if rt then set_deadline False w else (None, w)) = (e, w0)"
    by (metis surj_pair)
  then have u: "unread w0 = unread w" by (auto dest: set_deadline_unread split: if_splits)
  from assms w0 have "e = None" by (cases e) (simp_all add: readPacket_def)
  with assms w0 obtain h w1 where h: "readPacketHeader rt w0 = Some (Inr h, w1)"
      "drop_bit 4 (h ! hdrVer) = verMajor" "readPacketBody h w1 = Some (Inr p, w')"
    by (auto simp: readPacket_def Let_def split: option.splits sum.splits if_splits)
  have l: "length h = hdrLen" "unread w0 = h @ unread w1"
    using header_loop_result [OF h(1) [unfolded readPacketHeader_def]] by auto
  note b = readPacketBody_result [OF h(3) l(1)]
  moreover have "h ! hdrVer = p ! hdrVer"
    using conjunct1 [OF conjunct2 [OF b]] by (metis hdrLen_def hdrVer_def nth_take zero_less_numeral)
  ultimately show ?thesis using u l h(2) by (simp add: wire_packet_def)
qed

subsection \<open>Properties\<close>

text \<open>
  C5.  Framing does not depend on how the network cuts the bytes: when the stream is a
  sequence \<open>ps\<close> of well-formed packets followed by a proper prefix \<open>q\<close> of one more and then
  the error \<open>e\<close>, \<open>readLoop\<close> sends exactly \<open>ps\<close>, in order, and closes the connection; it leaves
  no error behind for an \<open>EOF\<close> between two packets, \<open>unexpected EOF\<close> for one inside a packet,
  and any other error as it is.
\<close>

theorem readLoop_any_chunking:
  assumes "concat cs = concat ps @ q" "\<forall>p\<in>set ps. wire_packet p" "wire_packet (q @ x)" "x \<noteq> []"
  shows "readLoop rt (\<lambda>_. False) 0 [] \<lparr>rd = map (\<lambda>c. (c, None)) cs @ [([], Some e)], dl = [], armed = a\<rparr> =
    Some (ps, ClosedConn (if e = io_EOF then (if q = [] then None else Some errUnexpectedEOF)
                          else Some e))"
proof -
  have "feeds \<lparr>rd = map (\<lambda>c. (c, None)) cs @ [([], Some e)], dl = [], armed = a\<rparr> (concat ps @ q)
      [([], Some e)]"
    unfolding feeds_def assms(1) [symmetric] by (rule exI [of _ cs]) simp
  from readLoop_chunks [OF this assms(2-4), of "\<lambda>_. False" rt 0 "[]"] show ?thesis
    by (simp only: append_Nil not_False_eq_True simp_thms)
qed

definition sample_packet :: bytes where
  "sample_packet = [0xc0, 1, 1, 0, 0, 0, 0, 7, 0, 0, 0, 2, 65, 66]"

lemma wire_sample: "wire_packet sample_packet"
  by (simp add: wire_packet_def sample_packet_def hdr_defs verMajor_def be32_def maxBodyLen_def
    drop_bit_eq_div)

theorem readLoop_any_chunking_witness:
  "readLoop True (\<lambda>_. False) 0 []
     \<lparr>rd = [([0xc0], None), ([1, 1, 0, 0, 0, 0, 7, 0, 0, 0, 2, 65], None), ([], None),
            ([66, 0xc0], None), ([], Some io_EOF)], dl = [], armed = False\<rparr> =
   Some ([sample_packet], ClosedConn (Some errUnexpectedEOF))"
  using readLoop_any_chunking [of "[[0xc0], [1, 1, 0, 0, 0, 0, 7, 0, 0, 0, 2, 65], [], [66, 0xc0]]"
      "[sample_packet]" "[0xc0]" "tl sample_packet" True io_EOF False] wire_sample
  by (simp add: sample_packet_def)

text \<open>
  C6.  Whatever the network returns, errors and deadline failures included, a packet that
  \<open>readPacket\<close> returns consists of exactly the next unread bytes, has the major version of
  the protocol, is as long as its header says and never longer than \<open>hdrLen + maxBodyLen\<close>.
\<close>

theorem readPacket_exact:
  assumes "readPacket rt w = Some (Inr p, w')"
  shows "unread w = p @ unread w' \<and> drop_bit 4 (p ! hdrVer) = verMajor \<and>
    length p = hdrLen + unat (be32 (drop hdrBodyLen p)) \<and> length p \<le> hdrLen + maxBodyLen"
  using readPacket_result [OF assms] by (simp add: wire_packet_def)

theorem readPacket_exact_witness:
  "\<exists>w'. readPacket False \<lparr>rd = [(sample_packet @ [1], None)], dl = [], armed = False\<rparr> =
     Some (Inr sample_packet, w') \<and> unread w' = [1]"
proof -
  let ?w = "\<lparr>rd = [(sample_packet @ [1], None)], dl = [], armed = False\<rparr>"
  have "feeds ?w (sample_packet @ [1]) []"
    unfolding feeds_def by (rule exI [of _ "[sample_packet @ [1]]"]) simp
  from readPacket_chunks [OF this wire_sample, of False]
  obtain w' where w': "readPacket False ?w = Some (Inr sample_packet, w')" by blast
  with readPacket_exact [OF w'] show ?thesis by (auto simp: unread_def)
qed

end
