(* ===== verification/GoStrings.thy ===== *)
theory GoStrings
  imports Prelude "HOL-Library.List_Lexorder" "HOL-Library.Char_ord" "HOL-Library.Sublist"
begin

text \<open>
  The functions of Go's \<open>strings\<close>, \<open>sort\<close> and \<open>strconv\<close> packages that the program uses, on
  byte strings.  White space and case folding are those of ASCII: what the program folds or
  trims are protocol keywords, names, addresses and configuration values.
\<close>

subsection \<open>\<open>strings.Split\<close> and \<open>strings.Join\<close>\<close>

fun Split :: "char \<Rightarrow> string \<Rightarrow> string list" where
  "Split c [] = [[]]"
| "Split c (x # s) = (if x = c then [] # Split c s else (case Split c s of p # ps \<Rightarrow> (x # p) # ps | [] \<Rightarrow> [[x]]))"

fun Join :: "string \<Rightarrow> string list \<Rightarrow> string" where
  "Join sep [] = []"
| "Join sep [p] = p"
| "Join sep (p # q # ps) = p @ sep @ Join sep (q # ps)"

lemma Split_not_Nil [simp]: "Split c s \<noteq> []"
  by (cases s) (auto split: list.splits)

lemma Split_parts: "p \<in> set (Split c s) \<Longrightarrow> c \<notin> set p"
  by (induction s arbitrary: p) (auto split: list.splits if_splits)

lemma Split_plain: "c \<notin> set p \<Longrightarrow> Split c p = [p]"
  by (induction p) auto

lemma Split_append: "c \<notin> set p \<Longrightarrow> Split c (p @ c # s) = p # Split c s"
  by (induction p) auto

lemma Split_Join:
  "ps \<noteq> [] \<Longrightarrow> \<forall>p\<in>set ps. c \<notin> set p \<Longrightarrow> Split c (Join [c] ps) = ps"
  by (induction "[c]" ps rule: Join.induct) (auto simp: Split_plain Split_append)

lemma Join_Split: "Join [c] (Split c s) = s"
proof (induction s)
  case (Cons x s)
  then show ?case
    by (cases "Split c s" rule: remdups_adj.cases) auto
qed simp

lemma Join_inj:
  assumes "Join [c] ps = Join [c] qs" "ps \<noteq> []" "qs \<noteq> []"
    and "\<forall>p\<in>set ps. c \<notin> set p" "\<forall>q\<in>set qs. c \<notin> set q"
  shows "ps = qs"
proof -
  have "ps = Split c (Join [c] ps)" using Split_Join [of ps c] assms(2,4) by simp
  also have "\<dots> = Split c (Join [c] qs)" by (simp only: assms(1))
  also have "\<dots> = qs" using Split_Join [of qs c] assms(3,5) by simp
  finally show ?thesis .
qed

lemma Split_chars: "p \<in> set (Split c s) \<Longrightarrow> set p \<subseteq> set s"
  by (induction s arbitrary: p) (force split: list.splits if_splits)+

lemma Join_chars: "set (Join sep ps) \<subseteq> set sep \<union> (\<Union>p\<in>set ps. set p)"
  by (induction sep ps rule: Join.induct) auto

subsection \<open>Prefixes, suffixes, searching\<close>

definition IndexByte :: "string \<Rightarrow> char \<Rightarrow> int" where
  "IndexByte s c = (if c \<in> set s then int (length (takeWhile (\<lambda>x. x \<noteq> c) s)) else - 1)"

definition TrimSuffix :: "string \<Rightarrow> string \<Rightarrow> string" where
  "TrimSuffix s suf = (if suffix suf s then take (length s - length suf) s else s)"

definition HasPrefix :: "string \<Rightarrow> string \<Rightarrow> bool" where
  "HasPrefix s p = (take (length p) s = p)"

definition str_Contains :: "string \<Rightarrow> string \<Rightarrow> bool" where
  "str_Contains s sub = list_ex (\<lambda>i. HasPrefix (drop i s) sub) [0..<Suc (length s)]"

definition is_space :: "char \<Rightarrow> bool" where
  "is_space c = (c \<in> {CHR 0x09, CHR 0x0A, CHR 0x0B, CHR 0x0C, CHR 0x0D, CHR '' ''})"

definition TrimSpace :: "string \<Rightarrow> string" where
  "TrimSpace s = rev (dropWhile is_space (rev (dropWhile is_space s)))"

definition lower :: "char \<Rightarrow> char" where
  "lower c = (if CHR ''A'' \<le> c \<and> c \<le> CHR ''Z'' then char_of (of_char c + 32 :: nat) else c)"

definition EqualFold :: "string \<Rightarrow> string \<Rightarrow> bool" where
  "EqualFold s t = (map lower s = map lower t)"

definition ToLower :: "string \<Rightarrow> string" where
  "ToLower s = map lower s"

subsection \<open>\<open>%q\<close> of \<open>fmt\<close>\<close>

text \<open>Bytes above ASCII belong to printable runes of valid UTF-8 text and stay as they are.\<close>

definition hex_digit :: "nat \<Rightarrow> char" where
  "hex_digit n = ''0123456789abcdef'' ! n"

definition hex_byte :: "nat \<Rightarrow> string" where
  "hex_byte n = [hex_digit (n div 16 mod 16), hex_digit (n mod 16)]"

definition quote_char :: "char \<Rightarrow> string" where
  "quote_char c =
     (if c = CHR 0x22 then [CHR 0x5C, CHR 0x22] else if c = CHR 0x5C then [CHR 0x5C, CHR 0x5C]
      else if c = CHR 0x07 then [CHR 0x5C, CHR ''a''] else if c = CHR 0x08 then [CHR 0x5C, CHR ''b'']
      else if c = CHR 0x0C then [CHR 0x5C, CHR ''f''] else if c = CHR 0x0A then [CHR 0x5C, CHR ''n'']
      else if c = CHR 0x0D then [CHR 0x5C, CHR ''r''] else if c = CHR 0x09 then [CHR 0x5C, CHR ''t'']
      else if c = CHR 0x0B then [CHR 0x5C, CHR ''v'']
      else if (of_char c :: nat) < 32 \<or> c = CHR 0x7F then [CHR 0x5C, CHR ''x''] @ hex_byte (of_char c)
      else [c])"

definition quote :: "string \<Rightarrow> string" where
  "quote s = [CHR 0x22] @ concat (map quote_char s) @ [CHR 0x22]"

subsection \<open>Membership and de-duplication, \<open>pkg/public/utils/var.go\<close>\<close>

fun IsValueInList :: "'a \<Rightarrow> 'a list \<Rightarrow> bool" where
  "IsValueInList a [] = False"
| "IsValueInList a (v # vs) = (if v = a then True else IsValueInList a vs)"

lemma IsValueInList_iff [simp]: "IsValueInList a vs = (a \<in> set vs)"
  by (induction vs) auto

text \<open>\<open>seen\<close> are the keys of \<open>uniqueMap\<close>.\<close>

fun unique_loop :: "string list \<Rightarrow> string list \<Rightarrow> string list" where
  "unique_loop seen [] = []"
| "unique_loop seen (s # ss) =
     (if s \<in> set seen then unique_loop seen ss else s # unique_loop (s # seen) ss)"

definition UniqueStringSlice :: "string list \<Rightarrow> string list" where
  "UniqueStringSlice ss = unique_loop [] ss"

lemma unique_loop_props:
  "set (unique_loop seen ss) = set ss - set seen \<and> distinct (unique_loop seen ss)"
  by (induction ss arbitrary: seen) auto

lemma UniqueStringSlice_props [simp]:
  "set (UniqueStringSlice ss) = set ss" "distinct (UniqueStringSlice ss)"
  using unique_loop_props [of "[]" ss] by (simp_all add: UniqueStringSlice_def)

text \<open>The keys of the result map, in the order they were first added.\<close>

definition GetIntersection :: "string list \<Rightarrow> string list \<Rightarrow> string list" where
  "GetIntersection listA listB = unique_loop [] (filter (\<lambda>v. v \<in> set listB) listA)"

lemma GetIntersection_set [simp]: "set (GetIntersection a b) = set a \<inter> set b"
  "distinct (GetIntersection a b)"
  using unique_loop_props [of "[]" "filter (\<lambda>v. v \<in> set b) a"] by (auto simp: GetIntersection_def)

subsection \<open>Decimal numbers\<close>

definition is_digit :: "char \<Rightarrow> bool" where
  "is_digit c = (CHR ''0'' \<le> c \<and> c \<le> CHR ''9'')"

lemma is_digit_char_of: "k < 10 \<Longrightarrow> is_digit (char_of (48 + k :: nat))"
  by (simp add: is_digit_def less_eq_char_def)

lemma dec_digits_chars: "c \<in> set (dec_digits n) \<Longrightarrow> is_digit c"
proof (induction n rule: dec_digits.induct)
  case (1 n)
  show ?case
  proof (cases "n < 10")
    case True
    then show ?thesis using 1(2) is_digit_char_of [of n] by (simp add: dec_digits.simps [of n])
  next
    case False
    then show ?thesis
      using 1 is_digit_char_of [of "n mod 10"] by (auto simp: dec_digits.simps [of n])
  qed
qed

definition dec_value :: "string \<Rightarrow> nat" where
  "dec_value s = foldl (\<lambda>v c. 10 * v + (of_char c - 48)) 0 s"

lemma dec_value_digits [simp]: "dec_value (dec_digits n) = n"
proof (induction n rule: dec_digits.induct)
  case (1 n)
  have c: "of_char (char_of (48 + k :: nat)) - 48 = k" if "k < 10" for k
    using that by simp
  show ?case
  proof (cases "n < 10")
    case True
    then show ?thesis using c [of n] by (subst dec_digits.simps) (simp add: dec_value_def)
  next
    case False
    then have "dec_value (dec_digits (n div 10)) = n div 10" using 1 by simp
    then show ?thesis
      using False c [of "n mod 10"] by (subst dec_digits.simps) (simp add: dec_value_def)
  qed
qed

lemma dec_digits_inj: "dec_digits m = dec_digits n \<longleftrightarrow> m = n"
  using dec_value_digits by metis

end
