(* ===== verification/Db.thy ===== *)
theory Db
  imports GoStrings "HOL-Library.State_Monad"
begin

text \<open>
  The database of \<open>pkg/public/db\<close>: the tables of \<open>static/sql\<close>, SQL statements over them, the
  triggers that count the changes of a table in \<open>tacacs_meta\<close>, and the world in which an
  operation runs its statements.  A statement may fail, a read may see an older replica or stop
  half way, and other processes may write between two statements: all of that is part of the
  world and arbitrary.  The string comparison of the tables (\<open>utf8mb4_unicode_ci\<close>, which
  ignores case) is the field \<open>db_eq\<close>.  Strings have no length limit: that a statement fails
  on a value too long for its column is one of the failures of the world.  Log output is left out.
\<close>

subsection \<open>Tables\<close>

record TacacsUser =
  tu_User :: string
  tu_PhoneNumber :: string
  tu_Email :: string
  tu_CreateTime :: string
  tu_Role :: string
  tu_RoleUpdateTime :: string
  tu_Password :: string
  tu_PasswordUpdateTime :: string
  tu_Status :: string
  tu_StatusUpdateTime :: string
  tu_Notes :: string

record TacacsRoleTemplate =
  rt_ID :: int
  rt_Template :: string
  rt_ServerTemplateList :: string
  rt_CommandTemplateList :: string

record TacacsServerTemplate =
  st_ID :: int
  st_Template :: string
  st_ServerTemplate :: string

record TacacsCommandTemplate =
  ct_ID :: int
  ct_Template :: string
  ct_CommandTemplate :: string

text \<open>A row of \<open>tacacs_approval\<close>; the last two columns may be \<open>NULL\<close>.\<close>

record approval_row =
  ar_id :: int
  ar_create_time :: int
  ar_user :: string
  ar_approval_permissions :: string
  ar_start_time :: int
  ar_end_time :: int
  ar_status :: int
  ar_approver :: "string option"
  ar_approve_time :: "int option"

text \<open>A row of \<open>tacacs_misc\<close>.\<close>

record misc_row =
  mr_k :: string
  mr_v :: string
  mr_description :: string

record db =
  t_user :: "TacacsUser list"
  t_role :: "TacacsRoleTemplate list"
  t_server :: "TacacsServerTemplate list"
  t_command :: "TacacsCommandTemplate list"
  t_on_duty :: "string list"
  t_white :: "string list"
  t_admin :: "string list"
  t_approval :: "approval_row list"
  t_misc :: "misc_row list"
  t_meta :: "(string \<times> nat) list"
  auto_increment :: int  \<comment> \<open>the next row id\<close>
  has_triggers :: bool  \<comment> \<open>the triggers of \<open>tacacs_meta.sql\<close> are installed\<close>
  db_eq :: "string \<Rightarrow> string \<Rightarrow> bool"  \<comment> \<open>equality of two strings in a \<open>WHERE\<close>\<close>

subsection \<open>The world of an operation\<close>

text \<open>What the driver reports for a query besides the rows of the table.\<close>

datatype read_fault = NoFault
  | QueryErr go_error  \<comment> \<open>\<open>Query\<close> fails\<close>
  | ScanErr nat go_error  \<comment> \<open>\<open>Scan\<close> of the row with this index fails\<close>
  | NextErr nat go_error  \<comment> \<open>\<open>Next\<close> returns false after this many rows, \<open>Err\<close> is set\<close>

datatype exec_fault = ExecOk
  | ExecFails go_error  \<comment> \<open>the statement has no effect\<close>
  | ExecLost go_error  \<comment> \<open>the statement has its effect, its reply is lost\<close>

text \<open>
  The fields indexed by \<open>nat\<close> give what happens at the statement with that number: \<open>w_replica\<close>
  what a read sees of the database, \<open>w_interf\<close> what others did to it before a write.
\<close>

record world =
  w_db :: db
  w_n :: nat
  w_replica :: "nat \<Rightarrow> db \<Rightarrow> db"
  w_rfault :: "nat \<Rightarrow> read_fault"
  w_interf :: "nat \<Rightarrow> db \<Rightarrow> db"
  w_wfault :: "nat \<Rightarrow> exec_fault"
  w_clock :: "nat \<Rightarrow> int"  \<comment> \<open>\<open>time.Now()\<close> in nanoseconds\<close>
  w_fmt :: "int \<Rightarrow> string"  \<comment> \<open>\<open>Format("2006-01-02 15:04:05")\<close> in the local time zone\<close>
  w_hash :: "nat \<Rightarrow> string \<Rightarrow> string result"  \<comment> \<open>\<open>bcrypt.GenerateFromPassword\<close>\<close>
  w_conf :: "bool option"  \<comment> \<open>\<open>DatabaseTriggers\<close> of \<open>cfg.ServerConfig()\<close>, \<open>None\<close> for nil\<close>
  w_DbWrite :: bool  \<comment> \<open>\<open>DbWrite\<close> is not nil\<close>

type_synonym 'a io = "(world, 'a) state"

abbreviation ret :: "'a \<Rightarrow> 'a io" where
  "ret \<equiv> State_Monad.return"

abbreviation world_get :: "world io" where
  "world_get \<equiv> State_Monad.get"

text \<open>A world in which nothing fails, reads are current and nobody else writes.\<close>

definition quiet :: "world \<Rightarrow> bool" where
  "quiet w = ((\<forall>n. w_replica w n = (\<lambda>d. d)) \<and> (\<forall>n. w_rfault w n = NoFault) \<and>
     (\<forall>n. w_interf w n = (\<lambda>d. d)) \<and> (\<forall>n. w_wfault w n = ExecOk) \<and> w_DbWrite w)"

definition time_now :: "int io" where
  "time_now = do { w \<leftarrow> world_get; ret (w_clock w (w_n w)) }"

definition now_string :: "string io" where
  "now_string = do { w \<leftarrow> world_get; ret (w_fmt w (w_clock w (w_n w))) }"

definition HashPassword :: "string \<Rightarrow> string result io" where
  "HashPassword password = do { w \<leftarrow> world_get; ret (w_hash w (w_n w) password) }"

subsection \<open>Reading\<close>

datatype 'r rows = QueryFails go_error | Rows "(go_error + 'r) list" "go_error option"

fun rows_of :: "read_fault \<Rightarrow> 'r list \<Rightarrow> 'r rows" where
  "rows_of NoFault rs = Rows (map Inr rs) None"
| "rows_of (QueryErr e) rs = QueryFails e"
| "rows_of (ScanErr k e) rs =
     Rows (map Inr (take k rs) @ (if k < length rs then Inl e # map Inr (drop (Suc k) rs) else [])) None"
| "rows_of (NextErr k e) rs = Rows (map Inr (take k rs)) (Some e)"

definition query :: "(db \<Rightarrow> 'r list) \<Rightarrow> 'r rows io" where
  "query sel = State (\<lambda>w. (rows_of (w_rfault w (w_n w)) (sel (w_replica w (w_n w) (w_db w))),
     w\<lparr>w_n := Suc (w_n w)\<rparr>))"

text \<open>The loop over \<open>rows.Next\<close> that returns on a failing \<open>Scan\<close>.\<close>

fun scan_all :: "(go_error + 'r) list \<Rightarrow> 'r list \<Rightarrow> 'r list \<times> go_error option" where
  "scan_all [] acc = (acc, None)"
| "scan_all (Inl e # ss) acc = (acc, Some e)"
| "scan_all (Inr r # ss) acc = scan_all ss (acc @ [r])"

text \<open>The loop that goes on with the next row.\<close>

fun scan_skip :: "(go_error + 'r) list \<Rightarrow> 'r list" where
  "scan_skip [] = []"
| "scan_skip (Inl e # ss) = scan_skip ss"
| "scan_skip (Inr r # ss) = r # scan_skip ss"

text \<open>\<open>QueryRow(...).Scan(...)\<close>; \<open>ErrNoRows\<close> is \<open>sql.ErrNoRows\<close>.\<close>

definition ErrNoRows :: go_error where
  "ErrNoRows = GoError ''sql: no rows in result set''"

fun query_row :: "'r rows \<Rightarrow> 'r result" where
  "query_row (QueryFails e) = Inl e"
| "query_row (Rows [] (Some e)) = Inl e"
| "query_row (Rows [] None) = Inl ErrNoRows"
| "query_row (Rows (s # ss) e) = s"

lemma scan_all_map_Inr [simp]: "scan_all (map Inr rs) acc = (acc @ rs, None)"
  by (induction rs arbitrary: acc) auto

lemma scan_skip_map_Inr [simp]: "scan_skip (map Inr rs) = rs"
  by (induction rs) auto

lemma scan_all_complete: "scan_all ss acc = (rs, None) \<Longrightarrow> rs = acc @ scan_skip ss \<and> (\<forall>s\<in>set ss. \<not> isl s)"
  by (induction ss acc rule: scan_all.induct) auto

lemma query_row_map_Inr [simp]:
  "query_row (Rows (map Inr rs) None) = (case rs of [] \<Rightarrow> Inl ErrNoRows | r # _ \<Rightarrow> Inr r)"
  by (cases rs) auto

subsection \<open>Writing\<close>

text \<open>
  A statement fails on a constraint, or gives the new database, the number of rows it changed
  and the id of an inserted row.
\<close>

type_synonym stmt = "db \<Rightarrow> go_error + db \<times> nat \<times> int"

definition exec :: "stmt \<Rightarrow> (nat \<times> int) result io" where
  "exec st = State (\<lambda>w.
     let n = w_n w; d = w_interf w n (w_db w); w' = w\<lparr>w_n := Suc n, w_db := d\<rparr>
     in case w_wfault w n of
          ExecFails e \<Rightarrow> (Inl e, w')
        | ExecOk \<Rightarrow> (case st d of Inl e \<Rightarrow> (Inl e, w') | Inr (d', k, i) \<Rightarrow> (Inr (k, i), w'\<lparr>w_db := d'\<rparr>))
        | ExecLost e \<Rightarrow> (case st d of Inl e' \<Rightarrow> (Inl e', w') | Inr (d', k, i) \<Rightarrow> (Inl e, w'\<lparr>w_db := d'\<rparr>)))"

text \<open>The statement and trigger that count a change in \<open>tacacs_meta\<close>.\<close>

fun bump_row :: "string \<Rightarrow> (string \<times> nat) list \<Rightarrow> (string \<times> nat) list" where
  "bump_row k [] = [(k, 1)]"
| "bump_row k ((j, v) # ms) = (if j = k then (j, v + 1) # ms else (j, v) # bump_row k ms)"

definition bump_stmt :: "string \<Rightarrow> stmt" where
  "bump_stmt k d = Inr (d\<lparr>t_meta := bump_row k (t_meta d)\<rparr>, 1, 0)"

text \<open>The triggers of a table run once for each row that a statement touches.\<close>

definition touch :: "string \<Rightarrow> nat \<Rightarrow> db \<Rightarrow> db" where
  "touch k n d = (if has_triggers d then d\<lparr>t_meta := (bump_row k ^^ n) (t_meta d)\<rparr> else d)"

definition version :: "db \<Rightarrow> string \<Rightarrow> nat" where
  "version d k = (case map_of (t_meta d) k of None \<Rightarrow> 0 | Some v \<Rightarrow> v)"

definition set_where :: "('r \<Rightarrow> bool) \<Rightarrow> ('r \<Rightarrow> 'r) \<Rightarrow> 'r list \<Rightarrow> 'r list" where
  "set_where P f rs = map (\<lambda>r. if P r then f r else r) rs"

lemma set_where_ball:
  "(\<forall>r\<in>set (set_where P f rs). Q r) \<longleftrightarrow> (\<forall>r\<in>set rs. if P r then Q (f r) else Q r)"
  by (auto simp: set_where_def)

lemma length_set_where [simp]: "length (set_where P f rs) = length rs"
  by (simp add: set_where_def)

definition sql_update ::
  "string \<Rightarrow> (db \<Rightarrow> 'r list) \<Rightarrow> (('r list \<Rightarrow> 'r list) \<Rightarrow> db \<Rightarrow> db) \<Rightarrow> (db \<Rightarrow> 'r \<Rightarrow> bool) \<Rightarrow> ('r \<Rightarrow> 'r) \<Rightarrow> stmt" where
  "sql_update key tab tab_update P f d =
     (let hit = filter (P d) (tab d)
      in Inr (touch key (length hit) (tab_update (set_where (P d) f) d),
              length (filter (\<lambda>r. f r \<noteq> r) hit), 0))"

lemma sql_update_run:
  assumes "sql_update key tab tab_update P f d = Inr (d', k, i)"
  shows "d' = touch key (length (filter (P d) (tab d))) (tab_update (set_where (P d) f) d)"
    and "k = length (filter (\<lambda>r. f r \<noteq> r) (filter (P d) (tab d)))"
  using assms by (auto simp: sql_update_def Let_def)

definition sql_delete ::
  "string \<Rightarrow> (db \<Rightarrow> 'r list) \<Rightarrow> (('r list \<Rightarrow> 'r list) \<Rightarrow> db \<Rightarrow> db) \<Rightarrow> (db \<Rightarrow> 'r \<Rightarrow> bool) \<Rightarrow> stmt" where
  "sql_delete key tab tab_update P d =
     (let k = length (filter (P d) (tab d))
      in Inr (touch key k (tab_update (filter (\<lambda>r. \<not> P d r)) d), k, 0))"

text \<open>\<open>mk\<close> builds the row from its id; \<open>clash\<close> is a violated unique key.\<close>

definition sql_insert ::
  "string \<Rightarrow> (('r list \<Rightarrow> 'r list) \<Rightarrow> db \<Rightarrow> db) \<Rightarrow> (db \<Rightarrow> bool) \<Rightarrow> (int \<Rightarrow> 'r) \<Rightarrow> stmt" where
  "sql_insert key tab_update clash mk d =
     (if clash d then Inl (GoError ''Error 1062 (23000): Duplicate entry'')
      else Inr (touch key 1 (tab_update (\<lambda>rs. rs @ [mk (auto_increment d)])
                  (d\<lparr>auto_increment := auto_increment d + 1\<rparr>)), 1, auto_increment d))"

subsection \<open>\<open>meta.go\<close> and \<open>general.go\<close>\<close>

definition MetaKeyUser :: string where "MetaKeyUser = ''user''"
definition MetaKeyRole :: string where "MetaKeyRole = ''role''"
definition MetaKeyServer :: string where "MetaKeyServer = ''server''"
definition MetaKeyCommand :: string where "MetaKeyCommand = ''command''"
definition MetaKeyOnDuty :: string where "MetaKeyOnDuty = ''on_duty''"
definition MetaKeyApproval :: string where "MetaKeyApproval = ''approval''"

definition MetaKeys :: "string list" where
  "MetaKeys = [MetaKeyUser, MetaKeyRole, MetaKeyServer, MetaKeyCommand, MetaKeyOnDuty, MetaKeyApproval]"

lemmas meta_keys = MetaKeyUser_def MetaKeyRole_def MetaKeyServer_def MetaKeyCommand_def
  MetaKeyOnDuty_def MetaKeyApproval_def

definition BumpMetaVersion :: "string \<Rightarrow> unit io" where
  "BumpMetaVersion key = do {
     w \<leftarrow> world_get;
     if (case w_conf w of None \<Rightarrow> True | Some DatabaseTriggers \<Rightarrow> DatabaseTriggers) then ret ()
     else if \<not> w_DbWrite w then ret ()
     else do {
       _ \<leftarrow> exec (bump_stmt key);
       ret ()
     }
   }"

fun refresh_loop :: "string list \<Rightarrow> go_error option io" where
  "refresh_loop [] = ret None"
| "refresh_loop (k # ks) = do {
     r \<leftarrow> exec (bump_stmt k);
     case r of Inl e \<Rightarrow> ret (Some e) | Inr _ \<Rightarrow> refresh_loop ks
   }"

definition RefreshAllMeta :: "go_error option io" where
  "RefreshAllMeta = do {
     w \<leftarrow> world_get;
     if \<not> w_DbWrite w then ret None else refresh_loop MetaKeys
   }"

text \<open>The map of the versions read so far; a later row of a key replaces an earlier one.\<close>

fun versions_loop :: "(go_error + string \<times> nat) list \<Rightarrow> (string \<Rightarrow> nat) \<Rightarrow> (string \<Rightarrow> nat) result" where
  "versions_loop [] vs = Inr vs"
| "versions_loop (Inl e # ss) vs = Inl e"
| "versions_loop (Inr (k, v) # ss) vs = versions_loop ss (vs(k := v))"

definition join_versions :: "(string \<Rightarrow> nat) \<Rightarrow> string" where
  "join_versions vs = Join ''_'' (map (\<lambda>k. dec_digits (vs k)) MetaKeys)"

definition GetTablesUpdateTime :: "string result io" where
  "GetTablesUpdateTime = do {
     q \<leftarrow> query t_meta;
     ret (case q of QueryFails e \<Rightarrow> Inl e
          | Rows ss err \<Rightarrow> (case versions_loop ss (\<lambda>_. 0) of Inl e \<Rightarrow> Inl e
             | Inr vs \<Rightarrow> (case err of Some e \<Rightarrow> Inl e | None \<Rightarrow> Inr (join_versions vs))))
   }"

subsection \<open>Runs in a quiet world\<close>

lemma quiet_exec:
  assumes "quiet w"
  shows "run_state (exec st) w = (case st (w_db w) of
    Inl e \<Rightarrow> (Inl e, w\<lparr>w_n := Suc (w_n w)\<rparr>)
  | Inr (d', k, i) \<Rightarrow> (Inr (k, i), w\<lparr>w_n := Suc (w_n w), w_db := d'\<rparr>))"
  using assms by (cases w) (auto simp: exec_def quiet_def Let_def split: sum.split)

lemma quiet_query:
  "quiet w \<Longrightarrow> run_state (query sel) w = (Rows (map Inr (sel (w_db w))) None, w\<lparr>w_n := Suc (w_n w)\<rparr>)"
  by (simp add: query_def quiet_def)

lemma quiet_update [simp]: "quiet (w\<lparr>w_n := n\<rparr>) = quiet w" "quiet (w\<lparr>w_n := n, w_db := d\<rparr>) = quiet w"
  "quiet (w\<lparr>w_db := d\<rparr>) = quiet w"
  by (simp_all add: quiet_def)

lemma run_time_now [simp]: "run_state time_now w = (w_clock w (w_n w), w)"
  by (simp add: time_now_def)

lemma run_now_string [simp]: "run_state now_string w = (w_fmt w (w_clock w (w_n w)), w)"
  by (simp add: now_string_def)

lemma run_HashPassword [simp]: "run_state (HashPassword p) w = (w_hash w (w_n w) p, w)"
  by (simp add: HashPassword_def)

end
