(* ===== verification/DbUser.thy ===== *)
theory DbUser
  imports Db Md5
begin

text \<open>
  \<open>pkg/public/db/tacacs_user.go\<close>: the users of the system, their roles, passwords and status.
\<close>

subsection \<open>Reads\<close>

definition GetTacacsUserInfos :: "(TacacsUser list \<times> go_error option) io" where
  "GetTacacsUserInfos = do {
     q \<leftarrow> query t_user;
     ret (case q of QueryFails e \<Rightarrow> ([], Some e) | Rows ss _ \<Rightarrow> scan_all ss [])
   }"

text \<open>The last row read stays in \<open>tacacsUsers\<close>.\<close>

definition last_opt :: "'r list \<Rightarrow> 'r option" where
  "last_opt rs = (if rs = [] then None else Some (last rs))"

definition GetTacacsUserInfoByUserName :: "string \<Rightarrow> (TacacsUser option \<times> go_error option) io" where
  "GetTacacsUserInfoByUserName userName = do {
     q \<leftarrow> query (\<lambda>d. filter (\<lambda>r. db_eq d (tu_User r) userName) (t_user d));
     ret (case q of QueryFails e \<Rightarrow> (None, Some e)
          | Rows ss _ \<Rightarrow> (case scan_all ss [] of (rs, err) \<Rightarrow> (last_opt rs, err)))
   }"

definition GetTacacsUser :: "string list io" where
  "GetTacacsUser = do {
     (tacacsUsers, err) \<leftarrow> GetTacacsUserInfos;
     ret (if err \<noteq> None then [] else map tu_User tacacsUsers)
   }"

subsection \<open>Writes\<close>

abbreviation update_user :: "string \<Rightarrow> (TacacsUser \<Rightarrow> TacacsUser) \<Rightarrow> stmt" where
  "update_user user f \<equiv> sql_update MetaKeyUser t_user t_user_update (\<lambda>d r. db_eq d (tu_User r) user) f"

text \<open>What most writes do with the outcome of their statement.\<close>

definition bump_on_success :: "string \<Rightarrow> (nat \<times> int) result \<Rightarrow> go_error option io" where
  "bump_on_success key r =
     (case r of Inl e \<Rightarrow> ret (Some e) | Inr _ \<Rightarrow> do { _ \<leftarrow> BumpMetaVersion key; ret None })"

definition UpdateRoleByName :: "string \<Rightarrow> string \<Rightarrow> unit io" where
  "UpdateRoleByName user role = do {
     now \<leftarrow> now_string;
     r \<leftarrow> exec (update_user user (\<lambda>u. u\<lparr>tu_Role := role, tu_RoleUpdateTime := now\<rparr>));
     case r of Inl e \<Rightarrow> ret () | Inr _ \<Rightarrow> BumpMetaVersion MetaKeyUser
   }"

definition CreateUser :: "string \<Rightarrow> string \<Rightarrow> string \<Rightarrow> string \<Rightarrow> string \<Rightarrow> go_error option io" where
  "CreateUser user PhoneNumber email password notes = do {
     now \<leftarrow> now_string;
     h \<leftarrow> HashPassword password;
     case h of Inl e \<Rightarrow> ret (Some (GoError (''hash password: '' @ err_msg e)))
     | Inr passwordHash \<Rightarrow> do {
         r \<leftarrow> exec (sql_insert MetaKeyUser t_user_update (\<lambda>d. \<exists>r\<in>set (t_user d). db_eq d (tu_User r) user)
           (\<lambda>_. \<lparr>tu_User = user, tu_PhoneNumber = PhoneNumber, tu_Email = email, tu_CreateTime = now,
                 tu_Role = ''null'', tu_RoleUpdateTime = now, tu_Password = passwordHash,
                 tu_PasswordUpdateTime = now, tu_Status = ''1'', tu_StatusUpdateTime = now,
                 tu_Notes = notes\<rparr>));
         bump_on_success MetaKeyUser r
       }
   }"

definition no_such_user :: "string \<Rightarrow> go_error" where
  "no_such_user user = GoError (''user '' @ quote user @ '' does not exist'')"

text \<open>
  The assignments of an \<open>UPDATE\<close> see the columns assigned before them: the second \<open>CASE\<close> of
  the statement reads the status that the first one has set.
\<close>

definition password_stmt :: "string \<Rightarrow> string \<Rightarrow> string \<Rightarrow> stmt" where
  "password_stmt user passwordHash now d =
     update_user user (\<lambda>u.
       let u1 = u\<lparr>tu_Password := passwordHash, tu_PasswordUpdateTime := now\<rparr>;
           u2 = u1\<lparr>tu_Status := (if db_eq d (tu_Status u1) ''2'' then ''1'' else tu_Status u1)\<rparr>
       in u2\<lparr>tu_StatusUpdateTime := (if db_eq d (tu_Status u2) ''2'' then now else tu_StatusUpdateTime u2)\<rparr>) d"

definition UpdateUserPassword :: "string \<Rightarrow> string \<Rightarrow> go_error option io" where
  "UpdateUserPassword user password = do {
     now \<leftarrow> now_string;
     h \<leftarrow> HashPassword password;
     case h of Inl e \<Rightarrow> ret (Some (GoError (''hash password: '' @ err_msg e)))
     | Inr passwordHash \<Rightarrow> do {
         r \<leftarrow> exec (password_stmt user passwordHash now);
         case r of Inl e \<Rightarrow> ret (Some e)
         | Inr (n, _) \<Rightarrow> if n = 0 then ret (Some (no_such_user user))
             else do { _ \<leftarrow> BumpMetaVersion MetaKeyUser; ret None }
       }
   }"

definition UpdateUserNotes :: "string \<Rightarrow> string \<Rightarrow> go_error option io" where
  "UpdateUserNotes user notes = do {
     now \<leftarrow> now_string;
     r \<leftarrow> exec (update_user user (\<lambda>u. u\<lparr>tu_Notes := notes, tu_PasswordUpdateTime := now\<rparr>));
     bump_on_success MetaKeyUser r
   }"

definition UpdateUserStatus :: "string \<Rightarrow> string \<Rightarrow> go_error option io" where
  "UpdateUserStatus user status = do {
     now \<leftarrow> now_string;
     r \<leftarrow> exec (update_user user (\<lambda>u. u\<lparr>tu_Status := status, tu_StatusUpdateTime := now\<rparr>));
     bump_on_success MetaKeyUser r
   }"

definition UpdateUserEmailAndPhoneNumber :: "string \<Rightarrow> string \<Rightarrow> string \<Rightarrow> go_error option io" where
  "UpdateUserEmailAndPhoneNumber user email phoneNumber = do {
     r \<leftarrow> exec (update_user user (\<lambda>u. u\<lparr>tu_Email := email, tu_PhoneNumber := phoneNumber\<rparr>));
     bump_on_success MetaKeyUser r
   }"

text \<open>
  \<open>CASE user WHEN ... THEN ... END\<close>: the value of the first key that is equal in the database.
  The list is the map in the order of its iteration.
\<close>

fun sql_case :: "(string \<Rightarrow> string \<Rightarrow> bool) \<Rightarrow> (string \<times> string) list \<Rightarrow> string \<Rightarrow> string option" where
  "sql_case eq [] u = None"
| "sql_case eq ((k, v) # m) u = (if eq u k then Some v else sql_case eq m u)"

definition role_stmt :: "(string \<times> string) list \<Rightarrow> string \<Rightarrow> stmt" where
  "role_stmt roleMap now d =
     sql_update MetaKeyUser t_user t_user_update
       (\<lambda>d r. \<exists>u\<in>set (map fst roleMap). db_eq d (tu_User r) u)
       (\<lambda>u. u\<lparr>tu_Role := the (sql_case (db_eq d) roleMap (tu_User u)), tu_RoleUpdateTime := now\<rparr>) d"

definition BatchUpdateUserRole :: "(string \<times> string) list \<Rightarrow> go_error option io" where
  "BatchUpdateUserRole roleMap =
     (if length roleMap = 0 then ret None
      else do {
        now \<leftarrow> now_string;
        r \<leftarrow> exec (role_stmt roleMap now);
        bump_on_success MetaKeyUser r
      })"

definition BatchUpdateUserStatus :: "string list \<Rightarrow> string \<Rightarrow> go_error option io" where
  "BatchUpdateUserStatus users status =
     (if length users = 0 then ret None
      else do {
        now \<leftarrow> now_string;
        r \<leftarrow> exec (sql_update MetaKeyUser t_user t_user_update
               (\<lambda>d r. \<exists>u\<in>set users. db_eq d (tu_User r) u)
               (\<lambda>u. u\<lparr>tu_Status := status, tu_StatusUpdateTime := now\<rparr>));
        bump_on_success MetaKeyUser r
      })"

subsection \<open>\<open>ResetUserPassword\<close>: a transaction\<close>

text \<open>
  \<open>Begin\<close>, the statements and \<open>Commit\<close> are numbered like single statements, and each may fail.
  The statements work on a copy of the database, which \<open>Commit\<close> makes the database: the row lock
  of the first statement keeps the row from changing meanwhile.  A \<open>Commit\<close> whose reply is lost
  has had its effect.
\<close>

definition tx_step :: "go_error option io" where
  "tx_step = State (\<lambda>w. (case w_wfault w (w_n w) of ExecOk \<Rightarrow> None | ExecFails e \<Rightarrow> Some e | ExecLost e \<Rightarrow> Some e,
     w\<lparr>w_n := Suc (w_n w)\<rparr>))"

definition tx_begin :: "db result io" where
  "tx_begin = State (\<lambda>w. let d = w_interf w (w_n w) (w_db w); w' = w\<lparr>w_n := Suc (w_n w), w_db := d\<rparr>
     in (case w_wfault w (w_n w) of ExecOk \<Rightarrow> Inr d | ExecFails e \<Rightarrow> Inl e | ExecLost e \<Rightarrow> Inl e, w'))"

text \<open>A statement of a transaction on its copy.\<close>

definition tx_exec :: "stmt \<Rightarrow> db \<Rightarrow> (db \<times> nat) result io" where
  "tx_exec st d = do {
     f \<leftarrow> tx_step;
     ret (case f of Some e \<Rightarrow> Inl e
          | None \<Rightarrow> (case st d of Inl e \<Rightarrow> Inl e | Inr (d', n, _) \<Rightarrow> Inr (d', n)))
   }"

definition tx_commit :: "db \<Rightarrow> go_error option io" where
  "tx_commit d = State (\<lambda>w. let w' = w\<lparr>w_n := Suc (w_n w)\<rparr>
     in case w_wfault w (w_n w) of
          ExecOk \<Rightarrow> (None, w'\<lparr>w_db := d\<rparr>)
        | ExecFails e \<Rightarrow> (Some e, w')
        | ExecLost e \<Rightarrow> (Some e, w'\<lparr>w_db := d\<rparr>))"

definition wrap :: "string \<Rightarrow> go_error \<Rightarrow> go_error option" where
  "wrap s e = Some (GoError (s @ err_msg e))"

text \<open>From \<open>Begin\<close> on; every early return rolls back.\<close>

definition reset_stmt :: "string \<Rightarrow> string \<Rightarrow> string \<Rightarrow> stmt" where
  "reset_stmt user passwordHash now =
     update_user user (\<lambda>u. u\<lparr>tu_Status := ''1'', tu_StatusUpdateTime := now,
       tu_Password := passwordHash, tu_PasswordUpdateTime := now\<rparr>)"

definition reset_tx :: "string \<Rightarrow> string \<Rightarrow> db \<Rightarrow> go_error option io" where
  "reset_tx user passwordHash d = do {
     now \<leftarrow> now_string;
     r \<leftarrow> tx_exec (reset_stmt user passwordHash now) d;
     case r of Inl e \<Rightarrow> ret (wrap ''update user reset fields: '' e)
     | Inr (d', n) \<Rightarrow>
         if n = 0 then ret (Some (no_such_user user))
         else do {
           w \<leftarrow> world_get;
           r' \<leftarrow> (if w_conf w = Some False
                  then tx_exec (bump_stmt MetaKeyUser) d' else ret (Inr (d', 0)));
           case r' of Inl e \<Rightarrow> ret (wrap ''bump user metadata version: '' e)
           | Inr (d'', _) \<Rightarrow> do {
               c \<leftarrow> tx_commit d'';
               ret (case c of Some e \<Rightarrow> wrap ''commit reset password transaction: '' e | None \<Rightarrow> None)
             }
         }
   }"

definition ResetUserPassword :: "string \<Rightarrow> string \<Rightarrow> go_error option io" where
  "ResetUserPassword user password = do {
     h \<leftarrow> HashPassword password;
     case h of Inl e \<Rightarrow> ret (wrap ''hash password: '' e)
     | Inr passwordHash \<Rightarrow> do {
         w \<leftarrow> world_get;
         if \<not> w_DbWrite w then ret (Some (GoError ''write database is not initialized''))
         else do {
           b \<leftarrow> tx_begin;
           case b of Inl e \<Rightarrow> ret (wrap ''begin reset password transaction: '' e)
           | Inr d \<Rightarrow> reset_tx user passwordHash d
         }
       }
   }"

subsection \<open>The digest of the table\<close>

fun digest_loop :: "(go_error + string) list \<Rightarrow> string \<Rightarrow> string result" where
  "digest_loop [] allData = Inr allData"
| "digest_loop (Inl e # ss) allData = Inl e"
| "digest_loop (Inr s # ss) allData = digest_loop ss (allData @ s)"

definition hex_string :: "bytes \<Rightarrow> string" where
  "hex_string bs = concat (map (\<lambda>b. hex_byte (unat b)) bs)"

definition md5_hex :: "string \<Rightarrow> string" where
  "md5_hex s = hex_string (md5 (bytes_of_string s))"

text \<open>The loop, the check of \<open>rows.Err\<close> and the digest that four functions share.\<close>

definition digest_rows :: "string rows \<Rightarrow> string result" where
  "digest_rows q = (case q of QueryFails e \<Rightarrow> Inl e
     | Rows ss err \<Rightarrow> (case digest_loop ss [] of Inl e \<Rightarrow> Inl e
        | Inr allData \<Rightarrow> (case err of Some e \<Rightarrow> Inl e | None \<Rightarrow> Inr (md5_hex allData))))"

definition GetTacacsUserData2Md5 :: "string result io" where
  "GetTacacsUserData2Md5 = do {
     q \<leftarrow> query (\<lambda>d. map (\<lambda>u. tu_User u @ tu_CreateTime u @ tu_Role u @ tu_RoleUpdateTime u @
            tu_Password u @ tu_PasswordUpdateTime u @ tu_Status u @ tu_StatusUpdateTime u @ tu_Notes u) (t_user d));
     ret (digest_rows q)
   }"

end
