(* ===== verification/DbTemplate.thy ===== *)
theory DbTemplate
  imports DbUser
begin

text \<open>
  \<open>tacacs_template_role.go\<close>, \<open>tacacs_template_server.go\<close> and \<open>tacacs_template_command.go\<close>:
  a role names lists of server and command templates, which are sets of rows with a common name.
\<close>

subsection \<open>Roles\<close>

definition GetTacacsRoleTemplate :: "TacacsRoleTemplate list io" where
  "GetTacacsRoleTemplate = do {
     q \<leftarrow> query t_role;
     ret (case q of QueryFails e \<Rightarrow> [] | Rows ss _ \<Rightarrow> scan_skip ss)
   }"

text \<open>A failing scan returns \<open>nil\<close> instead of the rows read so far.\<close>

definition rows_or_nil :: "'r rows \<Rightarrow> 'r list \<times> go_error option" where
  "rows_or_nil q = (case q of QueryFails e \<Rightarrow> ([], Some e)
     | Rows ss _ \<Rightarrow> (case scan_all ss [] of (rs, None) \<Rightarrow> (rs, None) | (rs, Some e) \<Rightarrow> ([], Some e)))"

definition GetTacacsRoleTemplates :: "(TacacsRoleTemplate list \<times> go_error option) io" where
  "GetTacacsRoleTemplates = do { q \<leftarrow> query t_role; ret (rows_or_nil q) }"

definition zero_role :: TacacsRoleTemplate where
  "zero_role = \<lparr>rt_ID = 0, rt_Template = [], rt_ServerTemplateList = [], rt_CommandTemplateList = []\<rparr>"

text \<open>
  Only the first row is scanned.  \<open>Scan\<close> fills the fields in order and stops at the first that
  fails.  No column is NULL (\<open>tacacs_role_template.sql\<close>) and a string always converts, so only the
  first field, the id, or the row as a whole can fail, which leaves the zero value.
\<close>

definition GetTacacsRoleTemplateByTemplate :: "string \<Rightarrow> TacacsRoleTemplate io" where
  "GetTacacsRoleTemplateByTemplate template = do {
     q \<leftarrow> query (\<lambda>d. filter (\<lambda>r. db_eq d (rt_Template r) template) (t_role d));
     ret (case q of Rows (Inr t # _) _ \<Rightarrow> t | _ \<Rightarrow> zero_role)
   }"

definition GetTacacsRoleTemplateByServerTemplate :: "string \<Rightarrow> TacacsRoleTemplate list io" where
  "GetTacacsRoleTemplateByServerTemplate serverTemplate = do {
     q \<leftarrow> query (\<lambda>d. filter (\<lambda>r. db_eq d (rt_ServerTemplateList r) serverTemplate) (t_role d));
     ret (case q of QueryFails e \<Rightarrow> [] | Rows ss _ \<Rightarrow> scan_skip ss)
   }"

definition GetTacacsRoleTemplateByCommandTemplate :: "string \<Rightarrow> TacacsRoleTemplate list io" where
  "GetTacacsRoleTemplateByCommandTemplate commandTemplate = do {
     q \<leftarrow> query (\<lambda>d. filter (\<lambda>r. db_eq d (rt_CommandTemplateList r) commandTemplate) (t_role d));
     ret (case q of QueryFails e \<Rightarrow> [] | Rows ss _ \<Rightarrow> scan_skip ss)
   }"

definition GetRoles :: "string list io" where
  "GetRoles = do { rs \<leftarrow> GetTacacsRoleTemplate; ret (map rt_Template rs) }"

definition CreateRole :: "string \<Rightarrow> string \<Rightarrow> string \<Rightarrow> go_error option io" where
  "CreateRole template serverTemplateList commandTemplateList = do {
     r \<leftarrow> exec (sql_insert MetaKeyRole t_role_update (\<lambda>_. False)
       (\<lambda>i. \<lparr>rt_ID = i, rt_Template = template, rt_ServerTemplateList = serverTemplateList,
             rt_CommandTemplateList = commandTemplateList\<rparr>));
     bump_on_success MetaKeyRole r
   }"

definition DeleteRole :: "string \<Rightarrow> go_error option io" where
  "DeleteRole template = do {
     r \<leftarrow> exec (sql_delete MetaKeyRole t_role t_role_update (\<lambda>d r. db_eq d (rt_Template r) template));
     bump_on_success MetaKeyRole r
   }"

text \<open>\<open>add_new\<close> is the inner loop of \<open>GetInUsedRole\<close> over the roles of one user.\<close>

fun add_new :: "string list \<Rightarrow> string list \<Rightarrow> string list" where
  "add_new [] roles = roles"
| "add_new (r # rs) roles =
     add_new rs (if r \<noteq> ''null'' \<and> \<not> IsValueInList r roles then roles @ [r] else roles)"

fun in_used_loop :: "TacacsUser list \<Rightarrow> string list \<Rightarrow> string list" where
  "in_used_loop [] roles = roles"
| "in_used_loop (u # us) roles =
     in_used_loop us (if tu_Status u = ''1'' then add_new (Split CHR '','' (tu_Role u)) roles else roles)"

definition GetInUsedRole :: "string list io" where
  "GetInUsedRole = do {
     (tacacsUserInfos, _) \<leftarrow> GetTacacsUserInfos;
     ret (in_used_loop tacacsUserInfos [])
   }"

subsection \<open>Server templates\<close>

definition GetTacacsServerTemplatesByTemplate :: "string \<Rightarrow> (TacacsServerTemplate list \<times> go_error option) io" where
  "GetTacacsServerTemplatesByTemplate template = do {
     q \<leftarrow> query (\<lambda>d. filter (\<lambda>r. db_eq d (st_Template r) template) (t_server d));
     ret (case q of QueryFails e \<Rightarrow> ([], Some e) | Rows ss _ \<Rightarrow> scan_all ss [])
   }"

definition GetTacacsServerTemplates :: "(TacacsServerTemplate list \<times> go_error option) io" where
  "GetTacacsServerTemplates = do {
     q \<leftarrow> query t_server;
     ret (case q of QueryFails e \<Rightarrow> ([], Some e) | Rows ss _ \<Rightarrow> scan_all ss [])
   }"

text \<open>The insertions of \<open>AddTacacsServerTemplates\<close>: the rows inserted, and the error that ended them.\<close>

fun insert_servers :: "string \<Rightarrow> string list \<Rightarrow> nat \<Rightarrow> (nat \<times> go_error option) io" where
  "insert_servers template [] inserted = ret (inserted, None)"
| "insert_servers template (srv # srvs) inserted = do {
     r \<leftarrow> exec (sql_insert MetaKeyServer t_server_update (\<lambda>_. False)
            (\<lambda>i. \<lparr>st_ID = i, st_Template = template, st_ServerTemplate = srv\<rparr>));
     case r of Inl e \<Rightarrow> ret (inserted, Some e)
     | Inr _ \<Rightarrow> insert_servers template srvs (inserted + 1)
   }"

definition AddTacacsServerTemplates :: "string \<Rightarrow> string list \<Rightarrow> go_error option io" where
  "AddTacacsServerTemplates template serverTemplate = do {
     (inserted, err) \<leftarrow> insert_servers template (UniqueStringSlice serverTemplate) 0;
     case err of Some e \<Rightarrow> ret (Some e)
     | None \<Rightarrow> do {
         _ \<leftarrow> (if inserted > 0 then BumpMetaVersion MetaKeyServer else ret ());
         ret None
       }
   }"

definition IsIdExistsInTacacsServerTemplate :: "int \<Rightarrow> bool io" where
  "IsIdExistsInTacacsServerTemplate i = do {
     q \<leftarrow> query (\<lambda>d. map st_ID (filter (\<lambda>r. st_ID r = i) (t_server d)));
     ret (\<not> isl (query_row q))
   }"

definition IsTemplateExistsInTacacsServerTemplate :: "string \<Rightarrow> bool io" where
  "IsTemplateExistsInTacacsServerTemplate Template = do {
     q \<leftarrow> query (\<lambda>d. map st_ID (filter (\<lambda>r. db_eq d (st_Template r) Template) (t_server d)));
     ret (\<not> isl (query_row q))
   }"

text \<open>An \<open>interface{}\<close> holding an \<open>int64\<close>, a \<open>string\<close> or something else.\<close>

datatype item = Id int | Name string | Other string

definition unsupported_item :: "string \<Rightarrow> go_error" where
  "unsupported_item ty = GoError (''unsupported type for deletion: '' @ ty)"

definition DelTacacsServerTemplate :: "item \<Rightarrow> go_error option io" where
  "DelTacacsServerTemplate it =
     (case it of
        Id v \<Rightarrow> do {
          r \<leftarrow> exec (sql_delete MetaKeyServer t_server t_server_update (\<lambda>_ r. st_ID r = v));
          bump_on_success MetaKeyServer r
        }
      | Name v \<Rightarrow> do {
          r \<leftarrow> exec (sql_delete MetaKeyServer t_server t_server_update (\<lambda>d r. db_eq d (st_Template r) v));
          bump_on_success MetaKeyServer r
        }
      | Other ty \<Rightarrow> ret (Some (unsupported_item ty)))"

text \<open>\<open>SELECT count(*)\<close> has one row.\<close>

definition IsTemplateOnlyServer :: "string \<Rightarrow> bool io" where
  "IsTemplateOnlyServer template = do {
     q \<leftarrow> query (\<lambda>d. [length (filter (\<lambda>r. db_eq d (st_Template r) template) (t_server d))]);
     ret (case query_row q of Inl e \<Rightarrow> True | Inr cnt \<Rightarrow> if cnt > 1 then False else True)
   }"

definition IsIdsTemplateOnlyServer :: "int \<Rightarrow> (string \<times> bool) io" where
  "IsIdsTemplateOnlyServer i = do {
     q \<leftarrow> query (\<lambda>d. map st_Template (filter (\<lambda>r. st_ID r = i) (t_server d)));
     case query_row q of Inl e \<Rightarrow> ret ([], True)
     | Inr t \<Rightarrow> do { b \<leftarrow> IsTemplateOnlyServer t; ret (t, b) }
   }"

text \<open>The only row of a template may go if no role refers to the template, another row always.\<close>

definition IsIdOrTemplateDeleteServer :: "item \<Rightarrow> bool io" where
  "IsIdOrTemplateDeleteServer it =
     (case it of
        Id v \<Rightarrow> do {
          (template, is) \<leftarrow> IsIdsTemplateOnlyServer v;
          if template = [] then ret False
          else if is then do {
            l \<leftarrow> GetTacacsRoleTemplateByServerTemplate template;
            ret (length l < 1)
          } else ret True
        }
      | Name v \<Rightarrow> do {
          is \<leftarrow> IsTemplateOnlyServer v;
          if is then do {
            l \<leftarrow> GetTacacsRoleTemplateByServerTemplate v;
            ret (length l < 1)
          } else ret True
        }
      | Other _ \<Rightarrow> ret False)"

text \<open>The template lists of the roles in use, one lookup for each role.\<close>

fun used_loop :: "(TacacsRoleTemplate \<Rightarrow> string) \<Rightarrow> string list \<Rightarrow> string list \<Rightarrow> string list io" where
  "used_loop col [] used = ret used"
| "used_loop col (r # rs) used = do {
     t \<leftarrow> GetTacacsRoleTemplateByTemplate r;
     used_loop col rs (if \<not> IsValueInList (col t) used then used @ [col t] else used)
   }"

definition GetTemplateServerInUsed :: "(string list \<times> int list) io" where
  "GetTemplateServerInUsed = do {
     inUsedRoles \<leftarrow> GetInUsedRole;
     names \<leftarrow> used_loop rt_ServerTemplateList inUsedRoles [];
     (ts, _) \<leftarrow> GetTacacsServerTemplates;
     ret (names, map st_ID (filter (\<lambda>t. IsValueInList (st_Template t) names) ts))
   }"

definition IsTemplateServerInUsed :: "item \<Rightarrow> bool io" where
  "IsTemplateServerInUsed it = do {
     (nameInUsed, idInUsed) \<leftarrow> GetTemplateServerInUsed;
     ret (case it of Id v \<Rightarrow> IsValueInList v idInUsed | Name v \<Rightarrow> IsValueInList v nameInUsed | Other _ \<Rightarrow> False)
   }"

definition GetTacacsTemplateServerData2Md5 :: "string result io" where
  "GetTacacsTemplateServerData2Md5 = do {
     q \<leftarrow> query (\<lambda>d. map (\<lambda>t. dec_int (st_ID t) @ st_Template t @ st_ServerTemplate t) (t_server d));
     ret (digest_rows q)
   }"

subsection \<open>Command templates\<close>

definition GetTacacsCommandTemplatesByTemplate :: "string \<Rightarrow> (TacacsCommandTemplate list \<times> go_error option) io" where
  "GetTacacsCommandTemplatesByTemplate template = do {
     q \<leftarrow> query (\<lambda>d. filter (\<lambda>r. db_eq d (ct_Template r) template) (t_command d));
     ret (rows_or_nil q)
   }"

definition GetTacacsCommandTemplates :: "(TacacsCommandTemplate list \<times> go_error option) io" where
  "GetTacacsCommandTemplates = do { q \<leftarrow> query t_command; ret (rows_or_nil q) }"

fun insert_commands :: "string \<Rightarrow> string list \<Rightarrow> nat \<Rightarrow> (nat \<times> go_error option) io" where
  "insert_commands template [] inserted = ret (inserted, None)"
| "insert_commands template (cmd # cmds) inserted = do {
     r \<leftarrow> exec (sql_insert MetaKeyCommand t_command_update (\<lambda>_. False)
            (\<lambda>i. \<lparr>ct_ID = i, ct_Template = template, ct_CommandTemplate = cmd\<rparr>));
     case r of Inl e \<Rightarrow> ret (inserted, Some e)
     | Inr _ \<Rightarrow> insert_commands template cmds (inserted + 1)
   }"

definition AddTacacsCommandTemplate :: "string \<Rightarrow> string list \<Rightarrow> go_error option io" where
  "AddTacacsCommandTemplate template commandTemplate = do {
     (inserted, err) \<leftarrow> insert_commands template (UniqueStringSlice commandTemplate) 0;
     case err of Some e \<Rightarrow> ret (Some e)
     | None \<Rightarrow> do {
         _ \<leftarrow> (if inserted > 0 then BumpMetaVersion MetaKeyCommand else ret ());
         ret None
       }
   }"

definition IsIdExistsInTacacsCommandTemplate :: "int \<Rightarrow> bool io" where
  "IsIdExistsInTacacsCommandTemplate i = do {
     q \<leftarrow> query (\<lambda>d. map ct_ID (filter (\<lambda>r. ct_ID r = i) (t_command d)));
     ret (\<not> isl (query_row q))
   }"

definition IsTemplateExistsInTacacsCommandTemplate :: "string \<Rightarrow> bool io" where
  "IsTemplateExistsInTacacsCommandTemplate Template = do {
     q \<leftarrow> query (\<lambda>d. map ct_ID (filter (\<lambda>r. db_eq d (ct_Template r) Template) (t_command d)));
     ret (\<not> isl (query_row q))
   }"

definition DelTacacsCommandTemplate :: "item \<Rightarrow> go_error option io" where
  "DelTacacsCommandTemplate it =
     (case it of
        Id v \<Rightarrow> do {
          r \<leftarrow> exec (sql_delete MetaKeyCommand t_command t_command_update (\<lambda>_ r. ct_ID r = v));
          bump_on_success MetaKeyCommand r
        }
      | Name v \<Rightarrow> do {
          r \<leftarrow> exec (sql_delete MetaKeyCommand t_command t_command_update (\<lambda>d r. db_eq d (ct_Template r) v));
          bump_on_success MetaKeyCommand r
        }
      | Other ty \<Rightarrow> ret (Some (unsupported_item ty)))"

text \<open>
  The placeholder of this statement stands in quotes, so it has no parameters, and the driver
  refuses the call with its one argument.
\<close>

definition IsTemplateOnlyCommand :: "string \<Rightarrow> bool io" where
  "IsTemplateOnlyCommand template = do {
     cnt \<leftarrow> (ret (Inl (GoError ''sql: expected 0 arguments, got 1'')) :: nat result io);
     ret (case cnt of Inl e \<Rightarrow> True | Inr c \<Rightarrow> if c > 1 then False else True)
   }"

definition IsIdsTemplateOnlyCommand :: "int \<Rightarrow> (string \<times> bool) io" where
  "IsIdsTemplateOnlyCommand i = do {
     q \<leftarrow> query (\<lambda>d. map ct_Template (filter (\<lambda>r. ct_ID r = i) (t_command d)));
     case query_row q of Inl e \<Rightarrow> ret ([], True)
     | Inr t \<Rightarrow> do { b \<leftarrow> IsTemplateOnlyCommand t; ret (t, b) }
   }"

definition IsIdOrTemplateDeleteCommand :: "item \<Rightarrow> bool io" where
  "IsIdOrTemplateDeleteCommand it =
     (case it of
        Id v \<Rightarrow> do {
          (template, is) \<leftarrow> IsIdsTemplateOnlyCommand v;
          if template = [] then ret False
          else if is then do {
            l \<leftarrow> GetTacacsRoleTemplateByCommandTemplate template;
            ret (length l < 1)
          } else ret True
        }
      | Name v \<Rightarrow> do {
          is \<leftarrow> IsTemplateOnlyCommand v;
          if is then do {
            l \<leftarrow> GetTacacsRoleTemplateByCommandTemplate v;
            ret (length l < 1)
          } else ret True
        }
      | Other _ \<Rightarrow> ret False)"

definition GetTemplateCmdInUsed :: "(string list \<times> int list) io" where
  "GetTemplateCmdInUsed = do {
     inUsedRoles \<leftarrow> GetInUsedRole;
     names \<leftarrow> used_loop rt_CommandTemplateList inUsedRoles [];
     (ts, _) \<leftarrow> GetTacacsCommandTemplates;
     ret (names, map ct_ID (filter (\<lambda>t. IsValueInList (ct_Template t) names) ts))
   }"

definition IsTemplateCmdInUsed :: "item \<Rightarrow> bool io" where
  "IsTemplateCmdInUsed it = do {
     (nameInUsed, idInUsed) \<leftarrow> GetTemplateCmdInUsed;
     ret (case it of Id v \<Rightarrow> IsValueInList v idInUsed | Name v \<Rightarrow> IsValueInList v nameInUsed | Other _ \<Rightarrow> False)
   }"

definition GetTacacsTemplateCommandData2Md5 :: "string result io" where
  "GetTacacsTemplateCommandData2Md5 = do {
     q \<leftarrow> query (\<lambda>d. map (\<lambda>t. dec_int (ct_ID t) @ ct_Template t @ ct_CommandTemplate t) (t_command d));
     ret (digest_rows q)
   }"

end
