(* ===== verification/DbApproval.thy ===== *)
theory DbApproval
  imports DbUser
begin

text \<open>
  \<open>tacacs_approval.go\<close>, \<open>tacacs_on_duty.go\<close> and \<open>tacacs_admin.go\<close>: the requests for a role, the
  users on duty and the administrators.
\<close>

subsection \<open>Approvals\<close>

record TacacsApproval =
  tap_ID :: int
  tap_CreateTime :: int
  tap_User :: string
  tap_ApprovalPermissions :: string
  tap_StartTime :: int
  tap_EndTime :: int
  tap_Status :: int
  tap_Approver :: string
  tap_ApproveTime :: int

text \<open>The zero \<open>time.Time\<close>, January 1 of year 1, in nanoseconds since 1970.\<close>

definition zero_time :: int where
  "zero_time = - 62135596800 * 10 ^ 9"

text \<open>The columns of a row that \<open>Scan\<close> accepts; \<open>NULL\<close> gives the zero values.\<close>

definition scanApproval :: "approval_row result \<Rightarrow> TacacsApproval result" where
  "scanApproval row = (case row of Inl e \<Rightarrow> Inl e | Inr r \<Rightarrow> Inr
     \<lparr>tap_ID = ar_id r, tap_CreateTime = ar_create_time r, tap_User = ar_user r,
      tap_ApprovalPermissions = ar_approval_permissions r, tap_StartTime = ar_start_time r,
      tap_EndTime = ar_end_time r, tap_Status = ar_status r,
      tap_Approver = (case ar_approver r of None \<Rightarrow> [] | Some s \<Rightarrow> s),
      tap_ApproveTime = (case ar_approve_time r of None \<Rightarrow> zero_time | Some t \<Rightarrow> t)\<rparr>)"

fun approvals_loop :: "approval_row result list \<Rightarrow> TacacsApproval list \<Rightarrow> TacacsApproval list \<times> go_error option" where
  "approvals_loop [] acc = (acc, None)"
| "approvals_loop (s # ss) acc =
     (case scanApproval s of Inl e \<Rightarrow> ([], Some e) | Inr a \<Rightarrow> approvals_loop ss (acc @ [a]))"

definition GetTacacsApproval :: "int \<Rightarrow> (TacacsApproval list \<times> go_error option) io" where
  "GetTacacsApproval status =
     (let run = (\<lambda>sel. do {
            q \<leftarrow> query sel;
            ret (case q of QueryFails e \<Rightarrow> ([], Some e) | Rows ss _ \<Rightarrow> approvals_loop ss [])
          })
      in if status \<in> {0, 1, 2, 3, 4, 6} then run (\<lambda>d. filter (\<lambda>r. ar_status r = status) (t_approval d))
         else if status = 5 then run t_approval
         else ret ([], Some (GoError (''status('' @ dec_int status @ '') input is error''))))"

definition GetTacacsApprovalByID :: "int \<Rightarrow> TacacsApproval option result io" where
  "GetTacacsApprovalByID i = do {
     q \<leftarrow> query (\<lambda>d. filter (\<lambda>r. ar_id r = i) (t_approval d));
     ret (case scanApproval (query_row q) of
            Inl e \<Rightarrow> if e = ErrNoRows then Inr None else Inl e
          | Inr a \<Rightarrow> Inr (Some a))
   }"

text \<open>A \<open>datetime\<close> column keeps whole seconds; MySQL rounds to the nearest one.\<close>

definition datetime :: "int \<Rightarrow> int" where
  "datetime t = (t + 500000000) div 1000000000 * 1000000000"

definition CreateTacacsApproval :: "TacacsApproval \<Rightarrow> int result io" where
  "CreateTacacsApproval a = do {
     r \<leftarrow> exec (sql_insert MetaKeyApproval t_approval_update (\<lambda>_. False)
       (\<lambda>i. \<lparr>ar_id = i, ar_create_time = datetime (tap_CreateTime a), ar_user = tap_User a,
             ar_approval_permissions = tap_ApprovalPermissions a,
             ar_start_time = datetime (tap_StartTime a), ar_end_time = datetime (tap_EndTime a),
             ar_status = tap_Status a, ar_approver = None, ar_approve_time = None\<rparr>));
     case r of Inl e \<Rightarrow> ret (Inl e)
     | Inr (_, i) \<Rightarrow> do { _ \<leftarrow> BumpMetaVersion MetaKeyApproval; ret (Inr i) }
   }"

definition status_stmt :: "int \<Rightarrow> int \<Rightarrow> stmt" where
  "status_stmt i status =
     sql_update MetaKeyApproval t_approval t_approval_update (\<lambda>_ r. ar_id r = i) (\<lambda>r. r\<lparr>ar_status := status\<rparr>)"

definition UpdateTacacsApprovalStatus :: "int \<Rightarrow> int \<Rightarrow> go_error option io" where
  "UpdateTacacsApprovalStatus i status = do {
     r \<leftarrow> exec (status_stmt i status);
     bump_on_success MetaKeyApproval r
   }"

definition approve_stmt :: "int \<Rightarrow> int \<Rightarrow> string \<Rightarrow> int \<Rightarrow> stmt" where
  "approve_stmt i newStatus approver now =
     sql_update MetaKeyApproval t_approval t_approval_update (\<lambda>_ r. ar_id r = i \<and> ar_status r = 3)
       (\<lambda>r. r\<lparr>ar_status := newStatus, ar_approver := Some approver, ar_approve_time := Some (datetime now)\<rparr>)"

definition ApproveWithLock :: "int \<Rightarrow> int \<Rightarrow> string \<Rightarrow> int result io" where
  "ApproveWithLock i newStatus approver = do {
     now \<leftarrow> time_now;
     res \<leftarrow> exec (approve_stmt i newStatus approver now);
     case res of Inl e \<Rightarrow> ret (Inl e)
     | Inr (rows, _) \<Rightarrow> do {
         _ \<leftarrow> (if rows > 0 then BumpMetaVersion MetaKeyApproval else ret ());
         ret (Inr (int rows))
       }
   }"

text \<open>\<open>txt\<close> is the text of a \<open>datetime\<close> in SQL.\<close>

definition GetTacacsApprovalData2Md5 :: "(int \<Rightarrow> string) \<Rightarrow> string result io" where
  "GetTacacsApprovalData2Md5 txt = do {
     q \<leftarrow> query (\<lambda>d. map (\<lambda>r. dec_int (ar_id r) @ txt (ar_create_time r) @ ar_user r @
            ar_approval_permissions r @ txt (ar_start_time r) @ txt (ar_end_time r) @
            dec_int (ar_status r)) (t_approval d));
     ret (digest_rows q)
   }"

subsection \<open>Users on duty and administrators\<close>

definition GetTacacsAdminUser :: "string list io" where
  "GetTacacsAdminUser = do {
     q \<leftarrow> query t_admin;
     ret (case q of QueryFails e \<Rightarrow> [] | Rows ss _ \<Rightarrow> fst (scan_all ss []))
   }"

definition GetTacacsOnDutyUser :: "string list io" where
  "GetTacacsOnDutyUser = do {
     q \<leftarrow> query t_on_duty;
     ret (case q of QueryFails e \<Rightarrow> [] | Rows ss _ \<Rightarrow> fst (scan_all ss []))
   }"

definition GetTacacsOnDutyUserWhiteList :: "(string list \<times> go_error option) io" where
  "GetTacacsOnDutyUserWhiteList = do {
     q \<leftarrow> query t_white;
     ret (case q of
            QueryFails e \<Rightarrow> ([], wrap ''select from tacacs_admin database is failed, because '' e)
          | Rows ss _ \<Rightarrow> (case scan_all ss [] of
              (users, None) \<Rightarrow> (users, None)
            | (users, Some e) \<Rightarrow> (users, wrap ''read database data is failed ,because '' e)))
   }"

definition duty_delete :: "string list \<Rightarrow> stmt" where
  "duty_delete needDelete =
     sql_delete MetaKeyOnDuty t_on_duty t_on_duty_update (\<lambda>d u. \<exists>x\<in>set needDelete. db_eq d u x)"

text \<open>One statement inserts all names; the unique key of the table holds for all of them.\<close>

fun no_clash :: "(string \<Rightarrow> string \<Rightarrow> bool) \<Rightarrow> string list \<Rightarrow> string list \<Rightarrow> bool" where
  "no_clash eq rows [] = True"
| "no_clash eq rows (x # xs) = (\<not> (\<exists>r\<in>set rows. eq r x) \<and> no_clash eq (rows @ [x]) xs)"

definition duty_insert :: "string list \<Rightarrow> stmt" where
  "duty_insert needAdd d =
     (if no_clash (db_eq d) (t_on_duty d) needAdd
      then Inr (touch MetaKeyOnDuty (length needAdd)
                  (d\<lparr>t_on_duty := t_on_duty d @ needAdd,
                     auto_increment := auto_increment d + int (length needAdd)\<rparr>),
                length needAdd, auto_increment d)
      else Inl (GoError ''Error 1062 (23000): Duplicate entry''))"

definition CoverTacacsOnDutyUser :: "string list \<Rightarrow> (string list \<times> string list) result io" where
  "CoverTacacsOnDutyUser onDutyUsers = do {
     inDbUsers \<leftarrow> GetTacacsOnDutyUser;
     let needNotUpdateUser = GetIntersection onDutyUsers inDbUsers;
     let needAdd = filter (\<lambda>u. u \<notin> set needNotUpdateUser) onDutyUsers;
     let needDelete = filter (\<lambda>u. u \<notin> set needNotUpdateUser) inDbUsers;
     r1 \<leftarrow> (if length needDelete > 0 then exec (duty_delete needDelete) else ret (Inr (0, 0)));
     case r1 of Inl e \<Rightarrow> ret (Inl e)
     | Inr _ \<Rightarrow> do {
         r2 \<leftarrow> (if length needAdd > 0 then exec (duty_insert needAdd) else ret (Inr (0, 0)));
         case r2 of Inl e \<Rightarrow> ret (Inl e)
         | Inr _ \<Rightarrow> do {
             _ \<leftarrow> (if length needAdd > 0 \<or> length needDelete > 0 then BumpMetaVersion MetaKeyOnDuty else ret ());
             ret (Inr (needAdd, needDelete))
           }
       }
   }"

end
