(* ===== verification/DbMisc.thy ===== *)
theory DbMisc
  imports DbUser
begin

text \<open>
  \<open>pkg/public/db/misc.go\<close>, the settings of the log display in the key/value table \<open>tacacs_misc\<close>,
  and the mappings of \<open>pkg/public/logquery\<close> that it stores.  \<open>encoding/json\<close> is a parameter.
\<close>

subsection \<open>Log types and mappings, \<open>logquery.go\<close>\<close>

datatype LogType = LogTypeAuthen | LogTypeAuthor | LogTypeAccount

fun LogType_String :: "LogType \<Rightarrow> string" where
  "LogType_String LogTypeAuthen = ''authen''"
| "LogType_String LogTypeAuthor = ''author''"
| "LogType_String LogTypeAccount = ''account''"

definition ParseLogType :: "string \<Rightarrow> LogType result" where
  "ParseLogType raw =
     (if raw = ''authen'' then Inr LogTypeAuthen
      else if raw = ''author'' then Inr LogTypeAuthor
      else if raw = ''account'' then Inr LogTypeAccount
      else Inl (GoError (''unsupported log type '' @ quote raw)))"

datatype FieldKind = FieldKindString | FieldKindInt | FieldKindBool | FieldKindStringArray

record FieldSpec =
  fs_Key :: string
  fs_Label :: string
  fs_Kind :: FieldKind

text \<open>\<open>Fields\<close> and \<open>Names\<close> are maps.\<close>

record Mapping =
  mp_Table :: string
  mp_EventTimeColumn :: string
  mp_Fields :: "(string \<times> string) list"
  mp_Names :: "(string \<times> string) list"

text \<open>The value of a Go map at a key, with the zero value for a missing key.\<close>

definition map_get :: "(string \<times> string) list \<Rightarrow> string \<Rightarrow> string" where
  "map_get m k = (case map_of m k of None \<Rightarrow> [] | Some v \<Rightarrow> v)"

abbreviation spec :: "string \<Rightarrow> string \<Rightarrow> FieldKind \<Rightarrow> FieldSpec" where
  "spec k l d \<equiv> \<lparr>fs_Key = k, fs_Label = l, fs_Kind = d\<rparr>"

fun Specs :: "LogType \<Rightarrow> FieldSpec list" where
  "Specs LogTypeAuthen =
    [spec ''time'' ''AuthenInfo.Time'' FieldKindString,
     spec ''timeStamp'' ''AuthenInfo.TimeStamp'' FieldKindInt,
     spec ''timeRange'' ''AuthenInfo.TimeRange'' FieldKindInt,
     spec ''user'' ''AuthenInfo.User'' FieldKindString,
     spec ''switchAddr'' ''AuthenInfo.SwitchAddr'' FieldKindString,
     spec ''serverAddr'' ''AuthenInfo.ServerAddr'' FieldKindString,
     spec ''authenStatus'' ''AuthenInfo.AuthenStatus'' FieldKindString,
     spec ''details'' ''AuthenInfo.Details'' FieldKindString,
     spec ''isSingleConnect'' ''AuthenInfo.IsSingleConnect'' FieldKindBool,
     spec ''tacacsClient'' ''AuthenInfo.TacacsClient'' FieldKindString]"
| "Specs LogTypeAuthor =
    [spec ''time'' ''AuthorInfo.Time'' FieldKindString,
     spec ''timeStamp'' ''AuthorInfo.TimeStamp'' FieldKindInt,
     spec ''timeRange'' ''AuthorInfo.TimeRange'' FieldKindInt,
     spec ''user'' ''AuthorInfo.User'' FieldKindString,
     spec ''switchAddr'' ''AuthorInfo.SwitchAddr'' FieldKindString,
     spec ''serverAddr'' ''AuthorInfo.ServerAddr'' FieldKindString,
     spec ''authorStatus'' ''AuthorInfo.AuthorStatus'' FieldKindString,
     spec ''details'' ''AuthorInfo.Details'' FieldKindString,
     spec ''cmd'' ''AuthorInfo.Cmd'' FieldKindString,
     spec ''isSingleConnect'' ''AuthorInfo.IsSingleConnect'' FieldKindBool,
     spec ''tacacsClient'' ''AuthorInfo.TacacsClient'' FieldKindString]"
| "Specs LogTypeAccount =
    [spec ''time'' ''AccountInfo.Time'' FieldKindString,
     spec ''timeStamp'' ''AccountInfo.TimeStamp'' FieldKindInt,
     spec ''timeRange'' ''AccountInfo.TimeRange'' FieldKindInt,
     spec ''user'' ''AccountInfo.User'' FieldKindString,
     spec ''switchAddr'' ''AccountInfo.SwitchAddr'' FieldKindString,
     spec ''serverAddr'' ''AccountInfo.ServerAddr'' FieldKindString,
     spec ''cmd'' ''AccountInfo.Cmd'' FieldKindString,
     spec ''port'' ''AccountInfo.Port'' FieldKindString,
     spec ''flags'' ''AccountInfo.Flags'' FieldKindInt,
     spec ''authenMethod'' ''AccountInfo.AuthenMethod'' FieldKindInt,
     spec ''privLvl'' ''AccountInfo.PrivLvl'' FieldKindInt,
     spec ''authenType'' ''AccountInfo.AuthenType'' FieldKindInt,
     spec ''authenService'' ''AccountInfo.AuthenService'' FieldKindInt,
     spec ''arg'' ''AccountInfo.Arg'' FieldKindStringArray,
     spec ''isSingleConnect'' ''AccountInfo.IsSingleConnect'' FieldKindBool,
     spec ''tacacsClient'' ''AccountInfo.TacacsClient'' FieldKindString]"

definition FieldSpecFor :: "LogType \<Rightarrow> string \<Rightarrow> FieldSpec option" where
  "FieldSpecFor t key = find (\<lambda>s. fs_Key s = key) (Specs t)"

definition after_last_dot :: "string \<Rightarrow> string" where
  "after_last_dot l = (if CHR ''.'' \<in> set l then rev (takeWhile (\<lambda>c. c \<noteq> CHR ''.'') (rev l)) else l)"

definition DisplayLabel :: "LogType \<Rightarrow> string \<Rightarrow> Mapping \<Rightarrow> string" where
  "DisplayLabel t key mapping =
     (let name = TrimSpace (map_get (mp_Names mapping) key) in
      if name \<noteq> [] then name
      else (case FieldSpecFor t key of
              Some s \<Rightarrow> (if CHR ''.'' \<in> set (fs_Label s) then after_last_dot (fs_Label s) else fs_Label s)
            | None \<Rightarrow> key))"

definition AllLogTypes :: "LogType list" where
  "AllLogTypes = [LogTypeAuthen, LogTypeAuthor, LogTypeAccount]"

text \<open>The loop of \<open>MappingComplete\<close>; \<open>seen\<close> are the columns used so far.\<close>

fun complete_loop :: "FieldSpec list \<Rightarrow> (string \<times> string) list \<Rightarrow> string list \<Rightarrow> bool" where
  "complete_loop [] m seen = True"
| "complete_loop (s # ss) m seen =
     (let column = map_get m (fs_Key s) in
      if column = [] then False
      else if column \<in> set seen then False
      else complete_loop ss m (column # seen))"

definition MappingComplete :: "LogType \<Rightarrow> Mapping \<Rightarrow> bool" where
  "MappingComplete t m =
     (if mp_Table m = [] \<or> mp_EventTimeColumn m = [] \<or> length (mp_Fields m) \<noteq> length (Specs t) then False
      else complete_loop (Specs t) (mp_Fields m) [])"

definition MappingKeys :: "LogType \<Rightarrow> Mapping \<Rightarrow> string list" where
  "MappingKeys t m = filter (\<lambda>k. map_of (mp_Fields m) k \<noteq> None) (map fs_Key (Specs t))"

definition SortedKeys :: "(string \<times> string) list \<Rightarrow> string list" where
  "SortedKeys m = sort (map fst m)"

subsection \<open>The table\<close>

definition MiscKeyLogDisplayMode :: string where "MiscKeyLogDisplayMode = ''log_display_mode''"
definition MiscKeyLogClickHouseConfig :: string where "MiscKeyLogClickHouseConfig = ''log_clickhouse_config''"
definition MiscKeyLogRedirectURLAuthen :: string where "MiscKeyLogRedirectURLAuthen = ''log_redirect_url_authen''"
definition MiscKeyLogRedirectURLAuthor :: string where "MiscKeyLogRedirectURLAuthor = ''log_redirect_url_author''"
definition MiscKeyLogRedirectURLAccount :: string where "MiscKeyLogRedirectURLAccount = ''log_redirect_url_account''"
definition MiscKeyLogRedirectVisibleAuthen :: string where
  "MiscKeyLogRedirectVisibleAuthen = ''log_redirect_visible_authen''"
definition MiscKeyLogRedirectVisibleAuthor :: string where
  "MiscKeyLogRedirectVisibleAuthor = ''log_redirect_visible_author''"
definition MiscKeyLogRedirectVisibleAccount :: string where
  "MiscKeyLogRedirectVisibleAccount = ''log_redirect_visible_account''"

fun mapping_key :: "LogType \<Rightarrow> string" where
  "mapping_key LogTypeAuthen = ''log_clickhouse_mapping_authen''"
| "mapping_key LogTypeAuthor = ''log_clickhouse_mapping_author''"
| "mapping_key LogTypeAccount = ''log_clickhouse_mapping_account''"

lemmas misc_keys = MiscKeyLogDisplayMode_def MiscKeyLogClickHouseConfig_def MiscKeyLogRedirectURLAuthen_def
  MiscKeyLogRedirectURLAuthor_def MiscKeyLogRedirectURLAccount_def MiscKeyLogRedirectVisibleAuthen_def
  MiscKeyLogRedirectVisibleAuthor_def MiscKeyLogRedirectVisibleAccount_def

definition GetMisc :: "string \<Rightarrow> string result io" where
  "GetMisc key = do {
     q \<leftarrow> query (\<lambda>d. map mr_v (filter (\<lambda>r. db_eq d (mr_k r) key) (t_misc d)));
     ret (case query_row q of Inl e \<Rightarrow> (if e = ErrNoRows then Inr [] else Inl e) | Inr v \<Rightarrow> Inr v)
   }"

text \<open>\<open>INSERT ... ON DUPLICATE KEY UPDATE\<close>: \<open>f\<close> changes the row with the key, \<open>r0\<close> is a new row.\<close>

fun upsert_row :: "(string \<Rightarrow> string \<Rightarrow> bool) \<Rightarrow> string \<Rightarrow> (misc_row \<Rightarrow> misc_row) \<Rightarrow> misc_row \<Rightarrow> misc_row list \<Rightarrow> misc_row list" where
  "upsert_row eq k f r0 [] = [r0]"
| "upsert_row eq k f r0 (r # rs) = (if eq (mr_k r) k then f r # rs else r # upsert_row eq k f r0 rs)"

definition misc_value_stmt :: "string \<Rightarrow> string \<Rightarrow> stmt" where
  "misc_value_stmt key value d =
     Inr (d\<lparr>t_misc := upsert_row (db_eq d) key (\<lambda>r. r\<lparr>mr_v := value\<rparr>)
              \<lparr>mr_k = key, mr_v = value, mr_description = []\<rparr> (t_misc d)\<rparr>, 1, 0)"

definition misc_description_stmt :: "string \<Rightarrow> string \<Rightarrow> stmt" where
  "misc_description_stmt key desc d =
     Inr (d\<lparr>t_misc := upsert_row (db_eq d) key (\<lambda>r. r\<lparr>mr_description := desc\<rparr>)
              \<lparr>mr_k = key, mr_v = [], mr_description = desc\<rparr> (t_misc d)\<rparr>, 1, 0)"

definition UpsertMisc :: "string \<Rightarrow> string \<Rightarrow> go_error option io" where
  "UpsertMisc key value = do {
     w \<leftarrow> world_get;
     if \<not> w_DbWrite w then ret None
     else do {
       r \<leftarrow> exec (misc_value_stmt key value);
       ret (case r of Inl e \<Rightarrow> Some e | Inr _ \<Rightarrow> None)
     }
   }"

fun upsert_loop :: "(string \<times> string) list \<Rightarrow> db \<Rightarrow> db result io" where
  "upsert_loop [] d = ret (Inr d)"
| "upsert_loop ((key, value) # kvs) d = do {
     r \<leftarrow> tx_exec (misc_value_stmt key value) d;
     case r of Inl e \<Rightarrow> ret (Inl (GoError (''upsert misc key='' @ key @ '': '' @ err_msg e)))
     | Inr (d', _) \<Rightarrow> upsert_loop kvs d'
   }"

text \<open>The list is the map in the order of its iteration.\<close>

definition UpsertMiscBatch :: "(string \<times> string) list \<Rightarrow> go_error option io" where
  "UpsertMiscBatch values = do {
     w \<leftarrow> world_get;
     if \<not> w_DbWrite w then ret None
     else do {
       b \<leftarrow> tx_begin;
       case b of Inl e \<Rightarrow> ret (Some e)
       | Inr d \<Rightarrow> do {
           r \<leftarrow> upsert_loop values d;
           case r of Inl e \<Rightarrow> ret (Some e) | Inr d' \<Rightarrow> tx_commit d'
         }
     }
   }"

fun sync_loop :: "(string \<times> string) list \<Rightarrow> go_error option io" where
  "sync_loop [] = ret None"
| "sync_loop ((key, desc) # kvs) = do {
     r \<leftarrow> exec (misc_description_stmt key desc);
     case r of Inl e \<Rightarrow> ret (Some e) | Inr _ \<Rightarrow> sync_loop kvs
   }"

text \<open>The texts of \<open>MiscDescriptions\<close> are the argument.\<close>

definition SyncMiscDescriptions :: "(string \<times> string) list \<Rightarrow> go_error option io" where
  "SyncMiscDescriptions descriptions = do {
     w \<leftarrow> world_get;
     if \<not> w_DbWrite w then ret None else sync_loop descriptions
   }"

subsection \<open>The settings\<close>

definition GetLogDisplayMode :: "string result io" where
  "GetLogDisplayMode = do {
     v \<leftarrow> GetMisc MiscKeyLogDisplayMode;
     ret (case v of Inl e \<Rightarrow> Inl e
          | Inr v \<Rightarrow> if v = ''clickhouse'' then Inr ''clickhouse'' else Inr ''external'')
   }"

definition SaveLogDisplayMode :: "string \<Rightarrow> go_error option io" where
  "SaveLogDisplayMode mode =
     (if mode \<noteq> ''external'' \<and> mode \<noteq> ''clickhouse''
      then ret (Some (GoError (''unsupported log display mode '' @ quote mode)))
      else UpsertMisc MiscKeyLogDisplayMode mode)"

record ClickHouseLogConfig =
  ch_Address :: string
  ch_Username :: string
  ch_Password :: string
  ch_Database :: string
  ch_Mappings :: "(LogType \<times> Mapping) list"

definition zero_config :: ClickHouseLogConfig where
  "zero_config = \<lparr>ch_Address = [], ch_Username = [], ch_Password = [], ch_Database = [], ch_Mappings = []\<rparr>"

definition zero_mapping :: Mapping where
  "zero_mapping = \<lparr>mp_Table = [], mp_EventTimeColumn = [], mp_Fields = [], mp_Names = []\<rparr>"

text \<open>\<open>encoding/json\<close> on the two types that are stored; the connection is written without mappings.\<close>

record json =
  js_marshal_config :: "string \<Rightarrow> string \<Rightarrow> string \<Rightarrow> string \<Rightarrow> string result"
  js_unmarshal_config :: "string \<Rightarrow> ClickHouseLogConfig result"
  js_marshal_mapping :: "Mapping \<Rightarrow> string result"
  js_unmarshal_mapping :: "string \<Rightarrow> Mapping result"

definition set_mapping :: "LogType \<Rightarrow> Mapping \<Rightarrow> ClickHouseLogConfig \<Rightarrow> ClickHouseLogConfig" where
  "set_mapping typ m cfg = cfg\<lparr>ch_Mappings := (typ, m) # filter (\<lambda>p. fst p \<noteq> typ) (ch_Mappings cfg)\<rparr>"

text \<open>The iteration over the three log types may have any order: it is the argument \<open>types\<close>.\<close>

fun mappings_loop :: "json \<Rightarrow> LogType list \<Rightarrow> ClickHouseLogConfig \<Rightarrow> ClickHouseLogConfig result io" where
  "mappings_loop js [] cfg = ret (Inr cfg)"
| "mappings_loop js (typ # typs) cfg = do {
     raw \<leftarrow> GetMisc (mapping_key typ);
     case raw of Inl e \<Rightarrow> ret (Inl e)
     | Inr raw \<Rightarrow>
         if raw = [] then mappings_loop js typs cfg
         else (case js_unmarshal_mapping js raw of
                 Inl e \<Rightarrow> ret (Inl (GoError (''decode clickhouse '' @ LogType_String typ @ '' mapping: '' @ err_msg e)))
               | Inr m \<Rightarrow> mappings_loop js typs (set_mapping typ m cfg))
   }"

definition GetClickHouseLogConfig :: "json \<Rightarrow> LogType list \<Rightarrow> ClickHouseLogConfig result io" where
  "GetClickHouseLogConfig js types = do {
     raw \<leftarrow> GetMisc MiscKeyLogClickHouseConfig;
     case raw of Inl e \<Rightarrow> ret (Inl e)
     | Inr raw \<Rightarrow>
         (case (if raw \<noteq> [] then js_unmarshal_config js raw else Inr zero_config) of
            Inl e \<Rightarrow> ret (Inl (GoError (''decode clickhouse log config: '' @ err_msg e)))
          | Inr cfg \<Rightarrow> mappings_loop js types cfg)
   }"

fun marshal_loop :: "json \<Rightarrow> (LogType \<times> Mapping) list \<Rightarrow> LogType list \<Rightarrow> (string \<times> string) list \<Rightarrow> (string \<times> string) list result" where
  "marshal_loop js ms [] values = Inr values"
| "marshal_loop js ms (typ # typs) values =
     (case js_marshal_mapping js (case map_of ms typ of None \<Rightarrow> zero_mapping | Some m \<Rightarrow> m) of
        Inl e \<Rightarrow> Inl (GoError (''encode clickhouse '' @ LogType_String typ @ '' mapping: '' @ err_msg e))
      | Inr b \<Rightarrow> marshal_loop js ms typs (values @ [(mapping_key typ, b)]))"

definition SaveClickHouseLogConfig :: "json \<Rightarrow> LogType list \<Rightarrow> ClickHouseLogConfig \<Rightarrow> go_error option io" where
  "SaveClickHouseLogConfig js types cfg =
     (case js_marshal_config js (ch_Address cfg) (ch_Username cfg) (ch_Password cfg) (ch_Database cfg) of
        Inl e \<Rightarrow> ret (Some e)
      | Inr connectionJSON \<Rightarrow>
          (case marshal_loop js (ch_Mappings cfg) types [(MiscKeyLogClickHouseConfig, connectionJSON)] of
             Inl e \<Rightarrow> ret (Some e)
           | Inr values \<Rightarrow> UpsertMiscBatch (values @ [(MiscKeyLogDisplayMode, ''clickhouse'')])))"

end
