(* ===== verification/DbTracking.thy ===== *)
theory DbTracking
  imports DbTemplate DbApproval DbMisc
begin

text \<open>
  The versions of \<open>tacacs_meta\<close> tell whether a watched table has changed: the operations of
  \<open>pkg/public/db\<close> that write, one by one and in any sequence, with failing statements and with
  other writers between their statements.
\<close>

subsection \<open>Versions\<close>

lemma version_bump_row:
  "map_of (bump_row k ms) j = (if j = k then Some (case map_of ms k of None \<Rightarrow> 1 | Some v \<Rightarrow> v + 1) else map_of ms j)"
  by (induction k ms rule: bump_row.induct) auto

lemma map_of_bump_rows:
  "map_of ((bump_row k ^^ n) ms) j =
     (if j = k \<and> n > 0 then Some (n + (case map_of ms k of None \<Rightarrow> 0 | Some v \<Rightarrow> v)) else map_of ms j)"
proof (induction n)
  case (Suc n)
  then show ?case
    by (cases "map_of ms k"; cases "n = 0"; cases "j = k") (simp_all add: version_bump_row)
qed simp

text \<open>\<open>tacacs_meta\<close> has a unique key.\<close>

definition unique_keys :: "db \<Rightarrow> bool" where
  "unique_keys d = distinct (map fst (t_meta d))"

lemma keys_bump_row: "set (map fst (bump_row k ms)) = insert k (set (map fst ms))"
  by (induction k ms rule: bump_row.induct) auto

lemma distinct_bump_row: "distinct (map fst ms) \<Longrightarrow> distinct (map fst (bump_row k ms))"
proof (induction k ms rule: bump_row.induct)
  case (2 k j v ms)
  then show ?case using keys_bump_row [of k ms] by auto
qed simp

lemma distinct_bump_rows: "distinct (map fst ms) \<Longrightarrow> distinct (map fst ((bump_row k ^^ n) ms))"
  by (induction n) (simp_all add: distinct_bump_row)

lemma version_touch:
  "version (touch k n d) j = version d j + (if j = k \<and> has_triggers d then n else 0)"
  by (auto simp: version_def touch_def map_of_bump_rows split: option.splits)

lemma join_versions_eq:
  "join_versions vs = join_versions vs' \<longleftrightarrow> (\<forall>k\<in>set MetaKeys. vs k = vs' k)"
proof
  assume eq: "join_versions vs = join_versions vs'"
  have under: "CHR ''_'' \<notin> set (dec_digits n)" for n
    using dec_digits_chars [of "CHR ''_''" n] by (auto simp: is_digit_def less_eq_char_def)
  have "map (\<lambda>k. dec_digits (vs k)) MetaKeys = map (\<lambda>k. dec_digits (vs' k)) MetaKeys"
    by (rule Join_inj [where c = "CHR ''_''"])
      (use eq under in \<open>auto simp: join_versions_def MetaKeys_def\<close>)
  then show "\<forall>k\<in>set MetaKeys. vs k = vs' k"
    by (simp add: dec_digits_inj)
next
  assume "\<forall>k\<in>set MetaKeys. vs k = vs' k"
  then have "map (\<lambda>k. dec_digits (vs k)) MetaKeys = map (\<lambda>k. dec_digits (vs' k)) MetaKeys" by simp
  then show "join_versions vs = join_versions vs'" unfolding join_versions_def by (rule arg_cong)
qed

lemma versions_loop_map_Inr:
  "distinct (map fst ms) \<Longrightarrow>
   versions_loop (map Inr ms) vs = Inr (\<lambda>k. case map_of ms k of None \<Rightarrow> vs k | Some v \<Rightarrow> v)"
proof (induction ms arbitrary: vs)
  case (Cons m ms)
  obtain k v where m: "m = (k, v)" by (cases m)
  have "map_of ms k = None" using Cons(2) by (simp add: m map_of_eq_None_iff)
  then show ?case using Cons by (auto simp: m fun_eq_iff split: option.splits)
qed simp

subsection \<open>One watched table\<close>

definition same_table :: "string \<Rightarrow> db \<Rightarrow> db \<Rightarrow> bool" where
  "same_table k d d' =
     ((k = MetaKeyUser \<longrightarrow> t_user d = t_user d') \<and> (k = MetaKeyRole \<longrightarrow> t_role d = t_role d') \<and>
      (k = MetaKeyServer \<longrightarrow> t_server d = t_server d') \<and> (k = MetaKeyCommand \<longrightarrow> t_command d = t_command d') \<and>
      (k = MetaKeyOnDuty \<longrightarrow> t_on_duty d = t_on_duty d') \<and> (k = MetaKeyApproval \<longrightarrow> t_approval d = t_approval d'))"

definition same_tables :: "db \<Rightarrow> db \<Rightarrow> bool" where
  "same_tables d d' =
     (t_user d = t_user d' \<and> t_role d = t_role d' \<and> t_server d = t_server d' \<and>
      t_command d = t_command d' \<and> t_on_duty d = t_on_duty d' \<and> t_approval d = t_approval d')"

lemma same_tables_iff: "same_tables d d' \<longleftrightarrow> (\<forall>k\<in>set MetaKeys. same_table k d d')"
  by (auto simp: same_tables_def same_table_def MetaKeys_def meta_keys)

text \<open>From one database to a later one, every change of a watched table raises its version.\<close>

definition stamped :: "db \<Rightarrow> db \<Rightarrow> bool" where
  "stamped d d' = (has_triggers d' = has_triggers d \<and> db_eq d' = db_eq d \<and>
     (unique_keys d \<longrightarrow> unique_keys d') \<and> (\<forall>k. version d k \<le> version d' k) \<and> (\<forall>k. same_table k d d' \<or> version d k < version d' k))"

lemma stamped_refl [simp, intro]: "stamped d d"
  by (simp add: stamped_def same_table_def)

lemma same_table_trans: "same_table k d d' \<Longrightarrow> same_table k d' d'' \<Longrightarrow> same_table k d d''"
  by (simp add: same_table_def)

lemma stamped_trans [trans]:
  assumes "stamped d d'" "stamped d' d''"
  shows "stamped d d''"
proof -
  have v: "version d k \<le> version d' k" "version d' k \<le> version d'' k" for k
    using assms by (auto simp: stamped_def)
  have "same_table k d d'' \<or> version d k < version d'' k" for k
    using assms v [of k] same_table_trans [of k d d' d''] unfolding stamped_def
    by (meson le_less_trans less_le_trans)
  then show ?thesis
    using assms v by (auto simp: stamped_def intro: le_trans)
qed

lemma stamped_has_triggers: "stamped d d' \<Longrightarrow> has_triggers d' = has_triggers d"
  by (simp add: stamped_def)

lemma stamped_same_versions:
  assumes "stamped d d'" "join_versions (version d) = join_versions (version d')"
  shows "same_tables d d'"
  unfolding same_tables_iff
proof
  fix k assume "k \<in> set MetaKeys"
  then have "version d k = version d' k" using assms(2) by (simp add: join_versions_eq)
  then show "same_table k d d'" using assms(1) by (auto simp: stamped_def)
qed

text \<open>A statement changes the table of one key only, and the triggers count it.\<close>

definition writes :: "string \<Rightarrow> db \<Rightarrow> db \<Rightarrow> bool" where
  "writes key d d' = (has_triggers d' = has_triggers d \<and> db_eq d' = db_eq d \<and>
     (unique_keys d \<longrightarrow> unique_keys d') \<and> (\<forall>k. version d k \<le> version d' k) \<and> (\<forall>k. k \<noteq> key \<longrightarrow> same_table k d d') \<and>
     (has_triggers d \<longrightarrow> same_table key d d' \<or> version d key < version d' key))"

lemma writes_stamped:
  assumes "has_triggers d" "writes key d d'"
  shows "stamped d d'"
proof -
  have "same_table k d d' \<or> version d k < version d' k" for k
    using assms unfolding writes_def by (cases "k = key") auto
  then show ?thesis using assms by (simp add: writes_def stamped_def)
qed

text \<open>A statement that reports no changed row has left the table as it was.\<close>

definition writer :: "string \<Rightarrow> stmt \<Rightarrow> bool" where
  "writer key st = (\<forall>d d' k i. st d = Inr (d', k, i) \<longrightarrow>
     writes key d d' \<and> (k = 0 \<longrightarrow> same_table key d d'))"

lemma writerD:
  assumes "writer key st" "st d = Inr (d', k, i)"
  shows "writes key d d'" "k = 0 \<Longrightarrow> same_table key d d'"
  using assms by (auto simp: writer_def)

text \<open>What the statements need of a table and its update function.\<close>

locale watched_table =
  fixes key :: string
    and tab :: "db \<Rightarrow> 'r list"
    and tab_update :: "('r list \<Rightarrow> 'r list) \<Rightarrow> db \<Rightarrow> db"
  assumes other_tables: "k \<noteq> key \<Longrightarrow> same_table k d (tab_update g d)"
    and this_table: "same_table key d (tab_update g d) \<longleftrightarrow> g (tab d) = tab d"
    and settings: "t_meta (tab_update g d) = t_meta d" "has_triggers (tab_update g d) = has_triggers d"
      "db_eq (tab_update g d) = db_eq d"
    and ids: "tab_update g (d\<lparr>auto_increment := i\<rparr>) = tab_update g d\<lparr>auto_increment := i\<rparr>"
begin

lemma version_update [simp]: "version (tab_update g d) = version d"
  by (simp add: version_def settings fun_eq_iff)

lemma same_table_touch: "same_table k d (touch key n d') = same_table k d d'"
  by (simp add: same_table_def touch_def)

lemma writes_touch:
  assumes "n = 0 \<Longrightarrow> g (tab d) = tab d"
  shows "writes key d (touch key n (tab_update g d\<lparr>auto_increment := i\<rparr>))"
proof -
  have v: "version (touch key n (tab_update g d\<lparr>auto_increment := i\<rparr>)) k =
      version d k + (if k = key \<and> has_triggers d then n else 0)" for k
    using version_touch [of key n "tab_update g d\<lparr>auto_increment := i\<rparr>" k] version_update [of g d]
    by (simp add: version_def settings)
  have "same_table k d (touch key n (tab_update g d\<lparr>auto_increment := i\<rparr>)) = same_table k d (tab_update g d)" for k
    unfolding same_table_touch by (simp add: same_table_def)
  moreover have "unique_keys (touch key n (tab_update g d\<lparr>auto_increment := i\<rparr>))" if "unique_keys d"
    using that by (simp add: unique_keys_def touch_def settings distinct_bump_rows)
  ultimately show ?thesis
    using assms v by (cases n) (auto simp: writes_def touch_def settings other_tables this_table)
qed

lemma writes_touch': "(n = 0 \<Longrightarrow> g (tab d) = tab d) \<Longrightarrow> writes key d (touch key n (tab_update g d))"
proof -
  assume a: "n = 0 \<Longrightarrow> g (tab d) = tab d"
  have "tab_update g d\<lparr>auto_increment := auto_increment (tab_update g d)\<rparr> = tab_update g d"
    by (cases "tab_update g d") simp
  then show "writes key d (touch key n (tab_update g d))"
    using writes_touch [of n g d "auto_increment (tab_update g d)"] a by simp
qed

lemma writer_update': "writer key (\<lambda>d. sql_update key tab tab_update P (f d) d)"
proof -
  have "set_where (P d) (f d) (tab d) = tab d" if "\<forall>r\<in>set (tab d). P d r \<longrightarrow> f d r = r" for d
    unfolding set_where_def by (rule map_idI) (use that in auto)
  then show ?thesis
    by (auto simp: writer_def sql_update_def Let_def filter_empty_conv same_table_touch this_table
        intro!: writes_touch')
qed

lemma writer_update: "writer key (sql_update key tab tab_update P f)"
  using writer_update' [of P "\<lambda>_. f"] by simp

lemma writer_delete: "writer key (sql_delete key tab tab_update P)"
  by (auto simp: writer_def sql_delete_def Let_def filter_empty_conv filter_id_conv same_table_touch
      this_table intro!: writes_touch')

lemma writer_insert: "writer key (sql_insert key tab_update clash mk)"
  by (auto simp: writer_def sql_insert_def ids split: if_splits intro!: writes_touch)

end

interpretation users: watched_table MetaKeyUser t_user t_user_update
  by unfold_locales (auto simp: same_table_def meta_keys)

interpretation roles: watched_table MetaKeyRole t_role t_role_update
  by unfold_locales (auto simp: same_table_def meta_keys)

interpretation servers: watched_table MetaKeyServer t_server t_server_update
  by unfold_locales (auto simp: same_table_def meta_keys)

interpretation commands: watched_table MetaKeyCommand t_command t_command_update
  by unfold_locales (auto simp: same_table_def meta_keys)

interpretation on_duty: watched_table MetaKeyOnDuty t_on_duty t_on_duty_update
  by unfold_locales (auto simp: same_table_def meta_keys)

interpretation approvals: watched_table MetaKeyApproval t_approval t_approval_update
  by unfold_locales (auto simp: same_table_def meta_keys)

subsection \<open>Changes that are not counted yet\<close>

text \<open>
  Without triggers a change is counted by the \<open>BumpMetaVersion\<close> that follows it, so in between
  the operation owes the versions of some tables: \<open>owing K d d'\<close> is \<open>stamped\<close> except for the
  tables with a key in \<open>K\<close> of a database without triggers.
\<close>

definition owing :: "string set \<Rightarrow> db \<Rightarrow> db \<Rightarrow> bool" where
  "owing K d d' = (has_triggers d' = has_triggers d \<and> db_eq d' = db_eq d \<and>
     (unique_keys d \<longrightarrow> unique_keys d') \<and> (\<forall>k. version d k \<le> version d' k) \<and>
     (\<forall>k. k \<in> K \<and> \<not> has_triggers d \<or> same_table k d d' \<or> version d k < version d' k))"

lemma owing_none [simp]: "owing {} d d' = stamped d d'"
  by (simp add: owing_def stamped_def)

lemma owing_triggers: "has_triggers d \<Longrightarrow> owing K d d' = stamped d d'"
  by (simp add: owing_def stamped_def)

lemma owing_mono: "owing K d d' \<Longrightarrow> K \<subseteq> L \<Longrightarrow> owing L d d'"
  unfolding owing_def by blast

lemma owing_has_triggers: "owing K d d' \<Longrightarrow> has_triggers d' = has_triggers d"
  by (simp add: owing_def)

lemma owing_trans:
  assumes "owing K d d'" "owing L d' d''"
  shows "owing (K \<union> L) d d''"
proof -
  have v: "version d k \<le> version d' k" "version d' k \<le> version d'' k" for k
    using assms by (auto simp: owing_def)
  have "k \<in> K \<union> L \<and> \<not> has_triggers d \<or> same_table k d d'' \<or> version d k < version d'' k" for k
    using assms v [of k] same_table_trans [of k d d' d''] unfolding owing_def
    by (metis UnCI le_less_trans less_le_trans)
  then show ?thesis
    using assms v unfolding owing_def by (metis le_trans)
qed

lemma owing_stamped: "owing K d d' \<Longrightarrow> stamped d' d'' \<Longrightarrow> owing K d d''"
  using owing_trans [of K d d' "{}" d''] by simp

lemma writes_owing:
  assumes "writes key d d'"
  shows "owing {key} d d'"
proof -
  have "k \<in> {key} \<and> \<not> has_triggers d \<or> same_table k d d' \<or> version d k < version d' k" for k
    using assms unfolding writes_def by (cases "k = key") auto
  then show ?thesis using assms by (simp add: writes_def owing_def)
qed

lemma owing_writes: "owing K d d' \<Longrightarrow> writes key d' d'' \<Longrightarrow> owing (insert key K) d d''"
  using owing_trans [OF _ writes_owing, of K d d' key d''] by simp

lemma writes_unchanged:
  assumes "writes key d d'" "same_table key d d'"
  shows "stamped d d'"
proof -
  have "same_table k d d'" for k using assms unfolding writes_def by (cases "k = key") auto
  then show ?thesis using assms(1) by (simp add: writes_def stamped_def)
qed

lemma stamped_bump: "bump_stmt k d = Inr (d', n, i) \<Longrightarrow> stamped d d'"
  by (auto simp: bump_stmt_def stamped_def same_table_def version_def version_bump_row unique_keys_def
      distinct_bump_row split: option.splits if_splits)

lemma owing_bump:
  assumes "owing K d d'" "bump_stmt k d' = Inr (d'', n, i)"
  shows "owing (K - {k}) d d''"
proof -
  have o: "owing K d d''" by (rule owing_stamped [OF assms(1) stamped_bump [OF assms(2)]])
  have "version d' k < version d'' k"
    using assms(2) by (auto simp: bump_stmt_def version_def version_bump_row split: option.splits)
  then have "version d k < version d'' k"
    using assms(1) unfolding owing_def by (meson le_less_trans)
  with o show ?thesis unfolding owing_def by blast
qed

subsection \<open>Operations\<close>

text \<open>
  What others write is stamped; and either the triggers are installed, or the versions are the
  business of the program, which can write, and no statement fails.
\<close>

definition watched :: "world \<Rightarrow> bool" where
  "watched w = ((\<forall>n d. has_triggers d = has_triggers (w_db w) \<longrightarrow> stamped d (w_interf w n d)) \<and>
     (has_triggers (w_db w) \<or> w_conf w = Some False \<and> w_DbWrite w \<and> (\<forall>n. w_wfault w n = ExecOk)))"

lemma watched_update [simp]:
  "watched (w\<lparr>w_n := n\<rparr>) = watched w"
  "has_triggers d = has_triggers (w_db w) \<Longrightarrow> watched (w\<lparr>w_n := n, w_db := d\<rparr>) = watched w"
  by (simp_all add: watched_def)

lemma watched_interf:
  assumes "watched w"
  shows "stamped (w_db w) (w_interf w n (w_db w))" "has_triggers (w_interf w n (w_db w)) = has_triggers (w_db w)"
  using assms by (auto simp: watched_def dest: stamped_has_triggers)

text \<open>
  \<open>tracked K m K'\<close>: from a state that owes \<open>K\<close>, the operation leads to one that owes \<open>K' x\<close>,
  where \<open>x\<close> is its result.  \<open>counts m\<close>: it neither finds nor leaves a debt.
\<close>

definition tracked :: "string set \<Rightarrow> 'a io \<Rightarrow> ('a \<Rightarrow> string set) \<Rightarrow> bool" where
  "tracked K m K' = (\<forall>d w. watched w \<and> owing K d (w_db w) \<longrightarrow>
     watched (snd (run_state m w)) \<and> owing (K' (fst (run_state m w))) d (w_db (snd (run_state m w))))"

abbreviation counts :: "'a io \<Rightarrow> bool" where
  "counts m \<equiv> tracked {} m (\<lambda>_. {})"

lemma trackedI:
  assumes "\<And>d w x w'. watched w \<Longrightarrow> owing K d (w_db w) \<Longrightarrow> run_state m w = (x, w') \<Longrightarrow>
    watched w' \<and> owing (K' x) d (w_db w')"
  shows "tracked K m K'"
  using assms unfolding tracked_def by (metis prod.collapse)

lemma trackedD:
  assumes "tracked K m K'" "watched w" "owing K d (w_db w)" "run_state m w = (x, w')"
  shows "watched w'" "owing (K' x) d (w_db w')"
  using assms unfolding tracked_def by fastforce+

named_theorems tracking \<open>operations that leave no change uncounted\<close>

lemma tracked_weaken: "tracked K m K' \<Longrightarrow> L \<subseteq> K \<Longrightarrow> (\<And>x. K' x \<subseteq> L' x) \<Longrightarrow> tracked L m L'"
  unfolding tracked_def by (meson owing_mono)

lemma tracked_ret: "K \<subseteq> K' x \<Longrightarrow> tracked K (ret x) K'"
  by (rule trackedI) (auto intro: owing_mono)

lemma counts_ret [tracking]: "counts (ret x)"
  by (rule tracked_ret) simp

lemma tracked_bind:
  assumes "tracked K m K1" "\<And>x. tracked (K1 x) (f x) K2"
  shows "tracked K (State_Monad.bind m f) K2"
proof (rule trackedI)
  fix d w y w2 assume w: "watched w" "owing K d (w_db w)" "run_state (State_Monad.bind m f) w = (y, w2)"
  obtain x w1 where 1: "run_state m w = (x, w1)" by fastforce
  then have "run_state (f x) w1 = (y, w2)" using w(3) by simp
  then show "watched w2 \<and> owing (K2 y) d (w_db w2)"
    using trackedD [OF assms(1) w(1,2) 1] trackedD [OF assms(2), of w1 x d y w2] by blast
qed

text \<open>A debt that an operation does not know of stays.\<close>

lemma tracked_frame:
  assumes "tracked {} m K'"
  shows "tracked K m (\<lambda>x. K \<union> K' x)"
proof (rule trackedI)
  fix d w x w' assume w: "watched w" "owing K d (w_db w)" "run_state m w = (x, w')"
  then show "watched w' \<and> owing (K \<union> K' x) d (w_db w')"
    using trackedD [OF assms w(1) _ w(3), of "w_db w"] by (auto intro: owing_trans)
qed

lemma counts_frame: "counts m \<Longrightarrow> tracked K m (\<lambda>_. K)"
  using tracked_frame [of m "\<lambda>_. {}" K] by simp

lemma counts_bind [tracking]: "counts m \<Longrightarrow> (\<And>x. tracked {} (f x) K') \<Longrightarrow> tracked {} (State_Monad.bind m f) K'"
  by (rule tracked_bind)

lemma tracked_reads [tracking]:
  "counts world_get" "counts time_now" "counts now_string" "counts (HashPassword p)" "counts (query sel)"
  by (auto simp: tracked_def time_now_def now_string_def HashPassword_def query_def)

lemma tracked_if [tracking]: "tracked K a K' \<Longrightarrow> tracked K b K' \<Longrightarrow> tracked K (if c then a else b) K'"
  by simp

lemma tracked_case_sum [tracking]:
  "(\<And>x. tracked K (f x) K') \<Longrightarrow> (\<And>y. tracked K (g y) K') \<Longrightarrow>
   tracked K (case s of Inl x \<Rightarrow> f x | Inr y \<Rightarrow> g y) K'"
  by (cases s) auto

lemma tracked_case_prod [tracking]: "(\<And>x y. tracked K (f x y) K') \<Longrightarrow> tracked K (case p of (x, y) \<Rightarrow> f x y) K'"
  by (cases p) auto

lemma tracked_case_item [tracking]:
  "(\<And>x. tracked K (f x) K') \<Longrightarrow> (\<And>x. tracked K (g x) K') \<Longrightarrow> (\<And>x. tracked K (h x) K') \<Longrightarrow>
   tracked K (case i of Id x \<Rightarrow> f x | Name x \<Rightarrow> g x | Other x \<Rightarrow> h x) K'"
  by (cases i) auto

text \<open>A statement: one that changes no row leaves no debt.\<close>

lemma run_exec_watched:
  assumes "watched w" "run_state (exec st) w = (r, w')" "w_interf w (w_n w) (w_db w) = d"
  shows "(\<exists>d' n i. st d = Inr (d', n, i) \<and> w_db w' = d' \<and>
            (r = Inr (n, i) \<or> isl r \<and> has_triggers (w_db w))) \<or>
         (isl r \<and> w_db w' = d \<and> (isl (st d) \<or> has_triggers (w_db w)))"
    and "w' = w\<lparr>w_n := Suc (w_n w), w_db := w_db w'\<rparr>"
  using assms
  by (auto simp: exec_def Let_def watched_def split: exec_fault.splits sum.splits)

lemma exec_owing:
  assumes "writer key st" "watched w" "owing K d (w_db w)" "run_state (exec st) w = (r, w')"
  shows "watched w' \<and>
    (case r of Inl e \<Rightarrow> owing K d (w_db w') | Inr (n, i) \<Rightarrow> owing (if n = 0 then K else insert key K) d (w_db w'))"
proof -
  let ?d = "w_interf w (w_n w) (w_db w)"
  note i = watched_interf [OF assms(2), of "w_n w"] and run = run_exec_watched [OF assms(2,4) refl]
  have o: "owing K d ?d" by (rule owing_stamped [OF assms(3) i(1)])
  have ok: "watched w'" if "has_triggers (w_db w') = has_triggers (w_db w)"
    using run(2) that assms(2) by (metis watched_update(2))
  show ?thesis
    using run(1)
  proof (elim disjE exE conjE)
    fix d' n j assume st: "st ?d = Inr (d', n, j)" and w': "w_db w' = d'"
    note wr = writerD [OF assms(1) st]
    have "watched w'" using ok i(2) w' wr(1) by (simp add: writes_def)
    moreover have owes: "owing (insert key K) d d'" by (rule owing_writes [OF o wr(1)])
    moreover have "owing K d d'" if "n = 0"
      by (rule owing_stamped [OF o writes_unchanged [OF wr(1) wr(2) [OF that]]])
    ultimately show ?thesis if "r = Inr (n, j)" using that w' by simp
    have "has_triggers d" if "has_triggers (w_db w)" using assms(3) that owing_has_triggers by blast
    then show ?thesis if "isl r" "has_triggers (w_db w)"
      using that owes w' \<open>watched w'\<close> by (auto simp: isl_def owing_triggers)
  qed (use ok i(2) o in \<open>auto simp: isl_def\<close>)
qed

lemma tracked_exec_bind:
  assumes "writer key st" "\<And>e. tracked K (f (Inl e)) K'" "\<And>i. tracked K (f (Inr (0, i))) K'"
    and "\<And>n i. n > 0 \<Longrightarrow> tracked (insert key K) (f (Inr (n, i))) K'"
  shows "tracked K (State_Monad.bind (exec st) f) K'"
proof (rule trackedI)
  fix d w y w2
  assume w: "watched w" "owing K d (w_db w)" "run_state (State_Monad.bind (exec st) f) w = (y, w2)"
  obtain r w1 where 1: "run_state (exec st) w = (r, w1)" by fastforce
  then have 2: "run_state (f r) w1 = (y, w2)" using w(3) by simp
  note ex = exec_owing [OF assms(1) w(1,2) 1]
  show "watched w2 \<and> owing (K' y) d (w_db w2)"
  proof (cases r)
    case (Inl e)
    then have "watched w1" "owing K d (w_db w1)" using ex by simp_all
    then show ?thesis using trackedD [OF assms(2) _ _ 2 [unfolded Inl]] by blast
  next
    case (Inr p)
    obtain n i where p: "p = (n, i)" by (cases p)
    have "watched w1" "owing (if n = 0 then K else insert key K) d (w_db w1)" using ex by (simp_all add: Inr p)
    then show ?thesis
      using trackedD [OF assms(3), of w1 d i y w2] trackedD [OF assms(4), of n w1 d i y w2] 2
      by (cases "n = 0") (simp_all add: Inr p)
  qed
qed

text \<open>A statement that violates no constraint: without triggers it does not fail.\<close>

lemma tracked_sure_bind:
  assumes "writer key st" "\<And>d. \<not> isl (st d)" "\<And>e. tracked K (f (Inl e)) (\<lambda>_. UNIV)"
    and "\<And>n i. tracked (insert key K) (f (Inr (n, i))) K'"
  shows "tracked K (State_Monad.bind (exec st) f) K'"
proof (rule trackedI)
  fix d w y w2
  assume w: "watched w" "owing K d (w_db w)" "run_state (State_Monad.bind (exec st) f) w = (y, w2)"
  obtain r w1 where 1: "run_state (exec st) w = (r, w1)" by fastforce
  then have 2: "run_state (f r) w1 = (y, w2)" using w(3) by simp
  note ex = exec_owing [OF assms(1) w(1,2) 1]
  show "watched w2 \<and> owing (K' y) d (w_db w2)"
  proof (cases r)
    case (Inl e)
    then have "has_triggers (w_db w)"
      using run_exec_watched(1) [OF w(1) 1 refl] assms(2) by auto
    then have "has_triggers d" using w(2) owing_has_triggers by blast
    moreover have "watched w1" "owing K d (w_db w1)" using ex by (simp_all add: Inl)
    then have "watched w2 \<and> owing UNIV d (w_db w2)"
      using trackedD [OF assms(3) _ _ 2 [unfolded Inl]] by blast
    ultimately show ?thesis by (simp add: owing_triggers)
  next
    case (Inr p)
    obtain n i where p: "p = (n, i)" by (cases p)
    have "owing (insert key K) d (w_db w1)"
      using ex by (auto simp: Inr p split: if_splits intro: owing_mono)
    moreover have "watched w1" using ex by simp
    ultimately show ?thesis using trackedD [OF assms(4) _ _ 2 [unfolded Inr p]] by blast
  qed
qed

text \<open>A statement whose changes need no counting, or count themselves.\<close>

lemma counts_exec:
  assumes "\<And>d d' n i. st d = Inr (d', n, i) \<Longrightarrow> stamped d d'"
  shows "counts (exec st)"
proof (rule trackedI)
  fix d w r w' assume w: "watched w" "owing {} d (w_db w)" "run_state (exec st) w = (r, w')"
  let ?d = "w_interf w (w_n w) (w_db w)"
  have "stamped ?d (w_db w')"
    using run_exec_watched(1) [OF w(1,3) refl] assms by fastforce
  then have "stamped (w_db w) (w_db w')"
    using watched_interf(1) [OF w(1)] by (blast intro: stamped_trans)
  then show "watched w' \<and> owing {} d (w_db w')"
    using run_exec_watched(2) [OF w(1,3) refl] w(1,2)
    by (metis owing_none stamped_has_triggers stamped_trans watched_update(2))
qed

lemma tracked_BumpMetaVersion: "tracked K (BumpMetaVersion key) (\<lambda>_. K - {key})"
proof (rule trackedI)
  fix d w x w' assume w: "watched w" "owing K d (w_db w)" "run_state (BumpMetaVersion key) w = (x, w')"
  show "watched w' \<and> owing (K - {key}) d (w_db w')"
  proof (cases "has_triggers (w_db w)")
    case True
    have "counts (BumpMetaVersion key)"
      unfolding BumpMetaVersion_def by (intro tracking counts_exec) (rule stamped_bump)
    from trackedD [OF counts_frame [OF this] w] True w(2) show ?thesis
      by (metis owing_has_triggers owing_triggers)
  next
    case False
    let ?d = "w_interf w (w_n w) (w_db w)"
    have c: "w_conf w = Some False" "w_DbWrite w" "w_wfault w (w_n w) = ExecOk"
      using False w(1) by (auto simp: watched_def)
    obtain d' n i where b: "bump_stmt key ?d = Inr (d', n, i)" by (auto simp: bump_stmt_def)
    then have w': "w' = w\<lparr>w_n := Suc (w_n w), w_db := d'\<rparr>"
      using w(3) c by (simp add: BumpMetaVersion_def exec_def Let_def)
    have "owing (K - {key}) d d'"
      by (rule owing_bump [OF owing_stamped [OF w(2) watched_interf(1) [OF w(1)]] b])
    moreover have "has_triggers d' = has_triggers (w_db w)"
      using stamped_bump [OF b] watched_interf(2) [OF w(1)] by (simp add: stamped_def)
    ultimately show ?thesis using w(1) by (simp add: w')
  qed
qed

lemma counts_bump_bind:
  assumes "K \<subseteq> {key}" "tracked {} (f ()) K'"
  shows "tracked K (State_Monad.bind (BumpMetaVersion key) f) K'"
proof (rule tracked_bind [OF tracked_BumpMetaVersion])
  fix x :: unit
  have "K - {key} = {}" "x = ()" using assms(1) by auto
  then show "tracked (K - {key}) (f x) K'" using assms(2) by (simp only:)
qed

lemma counts_bump: "K \<subseteq> {key} \<Longrightarrow> tracked K (BumpMetaVersion key) (\<lambda>_. {})"
  by (rule tracked_weaken [OF tracked_BumpMetaVersion [of "{key}"]]) auto

lemma counts_bump_on_success:
  "tracked {} (bump_on_success key (Inl e)) (\<lambda>_. {})"
  "K \<subseteq> {key} \<Longrightarrow> tracked K (bump_on_success key (Inr x)) (\<lambda>_. {})"
  by (simp_all add: bump_on_success_def counts_ret counts_bump_bind)

text \<open>The shape of most operations: one statement, and the bump if it has succeeded.\<close>

lemma counts_stmt:
  assumes "writer key st"
  shows "counts (State_Monad.bind (exec st) (bump_on_success key))"
  by (rule tracked_exec_bind [OF assms]) (auto intro: counts_bump_on_success)

lemma writer_duty_insert: "writer MetaKeyOnDuty (duty_insert xs)"
proof -
  have "touch MetaKeyOnDuty (length xs) (d\<lparr>t_on_duty := t_on_duty d @ xs, auto_increment := i\<rparr>) =
      touch MetaKeyOnDuty (length xs) (t_on_duty_update (\<lambda>rs. rs @ xs) d\<lparr>auto_increment := i\<rparr>)" for d i
    by (cases d) simp
  then have "writes MetaKeyOnDuty d d'" if "duty_insert xs d = Inr (d', k, i)" for d d' k i
    using that on_duty.writes_touch [of "length xs" "\<lambda>rs. rs @ xs"]
    by (auto simp: duty_insert_def split: if_splits)
  moreover have "same_table MetaKeyOnDuty d d'" if "duty_insert xs d = Inr (d', 0, i)" for d d' i
    using that by (auto simp: duty_insert_def same_table_def touch_def split: if_splits)
  ultimately show ?thesis by (auto simp: writer_def)
qed

lemma writer_stmts:
  "writer MetaKeyUser (role_stmt m now)" "writer MetaKeyUser (password_stmt u h now)"
  "writer MetaKeyApproval (status_stmt i s)" "writer MetaKeyApproval (approve_stmt i s a t)"
  "writer MetaKeyOnDuty (duty_delete xs)"
  unfolding role_stmt_def password_stmt_def status_stmt_def approve_stmt_def duty_delete_def
  by (rule users.writer_update' users.writer_update' approvals.writer_update approvals.writer_update
      on_duty.writer_delete)+

lemmas writers = users.writer_update users.writer_insert roles.writer_insert roles.writer_delete
  servers.writer_insert servers.writer_delete commands.writer_insert commands.writer_delete
  approvals.writer_insert writer_duty_insert writer_stmts

lemmas counts_stmts [tracking] = writers [THEN counts_stmt]

lemma tracked_user_writes [tracking]:
  "counts (CreateUser u p e pw n)" "counts (UpdateUserNotes u n)" "counts (UpdateUserStatus u s)"
  "counts (UpdateUserEmailAndPhoneNumber u e p)" "counts (BatchUpdateUserRole m)"
  "counts (BatchUpdateUserStatus us s)"
  unfolding CreateUser_def UpdateUserNotes_def UpdateUserStatus_def UpdateUserEmailAndPhoneNumber_def
    BatchUpdateUserRole_def BatchUpdateUserStatus_def
  by (intro tracking)+

lemma counts_UpdateRoleByName [tracking]: "counts (UpdateRoleByName u r)"
  unfolding UpdateRoleByName_def
  by (rule counts_bind [OF tracked_reads(3)], rule tracked_exec_bind [OF users.writer_update])
    (auto intro: counts_ret counts_bump)

lemma counts_UpdateUserPassword [tracking]: "counts (UpdateUserPassword u p)"
  unfolding UpdateUserPassword_def
  by (rule counts_bind [OF tracked_reads(3)], rule counts_bind [OF tracked_reads(4)],
      rule tracked_case_sum [OF counts_ret], rule tracked_exec_bind [OF writer_stmts(2)])
    (auto intro: counts_ret counts_bump_bind)

lemma tracked_template_writes [tracking]:
  "counts (CreateRole t s c)" "counts (DeleteRole t)" "counts (DelTacacsServerTemplate i)"
  "counts (DelTacacsCommandTemplate i)"
  unfolding CreateRole_def DeleteRole_def DelTacacsServerTemplate_def DelTacacsCommandTemplate_def
  by (intro tracking)+

text \<open>The loops of insertions, of which the last is followed by one bump.\<close>

fun owed_rows :: "string \<Rightarrow> nat \<times> go_error option \<Rightarrow> string set" where
  "owed_rows key (n, err) = (if n > 0 \<and> err = None then {key} else {})"

lemma tracked_insert_servers:
  "tracked (owed_rows MetaKeyServer (n, None)) (insert_servers t xs n) (owed_rows MetaKeyServer)"
proof (induction t xs n rule: insert_servers.induct)
  case (2 t x xs n)
  have "tracked {MetaKeyServer} (insert_servers t xs (n + 1)) (owed_rows MetaKeyServer)" using 2 by simp
  then show ?case
    by (auto intro!: tracked_sure_bind [OF servers.writer_insert] tracked_ret simp: sql_insert_def)
qed (auto intro: tracked_ret)

lemma tracked_insert_commands:
  "tracked (owed_rows MetaKeyCommand (n, None)) (insert_commands t xs n) (owed_rows MetaKeyCommand)"
proof (induction t xs n rule: insert_commands.induct)
  case (2 t x xs n)
  have "tracked {MetaKeyCommand} (insert_commands t xs (n + 1)) (owed_rows MetaKeyCommand)" using 2 by simp
  then show ?case
    by (auto intro!: tracked_sure_bind [OF commands.writer_insert] tracked_ret simp: sql_insert_def)
qed (auto intro: tracked_ret)

lemma counts_add_templates [tracking]:
  "counts (AddTacacsServerTemplates t xs)" "counts (AddTacacsCommandTemplate t xs)"
proof -
  have "tracked {} (insert_servers t (UniqueStringSlice xs) 0) (owed_rows MetaKeyServer)"
    "tracked {} (insert_commands t (UniqueStringSlice xs) 0) (owed_rows MetaKeyCommand)"
    using tracked_insert_servers [of 0] tracked_insert_commands [of 0] by simp_all
  then show "counts (AddTacacsServerTemplates t xs)" "counts (AddTacacsCommandTemplate t xs)"
    unfolding AddTacacsServerTemplates_def AddTacacsCommandTemplate_def
    by (auto intro!: tracked_bind counts_bump_bind counts_ret split: option.split)
qed

lemma tracked_approval_writes [tracking]:
  "counts (CreateTacacsApproval a)" "counts (UpdateTacacsApprovalStatus i s)" "counts (ApproveWithLock i s n)"
proof -
  show "counts (CreateTacacsApproval a)"
    unfolding CreateTacacsApproval_def
    by (rule tracked_exec_bind [OF approvals.writer_insert]) (auto intro: counts_ret counts_bump_bind)
  show "counts (UpdateTacacsApprovalStatus i s)"
    unfolding UpdateTacacsApprovalStatus_def by (intro tracking)
  show "counts (ApproveWithLock i s n)"
    unfolding ApproveWithLock_def
    by (rule counts_bind [OF tracked_reads(2)], rule tracked_exec_bind [OF writer_stmts(4)])
      (auto intro: counts_ret counts_bump_bind)
qed

lemma tracked_GetTacacsOnDutyUser [tracking]: "counts GetTacacsOnDutyUser"
  unfolding GetTacacsOnDutyUser_def by (intro tracking)

text \<open>
  \<open>CoverTacacsOnDutyUser\<close> returns without a bump when its insertion fails after its deletion has
  been done.
\<close>

definition owed_cover :: "'a result \<Rightarrow> string set" where
  "owed_cover r = (if isl r then {MetaKeyOnDuty} else {})"

lemma tracked_exec_if:
  assumes "writer key st"
  shows "tracked K (if b then exec st else ret (Inr (0, 0))) (\<lambda>r. if b then insert key K else K)"
proof (cases b)
  case True
  have "tracked K (State_Monad.bind (exec st) ret) (\<lambda>r. insert key K)"
    by (rule tracked_exec_bind [OF assms]) (auto intro: tracked_ret)
  then show ?thesis using True by simp
qed (simp add: tracked_ret)

lemma tracked_CoverTacacsOnDutyUser: "tracked {} (CoverTacacsOnDutyUser us) owed_cover"
  unfolding CoverTacacsOnDutyUser_def Let_def
  by (intro counts_bind tracking tracked_bind [OF tracked_exec_if [OF writer_stmts(5)]]
      tracked_bind [OF tracked_exec_if [OF writer_duty_insert]])
    (auto intro!: tracked_ret counts_bump_bind simp: owed_cover_def split: sum.split)

lemma counts_refresh_loop [tracking]: "counts (refresh_loop ks)"
  by (induction ks) (auto intro!: tracking counts_exec dest: stamped_bump)

lemma counts_RefreshAllMeta [tracking]: "counts RefreshAllMeta"
  unfolding RefreshAllMeta_def by (intro tracking)

subsection \<open>Transactions\<close>

text \<open>The copy of a transaction grows from the database \<open>d\<close> of its begin until it is committed.\<close>

definition tracked_at :: "db \<Rightarrow> 'a io \<Rightarrow> bool" where
  "tracked_at d m = (\<forall>w. w_db w = d \<longrightarrow> watched w \<longrightarrow>
     watched (snd (run_state m w)) \<and> stamped d (w_db (snd (run_state m w))))"

lemma tracked_at_ret: "tracked_at d (ret x)"
  by (simp add: tracked_at_def)

lemma counts_transaction [tracking]:
  assumes "\<And>e. counts (f e)" "\<And>d. tracked_at d (g d)"
  shows "counts (State_Monad.bind tx_begin (\<lambda>b. case b of Inl e \<Rightarrow> f e | Inr d \<Rightarrow> g d))"
proof (rule trackedI)
  let ?f = "\<lambda>b. case b of Inl e \<Rightarrow> f e | Inr d \<Rightarrow> g d"
  fix d0 w y w2
  assume w: "watched w" "owing {} d0 (w_db w)" "run_state (State_Monad.bind tx_begin ?f) w = (y, w2)"
  let ?d = "w_interf w (w_n w) (w_db w)"
  let ?w = "w\<lparr>w_n := Suc (w_n w), w_db := ?d\<rparr>"
  have d: "stamped d0 ?d" "watched ?w"
    using w(1,2) watched_interf [OF w(1)] by (auto intro: stamped_trans)
  obtain r where r: "run_state tx_begin w = (r, ?w)" "r = Inr ?d \<or> isl r"
    by (cases "w_wfault w (w_n w)") (auto simp: tx_begin_def Let_def)
  have 2: "run_state (?f r) ?w = (y, w2)" using w(3) by (simp add: r(1))
  show "watched w2 \<and> owing {} d0 (w_db w2)"
  proof (cases r)
    case (Inl e)
    then show ?thesis using 2 d trackedD [OF assms(1) d(2), of d0 e y w2] by simp
  next
    case (Inr d')
    then have "run_state (g ?d) ?w = (y, w2)" using 2 r(2) by simp
    then have "watched w2 \<and> stamped ?d (w_db w2)"
      using assms(2) [of ?d, unfolded tracked_at_def, rule_format, of ?w] d(2) by simp
    then show ?thesis using d(1) by (auto intro: stamped_trans)
  qed
qed

lemma tracked_at_reads:
  "(\<And>w. watched w \<Longrightarrow> w_db w = d \<Longrightarrow> tracked_at d (f w)) \<Longrightarrow> tracked_at d (State_Monad.bind world_get f)"
  "(\<And>s. tracked_at d (g s)) \<Longrightarrow> tracked_at d (State_Monad.bind now_string g)"
  by (auto simp: tracked_at_def now_string_def)

lemma run_tx_exec:
  "run_state (tx_exec st d0) w =
     (case w_wfault w (w_n w) of ExecOk \<Rightarrow> (case st d0 of Inl e \<Rightarrow> Inl e | Inr (d', n, _) \<Rightarrow> Inr (d', n))
      | ExecFails e \<Rightarrow> Inl e | ExecLost e \<Rightarrow> Inl e, w\<lparr>w_n := Suc (w_n w)\<rparr>)"
  by (cases "w_wfault w (w_n w)") (auto simp: tx_exec_def tx_step_def split: option.splits)

lemma tracked_at_tx_exec:
  assumes "\<And>e. tracked_at d (f (Inl e))"
    and "\<And>d' n i. st d0 = Inr (d', n, i) \<Longrightarrow> tracked_at d (f (Inr (d', n)))"
  shows "tracked_at d (State_Monad.bind (tx_exec st d0) f)"
  unfolding tracked_at_def
proof (intro allI impI)
  fix w assume d: "w_db w = d" and w: "watched w"
  let ?w = "w\<lparr>w_n := Suc (w_n w)\<rparr>"
  obtain r where r: "run_state (tx_exec st d0) w = (r, ?w)" "isl r \<or> (\<exists>d' n i. r = Inr (d', n) \<and> st d0 = Inr (d', n, i))"
    by (cases "w_wfault w (w_n w)"; cases "st d0") (auto simp: run_tx_exec)
  have "tracked_at d (f r)"
    using r(2) assms by (cases r) auto
  then show "watched (snd (run_state (State_Monad.bind (tx_exec st d0) f) w)) \<and>
      stamped d (w_db (snd (run_state (State_Monad.bind (tx_exec st d0) f) w)))"
    using d w by (simp add: r(1) tracked_at_def)
qed

lemma tracked_at_tx_commit: "stamped d d' \<Longrightarrow> tracked_at d (tx_commit d')"
  by (auto simp: tracked_at_def tx_commit_def Let_def dest: stamped_has_triggers split: exec_fault.split)

lemma tracked_at_tx_commit_bind:
  assumes "stamped d d'"
  shows "tracked_at d (State_Monad.bind (tx_commit d') (\<lambda>c. ret (g c)))"
  using tracked_at_tx_commit [OF assms] unfolding tracked_at_def
  by (simp add: split_beta)

text \<open>
  \<open>ResetUserPassword\<close> counts inside its transaction, and only without triggers: the statement
  \<open>bump_stmt\<close> then pays what the first statement owes.
\<close>

lemma tracked_at_reset_tx: "tracked_at d (reset_tx u h d)"
proof -
  have st: "writes MetaKeyUser d d'" if "reset_stmt u h now d = Inr (d', n, i)" for now d d' n i
    by (rule writerD(1) [OF users.writer_update, of "\<lambda>d r. db_eq d (tu_User r) u"])
      (use that in \<open>simp add: reset_stmt_def\<close>)
  have paid: "stamped d d''" if "writes MetaKeyUser d d'" "bump_stmt MetaKeyUser d' = Inr (d'', m, j)" for d d' d'' m j
    using owing_bump [OF writes_owing [OF that(1)] that(2)] by simp
  have counted: "stamped d d'" if "writes MetaKeyUser d d'" "watched w" "w_db w = d" "w_conf w \<noteq> Some False" for d d' w
    using writes_stamped that by (auto simp: watched_def)
  show ?thesis
    unfolding reset_tx_def
    by (intro tracked_at_reads tracked_at_tx_exec,
        auto simp: tracked_at_ret intro!: tracked_at_reads tracked_at_tx_exec tracked_at_tx_commit_bind)
      (blast intro: paid [OF st], blast intro: counted [OF st])
qed

lemma counts_ResetUserPassword [tracking]: "counts (ResetUserPassword u p)"
  unfolding ResetUserPassword_def
  by (intro tracking tracked_at_reset_tx)

lemma stamped_misc: "stamped d (d\<lparr>t_misc := r\<rparr>)"
  by (simp add: stamped_def same_table_def version_def unique_keys_def)

lemma tracked_at_upsert_loop_bind:
  assumes "\<And>e. tracked_at d (f (Inl e))" "\<And>d'. stamped d d' \<Longrightarrow> tracked_at d (f (Inr d'))"
    and "stamped d d0"
  shows "tracked_at d (State_Monad.bind (upsert_loop kvs d0) f)"
  using assms(3)
proof (induction kvs arbitrary: d0)
  case (Cons kv kvs)
  obtain k v where kv: "kv = (k, v)" by (cases kv)
  have st: "stamped d d'" if "misc_value_stmt k v d0 = Inr (d', n, i)" for d' n i
    using Cons(2) that stamped_misc by (auto simp: misc_value_stmt_def intro: stamped_trans)
  show ?case
    unfolding kv upsert_loop.simps State_Monad.bind_assoc
    by (rule tracked_at_tx_exec) (use Cons(1) st assms(1) in auto)
qed (use assms(2) in simp)

lemma counts_misc_stmts [tracking]:
  "counts (exec (misc_value_stmt k v))" "counts (exec (misc_description_stmt k v))"
  by (auto intro!: counts_exec simp: misc_value_stmt_def misc_description_stmt_def stamped_misc)

lemma counts_sync_loop [tracking]: "counts (sync_loop kvs)"
  by (induction kvs rule: sync_loop.induct) (auto intro!: tracking)

lemma counts_UpsertMiscBatch [tracking]: "counts (UpsertMiscBatch kvs)"
  unfolding UpsertMiscBatch_def
  by (intro tracking)
    (auto intro!: tracked_at_upsert_loop_bind tracked_at_ret intro: tracked_at_tx_commit)

lemma counts_misc_writes [tracking]:
  "counts (UpsertMisc k v)" "counts (SyncMiscDescriptions ds)" "counts (SaveLogDisplayMode m)"
  unfolding UpsertMisc_def SyncMiscDescriptions_def SaveLogDisplayMode_def
  by (intro tracking)+

lemma counts_SaveClickHouseLogConfig [tracking]: "counts (SaveClickHouseLogConfig js types cfg)"
  unfolding SaveClickHouseLogConfig_def by (intro tracking)

subsection \<open>No missed change\<close>

text \<open>The operations of the package that write, with their arguments.\<close>

datatype db_op =
    OpUpdateRoleByName string string
  | OpCreateUser string string string string string
  | OpUpdateUserPassword string string
  | OpResetUserPassword string string
  | OpUpdateUserNotes string string
  | OpUpdateUserStatus string string
  | OpBatchUpdateUserRole "(string \<times> string) list"
  | OpBatchUpdateUserStatus "string list" string
  | OpUpdateUserEmailAndPhoneNumber string string string
  | OpCreateRole string string string
  | OpDeleteRole string
  | OpAddTacacsServerTemplates string "string list"
  | OpDelTacacsServerTemplate item
  | OpAddTacacsCommandTemplate string "string list"
  | OpDelTacacsCommandTemplate item
  | OpCreateTacacsApproval TacacsApproval
  | OpUpdateTacacsApprovalStatus int int
  | OpApproveWithLock int int string
  | OpCoverTacacsOnDutyUser "string list"
  | OpUpsertMisc string string
  | OpUpsertMiscBatch "(string \<times> string) list"
  | OpSyncMiscDescriptions "(string \<times> string) list"
  | OpRefreshAllMeta

text \<open>The operation, and whether it reports success.\<close>

abbreviation succeeds :: "go_error option io \<Rightarrow> bool io" where
  "succeeds m \<equiv> State_Monad.bind m (\<lambda>e. ret (e = None))"

abbreviation returns :: "'a result io \<Rightarrow> bool io" where
  "returns m \<equiv> State_Monad.bind m (\<lambda>r. ret (\<not> isl r))"

fun run_op :: "db_op \<Rightarrow> bool io" where
  "run_op (OpUpdateRoleByName u r) = State_Monad.bind (UpdateRoleByName u r) (\<lambda>_. ret True)"
| "run_op (OpCreateUser u p e pw n) = succeeds (CreateUser u p e pw n)"
| "run_op (OpUpdateUserPassword u p) = succeeds (UpdateUserPassword u p)"
| "run_op (OpResetUserPassword u p) = succeeds (ResetUserPassword u p)"
| "run_op (OpUpdateUserNotes u n) = succeeds (UpdateUserNotes u n)"
| "run_op (OpUpdateUserStatus u s) = succeeds (UpdateUserStatus u s)"
| "run_op (OpBatchUpdateUserRole m) = succeeds (BatchUpdateUserRole m)"
| "run_op (OpBatchUpdateUserStatus us s) = succeeds (BatchUpdateUserStatus us s)"
| "run_op (OpUpdateUserEmailAndPhoneNumber u e p) = succeeds (UpdateUserEmailAndPhoneNumber u e p)"
| "run_op (OpCreateRole t s c) = succeeds (CreateRole t s c)"
| "run_op (OpDeleteRole t) = succeeds (DeleteRole t)"
| "run_op (OpAddTacacsServerTemplates t xs) = succeeds (AddTacacsServerTemplates t xs)"
| "run_op (OpDelTacacsServerTemplate i) = succeeds (DelTacacsServerTemplate i)"
| "run_op (OpAddTacacsCommandTemplate t xs) = succeeds (AddTacacsCommandTemplate t xs)"
| "run_op (OpDelTacacsCommandTemplate i) = succeeds (DelTacacsCommandTemplate i)"
| "run_op (OpCreateTacacsApproval a) = returns (CreateTacacsApproval a)"
| "run_op (OpUpdateTacacsApprovalStatus i s) = succeeds (UpdateTacacsApprovalStatus i s)"
| "run_op (OpApproveWithLock i s n) = returns (ApproveWithLock i s n)"
| "run_op (OpCoverTacacsOnDutyUser us) = returns (CoverTacacsOnDutyUser us)"
| "run_op (OpUpsertMisc k v) = succeeds (UpsertMisc k v)"
| "run_op (OpUpsertMiscBatch kvs) = succeeds (UpsertMiscBatch kvs)"
| "run_op (OpSyncMiscDescriptions ds) = succeeds (SyncMiscDescriptions ds)"
| "run_op OpRefreshAllMeta = succeeds RefreshAllMeta"

fun run_ops :: "db_op list \<Rightarrow> bool io" where
  "run_ops [] = ret True"
| "run_ops (op # ops) = do { a \<leftarrow> run_op op; b \<leftarrow> run_ops ops; ret (a \<and> b) }"

fun covers :: "db_op \<Rightarrow> bool" where
  "covers (OpCoverTacacsOnDutyUser us) = True"
| "covers _ = False"

lemma covers_iff: "covers op \<longleftrightarrow> (\<exists>us. op = OpCoverTacacsOnDutyUser us)"
  by (cases op) auto

definition owed :: "db_op list \<Rightarrow> bool \<Rightarrow> string set" where
  "owed ops ok = (if \<not> ok \<and> (\<exists>op\<in>set ops. covers op) then {MetaKeyOnDuty} else {})"

lemma tracked_run_op: "tracked {} (run_op op) (owed [op])"
proof (cases "covers op")
  case True
  then obtain us where op: "op = OpCoverTacacsOnDutyUser us" by (auto simp: covers_iff)
  show ?thesis
    unfolding op run_op.simps
    by (rule tracked_bind [OF tracked_CoverTacacsOnDutyUser]) (auto intro!: tracked_ret simp: owed_def owed_cover_def)
next
  case False
  then have "counts (run_op op)" by (cases op) (simp_all, (intro tracking)+)
  then show ?thesis using False by (simp add: owed_def [abs_def])
qed

lemma tracked_run_ops: "tracked {} (run_ops ops) (owed ops)"
proof (induction ops)
  case (Cons op ops)
  show ?case
    unfolding run_ops.simps
  proof (rule tracked_bind [OF tracked_run_op], rule tracked_bind [OF tracked_frame [OF Cons]])
    fix a b
    show "tracked (owed [op] a \<union> owed ops b) (ret (a \<and> b)) (owed (op # ops))"
      by (rule tracked_ret) (auto simp: owed_def)
  qed
qed (simp add: counts_ret owed_def)

text \<open>What \<open>GetTablesUpdateTime\<close> returns in a world \<open>w\<close> whose next read sees \<open>d\<close> and succeeds.\<close>

definition poll :: "world \<Rightarrow> db \<Rightarrow> string result" where
  "poll w d = fst (run_state GetTablesUpdateTime (w\<lparr>w_replica := (\<lambda>_ _. d), w_rfault := (\<lambda>_. NoFault)\<rparr>))"

lemma GetTablesUpdateTime_run:
  assumes "w_rfault w (w_n w) = NoFault" "unique_keys (w_replica w (w_n w) (w_db w))"
  shows "run_state GetTablesUpdateTime w =
    (Inr (join_versions (version (w_replica w (w_n w) (w_db w)))), w\<lparr>w_n := Suc (w_n w)\<rparr>)"
  using assms
  by (simp add: GetTablesUpdateTime_def query_def unique_keys_def versions_loop_map_Inr version_def [abs_def])

lemma poll_eq: "unique_keys d \<Longrightarrow> poll w d = Inr (join_versions (version d))"
  unfolding poll_def by (subst GetTablesUpdateTime_run) simp_all

text \<open>
  C15. No write escapes the poll.  Let any sequence of the operations that write run, with other
  processes writing between their statements, whose changes are counted as well.  The versions
  are kept in one of two ways.  With the triggers of \<open>tacacs_meta.sql\<close> the database counts, and
  statements may fail and replies get lost.  With \<open>DatabaseTriggers\<close> off and no triggers it is
  \<open>BumpMetaVersion\<close>, called by each operation after its statement, that counts: then no
  statement may fail, and an operation that replaces the users on duty must report success, as
  it returns without counting when its insertion violates a key after its deletion.  In both
  cases, if \<open>GetTablesUpdateTime\<close> returns the same string before and after, none of the six
  watched tables has changed; and whatever changed, the version of its table has grown.
\<close>

theorem no_missed_change:
  assumes "unique_keys (w_db w)"
    and "\<forall>n d. has_triggers d = has_triggers (w_db w) \<longrightarrow> stamped d (w_interf w n d)"
    and "has_triggers (w_db w) \<or>
      w_conf w = Some False \<and> w_DbWrite w \<and> (\<forall>n. w_wfault w n = ExecOk) \<and>
      (fst (run_state (run_ops ops) w) \<or> (\<forall>us. OpCoverTacacsOnDutyUser us \<notin> set ops))"
    and "w' = snd (run_state (run_ops ops) w)"
  shows "(poll w (w_db w) = poll w (w_db w') \<longrightarrow> same_tables (w_db w) (w_db w')) \<and>
    (\<forall>k. same_table k (w_db w) (w_db w') \<or> version (w_db w) k < version (w_db w') k)"
proof -
  obtain ok where run: "run_state (run_ops ops) w = (ok, w')" using assms(4) by (metis prod.collapse)
  have "watched w" using assms(2,3) by (auto simp: watched_def)
  then have o: "owing (owed ops ok) (w_db w) (w_db w')"
    using trackedD(2) [OF tracked_run_ops _ _ run] by simp
  then have st: "stamped (w_db w) (w_db w')"
    using o assms(3) owing_triggers run by (auto simp: owed_def covers_iff split: if_splits)
  then have "unique_keys (w_db w')" using assms(1) by (simp add: stamped_def)
  then show ?thesis
    using st stamped_same_versions [OF st] assms(1) by (simp add: poll_eq) (simp add: stamped_def)
qed

text \<open>A small database and a world in which everything succeeds.\<close>

definition example_user :: "string \<Rightarrow> TacacsUser" where
  "example_user name = \<lparr>tu_User = name, tu_PhoneNumber = [], tu_Email = [], tu_CreateTime = [], tu_Role = ''ops'',
     tu_RoleUpdateTime = [], tu_Password = ''h'', tu_PasswordUpdateTime = [], tu_Status = ''1'',
     tu_StatusUpdateTime = [], tu_Notes = []\<rparr>"

definition example_db :: db where
  "example_db = \<lparr>t_user = [example_user ''bob''], t_role = [], t_server = [], t_command = [], t_on_duty = [],
     t_white = [], t_admin = [], t_approval = [], t_misc = [], t_meta = [(''user'', 5)], auto_increment = 1,
     has_triggers = True, db_eq = (=)\<rparr>"

definition calm_world :: "db \<Rightarrow> world" where
  "calm_world d = \<lparr>w_db = d, w_n = 0, w_replica = (\<lambda>_ d. d), w_rfault = (\<lambda>_. NoFault), w_interf = (\<lambda>_ d. d),
     w_wfault = (\<lambda>_. ExecOk), w_clock = (\<lambda>_. 0), w_fmt = (\<lambda>_. ''now''), w_hash = (\<lambda>_ p. Inr (''#'' @ p)),
     w_conf = Some True, w_DbWrite = True\<rparr>"

text \<open>The same database without triggers, and a world of a server that counts itself.\<close>

definition untriggered :: "world \<Rightarrow> world" where
  "untriggered w = w\<lparr>w_db := (w_db w)\<lparr>has_triggers := False\<rparr>, w_conf := Some False\<rparr>"

text \<open>Suspending \<open>bob\<close> takes effect, and the poll sees it.\<close>

definition suspension_noticed :: "world \<Rightarrow> bool" where
  "suspension_noticed w = (let w' = snd (run_state (run_ops [OpUpdateUserStatus ''bob'' ''0'']) w)
     in tu_Status (hd (t_user (w_db w'))) = ''0'' \<and> poll w (w_db w) \<noteq> poll w (w_db w'))"

theorem no_missed_change_witness:
  "suspension_noticed (calm_world example_db) \<and> suspension_noticed (untriggered (calm_world example_db))"
proof -
  have "suspension_noticed w" if w: "w \<in> {calm_world example_db, untriggered (calm_world example_db)}" for w
  proof -
    let ?ops = "[OpUpdateUserStatus ''bob'' ''0'']"
    define w' where "w' = snd (run_state (run_ops ?ops) w)"
    have "unique_keys (w_db w)" "\<forall>n d. has_triggers d = has_triggers (w_db w) \<longrightarrow> stamped d (w_interf w n d)"
      "has_triggers (w_db w) \<or> w_conf w = Some False \<and> w_DbWrite w \<and> (\<forall>n. w_wfault w n = ExecOk) \<and>
        (fst (run_state (run_ops ?ops) w) \<or> (\<forall>us. OpCoverTacacsOnDutyUser us \<notin> set ?ops))"
      using w by (auto simp: calm_world_def example_db_def untriggered_def unique_keys_def)
    from no_missed_change [OF this w'_def]
    have "poll w (w_db w) = poll w (w_db w') \<longrightarrow> same_tables (w_db w) (w_db w')" by blast
    moreover have st: "tu_Status (hd (t_user (w_db w'))) = ''0''"
      using w by (auto simp: w'_def calm_world_def example_db_def example_user_def untriggered_def UpdateUserStatus_def
          now_string_def exec_def Let_def sql_update_def set_where_def bump_on_success_def BumpMetaVersion_def touch_def
          bump_stmt_def)
    moreover have "tu_Status (hd (t_user (w_db w))) = ''1''"
      using w by (auto simp: calm_world_def example_db_def example_user_def untriggered_def)
    ultimately have "poll w (w_db w) \<noteq> poll w (w_db w')"
      unfolding same_tables_def by force
    with st show ?thesis unfolding suspension_noticed_def Let_def w'_def [symmetric] by blast
  qed
  then show ?thesis by blast
qed

text \<open>
  The condition on \<open>CoverTacacsOnDutyUser\<close> is needed: the read is behind, the deletion takes
  \<open>bob\<close> off the list, the insertion of \<open>eve\<close>, who is on it already, fails, and the list has
  changed without being counted.
\<close>

definition stale_duty :: world where
  "stale_duty = (untriggered (calm_world (example_db\<lparr>t_on_duty := [''bob'', ''eve'']\<rparr>)))
     \<lparr>w_replica := (\<lambda>_ d. d\<lparr>t_on_duty := [''bob'']\<rparr>)\<rparr>"

lemma cover_uncounted:
  "let (ok, w') = run_state (run_ops [OpCoverTacacsOnDutyUser [''eve'']]) stale_duty
   in \<not> ok \<and> t_on_duty (w_db w') = [''eve''] \<and> t_meta (w_db w') = t_meta (w_db stale_duty)"
  by (simp add: stale_duty_def untriggered_def calm_world_def example_db_def CoverTacacsOnDutyUser_def
      GetTacacsOnDutyUser_def query_def GetIntersection_def exec_def duty_delete_def duty_insert_def
      sql_delete_def touch_def Let_def)

end
