(* ===== verification/SyncMap.thy ===== *)
theory SyncMap
  imports Main
begin

text \<open>\<open>utils.TypedSyncMap\<close> of \<open>sync_hash_map.go\<close>; its lock makes each operation one step.\<close>

type_synonym ('k, 'v) TypedSyncMap = "'k \<Rightarrow> 'v option"

definition NewTypedSyncMap :: "('k, 'v) TypedSyncMap" where "NewTypedSyncMap = Map.empty"
definition Get :: "('k, 'v) TypedSyncMap \<Rightarrow> 'k \<Rightarrow> 'v option" where "Get m k = m k"
definition Set :: "('k, 'v) TypedSyncMap \<Rightarrow> 'k \<Rightarrow> 'v \<Rightarrow> ('k, 'v) TypedSyncMap" where "Set m k v = m(k \<mapsto> v)"
definition Delete :: "('k, 'v) TypedSyncMap \<Rightarrow> 'k \<Rightarrow> ('k, 'v) TypedSyncMap" where "Delete m k = m(k := None)"

lemmas sync_map_defs = NewTypedSyncMap_def Get_def Set_def Delete_def

end
