(* ===== verification/UserCache.thy ===== *)
theory UserCache
  imports DbTracking SyncMap
begin

text \<open>
  \<open>pkg/client/tac_plus/user.go\<close>: the copy of users and roles that a client process keeps in memory
  and the two caches of decisions taken on it.  Regular expressions, \<open>bcrypt\<close> and the parsing of
  addresses belong to libraries and are parameters; a compiled expression is its source text.
  The functions run one at a time here; what a store between two of them does is stated as such.
\<close>

subsection \<open>Libraries\<close>

record lib =
  re_compile :: "string \<Rightarrow> bool"  \<comment> \<open>\<open>regexp.Compile\<close> succeeds\<close>
  re_match :: "string \<Rightarrow> string \<Rightarrow> bool"  \<comment> \<open>\<open>MatchString\<close> of the compiled expression\<close>
  ParseIP :: "string \<Rightarrow> bytes option"
  ParseCIDR :: "string \<Rightarrow> (bytes \<times> bytes) option"  \<comment> \<open>network number and mask\<close>
  CompareHash :: "string \<Rightarrow> string \<Rightarrow> bool"  \<comment> \<open>\<open>bcrypt\<close>: the hash, the password\<close>

definition CheckPasswordHash :: "lib \<Rightarrow> string \<Rightarrow> string \<Rightarrow> bool" where
  "CheckPasswordHash L password hash = CompareHash L hash password"

text \<open>\<open>net.IP.To4\<close> and \<open>net.IPNet.Contains\<close>.\<close>

definition To4 :: "bytes \<Rightarrow> bytes option" where
  "To4 ip =
     (if length ip = 4 then Some ip
      else if length ip = 16 \<and> take 12 ip = replicate 10 0 @ [0xFF, 0xFF] then Some (drop 12 ip)
      else None)"

definition network_number :: "bytes \<times> bytes \<Rightarrow> (bytes \<times> bytes) option" where
  "network_number n =
     (case (case To4 (fst n) of Some ip \<Rightarrow> Some ip | None \<Rightarrow> if length (fst n) = 16 then Some (fst n) else None) of
        None \<Rightarrow> None
      | Some ip \<Rightarrow>
          (if length (snd n) = length ip then Some (ip, snd n)
           else if length (snd n) = 16 \<and> length ip = 4 then Some (ip, drop 12 (snd n))
           else None))"

definition Contains :: "bytes \<times> bytes \<Rightarrow> bytes \<Rightarrow> bool" where
  "Contains n ip =
     (let x = (case To4 ip of Some x \<Rightarrow> x | None \<Rightarrow> ip)
      in case network_number n of
           None \<Rightarrow> x = []
         | Some (nn, m) \<Rightarrow> length x = length nn \<and> map2 (AND) nn m = map2 (AND) x m)"

text \<open>\<open>utils.GetNetworkType\<close>: 1 an address, 2 a network, 0 neither.\<close>

definition GetNetworkType :: "lib \<Rightarrow> string \<Rightarrow> int \<times> (bytes \<times> bytes) option" where
  "GetNetworkType L str =
     (let str = TrimSpace str in
      if CHR ''/'' \<in> set str then
        (case ParseCIDR L str of Some n \<Rightarrow> (2, Some n) | None \<Rightarrow> (0, None))
      else
        (case ParseIP L str of Some ip \<Rightarrow> (1, None) | None \<Rightarrow> (0, None)))"

subsection \<open>State\<close>

record cmdCheckResult =
  cr_isPass :: bool
  cr_reason :: string

record roleCmdsServers =
  rc_permitCmds :: "string list"
  rc_permitServers :: "string list"

record roleAcl =
  ra_roleName :: string
  ra_permitCmds :: "string list"
  ra_ips :: "string list"
  ra_ipNets :: "(bytes \<times> bytes) list"

record UserInfo =
  ui_isOnDuty :: bool
  ui_role :: "roleAcl list"
  ui_rolesKey :: string
  ui_password :: string
  ui_args :: "string list"

record client =
  tempTacacsTableUpdateTime :: string
  tacacsUserInfo :: "(string, UserInfo) TypedSyncMap"
  isUpdateUsersRunning :: bool
  passwordEncryptCache :: "(string, bool) TypedSyncMap"
  cmdServerCheckCache :: "(string, cmdCheckResult) TypedSyncMap"

definition init_client :: client where
  "init_client = \<lparr>tempTacacsTableUpdateTime = [], tacacsUserInfo = NewTypedSyncMap, isUpdateUsersRunning = False,
     passwordEncryptCache = NewTypedSyncMap, cmdServerCheckCache = NewTypedSyncMap\<rparr>"

subsection \<open>Reading the roles\<close>

fun servers_loop :: "string list \<Rightarrow> string list \<Rightarrow> string list io" where
  "servers_loop [] acc = ret acc"
| "servers_loop (t # ts) acc =
     (if TrimSpace t = [] then servers_loop ts acc
      else do {
        (details, _) \<leftarrow> GetTacacsServerTemplatesByTemplate t;
        servers_loop ts (acc @ map st_ServerTemplate details)
      })"

fun commands_loop :: "string list \<Rightarrow> string list \<Rightarrow> string list io" where
  "commands_loop [] acc = ret acc"
| "commands_loop (t # ts) acc =
     (if TrimSpace t = [] then commands_loop ts acc
      else do {
        (details, _) \<leftarrow> GetTacacsCommandTemplatesByTemplate t;
        commands_loop ts (acc @ map ct_CommandTemplate details)
      })"

fun roles_loop :: "TacacsRoleTemplate list \<Rightarrow> (string \<Rightarrow> roleCmdsServers option) \<Rightarrow> (string \<Rightarrow> roleCmdsServers option) io" where
  "roles_loop [] newCache = ret newCache"
| "roles_loop (role # roles) newCache = do {
     roleTemplate \<leftarrow> GetTacacsRoleTemplateByTemplate (rt_Template role);
     if rt_ID roleTemplate = 0 then roles_loop roles newCache
     else do {
       permitServers \<leftarrow> servers_loop (Split CHR '','' (rt_ServerTemplateList roleTemplate)) [];
       permitCmds \<leftarrow> commands_loop (Split CHR '','' (rt_CommandTemplateList roleTemplate)) [];
       roles_loop roles (newCache(rt_Template role \<mapsto>
         \<lparr>rc_permitCmds = permitCmds, rc_permitServers = permitServers\<rparr>))
     }
   }"

definition getAllRoleCmdsServers :: "((string \<Rightarrow> roleCmdsServers option) \<times> go_error option) io" where
  "getAllRoleCmdsServers = do {
     (roles, err) \<leftarrow> GetTacacsRoleTemplates;
     if err \<noteq> None \<or> length roles = 0 then ret (Map.empty, err)
     else do { newCache \<leftarrow> roles_loop roles Map.empty; ret (newCache, None) }
   }"

subsection \<open>Building the copy\<close>

definition userStatusNormal :: string where "userStatusNormal = ''1''"

text \<open>\<open>roles\<close> sorted by name and joined.\<close>

definition generateRoleKey :: "roleAcl list \<Rightarrow> string" where
  "generateRoleKey roles =
     (if length roles = 0 then [] else Join '','' (sort (map ra_roleName roles)))"

text \<open>The body of the loop over the roles of a user.\<close>

definition role_acl :: "lib \<Rightarrow> string \<Rightarrow> roleCmdsServers \<Rightarrow> roleAcl" where
  "role_acl L role rcs =
     \<lparr>ra_roleName = role,
      ra_permitCmds = filter (re_compile L) (rc_permitCmds rcs),
      ra_ips = filter (\<lambda>s. fst (GetNetworkType L s) = 1) (rc_permitServers rcs),
      ra_ipNets = List.map_filter (\<lambda>s. if fst (GetNetworkType L s) = 2 then snd (GetNetworkType L s) else None)
        (rc_permitServers rcs)\<rparr>"

definition user_roles :: "lib \<Rightarrow> (string \<Rightarrow> roleCmdsServers option) \<Rightarrow> string list \<Rightarrow> roleAcl list" where
  "user_roles L roleInfo userRoles =
     List.map_filter (\<lambda>role. map_option (role_acl L role) (roleInfo role)) userRoles"

text \<open>The loop over the users.\<close>

fun build_users :: "lib \<Rightarrow> (string \<Rightarrow> roleCmdsServers option) \<Rightarrow> string list \<Rightarrow> TacacsUser list \<Rightarrow>
    (string, UserInfo) TypedSyncMap \<Rightarrow> (string, UserInfo) TypedSyncMap" where
  "build_users L roleInfo onDutyUsers [] m = m"
| "build_users L roleInfo onDutyUsers (u # us) m =
     (if tu_Status u \<noteq> userStatusNormal then build_users L roleInfo onDutyUsers us m
      else
        (let roles = user_roles L roleInfo (Split CHR '','' (tu_Role u))
         in build_users L roleInfo onDutyUsers us
              (Set m (tu_User u)
                 \<lparr>ui_isOnDuty = IsValueInList (tu_User u) onDutyUsers, ui_role = roles,
                  ui_rolesKey = generateRoleKey roles, ui_password = tu_Password u,
                  ui_args = [''priv-lvl=15'']\<rparr>)))"

definition clearTempTacacsTableUpdateTime :: "client \<Rightarrow> client" where
  "clearTempTacacsTableUpdateTime c = c\<lparr>tempTacacsTableUpdateTime := []\<rparr>"

definition updateTacacsUserInfoAndCache :: "(string, UserInfo) TypedSyncMap \<Rightarrow> client \<Rightarrow> client" where
  "updateTacacsUserInfoAndCache newTacacsUserInfo c =
     (let c = c\<lparr>tacacsUserInfo := newTacacsUserInfo\<rparr>;
          c = c\<lparr>passwordEncryptCache := NewTypedSyncMap\<rparr>
      in c\<lparr>cmdServerCheckCache := NewTypedSyncMap\<rparr>)"

text \<open>
  From the first read of the versions on; the flag that keeps a second call out is set by the
  caller below and cleared when this returns.
\<close>

definition rebuild :: "lib \<Rightarrow> client \<Rightarrow> client io" where
  "rebuild L c = do {
     before \<leftarrow> GetTablesUpdateTime;
     case before of Inl e \<Rightarrow> ret c
     | Inr tacacsTableUpdateTime \<Rightarrow>
         if tempTacacsTableUpdateTime c = tacacsTableUpdateTime then ret c
         else do {
           (roleInfo, err) \<leftarrow> getAllRoleCmdsServers;
           if err \<noteq> None then ret c
           else do {
             (tacacsUserInfos, err) \<leftarrow> GetTacacsUserInfos;
             if err \<noteq> None then ret c
             else do {
               onDutyUsers \<leftarrow> GetTacacsOnDutyUser;
               let newTacacsUserInfo = build_users L roleInfo onDutyUsers tacacsUserInfos NewTypedSyncMap;
               after \<leftarrow> GetTablesUpdateTime;
               ret (case after of Inl e \<Rightarrow> c
                    | Inr latest \<Rightarrow>
                        if latest \<noteq> tacacsTableUpdateTime then c
                        else (updateTacacsUserInfoAndCache newTacacsUserInfo c)
                               \<lparr>tempTacacsTableUpdateTime := latest\<rparr>)
             }
           }
         }
   }"

definition updateUsers :: "lib \<Rightarrow> client \<Rightarrow> client io" where
  "updateUsers L c =
     (if isUpdateUsersRunning c then ret c
      else do {
        c' \<leftarrow> rebuild L (c\<lparr>isUpdateUsersRunning := True\<rparr>);
        ret (c'\<lparr>isUpdateUsersRunning := False\<rparr>)
      })"

subsection \<open>Decisions\<close>

definition getTacacsUserInfo :: "client \<Rightarrow> string \<Rightarrow> UserInfo option" where
  "getTacacsUserInfo c user = Get (tacacsUserInfo c) user"

definition checkUserPassword :: "lib \<Rightarrow> string \<Rightarrow> string \<Rightarrow> client \<Rightarrow> bool \<times> client" where
  "checkUserPassword L password hash c =
     (let cacheKey = password @ [CHR 0x0A] @ hash in
      case Get (passwordEncryptCache c) cacheKey of
        Some v \<Rightarrow> (v, c)
      | None \<Rightarrow>
          (let isPass = CheckPasswordHash L password hash
           in (isPass, c\<lparr>passwordEncryptCache := Set (passwordEncryptCache c) cacheKey isPass\<rparr>)))"

definition cmd_matches :: "lib \<Rightarrow> string \<Rightarrow> roleAcl \<Rightarrow> bool" where
  "cmd_matches L cmd role = (cmd = [] \<or> list_ex (\<lambda>permitCmd. re_match L permitCmd cmd) (ra_permitCmds role))"

definition checkRoleMatch :: "lib \<Rightarrow> string \<Rightarrow> string \<Rightarrow> roleAcl \<Rightarrow> string" where
  "checkRoleMatch L cmd server role =
     (if \<not> cmd_matches L cmd role then []
      else
        (let serverIsPass = (server = [] \<or> list_ex (\<lambda>permitServer. server = permitServer) (ra_ips role));
             serverIsPass =
               (if \<not> serverIsPass \<and> length (ra_ipNets role) > 0 then
                  (case ParseIP L server of
                     None \<Rightarrow> serverIsPass
                   | Some ip \<Rightarrow> list_ex (\<lambda>permitServer. Contains permitServer ip) (ra_ipNets role))
                else serverIsPass)
         in if serverIsPass then ra_roleName role else []))"

text \<open>The loop over the roles: the first one that matches.\<close>

fun first_match :: "lib \<Rightarrow> string \<Rightarrow> string \<Rightarrow> roleAcl list \<Rightarrow> cmdCheckResult" where
  "first_match L cmd server [] = \<lparr>cr_isPass = False, cr_reason = ''cmd and server are not match''\<rparr>"
| "first_match L cmd server (role # roles) =
     (let roleName = checkRoleMatch L cmd server role
      in if roleName \<noteq> [] then \<lparr>cr_isPass = True, cr_reason = roleName\<rparr> else first_match L cmd server roles)"

definition cmd_key :: "string \<Rightarrow> string \<Rightarrow> string \<Rightarrow> string" where
  "cmd_key cmd server rolesKey = cmd @ [CHR 0x0A] @ server @ [CHR 0x0A] @ rolesKey"

definition checkCmdAndServerInRole ::
  "lib \<Rightarrow> string \<Rightarrow> string \<Rightarrow> string \<Rightarrow> roleAcl list \<Rightarrow> client \<Rightarrow> (bool \<times> string) \<times> client" where
  "checkCmdAndServerInRole L cmd server rolesKey roles c =
     (if length roles = 0 then ((False, ''role is nil''), c)
      else
        (let cacheKey = cmd_key cmd server rolesKey in
         case Get (cmdServerCheckCache c) cacheKey of
           Some r \<Rightarrow> ((cr_isPass r, cr_reason r), c)
         | None \<Rightarrow>
             (let r = first_match L cmd server roles
              in ((cr_isPass r, cr_reason r),
                  c\<lparr>cmdServerCheckCache := Set (cmdServerCheckCache c) cacheKey r\<rparr>))))"

end
