(* ===== verification/UserCacheLaws.thy ===== *)
theory UserCacheLaws
  imports UserCache
begin

text \<open>
  The caches of decisions are transparent as long as requests and updates run one after the
  other, and not when a request overtakes an update.
\<close>

subsection \<open>Keys\<close>

abbreviation nl :: char where "nl \<equiv> CHR 0x0A"

lemma cmd_key_inj:
  assumes "cmd_key cmd s k = cmd_key cmd' s' k'"
    and "nl \<notin> set s" "nl \<notin> set s'" "nl \<notin> set k" "nl \<notin> set k'"
  shows "cmd = cmd' \<and> s = s' \<and> k = k'"
proof -
  have "(cmd @ [nl] @ s) @ [nl] @ k = (cmd' @ [nl] @ s') @ [nl] @ k'"
    using assms(1) by (simp add: cmd_key_def)
  from split_at_last [OF this assms(4,5)] show ?thesis
    using split_at_last [of cmd nl s cmd' s'] assms(2,3) by blast
qed

subsection \<open>Roles with the same key\<close>

definition acls :: "lib \<Rightarrow> (string \<Rightarrow> roleCmdsServers option) \<Rightarrow> roleAcl list \<Rightarrow> bool" where
  "acls L ri roles = (\<forall>r\<in>set roles. (\<exists>rcs. ri (ra_roleName r) = Some rcs \<and> r = role_acl L (ra_roleName r) rcs) \<and>
     CHR '','' \<notin> set (ra_roleName r))"

lemma acls_user_roles:
  assumes "\<forall>n\<in>set names. CHR '','' \<notin> set n"
  shows "acls L ri (user_roles L ri names)"
  using assms by (auto simp: acls_def user_roles_def List.map_filter_def role_acl_def)

lemma acls_same_set:
  assumes "acls L ri rs" "acls L ri rs'" "rs \<noteq> []" "rs' \<noteq> []" "generateRoleKey rs = generateRoleKey rs'"
  shows "set rs = set rs'"
proof -
  have "Join [CHR '',''] (sort (map ra_roleName rs)) = Join [CHR '',''] (sort (map ra_roleName rs'))"
    using assms(3-5) by (simp add: generateRoleKey_def)
  then have "sort (map ra_roleName rs) = sort (map ra_roleName rs')"
  proof (rule Join_inj)
    show "sort (map ra_roleName rs) \<noteq> []" "sort (map ra_roleName rs') \<noteq> []"
      using assms(3,4) by (metis length_0_conv length_map length_sort)+
  qed (use assms(1,2) in \<open>auto simp: acls_def\<close>)
  then have names: "ra_roleName ` set rs = ra_roleName ` set rs'"
    by (metis set_map set_sort)
  have sub: "set a \<subseteq> set b" if "acls L ri a" "acls L ri b" "ra_roleName ` set a = ra_roleName ` set b" for a b
  proof
    fix r assume r: "r \<in> set a"
    with that(3) obtain r' where r': "r' \<in> set b" "ra_roleName r' = ra_roleName r" by (metis imageE imageI)
    have "r = r'" using that(1,2) r r' unfolding acls_def by (metis option.inject)
    with r' show "r \<in> set b" by simp
  qed
  show ?thesis using sub [OF assms(1,2) names] sub [OF assms(2,1) names [symmetric]] by blast
qed

subsection \<open>The decision without a cache\<close>

definition matching :: "lib \<Rightarrow> string \<Rightarrow> string \<Rightarrow> roleAcl list \<Rightarrow> string set" where
  "matching L cmd server roles = {checkRoleMatch L cmd server r |r. r \<in> set roles \<and> checkRoleMatch L cmd server r \<noteq> []}"

lemma first_match_matching:
  "cr_isPass (first_match L cmd server roles) \<longleftrightarrow> matching L cmd server roles \<noteq> {}"
  "cr_isPass (first_match L cmd server roles) \<Longrightarrow> cr_reason (first_match L cmd server roles) \<in> matching L cmd server roles"
  by (induction roles) (auto simp: matching_def Let_def)

lemma matching_set: "set rs = set rs' \<Longrightarrow> matching L cmd server rs = matching L cmd server rs'"
  by (simp add: matching_def)

subsection \<open>The invariant\<close>

definition built :: "lib \<Rightarrow> (string \<Rightarrow> roleCmdsServers option) \<Rightarrow> UserInfo \<Rightarrow> bool" where
  "built L ri ui = (acls L ri (ui_role ui) \<and> ui_rolesKey ui = generateRoleKey (ui_role ui) \<and>
     nl \<notin> set (ui_rolesKey ui) \<and> nl \<notin> set (ui_password ui))"

definition pw_ok :: "lib \<Rightarrow> (string, bool) TypedSyncMap \<Rightarrow> bool" where
  "pw_ok L m = (\<forall>k v. m k = Some v \<longrightarrow>
     (\<exists>p h. k = p @ [nl] @ h \<and> nl \<notin> set h \<and> v = CheckPasswordHash L p h))"

definition cmd_ok :: "lib \<Rightarrow> (string \<Rightarrow> roleCmdsServers option) \<Rightarrow> (string, cmdCheckResult) TypedSyncMap \<Rightarrow> bool" where
  "cmd_ok L ri m = (\<forall>k r. m k = Some r \<longrightarrow>
     (\<exists>cmd server roles. k = cmd_key cmd server (generateRoleKey roles) \<and> nl \<notin> set server \<and>
        nl \<notin> set (generateRoleKey roles) \<and> roles \<noteq> [] \<and> acls L ri roles \<and> r = first_match L cmd server roles))"

definition coherent :: "lib \<Rightarrow> client \<Rightarrow> bool" where
  "coherent L c = (\<exists>ri. (\<forall>u ui. tacacsUserInfo c u = Some ui \<longrightarrow> built L ri ui) \<and>
     pw_ok L (passwordEncryptCache c) \<and> cmd_ok L ri (cmdServerCheckCache c))"

lemma coherentI:
  "(\<And>u ui. tacacsUserInfo c u = Some ui \<Longrightarrow> built L ri ui) \<Longrightarrow> pw_ok L (passwordEncryptCache c) \<Longrightarrow>
   cmd_ok L ri (cmdServerCheckCache c) \<Longrightarrow> coherent L c"
  by (auto simp: coherent_def)

lemma checkCmd_transparent:
  assumes "coherent L c" "getTacacsUserInfo c user = Some ui" "nl \<notin> set server"
    and "checkCmdAndServerInRole L cmd server (ui_rolesKey ui) (ui_role ui) c = ((isPass, reason), c')"
  shows "isPass \<longleftrightarrow> matching L cmd server (ui_role ui) \<noteq> {}"
    and "isPass \<Longrightarrow> reason \<in> matching L cmd server (ui_role ui)"
    and "coherent L c'"
proof -
  obtain ri where b: "\<And>u ui. tacacsUserInfo c u = Some ui \<Longrightarrow> built L ri ui"
    and p: "pw_ok L (passwordEncryptCache c)" and m: "cmd_ok L ri (cmdServerCheckCache c)"
    using assms(1) by (auto simp: coherent_def)
  have ui: "acls L ri (ui_role ui)" "ui_rolesKey ui = generateRoleKey (ui_role ui)" "nl \<notin> set (ui_rolesKey ui)"
    using b [of user ui] assms(2) unfolding getTacacsUserInfo_def Get_def built_def by blast+
  let ?k = "cmd_key cmd server (ui_rolesKey ui)"
  have "(isPass \<longleftrightarrow> matching L cmd server (ui_role ui) \<noteq> {}) \<and>
      (isPass \<longrightarrow> reason \<in> matching L cmd server (ui_role ui)) \<and> coherent L c'"
  proof (cases "ui_role ui = []")
    case True
    then show ?thesis using assms(1,4) by (auto simp: checkCmdAndServerInRole_def matching_def)
  next
    case ne: False
    show ?thesis
    proof (cases "cmdServerCheckCache c ?k")
      case None
      let ?r = "first_match L cmd server (ui_role ui)"
      have c': "isPass = cr_isPass ?r" "reason = cr_reason ?r"
        "c' = c\<lparr>cmdServerCheckCache := (cmdServerCheckCache c)(?k \<mapsto> ?r)\<rparr>"
        using assms(4) None ne by (auto simp: checkCmdAndServerInRole_def Let_def Get_def Set_def)
      have "cmd_ok L ri (cmdServerCheckCache c')"
        unfolding cmd_ok_def
      proof (intro allI impI)
        fix k r assume k: "cmdServerCheckCache c' k = Some r"
        show "\<exists>cmd server roles. k = cmd_key cmd server (generateRoleKey roles) \<and> nl \<notin> set server \<and>
          nl \<notin> set (generateRoleKey roles) \<and> roles \<noteq> [] \<and> acls L ri roles \<and> r = first_match L cmd server roles"
        proof (cases "k = ?k")
          case True
          then show ?thesis using k c' ui ne assms(3) by auto
        next
          case False
          then show ?thesis using k c' m by (auto simp: cmd_ok_def)
        qed
      qed
      then have "coherent L c'" by (rule coherentI [rotated 2]) (use b p c' in auto)
      then show ?thesis using c' first_match_matching [of L cmd server "ui_role ui"] by simp
    next
      case (Some r)
      then obtain cmd' server' roles where k: "?k = cmd_key cmd' server' (generateRoleKey roles)"
        and ok: "nl \<notin> set server'" "nl \<notin> set (generateRoleKey roles)" "roles \<noteq> []" "acls L ri roles"
          "r = first_match L cmd' server' roles"
        using m unfolding cmd_ok_def by metis
      have eq: "cmd = cmd'" "server = server'" "ui_rolesKey ui = generateRoleKey roles"
        using cmd_key_inj [OF k assms(3) ok(1) ui(3) ok(2)] by auto
      have "set roles = set (ui_role ui)"
        by (rule acls_same_set [OF ok(4) ui(1) ok(3) ne]) (use eq ui in simp)
      from matching_set [OF this] have "matching L cmd server roles = matching L cmd server (ui_role ui)" .
      moreover have "isPass = cr_isPass r" "reason = cr_reason r" "c' = c"
        using assms(4) Some ne by (auto simp: checkCmdAndServerInRole_def Let_def Get_def)
      ultimately show ?thesis
        using first_match_matching [of L cmd server roles] ok(5) eq assms(1) by simp
    qed
  qed
  then show "isPass \<longleftrightarrow> matching L cmd server (ui_role ui) \<noteq> {}"
    "isPass \<Longrightarrow> reason \<in> matching L cmd server (ui_role ui)" "coherent L c'" by blast+
qed

lemma checkUserPassword_transparent:
  assumes "coherent L c" "nl \<notin> set hash" "checkUserPassword L password hash c = (b, c')"
  shows "b = CheckPasswordHash L password hash" "coherent L c'"
proof -
  obtain ri where i: "\<And>u ui. tacacsUserInfo c u = Some ui \<Longrightarrow> built L ri ui"
    and p: "pw_ok L (passwordEncryptCache c)" and m: "cmd_ok L ri (cmdServerCheckCache c)"
    using assms(1) by (auto simp: coherent_def)
  let ?k = "password @ [nl] @ hash"
  have "b = CheckPasswordHash L password hash \<and> coherent L c'"
  proof (cases "passwordEncryptCache c ?k")
    case None
    have c': "b = CheckPasswordHash L password hash" "c' = c\<lparr>passwordEncryptCache := (passwordEncryptCache c)(?k \<mapsto> b)\<rparr>"
      using assms(3) None by (auto simp: checkUserPassword_def Let_def Get_def Set_def)
    have "pw_ok L (passwordEncryptCache c')"
      using p assms(2) c' unfolding pw_ok_def by auto
    then show ?thesis using c'(1) coherentI [of c' L ri] i m c'(2) by auto
  next
    case (Some v)
    then obtain p' h where k: "?k = p' @ [nl] @ h" "nl \<notin> set h" "v = CheckPasswordHash L p' h"
      using p unfolding pw_ok_def by metis
    have "password = p' \<and> hash = h" by (rule split_at_last [OF k(1) assms(2) k(2)])
    then show ?thesis using assms(1,3) Some k(3) by (auto simp: checkUserPassword_def Let_def Get_def)
  qed
  then show "b = CheckPasswordHash L password hash" "coherent L c'" by auto
qed

subsection \<open>Updates\<close>

text \<open>Role strings and password hashes have no line breaks.\<close>

definition plain :: "db \<Rightarrow> bool" where
  "plain d = (\<forall>u\<in>set (t_user d). nl \<notin> set (tu_Role u) \<and> nl \<notin> set (tu_Password u))"

lemma user_roles_names: "ra_roleName ` set (user_roles L ri names) \<subseteq> set names"
  by (auto simp: user_roles_def List.map_filter_def role_acl_def)

lemma rolesKey_plain:
  assumes "nl \<notin> set r"
  shows "nl \<notin> set (generateRoleKey (user_roles L ri (Split CHR '','' r)))"
proof -
  have "set (generateRoleKey (user_roles L ri (Split CHR '','' r))) \<subseteq>
      {CHR '',''} \<union> (\<Union>p\<in>ra_roleName ` set (user_roles L ri (Split CHR '','' r)). set p)"
    using Join_chars [of "'',''" "sort (map ra_roleName (user_roles L ri (Split CHR '','' r)))"]
    by (auto simp: generateRoleKey_def)
  also have "\<dots> \<subseteq> {CHR '',''} \<union> set r"
    using user_roles_names [of L ri "Split CHR '','' r"] Split_chars by blast
  finally show ?thesis using assms by auto
qed

lemma build_users_built:
  assumes "\<forall>u\<in>set us. nl \<notin> set (tu_Role u) \<and> nl \<notin> set (tu_Password u)"
    and "\<And>v ui. m v = Some ui \<Longrightarrow> built L ri ui"
  shows "build_users L ri od us m v = Some ui \<Longrightarrow> built L ri ui"
  using assms
proof (induction us arbitrary: m)
  case (Cons u us)
  let ?roles = "user_roles L ri (Split CHR '','' (tu_Role u))"
  have "acls L ri ?roles" using Split_parts by (blast intro!: acls_user_roles)
  then have b: "built L ri \<lparr>ui_isOnDuty = x, ui_role = ?roles, ui_rolesKey = generateRoleKey ?roles,
      ui_password = tu_Password u, ui_args = y\<rparr>" for x y
    using Cons(3) rolesKey_plain by (simp add: built_def)
  show ?case
  proof (cases "tu_Status u = userStatusNormal")
    case True
    then obtain x where x: "built L ri x" "build_users L ri od (u # us) m = build_users L ri od us (Set m (tu_User u) x)"
      using b by (auto simp: Let_def)
    have "built L ri ui'" if "Set m (tu_User u) x v' = Some ui'" for v' ui'
      using that x(1) Cons(4) by (auto simp: Set_def split: if_splits)
    then show ?thesis
      using Cons.IH [of "Set m (tu_User u) x"] Cons(2,3) x(2) by simp
  next
    case False
    then show ?thesis using Cons.IH [of m] Cons(2-4) by simp
  qed
qed simp

text \<open>Reads leave the world as it is, up to the number of the next statement.\<close>

definition reads_only :: "'a io \<Rightarrow> bool" where
  "reads_only m = (\<forall>w. \<exists>n\<ge>w_n w. snd (run_state m w) = w\<lparr>w_n := n\<rparr>)"

named_theorems reading \<open>operations that only read\<close>

lemma reads_only_ret [reading]: "reads_only (ret x)"
  unfolding reads_only_def
proof
  fix w :: world
  show "\<exists>n\<ge>w_n w. snd (run_state (ret x) w) = w\<lparr>w_n := n\<rparr>" by (rule exI [of _ "w_n w"]) simp
qed

lemma reads_only_query [reading]: "reads_only (query sel)"
  unfolding reads_only_def
proof
  fix w :: world
  show "\<exists>n\<ge>w_n w. snd (run_state (query sel) w) = w\<lparr>w_n := n\<rparr>"
    by (rule exI [of _ "Suc (w_n w)"]) (simp add: query_def)
qed

lemma reads_only_bind:
  assumes "reads_only m" "\<And>x. reads_only (f x)"
  shows "reads_only (State_Monad.bind m f)"
  unfolding reads_only_def
proof
  fix w
  obtain x w1 where 1: "run_state m w = (x, w1)" by fastforce
  obtain n where n: "w1 = w\<lparr>w_n := n\<rparr>" "w_n w \<le> n"
    using assms(1) 1 unfolding reads_only_def by (metis snd_conv)
  obtain k where k: "snd (run_state (f x) w1) = w1\<lparr>w_n := k\<rparr>" "w_n w1 \<le> k"
    using assms(2) unfolding reads_only_def by blast
  show "\<exists>n\<ge>w_n w. snd (run_state (State_Monad.bind m f) w) = w\<lparr>w_n := n\<rparr>"
    using n k by (intro exI [of _ k]) (simp add: 1)
qed

lemma reads_only_cases [reading]:
  "reads_only a \<Longrightarrow> reads_only b \<Longrightarrow> reads_only (if c then a else b)"
  "(\<And>x. reads_only (f x)) \<Longrightarrow> (\<And>y. reads_only (g y)) \<Longrightarrow> reads_only (case s of Inl x \<Rightarrow> f x | Inr y \<Rightarrow> g y)"
  "(\<And>x y. reads_only (h x y)) \<Longrightarrow> reads_only (case p of (x, y) \<Rightarrow> h x y)"
  by (auto split: sum.split prod.split)

lemma reads_only_gets [reading]:
  "reads_only GetTablesUpdateTime" "reads_only GetTacacsUserInfos" "reads_only GetTacacsOnDutyUser"
  "reads_only GetTacacsRoleTemplates" "reads_only (GetTacacsRoleTemplateByTemplate t)"
  "reads_only (GetTacacsServerTemplatesByTemplate t)" "reads_only (GetTacacsCommandTemplatesByTemplate t)"
  unfolding GetTablesUpdateTime_def GetTacacsUserInfos_def GetTacacsOnDutyUser_def GetTacacsRoleTemplates_def
    GetTacacsRoleTemplateByTemplate_def GetTacacsServerTemplatesByTemplate_def GetTacacsCommandTemplatesByTemplate_def
  by (intro reads_only_bind reading)+

lemma reads_only_servers_loop [reading]: "reads_only (servers_loop ts acc)"
  by (induction ts acc rule: servers_loop.induct) (auto intro!: reads_only_bind reading)

lemma reads_only_commands_loop [reading]: "reads_only (commands_loop ts acc)"
  by (induction ts acc rule: commands_loop.induct) (auto intro!: reads_only_bind reading)

lemma reads_only_roles_loop [reading]: "reads_only (roles_loop rs m)"
proof (induction rs arbitrary: m)
  case (Cons r rs)
  show ?case unfolding roles_loop.simps by (intro reads_only_bind reading Cons.IH)
qed (simp add: reading)

lemma reads_only_getAll [reading]: "reads_only getAllRoleCmdsServers"
  unfolding getAllRoleCmdsServers_def by (intro reads_only_bind reading)

lemma rows_of_rows:
  "rows_of f rs = Rows ss e \<Longrightarrow> Inr r \<in> set ss \<Longrightarrow> r \<in> set rs"
  by (cases f) (auto dest: in_set_takeD in_set_dropD split: if_splits)

lemma scan_all_rows: "r \<in> set (fst (scan_all ss acc)) \<Longrightarrow> r \<in> set acc \<or> Inr r \<in> set ss"
  by (induction ss acc rule: scan_all.induct) auto

lemma GetTacacsUserInfos_rows:
  "u \<in> set (fst (fst (run_state GetTacacsUserInfos w))) \<Longrightarrow> u \<in> set (t_user (w_replica w (w_n w) (w_db w)))"
  by (auto simp: GetTacacsUserInfos_def query_def split: rows.splits dest!: scan_all_rows rows_of_rows)

lemma reads_only_snd: "reads_only m \<Longrightarrow> run_state m w = (x, w') \<Longrightarrow> \<exists>n\<ge>w_n w. w' = w\<lparr>w_n := n\<rparr>"
  unfolding reads_only_def by (metis snd_conv)

text \<open>What \<open>rebuild\<close> returns: the old state, or one with a new copy and empty caches.\<close>

lemma rebuild_cases:
  assumes "\<forall>n. plain (w_replica w n (w_db w))"
  shows "fst (run_state (rebuild L c) w) = c \<or>
    (\<exists>m ri s. (\<forall>u ui. m u = Some ui \<longrightarrow> built L ri ui) \<and>
       fst (run_state (rebuild L c) w) = (updateTacacsUserInfoAndCache m c)\<lparr>tempTacacsTableUpdateTime := s\<rparr>)"
proof -
  obtain v1 w1 where 1: "run_state GetTablesUpdateTime w = (v1, w1)" by fastforce
  obtain ri e2 w2 where 2: "run_state getAllRoleCmdsServers w1 = ((ri, e2), w2)" by (metis prod.exhaust)
  obtain us e3 w3 where 3: "run_state GetTacacsUserInfos w2 = ((us, e3), w3)" by (metis prod.exhaust)
  obtain od w4 where 4: "run_state GetTacacsOnDutyUser w3 = (od, w4)" by fastforce
  obtain v5 w5 where 5: "run_state GetTablesUpdateTime w4 = (v5, w5)" by fastforce
  obtain n1 where w1: "w1 = w\<lparr>w_n := n1\<rparr>" using reads_only_snd [OF _ 1] reading by blast
  obtain n2 where w2: "w2 = w1\<lparr>w_n := n2\<rparr>" using reads_only_snd [OF _ 2] reading by blast
  have "set us \<subseteq> set (t_user (w_replica w2 (w_n w2) (w_db w2)))"
    using GetTacacsUserInfos_rows [of _ w2] 3 by auto
  then have "\<forall>u\<in>set us. nl \<notin> set (tu_Role u) \<and> nl \<notin> set (tu_Password u)"
    using assms w1 w2 by (auto simp: plain_def)
  then have b: "build_users L ri od us NewTypedSyncMap u = Some ui \<Longrightarrow> built L ri ui" for u ui
    by (rule build_users_built) (simp_all add: NewTypedSyncMap_def)
  let ?m = "build_users L ri od us NewTypedSyncMap"
  have "fst (run_state (rebuild L c) w) = c \<or> (\<exists>s. fst (run_state (rebuild L c) w) =
      (updateTacacsUserInfoAndCache ?m c)\<lparr>tempTacacsTableUpdateTime := s\<rparr>)"
    unfolding rebuild_def by (simp add: 1 2 3 4 5 split: sum.split) blast
  with b show ?thesis by blast
qed

lemma coherent_rebuild:
  assumes "coherent L c" "\<forall>n. plain (w_replica w n (w_db w))"
  shows "coherent L (fst (run_state (rebuild L c) w))"
  using rebuild_cases [OF assms(2), of L c]
proof
  assume "\<exists>m ri s. (\<forall>u ui. m u = Some ui \<longrightarrow> built L ri ui) \<and>
       fst (run_state (rebuild L c) w) = (updateTacacsUserInfoAndCache m c)\<lparr>tempTacacsTableUpdateTime := s\<rparr>"
  then obtain m ri s where b: "\<And>u ui. m u = Some ui \<Longrightarrow> built L ri ui"
    and r: "fst (run_state (rebuild L c) w) = (updateTacacsUserInfoAndCache m c)\<lparr>tempTacacsTableUpdateTime := s\<rparr>"
    by blast
  show ?thesis unfolding r
    by (rule coherentI [of _ L ri])
      (use b in \<open>simp_all add: updateTacacsUserInfoAndCache_def NewTypedSyncMap_def pw_ok_def cmd_ok_def\<close>)
qed (use assms(1) in simp)

lemma coherent_flags [simp]:
  "coherent L (c\<lparr>isUpdateUsersRunning := b\<rparr>) = coherent L c"
  "coherent L (c\<lparr>tempTacacsTableUpdateTime := s\<rparr>) = coherent L c"
  by (simp_all add: coherent_def)

lemma coherent_updateUsers:
  "coherent L c \<Longrightarrow> \<forall>n. plain (w_replica w n (w_db w)) \<Longrightarrow> coherent L (fst (run_state (updateUsers L c) w))"
  using coherent_rebuild [of L "c\<lparr>isUpdateUsersRunning := True\<rparr>" w]
  by (auto simp: updateUsers_def split_beta)

subsection \<open>A client in operation\<close>

text \<open>A poll in some world, the five-minute reset, and the checks of the two request handlers.\<close>

datatype client_event =
    EvPoll world
  | EvClear
  | EvCheckCmd string string string  \<comment> \<open>user, command, server\<close>
  | EvCheckPassword string string  \<comment> \<open>user, password\<close>

fun client_step :: "lib \<Rightarrow> client \<Rightarrow> client_event \<Rightarrow> client" where
  "client_step L c (EvPoll w) = fst (run_state (updateUsers L c) w)"
| "client_step L c EvClear = clearTempTacacsTableUpdateTime c"
| "client_step L c (EvCheckCmd user cmd server) =
     (case getTacacsUserInfo c user of None \<Rightarrow> c
      | Some ui \<Rightarrow> snd (checkCmdAndServerInRole L cmd server (ui_rolesKey ui) (ui_role ui) c))"
| "client_step L c (EvCheckPassword user password) =
     (case getTacacsUserInfo c user of None \<Rightarrow> c
      | Some ui \<Rightarrow> snd (checkUserPassword L password (ui_password ui) c))"

fun plain_event :: "client_event \<Rightarrow> bool" where
  "plain_event (EvPoll w) = (\<forall>n. plain (w_replica w n (w_db w)))"
| "plain_event (EvCheckCmd user cmd server) = (nl \<notin> set server)"
| "plain_event _ = True"

lemma coherent_init: "coherent L init_client"
  by (rule coherentI [where ri = Map.empty]) (simp_all add: init_client_def NewTypedSyncMap_def pw_ok_def cmd_ok_def)

lemma coherent_password: "coherent L c \<Longrightarrow> getTacacsUserInfo c u = Some ui \<Longrightarrow> nl \<notin> set (ui_password ui)"
  by (auto simp: coherent_def built_def getTacacsUserInfo_def Get_def)

lemma coherent_step: "coherent L c \<Longrightarrow> plain_event ev \<Longrightarrow> coherent L (client_step L c ev)"
proof (cases ev)
  case (EvCheckCmd user cmd server)
  assume "coherent L c" "plain_event ev"
  then show ?thesis using EvCheckCmd checkCmd_transparent(3) [of L c user _ server cmd]
    by (auto split: option.split) (metis prod.collapse)
next
  case (EvCheckPassword user password)
  assume "coherent L c" "plain_event ev"
  then show ?thesis using EvCheckPassword checkUserPassword_transparent(2) [of L c _ password] coherent_password
    by (auto split: option.split) (metis prod.collapse)
qed (auto simp: clearTempTacacsTableUpdateTime_def coherent_updateUsers)

lemma coherent_run: "coherent L c \<Longrightarrow> \<forall>ev\<in>set evs. plain_event ev \<Longrightarrow> coherent L (foldl (client_step L) c evs)"
  by (induction evs arbitrary: c) (auto intro: coherent_step)

text \<open>
  C19. The caches never change a decision.  After any sequence of polls (each in a world of its
  own, with failing reads and changing databases), resets and checks, the cached check of a
  command passes exactly when some role of the user matches it, with the name of such a role as
  its reason, and the cached check of a password gives what \<open>bcrypt\<close> gives.  Server addresses,
  role strings and password hashes must have no line break, because the cache keys are joined
  with one.
\<close>

theorem caches_transparent:
  assumes "\<forall>ev\<in>set evs. plain_event ev" "c = foldl (client_step L) init_client evs"
    and "getTacacsUserInfo c user = Some ui" "nl \<notin> set server"
    and "checkCmdAndServerInRole L cmd server (ui_rolesKey ui) (ui_role ui) c = ((isPass, reason), c')"
  shows "(isPass \<longleftrightarrow> (\<exists>r\<in>set (ui_role ui). checkRoleMatch L cmd server r \<noteq> [])) \<and>
    (isPass \<longrightarrow> (\<exists>r\<in>set (ui_role ui). reason = checkRoleMatch L cmd server r)) \<and>
    fst (checkUserPassword L password (ui_password ui) c) = CheckPasswordHash L password (ui_password ui)"
proof -
  have co: "coherent L c" unfolding assms(2) by (rule coherent_run [OF coherent_init assms(1)])
  have "fst (checkUserPassword L password (ui_password ui) c) = CheckPasswordHash L password (ui_password ui)"
    using checkUserPassword_transparent(1) [OF co coherent_password [OF co assms(3)]] by (metis prod.collapse)
  moreover have "isPass \<longleftrightarrow> (\<exists>r\<in>set (ui_role ui). checkRoleMatch L cmd server r \<noteq> [])"
    using checkCmd_transparent(1) [OF co assms(3-5)] by (auto simp: matching_def)
  moreover have "isPass \<longrightarrow> (\<exists>r\<in>set (ui_role ui). reason = checkRoleMatch L cmd server r)"
    using checkCmd_transparent(2) [OF co assms(3-5)] by (auto simp: matching_def)
  ultimately show ?thesis by blast
qed

subsection \<open>One database state\<close>

text \<open>The two worlds show the same watched tables to the read with this number.\<close>

definition seen_same :: "nat \<Rightarrow> world \<Rightarrow> world \<Rightarrow> bool" where
  "seen_same k w w' =
     (same_tables (w_replica w k (w_db w)) (w_replica w' k (w_db w')) \<and>
      db_eq (w_replica w k (w_db w)) = db_eq (w_replica w' k (w_db w')) \<and> w_rfault w k = w_rfault w' k)"

definition reads_tables :: "'a io \<Rightarrow> bool" where
  "reads_tables m = (reads_only m \<and> (\<forall>w w'. w_n w = w_n w' \<longrightarrow>
     (\<forall>k. w_n w \<le> k \<longrightarrow> k < w_n (snd (run_state m w)) \<longrightarrow> seen_same k w w') \<longrightarrow>
     fst (run_state m w) = fst (run_state m w') \<and> w_n (snd (run_state m w)) = w_n (snd (run_state m w'))))"

named_theorems table_reads \<open>operations that read watched tables only\<close>

lemma reads_tables_ret [table_reads]: "reads_tables (ret x)"
  by (simp add: reads_tables_def reads_only_ret)

lemma reads_tables_query:
  assumes "\<And>d d'. same_tables d d' \<Longrightarrow> db_eq d = db_eq d' \<Longrightarrow> sel d = sel d'"
  shows "reads_tables (query sel)"
  unfolding reads_tables_def
proof (intro conjI allI impI)
  fix w w' :: world
  assume n: "w_n w = w_n w'"
    and "\<forall>k. w_n w \<le> k \<longrightarrow> k < w_n (snd (run_state (query sel) w)) \<longrightarrow> seen_same k w w'"
  then have "seen_same (w_n w) w w'" by (simp add: query_def)
  then have "sel (w_replica w (w_n w) (w_db w)) = sel (w_replica w' (w_n w) (w_db w'))"
    "w_rfault w (w_n w) = w_rfault w' (w_n w)"
    using assms by (auto simp: seen_same_def)
  then show "fst (run_state (query sel) w) = fst (run_state (query sel) w')"
    "w_n (snd (run_state (query sel) w)) = w_n (snd (run_state (query sel) w'))"
    using n by (simp_all add: query_def)
qed (rule reads_only_query)

lemma seen_same_w_n [simp]: "seen_same k (w\<lparr>w_n := n\<rparr>) w' = seen_same k w w'" "seen_same k w (w'\<lparr>w_n := n\<rparr>) = seen_same k w w'"
  by (simp_all add: seen_same_def)

lemma reads_tables_bind:
  assumes "reads_tables m" "\<And>x. reads_tables (f x)"
  shows "reads_tables (State_Monad.bind m f)"
  unfolding reads_tables_def
proof (intro conjI allI impI)
  show "reads_only (State_Monad.bind m f)"
    using assms by (intro reads_only_bind) (simp_all add: reads_tables_def)
  fix w w' :: world
  assume n: "w_n w = w_n w'"
    and seen: "\<forall>k. w_n w \<le> k \<longrightarrow> k < w_n (snd (run_state (State_Monad.bind m f) w)) \<longrightarrow> seen_same k w w'"
  obtain x w1 where 1: "run_state m w = (x, w1)" by fastforce
  obtain x' w1' where r2: "run_state m w' = (x', w1')" by fastforce
  obtain a where a: "w1 = w\<lparr>w_n := a\<rparr>" "w_n w \<le> a" using reads_only_snd [OF _ 1] assms(1) by (auto simp: reads_tables_def)
  obtain a' where a': "w1' = w'\<lparr>w_n := a'\<rparr>" using reads_only_snd [OF _ r2] assms(1) by (auto simp: reads_tables_def)
  obtain b where b: "snd (run_state (f x) w1) = w1\<lparr>w_n := b\<rparr>" "w_n w1 \<le> b"
    using assms(2) [of x] unfolding reads_tables_def reads_only_def by blast
  have "\<forall>k. w_n w \<le> k \<longrightarrow> k < w_n (snd (run_state m w)) \<longrightarrow> seen_same k w w'"
    using seen a b by (simp add: 1)
  then have x: "x = x'" "a = a'"
    using assms(1) n 1 r2 a a' unfolding reads_tables_def by (metis fst_conv snd_conv world.select_convs(2) world.surjective world.update_convs(2))+
  have "\<forall>k. w_n w1 \<le> k \<longrightarrow> k < w_n (snd (run_state (f x) w1)) \<longrightarrow> seen_same k w1 w1'"
    using seen a a' by (simp add: 1)
  moreover have "w_n w1 = w_n w1'" using a a' x by simp
  ultimately have "fst (run_state (f x) w1) = fst (run_state (f x) w1') \<and>
      w_n (snd (run_state (f x) w1)) = w_n (snd (run_state (f x) w1'))"
    using assms(2) [of x] unfolding reads_tables_def by blast
  then show "fst (run_state (State_Monad.bind m f) w) = fst (run_state (State_Monad.bind m f) w')"
    "w_n (snd (run_state (State_Monad.bind m f) w)) = w_n (snd (run_state (State_Monad.bind m f) w'))"
    by (simp_all add: 1 r2 x)
qed

lemma reads_tables_cases [table_reads]:
  "reads_tables a \<Longrightarrow> reads_tables b \<Longrightarrow> reads_tables (if c then a else b)"
  "(\<And>x y. reads_tables (h x y)) \<Longrightarrow> reads_tables (case p of (x, y) \<Rightarrow> h x y)"
  by (auto split: prod.split)

lemma reads_tables_gets [table_reads]:
  "reads_tables GetTacacsUserInfos" "reads_tables GetTacacsOnDutyUser"
  "reads_tables GetTacacsRoleTemplates" "reads_tables (GetTacacsRoleTemplateByTemplate t)"
  "reads_tables (GetTacacsServerTemplatesByTemplate t)" "reads_tables (GetTacacsCommandTemplatesByTemplate t)"
  unfolding GetTacacsUserInfos_def GetTacacsOnDutyUser_def GetTacacsRoleTemplates_def
    GetTacacsRoleTemplateByTemplate_def GetTacacsServerTemplatesByTemplate_def GetTacacsCommandTemplatesByTemplate_def
  by (intro reads_tables_bind table_reads reads_tables_query; simp add: same_tables_def)+

lemma reads_tables_servers_loop [table_reads]: "reads_tables (servers_loop ts acc)"
proof (induction ts arbitrary: acc)
  case (Cons t ts)
  show ?case unfolding servers_loop.simps by (intro reads_tables_bind table_reads Cons.IH)
qed (simp add: table_reads)

lemma reads_tables_commands_loop [table_reads]: "reads_tables (commands_loop ts acc)"
proof (induction ts arbitrary: acc)
  case (Cons t ts)
  show ?case unfolding commands_loop.simps by (intro reads_tables_bind table_reads Cons.IH)
qed (simp add: table_reads)

lemma reads_tables_roles_loop [table_reads]: "reads_tables (roles_loop rs m)"
proof (induction rs arbitrary: m)
  case (Cons r rs)
  show ?case unfolding roles_loop.simps by (intro reads_tables_bind table_reads Cons.IH)
qed (simp add: table_reads)

lemma reads_tables_getAll [table_reads]: "reads_tables getAllRoleCmdsServers"
  unfolding getAllRoleCmdsServers_def by (intro reads_tables_bind table_reads)

text \<open>The databases that the reads see follow one another, as the reads of a replica do.\<close>

definition follows :: "world \<Rightarrow> bool" where
  "follows w = (\<forall>n. stamped (w_replica w n (w_db w)) (w_replica w (Suc n) (w_db w)))"

lemma follows_le:
  assumes "follows w" "i \<le> j"
  shows "stamped (w_replica w i (w_db w)) (w_replica w j (w_db w))"
  using assms(2)
proof (induction j rule: dec_induct)
  case (step n)
  then show ?case using assms(1) unfolding follows_def by (blast intro: stamped_trans)
qed simp

lemma follows_same:
  assumes "follows w" "i \<le> k" "k \<le> j"
    and "join_versions (version (w_replica w i (w_db w))) = join_versions (version (w_replica w j (w_db w)))"
  shows "same_tables (w_replica w i (w_db w)) (w_replica w k (w_db w))"
proof (rule stamped_same_versions [OF follows_le [OF assms(1,2)]])
  have "version (w_replica w i (w_db w)) x \<le> version (w_replica w k (w_db w)) x"
    "version (w_replica w k (w_db w)) x \<le> version (w_replica w j (w_db w)) x" for x
    using follows_le [OF assms(1)] assms(2,3) by (auto simp: stamped_def)
  then show "join_versions (version (w_replica w i (w_db w))) = join_versions (version (w_replica w k (w_db w)))"
    using assms(4) unfolding join_versions_eq by (metis le_antisym)
qed

text \<open>The same world with all reads on one database.\<close>

definition frozen :: "world \<Rightarrow> world" where
  "frozen w = w\<lparr>w_replica := (\<lambda>_ _. w_replica w (w_n w) (w_db w))\<rparr>"

text \<open>The reads of the tables between the two reads of the versions, as one operation.\<close>

definition table_reads_of ::
  "(((string \<Rightarrow> roleCmdsServers option) \<times> go_error option) \<times> (TacacsUser list \<times> go_error option) \<times> string list) io" where
  "table_reads_of = do { a \<leftarrow> getAllRoleCmdsServers; b \<leftarrow> GetTacacsUserInfos; c \<leftarrow> GetTacacsOnDutyUser; ret (a, b, c) }"

lemma rebuild_reads:
  assumes "run_state GetTablesUpdateTime w = (v1, w1)" "run_state table_reads_of w1 = ((a, b, od), w2)"
    and "run_state GetTablesUpdateTime w2 = (v2, w3)"
  shows "fst (run_state (rebuild L c) w) =
    (case v1 of Inl e \<Rightarrow> c | Inr s \<Rightarrow>
       if tempTacacsTableUpdateTime c = s \<or> snd a \<noteq> None \<or> snd b \<noteq> None then c
       else (case v2 of Inl e \<Rightarrow> c | Inr s' \<Rightarrow> if s' \<noteq> s then c
         else (updateTacacsUserInfoAndCache (build_users L (fst a) od (fst b) NewTypedSyncMap) c)
                \<lparr>tempTacacsTableUpdateTime := s'\<rparr>))"
proof -
  obtain x1 x2 where a: "a = (x1, x2)" by fastforce
  obtain y1 y2 where b: "b = (y1, y2)" by fastforce
  obtain a' wa where ra: "run_state getAllRoleCmdsServers w1 = (a', wa)" by fastforce
  obtain b' wb where rb: "run_state GetTacacsUserInfos wa = (b', wb)" by fastforce
  obtain od' wc where rc: "run_state GetTacacsOnDutyUser wb = (od', wc)" by fastforce
  have "a' = a" "b' = b" and rc: "run_state GetTacacsOnDutyUser wb = (od, w2)"
    using assms(2) ra rb rc by (simp_all add: table_reads_of_def)
  note ra = ra [unfolded \<open>a' = a\<close>] and rb = rb [unfolded \<open>b' = b\<close>]
  show ?thesis
    unfolding rebuild_def
    by (cases v1; cases v2) (simp_all add: assms(1,3) ra [unfolded a] rb [unfolded b] rc a b)
qed

lemma reads_tables_all: "reads_tables table_reads_of"
  unfolding table_reads_of_def by (intro reads_tables_bind table_reads)

lemma snapshot_of_one_database_lemma:
  assumes "follows w" "\<forall>n. w_rfault w n = NoFault" "\<forall>n. unique_keys (w_replica w n (w_db w))"
  shows "fst (run_state (updateUsers L c) w) = c \<or>
    fst (run_state (updateUsers L c) w) = fst (run_state (updateUsers L c) (frozen w))"
proof -
  let ?R = "\<lambda>n. w_replica w n (w_db w)"
  let ?w1 = "w\<lparr>w_n := Suc (w_n w)\<rparr>"
  let ?f = "frozen w"
  let ?f1 = "?f\<lparr>w_n := Suc (w_n w)\<rparr>"
  have f: "w_n ?f = w_n w" "w_db ?f = w_db w" "\<And>n d. w_replica ?f n d = ?R (w_n w)" "w_rfault ?f = w_rfault w"
    by (simp_all add: frozen_def)
  have v1: "run_state GetTablesUpdateTime w = (Inr (join_versions (version (?R (w_n w)))), ?w1)"
    using GetTablesUpdateTime_run assms(2,3) by simp
  have v1f: "run_state GetTablesUpdateTime ?f = (Inr (join_versions (version (?R (w_n w)))), ?f1)"
    using GetTablesUpdateTime_run [of ?f] assms(2,3) f by simp
  obtain a b od w2 where t: "run_state table_reads_of ?w1 = ((a, b, od), w2)" by (metis prod.exhaust)
  obtain k where w2: "w2 = ?w1\<lparr>w_n := k\<rparr>" "Suc (w_n w) \<le> k"
    using reads_only_snd [OF _ t] reads_tables_all by (auto simp: reads_tables_def)
  have v2: "run_state GetTablesUpdateTime w2 = (Inr (join_versions (version (?R k))), w2\<lparr>w_n := Suc k\<rparr>)"
    using GetTablesUpdateTime_run [of w2] assms(2,3) w2 by simp
  have rw: "fst (run_state (rebuild L c') w) =
      (if tempTacacsTableUpdateTime c' = join_versions (version (?R (w_n w))) \<or> snd a \<noteq> None \<or> snd b \<noteq> None then c'
       else if join_versions (version (?R k)) \<noteq> join_versions (version (?R (w_n w))) then c'
       else (updateTacacsUserInfoAndCache (build_users L (fst a) od (fst b) NewTypedSyncMap) c')
              \<lparr>tempTacacsTableUpdateTime := join_versions (version (?R k))\<rparr>)" for c'
    unfolding rebuild_reads [OF v1 t v2] by simp
  show ?thesis
  proof (cases "join_versions (version (?R k)) = join_versions (version (?R (w_n w)))")
    case False
    then have "fst (run_state (rebuild L c') w) = c'" for c' by (simp add: rw)
    then show ?thesis by (auto simp: updateUsers_def split_beta)
  next
    case True
    have "\<forall>j. w_n ?w1 \<le> j \<longrightarrow> j < w_n (snd (run_state table_reads_of ?w1)) \<longrightarrow> seen_same j ?w1 ?f1"
    proof (intro allI impI)
      fix j assume j: "w_n ?w1 \<le> j" "j < w_n (snd (run_state table_reads_of ?w1))"
      then have j': "w_n w \<le> j" "j \<le> k" using t w2 by simp_all
      have "same_tables (?R (w_n w)) (?R j)" by (rule follows_same [OF assms(1) j' True [symmetric]])
      moreover have "db_eq (?R j) = db_eq (?R (w_n w))" using follows_le [OF assms(1) j'(1)] by (simp add: stamped_def)
      ultimately show "seen_same j ?w1 ?f1" using f by (simp add: seen_same_def same_tables_def)
    qed
    then have "fst (run_state table_reads_of ?w1) = fst (run_state table_reads_of ?f1)"
      using reads_tables_all f(1) unfolding reads_tables_def by simp
    then obtain f2 where tf: "run_state table_reads_of ?f1 = ((a, b, od), f2)" using t by (metis fst_conv prod.collapse)
    obtain kf where f2: "f2 = ?f1\<lparr>w_n := kf\<rparr>"
      using reads_only_snd [OF _ tf] reads_tables_all by (auto simp: reads_tables_def)
    have v2f: "run_state GetTablesUpdateTime f2 = (Inr (join_versions (version (?R (w_n w)))), f2\<lparr>w_n := Suc kf\<rparr>)"
      using GetTablesUpdateTime_run [of f2] assms(2,3) f f2 by simp
    have "fst (run_state (rebuild L c') w) = fst (run_state (rebuild L c') ?f)" for c'
      unfolding rw rebuild_reads [OF v1f tf v2f] using True by simp
    then show ?thesis by (simp add: updateUsers_def split_beta)
  qed
qed

text \<open>
  C20. What \<open>updateUsers\<close> publishes is the content of one database.  Its reads may see a database
  that changes from one to the next, as long as the changes of the watched tables are stamped and
  no read fails: then either nothing is published, or exactly what the same reads give on the one
  database that the first of them saw, with its version.  That is what the second read of the
  versions is for.
\<close>

theorem snapshot_of_one_database:
  assumes "follows w" "\<forall>n. w_rfault w n = NoFault" "\<forall>n. unique_keys (w_replica w n (w_db w))"
  shows "fst (run_state (updateUsers L c) w) = c \<or>
    fst (run_state (updateUsers L c) w) = fst (run_state (updateUsers L c) (frozen w))"
  using assms by (rule snapshot_of_one_database_lemma)

end
