(* ===== verification/AaaHandler.thy ===== *)
theory AaaHandler
  imports UserCacheLaws EndToEnd
begin

text \<open>
  \<open>pkg/client/tac_plus/handler.go\<close> and \<open>log.go\<close>: the handlers for authentication, authorization
  and accounting behind the TACACS+ server.  Each returns its reply with the log record it
  writes; a decision uses the in-memory copy of the users at that moment.  Debug output is left out.
\<close>

subsection \<open>Log records, \<open>struct.go\<close> and \<open>log.go\<close>\<close>

record AuthenInfo =
  an_StartTime :: int
  an_Time :: string
  an_TimeStamp :: int
  an_TimeRange :: int
  an_User :: string
  an_SwitchAddr :: string
  an_ServerAddr :: string
  an_AuthenStatus :: string
  an_Details :: string
  an_IsSingleConnect :: bool
  an_TacacsClient :: string

record AuthorInfo =
  ao_StartTime :: int
  ao_Time :: string
  ao_TimeStamp :: int
  ao_TimeRange :: int
  ao_User :: string
  ao_SwitchAddr :: string
  ao_ServerAddr :: string
  ao_AuthorStatus :: string
  ao_Details :: string
  ao_Cmd :: string
  ao_IsSingleConnect :: bool
  ao_TacacsClient :: string

record AccountInfo =
  ai_StartTime :: int
  ai_Time :: string
  ai_TimeStamp :: int
  ai_TimeRange :: int
  ai_User :: string
  ai_SwitchAddr :: string
  ai_ServerAddr :: string
  ai_Cmd :: string
  ai_Port :: string
  ai_Flags :: int
  ai_AuthenMethod :: int
  ai_PrivLvl :: int
  ai_AuthenType :: int
  ai_AuthenService :: int
  ai_Arg :: "string list"
  ai_IsSingleConnect :: bool
  ai_TacacsClient :: string

text \<open>Clock readings, the format with milliseconds, and the name of the host.\<close>

record log_env =
  le_start :: int
  le_end :: int
  le_fmt :: "int \<Rightarrow> string"
  le_host :: string

definition LogAuthen :: "log_env \<Rightarrow> AuthenInfo \<Rightarrow> AuthenInfo" where
  "LogAuthen env i = i\<lparr>an_Time := le_fmt env (an_StartTime i), an_TimeStamp := an_StartTime i,
     an_TimeRange := le_end env - an_StartTime i, an_TacacsClient := le_host env\<rparr>"

definition LogAuthor :: "log_env \<Rightarrow> AuthorInfo \<Rightarrow> AuthorInfo" where
  "LogAuthor env i = i\<lparr>ao_Time := le_fmt env (ao_StartTime i), ao_TimeStamp := ao_StartTime i,
     ao_TimeRange := le_end env - ao_StartTime i, ao_TacacsClient := le_host env\<rparr>"

definition LogAccount :: "log_env \<Rightarrow> AccountInfo \<Rightarrow> AccountInfo" where
  "LogAccount env i = i\<lparr>ai_Time := le_fmt env (ai_StartTime i), ai_TimeStamp := ai_StartTime i,
     ai_TimeRange := le_end env - ai_StartTime i, ai_TacacsClient := le_host env\<rparr>"

text \<open>A \<open>net.Addr\<close> with the text of its address.\<close>

datatype net_addr = NilAddr | TCPAddr string | IPAddr string | OtherAddr

definition getSwitchIp :: "net_addr \<Rightarrow> string" where
  "getSwitchIp addr = (case addr of
     NilAddr \<Rightarrow> ''addr is nil'' | TCPAddr s \<Rightarrow> s | IPAddr s \<Rightarrow> s | OtherAddr \<Rightarrow> ''addr is nil'')"

subsection \<open>Authentication\<close>

text \<open>
  The two prompt loops.  The argument counts down: with \<open>left\<close> prompts to come after this one,
  \<open>getUserNum\<close> is \<open>6 - left\<close>.
\<close>

fun prompt_loop :: "AuthenContinue result act \<Rightarrow> nat \<Rightarrow> string option act" where
  "prompt_loop get 0 = act_return None"
| "prompt_loop get (Suc left) =
     act_bind get (\<lambda>r. case r of
         Inl err \<Rightarrow> act_return None
       | Inr c \<Rightarrow>
           if ac_Abort c \<or> 6 - left > 5 then act_return None
           else if ac_Message c \<noteq> [] then act_return (Some (ac_Message c))
           else prompt_loop get left)"

definition authen_decision :: "lib \<Rightarrow> string \<Rightarrow> string \<Rightarrow> client \<Rightarrow> (bool \<times> string) \<times> client" where
  "authen_decision L user pass c =
     (case getTacacsUserInfo c user of
        None \<Rightarrow> ((False, ''User does not exist''), c)
      | Some userInfo \<Rightarrow>
          (case checkUserPassword L pass (ui_password userInfo) c of (b, c) \<Rightarrow>
             if \<not> b then ((False, ''password is wrong, inputPass:'' @ [CHR 0x27] @ pass @ [CHR 0x27]), c)
             else if ui_isOnDuty userInfo then ((True, ''isOnDuty''), c)
             else if length (ui_role userInfo) = 0 then ((False, ''User role is null''), c)
             else ((True, ''User role is pass''), c)))"

definition status_reply :: "byte \<Rightarrow> AuthenReply" where
  "status_reply st = \<lparr>ar_Status = st, ar_NoEcho = False, ar_ServerMsg = [], ar_Data = []\<rparr>"

text \<open>\<open>c\<close> is the copy of the users when the decision is taken, after the prompts.\<close>

definition authen_start ::
  "lib \<Rightarrow> log_env \<Rightarrow> net_addr \<Rightarrow> client \<Rightarrow> AuthenStart \<Rightarrow> (AuthenReply \<times> AuthenInfo \<times> client) act" where
  "authen_start L env addr c a s =
     (let info = \<lparr>an_StartTime = le_start env, an_Time = [], an_TimeStamp = 0, an_TimeRange = 0,
            an_User = as_User a, an_SwitchAddr = getSwitchIp addr, an_ServerAddr = as_RemAddr a,
            an_AuthenStatus = [], an_Details = [], an_IsSingleConnect = IsSingleConnect s, an_TacacsClient = []\<rparr>
      in act_bind (if as_User a \<noteq> [] then act_return (Some (as_User a)) else prompt_loop (GetUser ''User:'') 6) (\<lambda>user.
         case user of
           None \<Rightarrow> act_return (status_reply AuthenStatusFail,
             LogAuthen env (info\<lparr>an_AuthenStatus := ''getUserError'', an_Details := ''Get User Num Exceed 5''\<rparr>), c)
         | Some user \<Rightarrow>
             (let info = info\<lparr>an_User := user\<rparr> in
              act_bind (prompt_loop (GetPass ''Password:'') 6) (\<lambda>pass.
              case pass of
                None \<Rightarrow> act_return (status_reply AuthenStatusFail,
                  LogAuthen env (info\<lparr>an_AuthenStatus := ''getPassError'', an_Details := ''Get User Password Num Exceed 5''\<rparr>), c)
              | Some pass \<Rightarrow>
                  (case authen_decision L user pass c of ((isPass, detail), c) \<Rightarrow>
                     if isPass then act_return (status_reply AuthenStatusPass,
                       LogAuthen env (info\<lparr>an_Details := detail, an_AuthenStatus := ''pass''\<rparr>), c)
                     else act_return (status_reply AuthenStatusFail,
                       LogAuthen env (info\<lparr>an_Details := detail, an_AuthenStatus := ''noPass''\<rparr>), c))))) s)"

subsection \<open>Authorization\<close>

text \<open>The loop over the arguments of a request: the command and its further words.\<close>

fun arg_loop :: "string list \<Rightarrow> string \<Rightarrow> string list \<Rightarrow> string \<times> string list" where
  "arg_loop [] cmd addArgs = (cmd, addArgs)"
| "arg_loop (arg # args) cmd addArgs =
     (if EqualFold arg ''cmd*'' then arg_loop args cmd addArgs
      else
        (let eq = IndexByte arg CHR ''='' in
         if eq \<le> 0 then arg_loop args cmd addArgs
         else
           (let key = take (nat eq) arg; val = drop (nat eq + 1) arg in
            if EqualFold key ''cmd'' then arg_loop args val addArgs
            else if EqualFold key ''cmd-arg'' then
              arg_loop args cmd (if val \<noteq> ''<cr>'' then addArgs @ [val] else addArgs)
            else arg_loop args cmd addArgs)))"

definition author_cmd :: "string list \<Rightarrow> string" where
  "author_cmd args =
     (case arg_loop args [] [] of (cmd, addArgs) \<Rightarrow>
        if cmd = [] then []
        else if length addArgs = 0 then cmd
        else foldl (\<lambda>b v. b @ '' '' @ v) cmd addArgs)"

definition author_decision ::
  "lib \<Rightarrow> string \<Rightarrow> string \<Rightarrow> string \<Rightarrow> client \<Rightarrow> (bool \<times> string \<times> string list) \<times> client" where
  "author_decision L user cmd server c =
     (case getTacacsUserInfo c user of
        None \<Rightarrow> ((False, ''User does not exist'', []), c)
      | Some userInfo \<Rightarrow>
          if ui_isOnDuty userInfo then ((True, ''isOnDuty'', ui_args userInfo), c)
          else
            (case checkCmdAndServerInRole L cmd server (ui_rolesKey userInfo) (ui_role userInfo) c of
               ((status, detail), c) \<Rightarrow> ((status, detail, ui_args userInfo), c)))"

definition author_request ::
  "lib \<Rightarrow> log_env \<Rightarrow> net_addr \<Rightarrow> client \<Rightarrow> AuthorRequest \<Rightarrow> (AuthorResponse \<times> AuthorInfo \<times> client) act" where
  "author_request L env addr c a s =
     (let info = \<lparr>ao_StartTime = le_start env, ao_Time = [], ao_TimeStamp = 0, ao_TimeRange = 0,
            ao_User = aq_User a, ao_SwitchAddr = getSwitchIp addr, ao_ServerAddr = aq_RemAddr a,
            ao_AuthorStatus = [], ao_Details = [], ao_Cmd = author_cmd (aq_Arg a),
            ao_IsSingleConnect = IsSingleConnect s, ao_TacacsClient = []\<rparr>
      in case author_decision L (aq_User a) (author_cmd (aq_Arg a)) (aq_RemAddr a) c of
           ((isPass, detail, userArgs), c) \<Rightarrow>
             if isPass then
               act_return (\<lparr>ap_Status = AuthorStatusPassAdd, ap_Arg = userArgs, ap_ServerMsg = [], ap_Data = []\<rparr>,
                 LogAuthor env (info\<lparr>ao_Details := detail, ao_AuthorStatus := ''pass''\<rparr>), c) s
             else
               act_return (\<lparr>ap_Status = AuthorStatusFail, ap_Arg = [], ap_ServerMsg = [], ap_Data = []\<rparr>,
                 LogAuthor env (info\<lparr>ao_Details := detail, ao_AuthorStatus := ''noPass''\<rparr>), c) s)"

subsection \<open>Accounting\<close>

fun acct_cmd :: "string list \<Rightarrow> string" where
  "acct_cmd [] = []"
| "acct_cmd (arg # args) =
     (if length arg \<ge> 4 \<and> EqualFold (take 4 arg) ''cmd='' then drop 4 arg else acct_cmd args)"

definition acct_request ::
  "log_env \<Rightarrow> net_addr \<Rightarrow> AcctRequest \<Rightarrow> (AcctReply \<times> AccountInfo) act" where
  "acct_request env addr a s =
     (let cmd = TrimSuffix (acct_cmd (cq_Arg a)) '' <cr>'';
          info = \<lparr>ai_StartTime = le_start env, ai_Time = [], ai_TimeStamp = 0, ai_TimeRange = 0,
            ai_User = cq_User a, ai_SwitchAddr = getSwitchIp addr, ai_ServerAddr = cq_RemAddr a,
            ai_Cmd = cmd, ai_Port = cq_Port a, ai_Flags = uint (cq_Flags a),
            ai_AuthenMethod = uint (cq_AuthenMethod a), ai_PrivLvl = uint (cq_PrivLvl a),
            ai_AuthenType = uint (cq_AuthenType a), ai_AuthenService = uint (cq_AuthenService a),
            ai_Arg = cq_Arg a, ai_IsSingleConnect = IsSingleConnect s, ai_TacacsClient = []\<rparr>
      in act_return (\<lparr>cr_Status = AcctStatusSuccess, cr_ServerMsg = [], cr_Data = []\<rparr>, LogAccount env info) s)"

text \<open>\<open>myHandler\<close> as the \<open>RequestHandler\<close> of a server session.\<close>

definition reply_of :: "('a \<times> 'b) act \<Rightarrow> 'a option act" where
  "reply_of m = act_bind m (\<lambda>(r, _). act_return (Some r))"

definition myHandler :: "lib \<Rightarrow> log_env \<Rightarrow> net_addr \<Rightarrow> client \<Rightarrow> request_handler" where
  "myHandler L env addr c =
     \<lparr>HandleAuthenStart = (\<lambda>a. reply_of (authen_start L env addr c a)),
      HandleAuthorRequest = (\<lambda>a. reply_of (author_request L env addr c a)),
      HandleAcctRequest = (\<lambda>a. reply_of (acct_request env addr a))\<rparr>"

end
