(* ===== verification/AaaSpec.thy ===== *)
theory AaaSpec
  imports AaaHandler
begin

text \<open>
  What the decisions of a client process mean in terms of the database: the abstract
  specification of who may log in and who may run which command from where, and the proof that
  the copy of the users, the role structures built from it and the caches implement it.
\<close>

subsection \<open>The specification\<close>

text \<open>The rows of the templates that a list of template names refers to.\<close>

definition servers_at :: "db \<Rightarrow> string \<Rightarrow> string list" where
  "servers_at d t = (if TrimSpace t = [] then []
     else map st_ServerTemplate (filter (\<lambda>r. db_eq d (st_Template r) t) (t_server d)))"

definition servers_of :: "db \<Rightarrow> string \<Rightarrow> string list" where
  "servers_of d names = concat (map (servers_at d) (Split CHR '','' names))"

definition commands_at :: "db \<Rightarrow> string \<Rightarrow> string list" where
  "commands_at d t = (if TrimSpace t = [] then []
     else map ct_CommandTemplate (filter (\<lambda>r. db_eq d (ct_Template r) t) (t_command d)))"

definition commands_of :: "db \<Rightarrow> string \<Rightarrow> string list" where
  "commands_of d names = concat (map (commands_at d) (Split CHR '','' names))"

definition command_permitted :: "lib \<Rightarrow> string list \<Rightarrow> string \<Rightarrow> bool" where
  "command_permitted L cmds cmd = (cmd = [] \<or> (\<exists>p\<in>set cmds. re_compile L p \<and> re_match L p cmd))"

text \<open>The entry \<open>s\<close> of a server list is a network that contains the address \<open>server\<close>.\<close>

definition in_network :: "lib \<Rightarrow> string \<Rightarrow> string \<Rightarrow> bool" where
  "in_network L server s =
     (case (ParseIP L server, GetNetworkType L s) of
        (Some ip, (t, Some n)) \<Rightarrow> t = 2 \<and> Contains n ip
      | _ \<Rightarrow> False)"

definition server_permitted :: "lib \<Rightarrow> string list \<Rightarrow> string \<Rightarrow> bool" where
  "server_permitted L servers server =
     (server = [] \<or> (\<exists>s\<in>set servers. fst (GetNetworkType L s) = 1 \<and> s = server) \<or>
      (\<exists>s\<in>set servers. in_network L server s))"

definition role_permits :: "lib \<Rightarrow> db \<Rightarrow> TacacsRoleTemplate \<Rightarrow> string \<Rightarrow> string \<Rightarrow> bool" where
  "role_permits L d rt cmd server =
     (command_permitted L (commands_of d (rt_CommandTemplateList rt)) cmd \<and>
      server_permitted L (servers_of d (rt_ServerTemplateList rt)) server)"

text \<open>The roles of a user are the named parts of a column of its row.\<close>

definition has_role :: "TacacsUser \<Rightarrow> TacacsRoleTemplate \<Rightarrow> bool" where
  "has_role u rt = (rt_Template rt \<in> set (Split CHR '','' (tu_Role u)))"

definition authorized :: "lib \<Rightarrow> db \<Rightarrow> string \<Rightarrow> string \<Rightarrow> string \<Rightarrow> bool" where
  "authorized L d user cmd server =
     (\<exists>u\<in>set (t_user d). tu_User u = user \<and> tu_Status u = ''1'' \<and>
        (user \<in> set (t_on_duty d) \<or>
         (\<exists>rt\<in>set (t_role d). has_role u rt \<and> rt_Template rt \<noteq> [] \<and> role_permits L d rt cmd server)))"

definition authenticated :: "lib \<Rightarrow> db \<Rightarrow> string \<Rightarrow> string \<Rightarrow> bool" where
  "authenticated L d user password =
     (\<exists>u\<in>set (t_user d). tu_User u = user \<and> tu_Status u = ''1'' \<and> CompareHash L (tu_Password u) password \<and>
        (user \<in> set (t_on_duty d) \<or> (\<exists>rt\<in>set (t_role d). has_role u rt)))"

text \<open>
  What the tables guarantee: user names are unique, role names are unique for the comparison of
  the database (the handler that creates roles refuses a second one), and row ids start at 1.
\<close>

definition well_formed :: "db \<Rightarrow> bool" where
  "well_formed d = (unique_keys d \<and> distinct (map tu_User (t_user d)) \<and>
     (\<forall>s. db_eq d s s) \<and> (\<forall>r\<in>set (t_role d). rt_ID r \<noteq> 0) \<and>
     (\<forall>i<length (t_role d). \<forall>j<length (t_role d).
        db_eq d (rt_Template (t_role d ! i)) (rt_Template (t_role d ! j)) \<longrightarrow> i = j) \<and> plain d)"

subsection \<open>Reading the roles from one database\<close>

text \<open>All reads see the database \<open>d\<close>, and none fails.\<close>

definition steady :: "db \<Rightarrow> world \<Rightarrow> bool" where
  "steady d w = (\<forall>n. w_replica w n (w_db w) = d \<and> w_rfault w n = NoFault)"

lemma steady_w_n [simp]: "steady d (w\<lparr>w_n := n\<rparr>) = steady d w"
  by (simp add: steady_def)

lemma steady_quiet: "quiet w \<Longrightarrow> steady (w_db w) w"
  by (simp add: steady_def quiet_def)

lemma steady_frozen: "\<forall>n. w_rfault w n = NoFault \<Longrightarrow> steady (w_replica w (w_n w) (w_db w)) (frozen w)"
  by (simp add: steady_def frozen_def)

lemma steady_query:
  "steady d w \<Longrightarrow> run_state (query sel) w = (Rows (map Inr (sel d)) None, w\<lparr>w_n := Suc (w_n w)\<rparr>)"
  by (simp add: query_def steady_def)

lemma steady_GetTacacsServerTemplatesByTemplate:
  "steady d w \<Longrightarrow> run_state (GetTacacsServerTemplatesByTemplate t) w =
    ((filter (\<lambda>r. db_eq d (st_Template r) t) (t_server d), None), w\<lparr>w_n := Suc (w_n w)\<rparr>)"
  by (simp add: GetTacacsServerTemplatesByTemplate_def steady_query)

lemma steady_GetTacacsCommandTemplatesByTemplate:
  "steady d w \<Longrightarrow> run_state (GetTacacsCommandTemplatesByTemplate t) w =
    ((filter (\<lambda>r. db_eq d (ct_Template r) t) (t_command d), None), w\<lparr>w_n := Suc (w_n w)\<rparr>)"
  by (simp add: GetTacacsCommandTemplatesByTemplate_def steady_query rows_or_nil_def)

lemma steady_servers_loop:
  "steady d w \<Longrightarrow> \<exists>n. run_state (servers_loop ts acc) w =
    (acc @ concat (map (servers_at d) ts), w\<lparr>w_n := n\<rparr>)"
proof (induction ts arbitrary: acc w)
  case Nil
  show ?case by (rule exI [of _ "w_n w"]) simp
next
  case (Cons t ts)
  show ?case
  proof (cases "TrimSpace t = []")
    case True
    then show ?thesis using Cons.IH [OF Cons(2)] by (simp add: servers_at_def)
  next
    case False
    let ?new = "map st_ServerTemplate (filter (\<lambda>r. db_eq d (st_Template r) t) (t_server d))"
    have "steady d (w\<lparr>w_n := Suc (w_n w)\<rparr>)" using Cons(2) by simp
    from Cons.IH [OF this, of "acc @ ?new"] False show ?thesis
      by (simp add: steady_GetTacacsServerTemplatesByTemplate [OF Cons(2)]) (simp add: servers_at_def)
  qed
qed

lemma steady_commands_loop:
  "steady d w \<Longrightarrow> \<exists>n. run_state (commands_loop ts acc) w =
    (acc @ concat (map (commands_at d) ts), w\<lparr>w_n := n\<rparr>)"
proof (induction ts arbitrary: acc w)
  case Nil
  show ?case by (rule exI [of _ "w_n w"]) simp
next
  case (Cons t ts)
  show ?case
  proof (cases "TrimSpace t = []")
    case True
    then show ?thesis using Cons.IH [OF Cons(2)] by (simp add: commands_at_def)
  next
    case False
    let ?new = "map ct_CommandTemplate (filter (\<lambda>r. db_eq d (ct_Template r) t) (t_command d))"
    have "steady d (w\<lparr>w_n := Suc (w_n w)\<rparr>)" using Cons(2) by simp
    from Cons.IH [OF this, of "acc @ ?new"] False show ?thesis
      by (simp add: steady_GetTacacsCommandTemplatesByTemplate [OF Cons(2)]) (simp add: commands_at_def)
  qed
qed

definition role_rcs :: "db \<Rightarrow> TacacsRoleTemplate \<Rightarrow> roleCmdsServers" where
  "role_rcs d rt = \<lparr>rc_permitCmds = commands_of d (rt_CommandTemplateList rt),
     rc_permitServers = servers_of d (rt_ServerTemplateList rt)\<rparr>"

lemma role_lookup:
  assumes "well_formed d" "r \<in> set (t_role d)"
  shows "filter (\<lambda>x. db_eq d (rt_Template x) (rt_Template r)) (t_role d) = [r]"
proof -
  obtain i where i: "i < length (t_role d)" "r = t_role d ! i" using assms(2) by (metis in_set_conv_nth)
  have split: "t_role d = take i (t_role d) @ r # drop (Suc i) (t_role d)"
    using i by (simp add: id_take_nth_drop)
  have ne: "\<not> db_eq d (rt_Template (t_role d ! j)) (rt_Template r)" if "j < length (t_role d)" "j \<noteq> i" for j
    using assms(1) that i unfolding well_formed_def by blast
  have "filter (\<lambda>x. db_eq d (rt_Template x) (rt_Template r)) (take i (t_role d)) = []"
    using ne i by (auto simp: filter_empty_conv in_set_conv_nth)
  moreover have "filter (\<lambda>x. db_eq d (rt_Template x) (rt_Template r)) (drop (Suc i) (t_role d)) = []"
    using ne i by (auto simp: filter_empty_conv in_set_conv_nth)
  moreover have "db_eq d (rt_Template r) (rt_Template r)" using assms(1) by (simp add: well_formed_def)
  ultimately show ?thesis by (subst split) simp
qed

lemma steady_roles_loop:
  assumes "well_formed d" "steady d w" "set rs \<subseteq> set (t_role d)"
  shows "\<exists>n. run_state (roles_loop rs m) w =
    (foldl (\<lambda>m r. m(rt_Template r \<mapsto> role_rcs d r)) m rs, w\<lparr>w_n := n\<rparr>)"
  using assms
proof (induction rs arbitrary: m w)
  case Nil
  show ?case by (rule exI [of _ "w_n w"]) simp
next
  case (Cons r rs)
  let ?w1 = "w\<lparr>w_n := Suc (w_n w)\<rparr>"
  have r: "r \<in> set (t_role d)" using Cons(4) by simp
  have 1: "run_state (GetTacacsRoleTemplateByTemplate (rt_Template r)) w = (r, ?w1)"
    by (simp add: GetTacacsRoleTemplateByTemplate_def steady_query [OF Cons(3)] role_lookup [OF Cons(2) r])
  have id: "rt_ID r \<noteq> 0" using Cons(2) r by (simp add: well_formed_def)
  have q1: "steady d ?w1" using Cons(3) by simp
  obtain n2 where 2: "run_state (servers_loop (Split CHR '','' (rt_ServerTemplateList r)) []) ?w1 =
      (servers_of d (rt_ServerTemplateList r), ?w1\<lparr>w_n := n2\<rparr>)"
    using steady_servers_loop [OF q1, of _ "[]"] by (auto simp: servers_of_def)
  have q2: "steady d (?w1\<lparr>w_n := n2\<rparr>)" using Cons(3) by simp
  obtain n3 where 3: "run_state (commands_loop (Split CHR '','' (rt_CommandTemplateList r)) []) (?w1\<lparr>w_n := n2\<rparr>) =
      (commands_of d (rt_CommandTemplateList r), ?w1\<lparr>w_n := n3\<rparr>)"
    using steady_commands_loop [OF q2, of _ "[]"] by (auto simp: commands_of_def)
  let ?w3 = "w\<lparr>w_n := n3\<rparr>" and ?m = "m(rt_Template r \<mapsto> role_rcs d r)"
  have p3: "well_formed d" "steady d ?w3" "set rs \<subseteq> set (t_role d)" using Cons(2-4) by simp_all
  obtain n4 where "run_state (roles_loop rs ?m) ?w3 =
      (foldl (\<lambda>m r. m(rt_Template r \<mapsto> role_rcs d r)) ?m rs, ?w3\<lparr>w_n := n4\<rparr>)"
    using Cons.IH [OF p3, of ?m] by blast
  then show ?case
    using 1 2 3 id by (intro exI [of _ n4]) (simp add: role_rcs_def [symmetric] del: fun_upd_apply)
qed

lemma foldl_upd:
  "distinct (map k rs) \<Longrightarrow> foldl (\<lambda>m r. m(k r \<mapsto> v r)) m rs x =
     (case find (\<lambda>r. k r = x) rs of Some r \<Rightarrow> Some (v r) | None \<Rightarrow> m x)"
proof (induction rs arbitrary: m)
  case (Cons r rs)
  have "find (\<lambda>r'. k r' = x) rs = None" if "k r = x"
    using Cons(2) that unfolding find_None_iff by (metis distinct.simps(2) imageI list.simps(9) set_map)
  then show ?case using Cons by (auto split: option.splits)
qed simp

lemma find_unique:
  "distinct (map k rs) \<Longrightarrow> find (\<lambda>r. k r = x) rs = Some r \<longleftrightarrow> r \<in> set rs \<and> k r = x"
  by (induction rs) auto

lemma lookup_iff:
  "distinct (map k rs) \<Longrightarrow>
   (case find (\<lambda>r. k r = x) rs of Some r \<Rightarrow> Some (v r) | None \<Rightarrow> None) = Some y \<longleftrightarrow>
   (\<exists>r\<in>set rs. k r = x \<and> y = v r)"
  by (induction rs) (auto, metis imageI)

definition role_info :: "db \<Rightarrow> string \<Rightarrow> roleCmdsServers option" where
  "role_info d n = map_option (role_rcs d) (find (\<lambda>r. rt_Template r = n) (t_role d))"

lemma role_names_distinct: "well_formed d \<Longrightarrow> distinct (map rt_Template (t_role d))"
  by (auto simp: well_formed_def distinct_conv_nth)

lemma steady_getAll:
  assumes "well_formed d" "steady d w"
  shows "\<exists>n. run_state getAllRoleCmdsServers w = ((role_info d, None), w\<lparr>w_n := n\<rparr>)"
proof (cases "t_role d = []")
  case True
  then have "role_info d = Map.empty" by (simp add: role_info_def fun_eq_iff)
  then show ?thesis
    using True by (auto simp: getAllRoleCmdsServers_def GetTacacsRoleTemplates_def steady_query [OF assms(2)] rows_or_nil_def)
next
  case False
  let ?w1 = "w\<lparr>w_n := Suc (w_n w)\<rparr>"
  have q: "well_formed d" "steady d ?w1" "set (t_role d) \<subseteq> set (t_role d)"
    using assms by simp_all
  obtain n where n: "run_state (roles_loop (t_role d) Map.empty) ?w1 =
      (foldl (\<lambda>m r. m(rt_Template r \<mapsto> role_rcs d r)) Map.empty (t_role d), ?w1\<lparr>w_n := n\<rparr>)"
    using steady_roles_loop [OF q, of Map.empty] by blast
  have "foldl (\<lambda>m r. m(rt_Template r \<mapsto> role_rcs d r)) Map.empty (t_role d) = role_info d"
    using foldl_upd [OF role_names_distinct [OF assms(1)], of "role_rcs d" Map.empty]
    by (auto simp: role_info_def fun_eq_iff split: option.split)
  with n show ?thesis
    using False
    by (intro exI [of _ n])
      (simp add: getAllRoleCmdsServers_def GetTacacsRoleTemplates_def steady_query [OF assms(2)] rows_or_nil_def)
qed

subsection \<open>The copy of the users\<close>

definition user_info :: "lib \<Rightarrow> db \<Rightarrow> TacacsUser \<Rightarrow> UserInfo" where
  "user_info L d u =
     (let roles = user_roles L (role_info d) (Split CHR '','' (tu_Role u))
      in \<lparr>ui_isOnDuty = IsValueInList (tu_User u) (t_on_duty d), ui_role = roles,
          ui_rolesKey = generateRoleKey roles, ui_password = tu_Password u, ui_args = [''priv-lvl=15'']\<rparr>)"

lemma build_users_foldl:
  "build_users L (role_info d) (t_on_duty d) us m =
     foldl (\<lambda>m u. m(tu_User u \<mapsto> user_info L d u)) m (filter (\<lambda>u. tu_Status u = userStatusNormal) us)"
  by (induction us arbitrary: m) (auto simp: user_info_def Let_def Set_def)

text \<open>The client holds the users of the database.\<close>

definition holds :: "lib \<Rightarrow> db \<Rightarrow> client \<Rightarrow> bool" where
  "holds L d c = (coherent L c \<and> (\<forall>user ui. getTacacsUserInfo c user = Some ui \<longleftrightarrow>
     (\<exists>u\<in>set (t_user d). tu_User u = user \<and> tu_Status u = ''1'' \<and> ui = user_info L d u)))"

lemma steady_rebuild:
  assumes "well_formed d" "steady d w"
    and "tempTacacsTableUpdateTime c \<noteq> join_versions (version d)"
  shows "fst (run_state (rebuild L c) w) =
    (updateTacacsUserInfoAndCache (foldl (\<lambda>m u. m(tu_User u \<mapsto> user_info L d u)) NewTypedSyncMap
       (filter (\<lambda>u. tu_Status u = userStatusNormal) (t_user d))) c)
      \<lparr>tempTacacsTableUpdateTime := join_versions (version d)\<rparr>"
proof -
  let ?w1 = "w\<lparr>w_n := Suc (w_n w)\<rparr>"
  have uk: "unique_keys d" using assms(1) by (simp add: well_formed_def)
  have v1: "run_state GetTablesUpdateTime w = (Inr (join_versions (version d)), ?w1)"
    using GetTablesUpdateTime_run [of w] assms(2) uk by (simp add: steady_def)
  have q1: "well_formed d" "steady d ?w1" using assms by simp_all
  obtain n where a: "run_state getAllRoleCmdsServers ?w1 = ((role_info d, None), ?w1\<lparr>w_n := n\<rparr>)"
    using steady_getAll [OF q1] by blast
  have q2: "steady d (w\<lparr>w_n := n\<rparr>)" "steady d (w\<lparr>w_n := Suc n\<rparr>)" "steady d (w\<lparr>w_n := Suc (Suc n)\<rparr>)" using assms(2) by simp_all
  have t: "run_state table_reads_of ?w1 =
      (((role_info d, None), (t_user d, None), t_on_duty d), w\<lparr>w_n := Suc (Suc n)\<rparr>)"
    using a by (simp add: table_reads_of_def GetTacacsUserInfos_def GetTacacsOnDutyUser_def
        steady_query [OF q2(1)] steady_query [OF q2(2)])
  have v2: "run_state GetTablesUpdateTime (w\<lparr>w_n := Suc (Suc n)\<rparr>) =
      (Inr (join_versions (version d)), w\<lparr>w_n := Suc (Suc (Suc n))\<rparr>)"
    using GetTablesUpdateTime_run [of "w\<lparr>w_n := Suc (Suc n)\<rparr>"] q2(3) uk by (simp add: steady_def)
  show ?thesis
    unfolding rebuild_reads [OF v1 t v2] using assms(3) by (simp add: build_users_foldl)
qed

lemma updateUsers_holds:
  assumes "well_formed d" "steady d w" "\<not> isUpdateUsersRunning c" "coherent L c"
    and "tempTacacsTableUpdateTime c \<noteq> join_versions (version d)"
  shows "holds L d (fst (run_state (updateUsers L c) w))"
    and "tempTacacsTableUpdateTime (fst (run_state (updateUsers L c) w)) = join_versions (version d)"
proof -
  let ?c = "fst (run_state (updateUsers L c) w)"
  let ?us = "filter (\<lambda>u. tu_Status u = userStatusNormal) (t_user d)"
  have pl: "\<forall>n. plain (w_replica w n (w_db w))"
    using assms(1,2) by (simp add: steady_def well_formed_def)
  have c: "tacacsUserInfo ?c = foldl (\<lambda>m u. m(tu_User u \<mapsto> user_info L d u)) NewTypedSyncMap ?us"
    "tempTacacsTableUpdateTime ?c = join_versions (version d)"
    using steady_rebuild [OF assms(1,2), of "c\<lparr>isUpdateUsersRunning := True\<rparr>" L] assms(3,5)
    by (simp_all add: updateUsers_def split_beta updateTacacsUserInfoAndCache_def)
  have d: "distinct (map tu_User ?us)"
    using assms(1) by (simp add: well_formed_def distinct_map_filter)
  have "getTacacsUserInfo ?c user = Some ui \<longleftrightarrow>
      (\<exists>u\<in>set (t_user d). tu_User u = user \<and> tu_Status u = ''1'' \<and> ui = user_info L d u)" for user ui
    unfolding getTacacsUserInfo_def Get_def c(1) foldl_upd [OF d] NewTypedSyncMap_def lookup_iff [OF d]
    by (auto simp: userStatusNormal_def)
  then show "holds L d ?c"
    using coherent_updateUsers [OF assms(4) pl] by (simp add: holds_def)
  show "tempTacacsTableUpdateTime ?c = join_versions (version d)" by (rule c(2))
qed

subsection \<open>Decisions on the copy\<close>

lemma map_filter_set: "y \<in> set (List.map_filter f xs) \<longleftrightarrow> (\<exists>x\<in>set xs. f x = Some y)"
  by (induction xs) (auto simp: List.map_filter_def image_iff)

lemma cmd_matches_role_acl: "cmd_matches L cmd (role_acl L n rcs) = command_permitted L (rc_permitCmds rcs) cmd"
  by (auto simp: cmd_matches_def role_acl_def command_permitted_def list_ex_iff)

lemma ipNets_role_acl:
  "n \<in> set (ra_ipNets (role_acl L r rcs)) \<longleftrightarrow> (\<exists>s\<in>set (rc_permitServers rcs). GetNetworkType L s = (2, Some n))"
proof -
  have "(if fst (GetNetworkType L s) = 2 then snd (GetNetworkType L s) else None) = Some n \<longleftrightarrow>
      GetNetworkType L s = (2, Some n)" for s
    by (cases "GetNetworkType L s") auto
  then show ?thesis by (simp add: role_acl_def map_filter_set)
qed

lemma in_network_iff:
  "in_network L server s \<longleftrightarrow> (\<exists>ip n. ParseIP L server = Some ip \<and> GetNetworkType L s = (2, Some n) \<and> Contains n ip)"
  by (cases "GetNetworkType L s") (auto simp: in_network_def split: option.splits)

lemma server_permitted_role_acl:
  "server_permitted L (rc_permitServers rcs) server \<longleftrightarrow>
     server = [] \<or> server \<in> set (ra_ips (role_acl L r rcs)) \<or>
     (\<exists>ip. ParseIP L server = Some ip \<and> (\<exists>n\<in>set (ra_ipNets (role_acl L r rcs)). Contains n ip))"
proof -
  have "(\<exists>s\<in>set (rc_permitServers rcs). fst (GetNetworkType L s) = 1 \<and> s = server) \<longleftrightarrow>
      server \<in> set (ra_ips (role_acl L r rcs))"
    by (auto simp: role_acl_def)
  moreover have "(\<exists>s\<in>set (rc_permitServers rcs). in_network L server s) \<longleftrightarrow>
      (\<exists>ip. ParseIP L server = Some ip \<and> (\<exists>n\<in>set (ra_ipNets (role_acl L r rcs)). Contains n ip))"
    unfolding in_network_iff Bex_def ipNets_role_acl by blast
  ultimately show ?thesis unfolding server_permitted_def by blast
qed

lemma checkRoleMatch_role_acl:
  "checkRoleMatch L cmd server (role_acl L n rcs) \<noteq> [] \<longleftrightarrow>
     n \<noteq> [] \<and> command_permitted L (rc_permitCmds rcs) cmd \<and> server_permitted L (rc_permitServers rcs) server"
proof -
  have name: "ra_roleName (role_acl L n rcs) = n" by (simp add: role_acl_def)
  have srv: "(let serverIsPass = (server = [] \<or> list_ex (\<lambda>p. server = p) (ra_ips r)) in
      if \<not> serverIsPass \<and> length (ra_ipNets r) > 0 then
        (case ParseIP L server of None \<Rightarrow> serverIsPass | Some ip \<Rightarrow> list_ex (\<lambda>p. Contains p ip) (ra_ipNets r))
      else serverIsPass) \<longleftrightarrow>
      server = [] \<or> server \<in> set (ra_ips r) \<or>
      (\<exists>ip. ParseIP L server = Some ip \<and> (\<exists>n\<in>set (ra_ipNets r). Contains n ip))" for r
    by (cases "ParseIP L server") (auto simp: Let_def list_ex_iff)
  show ?thesis
    using srv [of "role_acl L n rcs"] server_permitted_role_acl [of L rcs server n]
    by (simp add: checkRoleMatch_def Let_def cmd_matches_role_acl name)
qed

lemma user_roles_set:
  assumes "well_formed d"
  shows "r \<in> set (user_roles L (role_info d) names) \<longleftrightarrow>
    (\<exists>rt\<in>set (t_role d). rt_Template rt \<in> set names \<and> r = role_acl L (rt_Template rt) (role_rcs d rt))"
proof -
  note d = role_names_distinct [OF assms]
  have "role_info d n = Some rcs \<longleftrightarrow> (\<exists>rt\<in>set (t_role d). rt_Template rt = n \<and> rcs = role_rcs d rt)" for n rcs
    using lookup_iff [OF d, where x = n and v = "role_rcs d" and y = rcs]
    by (auto simp: role_info_def option.map(2) split: option.splits)
  then have "map_option (role_acl L n) (role_info d n) = Some r \<longleftrightarrow>
      (\<exists>rt\<in>set (t_role d). rt_Template rt = n \<and> r = role_acl L n (role_rcs d rt))" for n
    unfolding map_option_eq_Some by (metis (no_types))
  then show ?thesis
    unfolding user_roles_def map_filter_set by auto
qed

lemma user_info_roles:
  "well_formed d \<Longrightarrow> r \<in> set (ui_role (user_info L d u)) \<longleftrightarrow>
    (\<exists>rt\<in>set (t_role d). has_role u rt \<and> r = role_acl L (rt_Template rt) (role_rcs d rt))"
  by (auto simp: user_info_def Let_def user_roles_set has_role_def)

lemma author_decision_holds:
  assumes "holds L d c" "well_formed d" "nl \<notin> set server"
  shows "fst (fst (author_decision L user cmd server c)) \<longleftrightarrow> authorized L d user cmd server"
proof (cases "getTacacsUserInfo c user")
  case None
  then have "\<not> (\<exists>u\<in>set (t_user d). tu_User u = user \<and> tu_Status u = ''1'')"
    using assms(1) unfolding holds_def by (metis option.distinct(1))
  then show ?thesis using None by (auto simp: author_decision_def authorized_def)
next
  case (Some ui)
  then obtain u where u: "u \<in> set (t_user d)" "tu_User u = user" "tu_Status u = ''1''" "ui = user_info L d u"
    using assms(1) unfolding holds_def by blast
  have uniq: "v = u" if "v \<in> set (t_user d)" "tu_User v = user" for v
    using assms(2) that u(1,2) unfolding well_formed_def by (metis distinct_map inj_onD)
  have co: "coherent L c" using assms(1) by (simp add: holds_def)
  have duty: "ui_isOnDuty ui \<longleftrightarrow> user \<in> set (t_on_duty d)" using u by (simp add: user_info_def Let_def)
  obtain isPass reason c' where r:
    "checkCmdAndServerInRole L cmd server (ui_rolesKey ui) (ui_role ui) c = ((isPass, reason), c')" by (metis prod.exhaust)
  have "isPass \<longleftrightarrow> (\<exists>r\<in>set (ui_role ui). checkRoleMatch L cmd server r \<noteq> [])"
    using checkCmd_transparent(1) [OF co Some assms(3) r] by (auto simp: matching_def)
  also have "\<dots> \<longleftrightarrow> (\<exists>rt\<in>set (t_role d). has_role u rt \<and> rt_Template rt \<noteq> [] \<and> role_permits L d rt cmd server)"
  proof -
    have ra: "r \<in> set (ui_role ui) \<longleftrightarrow>
        (\<exists>rt\<in>set (t_role d). has_role u rt \<and> r = role_acl L (rt_Template rt) (role_rcs d rt))" for r
      using user_info_roles [OF assms(2)] u(4) by blast
    have m: "checkRoleMatch L cmd server (role_acl L (rt_Template rt) (role_rcs d rt)) \<noteq> [] \<longleftrightarrow>
        rt_Template rt \<noteq> [] \<and> role_permits L d rt cmd server" for rt
      unfolding checkRoleMatch_role_acl role_permits_def role_rcs_def by simp
    show ?thesis unfolding Bex_def ra using m by blast
  qed
  finally have pass: "isPass \<longleftrightarrow> (\<exists>rt\<in>set (t_role d). has_role u rt \<and> rt_Template rt \<noteq> [] \<and> role_permits L d rt cmd server)" .
  have "authorized L d user cmd server \<longleftrightarrow> user \<in> set (t_on_duty d) \<or> isPass"
    unfolding authorized_def pass using u(1-3) uniq by blast
  then show ?thesis
    by (simp add: author_decision_def Some duty r)
qed

lemma authen_decision_holds:
  assumes "holds L d c" "well_formed d"
  shows "fst (fst (authen_decision L user password c)) \<longleftrightarrow> authenticated L d user password"
proof (cases "getTacacsUserInfo c user")
  case None
  then have "\<not> (\<exists>u\<in>set (t_user d). tu_User u = user \<and> tu_Status u = ''1'')"
    using assms(1) unfolding holds_def by (metis option.distinct(1))
  then show ?thesis using None by (auto simp: authen_decision_def authenticated_def)
next
  case (Some ui)
  then obtain u where u: "u \<in> set (t_user d)" "tu_User u = user" "tu_Status u = ''1''" "ui = user_info L d u"
    using assms(1) unfolding holds_def by blast
  have uniq: "v = u" if "v \<in> set (t_user d)" "tu_User v = user" for v
    using assms(2) that u(1,2) unfolding well_formed_def by (metis distinct_map inj_onD)
  have co: "coherent L c" using assms(1) by (simp add: holds_def)
  have f: "ui_isOnDuty ui \<longleftrightarrow> user \<in> set (t_on_duty d)" "ui_password ui = tu_Password u"
    using u by (simp_all add: user_info_def Let_def)
  have roles: "ui_role ui \<noteq> [] \<longleftrightarrow> (\<exists>rt\<in>set (t_role d). has_role u rt)"
    using user_info_roles [OF assms(2), of _ L u] u(4) unfolding ex_in_conv [symmetric] set_empty [symmetric] by blast
  obtain b c' where r: "checkUserPassword L password (ui_password ui) c = (b, c')" by fastforce
  have "b \<longleftrightarrow> CompareHash L (tu_Password u) password"
    using checkUserPassword_transparent(1) [OF co coherent_password [OF co Some] r] f by (simp add: CheckPasswordHash_def)
  moreover have "authenticated L d user password \<longleftrightarrow>
      CompareHash L (tu_Password u) password \<and> (user \<in> set (t_on_duty d) \<or> (\<exists>rt\<in>set (t_role d). has_role u rt))"
    unfolding authenticated_def using u(1-3) uniq by blast
  ultimately show ?thesis
    using roles by (auto simp: authen_decision_def Some r f(1))
qed

end
