(* ===== verification/AaaSystem.thy ===== *)
theory AaaSystem
  imports AaaSpec
begin

text \<open>
  A client process beside a database that other processes change: what its decisions mean after
  any history of changes, polls and requests, and what happens where the conditions of that
  theorem fail.
\<close>

subsection \<open>Histories\<close>

text \<open>
  The reads of a poll see a database that may move on from one read to the next; each that they
  see is well formed, and none of them fails.
\<close>

definition readable :: "world \<Rightarrow> bool" where
  "readable w = (follows w \<and> (\<forall>n. w_rfault w n = NoFault \<and> well_formed (w_replica w n (w_db w))))"

text \<open>The database that the first read of a poll sees.\<close>

definition seen :: "world \<Rightarrow> db" where
  "seen w = w_replica w (w_n w) (w_db w)"

text \<open>
  The database changes, in stamped changes; the client polls, on reads that are not from the
  future; and it resets its version or serves a request.
\<close>

inductive system :: "lib \<Rightarrow> db \<times> client \<Rightarrow> db \<times> client \<Rightarrow> bool" for L where
  sys_write: "stamped d d' \<Longrightarrow> system L (d, c) (d', c)"
| sys_poll: "readable w \<Longrightarrow> stamped (seen w) d \<Longrightarrow> system L (d, c) (d, client_step L c (EvPoll w))"
| sys_clear: "system L (d, c) (d, client_step L c EvClear)"
| sys_command: "nl \<notin> set server \<Longrightarrow> system L (d, c) (d, client_step L c (EvCheckCmd user cmd server))"
| sys_password: "system L (d, c) (d, client_step L c (EvCheckPassword user password))"

inductive_cases systemE: "system L (d, c) (d', c')"

subsection \<open>The invariant\<close>

text \<open>The copy is that of some earlier database, the one whose version the client remembers.\<close>

definition up_to_date :: "lib \<Rightarrow> db \<times> client \<Rightarrow> bool" where
  "up_to_date L s = (coherent L (snd s) \<and> \<not> isUpdateUsersRunning (snd s) \<and>
     (tempTacacsTableUpdateTime (snd s) = [] \<or>
      (\<exists>d. stamped d (fst s) \<and> holds L d (snd s) \<and> tempTacacsTableUpdateTime (snd s) = join_versions (version d))))"

lemma join_versions_nonempty: "join_versions vs \<noteq> []"
proof
  assume "join_versions vs = []"
  then have "length (join_versions vs) = 0" by simp
  then show False by (simp add: join_versions_def MetaKeys_def)
qed

lemma updateUsers_flag: "\<not> isUpdateUsersRunning c \<Longrightarrow> \<not> isUpdateUsersRunning (fst (run_state (updateUsers L c) w))"
  by (simp add: updateUsers_def split_beta)

lemma updateUsers_same:
  assumes "unique_keys d" "steady d w" "\<not> isUpdateUsersRunning c" "tempTacacsTableUpdateTime c = join_versions (version d)"
  shows "fst (run_state (updateUsers L c) w) = c"
  using GetTablesUpdateTime_run [of w] assms by (simp add: updateUsers_def rebuild_def steady_def split_beta)

lemma check_keeps:
  "tacacsUserInfo (snd (checkCmdAndServerInRole L cmd server k rs c)) = tacacsUserInfo c"
  "tempTacacsTableUpdateTime (snd (checkCmdAndServerInRole L cmd server k rs c)) = tempTacacsTableUpdateTime c"
  "isUpdateUsersRunning (snd (checkCmdAndServerInRole L cmd server k rs c)) = isUpdateUsersRunning c"
  "tacacsUserInfo (snd (checkUserPassword L password hash c)) = tacacsUserInfo c"
  "tempTacacsTableUpdateTime (snd (checkUserPassword L password hash c)) = tempTacacsTableUpdateTime c"
  "isUpdateUsersRunning (snd (checkUserPassword L password hash c)) = isUpdateUsersRunning c"
  by (auto simp: checkCmdAndServerInRole_def checkUserPassword_def Let_def split: option.split)

text \<open>An event that leaves the copy and its version alone.\<close>

lemma up_to_date_same_copy:
  assumes "up_to_date L (d, c)" "coherent L c'" "tacacsUserInfo c' = tacacsUserInfo c"
    and "tempTacacsTableUpdateTime c' = tempTacacsTableUpdateTime c" "isUpdateUsersRunning c' = isUpdateUsersRunning c"
  shows "up_to_date L (d, c')"
proof -
  have "holds L e c' = holds L e c" for e
    using assms(1-3) by (simp add: up_to_date_def holds_def getTacacsUserInfo_def)
  then show ?thesis using assms by (simp add: up_to_date_def)
qed

lemma up_to_date_poll:
  assumes "up_to_date L (d, c)" "readable w" "stamped (seen w) d"
  shows "up_to_date L (d, client_step L c (EvPoll w))"
proof -
  let ?c = "fst (run_state (updateUsers L c) w)"
  have co: "coherent L c" "\<not> isUpdateUsersRunning c" using assms(1) by (simp_all add: up_to_date_def)
  have nf: "\<forall>n. w_rfault w n = NoFault" and uk: "\<forall>n. unique_keys (w_replica w n (w_db w))"
    and wf: "well_formed (seen w)" and fo: "follows w"
    using assms(2) by (simp_all add: readable_def well_formed_def seen_def)
  have st: "steady (seen w) (frozen w)" using steady_frozen [OF nf] by (simp add: seen_def)
  consider "?c = c" | "?c = fst (run_state (updateUsers L c) (frozen w))"
    using snapshot_of_one_database_lemma [OF fo nf uk, of L c] by blast
  then show ?thesis
  proof cases
    case 1
    then show ?thesis using assms(1) by simp
  next
    case 2
    show ?thesis
    proof (cases "tempTacacsTableUpdateTime c = join_versions (version (seen w))")
      case True
      have "unique_keys (seen w)" using wf by (simp add: well_formed_def)
      from updateUsers_same [OF this st co(2) True] show ?thesis using 2 assms(1) by simp
    next
      case False
      note h = updateUsers_holds [OF wf st co(2,1) False]
      show ?thesis
        using h assms(3) 2 updateUsers_flag [OF co(2), of L "frozen w"] by (auto simp: up_to_date_def holds_def)
    qed
  qed
qed

lemma up_to_date_step: "system L s s' \<Longrightarrow> up_to_date L s \<Longrightarrow> up_to_date L s'"
proof (induction rule: system.induct)
  case (sys_write d d' c)
  then show ?case unfolding up_to_date_def by (auto intro: stamped_trans)
next
  case (sys_poll w d c)
  then show ?case by (simp only: up_to_date_poll)
next
  case (sys_clear d c)
  then show ?case by (simp add: up_to_date_def clearTempTacacsTableUpdateTime_def)
next
  case (sys_command server d c user cmd)
  have "coherent L (client_step L c (EvCheckCmd user cmd server))"
    using sys_command by (intro coherent_step) (simp_all add: up_to_date_def)
  then show ?case
    by (rule up_to_date_same_copy [OF sys_command(2)]) (auto simp: check_keeps split: option.split)
next
  case (sys_password d c user password)
  have "coherent L (client_step L c (EvCheckPassword user password))"
    using sys_password by (intro coherent_step) (simp_all add: up_to_date_def)
  then show ?case
    by (rule up_to_date_same_copy [OF sys_password]) (auto simp: check_keeps split: option.split)
qed

lemma up_to_date_init: "up_to_date L (d, init_client)"
  using coherent_init by (simp add: up_to_date_def init_client_def)

lemma up_to_date_reachable: "(system L)\<^sup>*\<^sup>* (d0, init_client) s \<Longrightarrow> up_to_date L s"
  by (induction rule: rtranclp_induct) (auto intro: up_to_date_init up_to_date_step)

text \<open>The specification looks at the watched tables only.\<close>

lemma user_info_same:
  assumes "same_tables d d'" "db_eq d' = db_eq d"
  shows "user_info L d = user_info L d'"
proof -
  have "commands_at d = commands_at d'" "servers_at d = servers_at d'"
    using assms by (auto simp: commands_at_def servers_at_def same_tables_def)
  then have "role_rcs d = role_rcs d'"
    by (intro ext) (simp add: role_rcs_def commands_of_def servers_of_def)
  then have "role_info d = role_info d'"
    using assms(1) by (intro ext) (simp add: role_info_def same_tables_def)
  then show ?thesis using assms(1) by (intro ext) (simp add: user_info_def same_tables_def)
qed

lemma holds_same:
  assumes "same_tables d d'" "db_eq d' = db_eq d"
  shows "holds L d c = holds L d' c"
  unfolding holds_def user_info_same [OF assms] using assms(1) by (simp add: same_tables_def)

lemma poll_holds:
  assumes "up_to_date L (d, c)" "quiet w" "w_db w = d" "well_formed d"
  shows "holds L d (client_step L c (EvPoll w))"
proof -
  have st: "steady d w" using steady_quiet [OF assms(2)] assms(3) by simp
  have co: "coherent L c" "\<not> isUpdateUsersRunning c" using assms(1) by (simp_all add: up_to_date_def)
  have uk: "unique_keys d" using assms(4) by (simp add: well_formed_def)
  show ?thesis
  proof (cases "tempTacacsTableUpdateTime c = join_versions (version d)")
    case False
    then show ?thesis using updateUsers_holds(1) [OF assms(4) st co(2,1) False] by simp
  next
    case True
    then obtain d1 where d1: "stamped d1 d" "holds L d1 c" "join_versions (version d1) = join_versions (version d)"
      using assms(1) join_versions_nonempty by (auto simp: up_to_date_def)
    have "same_tables d1 d" by (rule stamped_same_versions [OF d1(1,3)])
    moreover have "db_eq d = db_eq d1" using d1(1) by (simp add: stamped_def)
    ultimately have "holds L d c" using d1(2) holds_same by blast
    then show ?thesis using updateUsers_same [OF uk st co(2) True] by simp
  qed
qed

text \<open>
  C21. The decisions of a client implement the database.  Whatever changes, polls, resets and
  requests came before, one at a time and without failing reads (for these see C22 and C23) - polls
  that raced with changes or read from a replica that lags included - one more poll while the database holds still makes the two decisions those of the
  specification: a command is authorized exactly when the user is enabled and either on duty or
  in a role whose templates permit the command and the server, and a login succeeds exactly when
  the user is enabled, the password fits its hash, and the user is on duty or has a role.
\<close>

theorem decisions_refine_database:
  assumes "(system L)\<^sup>*\<^sup>* (d0, init_client) (d, c)" "quiet w" "w_db w = d" "well_formed d" "nl \<notin> set server"
  shows "fst (fst (author_decision L user cmd server (client_step L c (EvPoll w)))) = authorized L d user cmd server \<and>
    fst (fst (authen_decision L user password (client_step L c (EvPoll w)))) = authenticated L d user password"
proof -
  have h: "holds L d (client_step L c (EvPoll w))"
    by (rule poll_holds [OF up_to_date_reachable [OF assms(1)] assms(2-4)])
  show ?thesis using author_decision_holds [OF h assms(4,5)] authen_decision_holds [OF h assms(4)] by simp
qed

text \<open>An example: one user, whose one role permits one command on one server.\<close>

definition rbac_db :: db where
  "rbac_db = example_db\<lparr>
     t_role := [\<lparr>rt_ID = 1, rt_Template = ''ops'', rt_ServerTemplateList = ''srv'', rt_CommandTemplateList = ''cmds''\<rparr>],
     t_server := [\<lparr>st_ID = 1, st_Template = ''srv'', st_ServerTemplate = ''10.0.0.1''\<rparr>],
     t_command := [\<lparr>ct_ID = 1, ct_Template = ''cmds'', ct_CommandTemplate = ''show''\<rparr>]\<rparr>"

definition example_lib :: lib where
  "example_lib = \<lparr>re_compile = (\<lambda>_. True), re_match = (=),
     ParseIP = (\<lambda>s. if s = ''10.0.0.1'' then Some [10, 0, 0, 1] else None), ParseCIDR = (\<lambda>_. None),
     CompareHash = (=)\<rparr>"

lemma rbac_db_well_formed: "well_formed rbac_db"
  by (simp add: well_formed_def rbac_db_def example_db_def unique_keys_def plain_def example_user_def)

lemma rbac_authorized: "authorized example_lib rbac_db ''bob'' cmd ''10.0.0.1'' \<longleftrightarrow> cmd = [] \<or> cmd = ''show''"
proof -
  have c: "commands_of rbac_db ''cmds'' = [''show'']" and s: "servers_of rbac_db ''srv'' = [''10.0.0.1'']"
    by (simp_all add: commands_of_def commands_at_def servers_of_def servers_at_def rbac_db_def example_db_def TrimSpace_def
        is_space_def)
  have n: "GetNetworkType example_lib ''10.0.0.1'' = (1, None)"
    by (simp add: GetNetworkType_def TrimSpace_def is_space_def example_lib_def)
  have "role_permits example_lib rbac_db (hd (t_role rbac_db)) cmd ''10.0.0.1'' \<longleftrightarrow> cmd = [] \<or> cmd = ''show''"
    by (simp add: role_permits_def rbac_db_def c [unfolded rbac_db_def] s [unfolded rbac_db_def] server_permitted_def n
        command_permitted_def) (auto simp: example_lib_def)
  then show ?thesis
    by (simp add: authorized_def rbac_db_def example_db_def example_user_def has_role_def)
qed

lemma calm_quiet: "quiet (calm_world d)"
  by (simp add: quiet_def calm_world_def)

lemma calm_plain: "well_formed d \<Longrightarrow> plain_event (EvPoll (calm_world d))"
  by (simp add: calm_world_def well_formed_def)

lemma calm_poll_holds:
  assumes "well_formed d"
  shows "holds L d (client_step L init_client (EvPoll (calm_world d)))"
  by (rule poll_holds [OF up_to_date_init calm_quiet _ assms]) (simp add: calm_world_def)

lemma bob_held:
  "getTacacsUserInfo (client_step L init_client (EvPoll (calm_world rbac_db))) ''bob'' =
     Some (user_info L rbac_db (example_user ''bob''))"
  using calm_poll_holds [OF rbac_db_well_formed, of L]
  unfolding holds_def by (auto simp: rbac_db_def example_db_def example_user_def)

theorem decisions_refine_database_witness:
  "let c = client_step example_lib init_client (EvPoll (calm_world rbac_db))
   in fst (fst (author_decision example_lib ''bob'' ''show'' ''10.0.0.1'' c)) \<and>
      \<not> fst (fst (author_decision example_lib ''bob'' ''reload'' ''10.0.0.1'' c))"
proof -
  have q: "w_db (calm_world rbac_db) = rbac_db" by (simp add: calm_world_def)
  have s: "nl \<notin> set ''10.0.0.1''" by simp
  note t = decisions_refine_database [OF rtranclp.rtrancl_refl calm_quiet q rbac_db_well_formed s, of example_lib]
  show ?thesis using t [of "''bob''" "''show''"] t [of "''bob''" "''reload''"] by (simp add: Let_def rbac_authorized)
qed

theorem caches_transparent_witness:
  "let c = client_step example_lib init_client (EvPoll (calm_world rbac_db));
       ui = user_info example_lib rbac_db (example_user ''bob'');
       r = checkCmdAndServerInRole example_lib ''show'' ''10.0.0.1'' (ui_rolesKey ui) (ui_role ui) c
   in fst (fst r) \<longleftrightarrow> (\<exists>a\<in>set (ui_role ui). checkRoleMatch example_lib ''show'' ''10.0.0.1'' a \<noteq> [])"
proof -
  define c where "c = foldl (client_step example_lib) init_client [EvPoll (calm_world rbac_db)]"
  define ui where "ui = user_info example_lib rbac_db (example_user ''bob'')"
  have p: "\<forall>ev\<in>set [EvPoll (calm_world rbac_db)]. plain_event ev"
    using calm_plain [OF rbac_db_well_formed] by (simp only: list.set ball_simps simp_thms)
  have g: "getTacacsUserInfo c ''bob'' = Some ui" using bob_held by (simp add: c_def ui_def)
  have s: "nl \<notin> set ''10.0.0.1''" by simp
  obtain b m c' where r: "checkCmdAndServerInRole example_lib ''show'' ''10.0.0.1'' (ui_rolesKey ui) (ui_role ui) c = ((b, m), c')"
    by (metis prod.exhaust)
  have "c = client_step example_lib init_client (EvPoll (calm_world rbac_db))" by (simp add: c_def)
  with caches_transparent [OF p c_def g s r] r show ?thesis by (simp add: Let_def ui_def)
qed

theorem snapshot_of_one_database_witness:
  "fst (run_state (updateUsers example_lib init_client) (calm_world rbac_db)) =
     fst (run_state (updateUsers example_lib init_client) (frozen (calm_world rbac_db)))"
proof -
  let ?w = "calm_world rbac_db"
  have "follows ?w" "\<forall>n. w_rfault ?w n = NoFault" "\<forall>n. unique_keys (w_replica ?w n (w_db ?w))"
    using rbac_db_well_formed by (simp_all add: follows_def calm_world_def well_formed_def)
  from snapshot_of_one_database [OF this, of example_lib init_client]
  have "fst (run_state (updateUsers example_lib init_client) ?w) = init_client \<or> ?thesis" .
  moreover have "fst (run_state (updateUsers example_lib init_client) ?w) \<noteq> init_client"
    using bob_held [of example_lib] by (auto simp: init_client_def getTacacsUserInfo_def Get_def NewTypedSyncMap_def)
  ultimately show ?thesis by blast
qed

subsection \<open>Where the conditions fail\<close>

lemma run_query:
  "run_state (query sel) w = (rows_of (w_rfault w (w_n w)) (sel (w_replica w (w_n w) (w_db w))), w\<lparr>w_n := Suc (w_n w)\<rparr>)"
  by (simp add: query_def)

text \<open>The number of the statement with which a poll reads the users on duty.\<close>

definition duty_read :: "world \<Rightarrow> nat" where
  "duty_read w = w_n (snd (run_state
     (do { _ \<leftarrow> GetTablesUpdateTime; _ \<leftarrow> getAllRoleCmdsServers; GetTacacsUserInfos }) w))"

lemma off_duty_db [simp]:
  "version (d\<lparr>t_on_duty := us\<rparr>) = version d" "role_info (d\<lparr>t_on_duty := us\<rparr>) = role_info d"
  "well_formed (d\<lparr>t_on_duty := us\<rparr>) = well_formed d"
proof -
  have "servers_at (d\<lparr>t_on_duty := us\<rparr>) = servers_at d" "commands_at (d\<lparr>t_on_duty := us\<rparr>) = commands_at d"
    by (simp_all add: servers_at_def commands_at_def fun_eq_iff)
  then have "role_rcs (d\<lparr>t_on_duty := us\<rparr>) = role_rcs d"
    unfolding role_rcs_def [abs_def] servers_of_def commands_of_def by (simp only:)
  then show "role_info (d\<lparr>t_on_duty := us\<rparr>) = role_info d" unfolding role_info_def by simp
qed (simp_all add: version_def well_formed_def plain_def unique_keys_def fun_eq_iff)

lemma user_infos_read:
  "w_rfault w (w_n w) = NoFault \<Longrightarrow> run_state GetTacacsUserInfos w =
     ((t_user (w_replica w (w_n w) (w_db w)), None), w\<lparr>w_n := Suc (w_n w)\<rparr>)"
  by (simp add: GetTacacsUserInfos_def run_query)

text \<open>The reads of a poll whose read of the users on duty fails.\<close>

lemma duty_fails_reads:
  assumes "well_formed d" "\<forall>n. w_replica w n (w_db w) = d"
    and "\<forall>n. w_rfault w n = (if n = duty_read w then QueryErr e else NoFault)"
  obtains w2 w3 where "run_state GetTablesUpdateTime w = (Inr (join_versions (version d)), w\<lparr>w_n := Suc (w_n w)\<rparr>)"
    and "run_state table_reads_of (w\<lparr>w_n := Suc (w_n w)\<rparr>) = (((role_info d, None), (t_user d, None), []), w2)"
    and "run_state GetTablesUpdateTime w2 = (Inr (join_versions (version d)), w3)"
proof -
  let ?w1 = "w\<lparr>w_n := Suc (w_n w)\<rparr>" and ?w0 = "w\<lparr>w_n := Suc (w_n w), w_rfault := (\<lambda>_. NoFault)\<rparr>"
  have uk: "unique_keys d" using assms(1) by (simp add: well_formed_def)
  obtain v w1 where v: "run_state GetTablesUpdateTime w = (v, w1)" by fastforce
  then have w1: "w1 = ?w1"
    by (auto simp: GetTablesUpdateTime_def query_def)
  obtain a w2 where ga: "run_state getAllRoleCmdsServers ?w1 = (a, w2)" by fastforce
  obtain n where w2: "w2 = ?w1\<lparr>w_n := n\<rparr>" "Suc (w_n w) \<le> n"
    using reads_only_snd [OF reads_only_getAll ga] by auto
  have k: "duty_read w = Suc n"
    using v w1 ga w2 by (simp add: duty_read_def GetTacacsUserInfos_def query_def)
  have ok: "w_rfault w j = NoFault" if "j \<noteq> Suc n" for j using assms(3) that by (simp add: k)
  have v1: "run_state GetTablesUpdateTime w = (Inr (join_versions (version d)), ?w1)"
    using GetTablesUpdateTime_run [of w] assms(2) uk ok w2(2) by simp
  have same: "\<forall>j. w_n ?w1 \<le> j \<longrightarrow> j < w_n (snd (run_state getAllRoleCmdsServers ?w1)) \<longrightarrow> seen_same j ?w1 ?w0"
    using ok assms(2) by (simp add: ga w2 seen_same_def same_tables_def)
  have st: "steady d ?w0" using assms(2) by (simp add: steady_def)
  obtain m where a0: "run_state getAllRoleCmdsServers ?w0 = ((role_info d, None), ?w0\<lparr>w_n := m\<rparr>)"
    using steady_getAll [OF assms(1) st] by blast
  have "w_n ?w1 = w_n ?w0" by simp
  then have "fst (run_state getAllRoleCmdsServers ?w1) = fst (run_state getAllRoleCmdsServers ?w0)"
    using reads_tables_getAll same unfolding reads_tables_def by blast
  then have "a = (role_info d, None)" by (simp add: ga a0)
  then have t: "run_state table_reads_of ?w1 =
      (((role_info d, None), (t_user d, None), []), w\<lparr>w_n := Suc (Suc n)\<rparr>)"
    using ga w2 ok assms(2,3) k
    by (simp add: table_reads_of_def user_infos_read GetTacacsOnDutyUser_def run_query)
  have "run_state GetTablesUpdateTime (w\<lparr>w_n := Suc (Suc n)\<rparr>) =
      (Inr (join_versions (version d)), w\<lparr>w_n := Suc (Suc (Suc n))\<rparr>)"
    using GetTablesUpdateTime_run [of "w\<lparr>w_n := Suc (Suc n)\<rparr>"] assms(2) uk ok by simp
  with v1 t show thesis by (rule that)
qed

text \<open>
  C22. A read that fails may be acknowledged.  The error of the read of the users on duty is
  dropped by \<open>GetTacacsOnDutyUser\<close>.  For any well-formed database and any state of a client whose
  caches are coherent, that is not polling and does not hold the version yet: a poll in which the query for the users on duty fails, and no other read,
  publishes the copy that belongs to the database with nobody on duty, in which no user has the
  rights of the duty list, and remembers the version of the real one; so every later poll of
  the same database keeps that copy, until the reset after five minutes.  The comment in
  \<open>updateUsers\<close> says that a failed read makes the next poll try again.
\<close>

theorem partial_snapshot_acknowledged:
  assumes "well_formed d" "\<forall>n. w_replica w n (w_db w) = d"
    and "\<forall>n. w_rfault w n = (if n = duty_read w then QueryErr e else NoFault)"
    and "coherent L c" "\<not> isUpdateUsersRunning c" "tempTacacsTableUpdateTime c \<noteq> join_versions (version d)"
    and "c' = fst (run_state (updateUsers L c) w)"
  shows "holds L (d\<lparr>t_on_duty := []\<rparr>) c' \<and> tempTacacsTableUpdateTime c' = join_versions (version d) \<and>
    (\<forall>u\<in>set (t_user d). tu_Status u = ''1'' \<longrightarrow> (\<exists>ui. getTacacsUserInfo c' (tu_User u) = Some ui \<and> \<not> ui_isOnDuty ui)) \<and>
    (\<forall>w'. quiet w' \<and> w_db w' = d \<longrightarrow> fst (run_state (updateUsers L c') w') = c')"
proof -
  let ?d = "d\<lparr>t_on_duty := []\<rparr>" and ?v = "join_versions (version d)"
  let ?w = "w\<lparr>w_replica := (\<lambda>_ _. ?d), w_rfault := (\<lambda>_. NoFault)\<rparr>"
  have uk: "unique_keys d" using assms(1) by (simp add: well_formed_def)
  have wf: "well_formed ?d" and st: "steady ?d ?w" using assms(1) by (simp_all add: steady_def)
  obtain w2 w3 where r: "run_state GetTablesUpdateTime w = (Inr ?v, w\<lparr>w_n := Suc (w_n w)\<rparr>)"
      "run_state table_reads_of (w\<lparr>w_n := Suc (w_n w)\<rparr>) = (((role_info d, None), (t_user d, None), []), w2)"
      "run_state GetTablesUpdateTime w2 = (Inr ?v, w3)"
    by (rule duty_fails_reads [OF assms(1-3)])
  have "fst (run_state (rebuild L x) w) = fst (run_state (rebuild L x) ?w)"
    if "tempTacacsTableUpdateTime x \<noteq> ?v" for x
    unfolding rebuild_reads [OF r]
    using steady_rebuild [OF wf st, of x L] that build_users_foldl [of L ?d "t_user d"] by simp
  then have "c' = fst (run_state (updateUsers L c) ?w)"
    using assms(5,6) unfolding assms(7) by (simp add: updateUsers_def split_beta)
  then have h: "holds L ?d c'" and v: "tempTacacsTableUpdateTime c' = ?v"
    using updateUsers_holds [OF wf st assms(5,4)] assms(6) by simp_all
  have f: "\<not> isUpdateUsersRunning c'" unfolding assms(7) by (rule updateUsers_flag [OF assms(5)])
  have "\<exists>ui. getTacacsUserInfo c' (tu_User u) = Some ui \<and> \<not> ui_isOnDuty ui"
    if "u \<in> set (t_user d)" "tu_Status u = ''1''" for u
    using h that by (auto simp: holds_def user_info_def Let_def intro!: exI [of _ "user_info L ?d u"])
  moreover have "fst (run_state (updateUsers L c') w') = c'" if "quiet w' \<and> w_db w' = d" for w'
    using updateUsers_same [OF uk _ f v] steady_quiet that by blast
  ultimately show ?thesis using h v by blast
qed

text \<open>
  C23. A request that overtakes an update may poison the new cache.  \<open>updateTacacsUserInfoAndCache\<close>
  stores the copy first and empties the caches after it, and a request that has read its user
  before that writes its decision, made on the old roles, into the new cache: the next request of
  a user whose roles have the same names is answered from it, although no role of the new copy
  permits the command.
\<close>

theorem overtaken_request_poisons_cache:
  assumes "m user = Some new"
    and "ui_rolesKey old = ui_rolesKey new" "\<not> ui_isOnDuty new" "ui_role new \<noteq> []"
    and "\<exists>r\<in>set (ui_role old). checkRoleMatch L cmd server r \<noteq> []"
    and "\<forall>r\<in>set (ui_role new). checkRoleMatch L cmd server r = []"
    and "c1 = updateTacacsUserInfoAndCache m c"
    and "c2 = snd (checkCmdAndServerInRole L cmd server (ui_rolesKey old) (ui_role old) c1)"
  shows "\<not> fst (fst (author_decision L user cmd server c1)) \<and> fst (fst (author_decision L user cmd server c2))"
proof -
  let ?k = "cmd_key cmd server (ui_rolesKey new)"
  have g: "getTacacsUserInfo c1 user = Some new" "cmdServerCheckCache c1 = Map.empty"
    using assms(1,7) by (simp_all add: updateTacacsUserInfoAndCache_def getTacacsUserInfo_def Get_def NewTypedSyncMap_def)
  have no: "\<not> cr_isPass (first_match L cmd server (ui_role new))"
    using assms(6) by (simp add: first_match_matching(1) matching_def)
  have yes: "cr_isPass (first_match L cmd server (ui_role old))"
    using assms(5) by (auto simp: first_match_matching(1) matching_def)
  have ne: "ui_role old \<noteq> []" using assms(5) by auto
  have c2: "c2 = c1\<lparr>cmdServerCheckCache := [?k \<mapsto> first_match L cmd server (ui_role old)]\<rparr>"
    using ne unfolding assms(8) by (simp add: checkCmdAndServerInRole_def g(2) Get_def Set_def assms(2) Let_def)
  have "getTacacsUserInfo c2 user = Some new" using g(1) by (simp add: c2 getTacacsUserInfo_def)
  then show ?thesis
    using g no yes assms(3,4) by (simp add: author_decision_def checkCmdAndServerInRole_def Get_def Let_def c2 split_beta)
qed

text \<open>The example database, with \<open>bob\<close> on duty; his role has templates, so the read is the seventh.\<close>

definition duty_read_fails :: "db \<Rightarrow> world" where
  "duty_read_fails d = (calm_world d)\<lparr>w_rfault := (\<lambda>n. if n = 6 then QueryErr (GoError ''timeout'') else NoFault)\<rparr>"

theorem partial_snapshot_acknowledged_witness:
  "let d = rbac_db\<lparr>t_on_duty := [''bob'']\<rparr>; c = fst (run_state (updateUsers example_lib init_client) (duty_read_fails d))
   in \<not> fst (fst (author_decision example_lib ''bob'' ''reload'' ''10.0.0.1'' c)) \<and>
      authorized example_lib d ''bob'' ''reload'' ''10.0.0.1'' \<and>
      fst (run_state (updateUsers example_lib c) (calm_world d)) = c"
proof -
  define d where "d = rbac_db\<lparr>t_on_duty := [''bob'']\<rparr>"
  define w where "w = duty_read_fails d"
  define c where "c = fst (run_state (updateUsers example_lib init_client) w)"
  have wf: "well_formed d" using rbac_db_well_formed by (simp add: d_def)
  have reads: "w_replica w n d' = d'" "w_db w = d" "w_n w = 0"
      "w_rfault w n = (if n = 6 then QueryErr (GoError ''timeout'') else NoFault)" for n d'
    by (simp_all add: w_def duty_read_fails_def calm_world_def)
  have k: "duty_read w = 6"
    by (simp add: duty_read_def GetTablesUpdateTime_def getAllRoleCmdsServers_def GetTacacsRoleTemplates_def
        GetTacacsUserInfos_def GetTacacsRoleTemplateByTemplate_def GetTacacsServerTemplatesByTemplate_def
        GetTacacsCommandTemplatesByTemplate_def run_query reads rows_or_nil_def d_def rbac_db_def example_db_def
        TrimSpace_def is_space_def)
  have h: "\<forall>n. w_replica w n (w_db w) = d" "\<forall>n. w_rfault w n = (if n = duty_read w then QueryErr (GoError ''timeout'') else NoFault)"
    by (simp_all add: reads k)
  have i: "coherent example_lib init_client" "\<not> isUpdateUsersRunning init_client"
      "tempTacacsTableUpdateTime init_client \<noteq> join_versions (version d)"
    using join_versions_nonempty [of "version d"] by (simp_all add: coherent_init) (simp_all add: init_client_def)
  note t = partial_snapshot_acknowledged [OF wf h i c_def]
  have s: "nl \<notin> set ''10.0.0.1''" by simp
  have off: "d\<lparr>t_on_duty := []\<rparr> = rbac_db" by (simp add: d_def rbac_db_def example_db_def)
  have "\<not> fst (fst (author_decision example_lib ''bob'' ''reload'' ''10.0.0.1'' c))"
    using author_decision_holds [OF conjunct1 [OF t] _ s, of "''bob''" "''reload''"] rbac_db_well_formed
    by (simp add: off rbac_authorized)
  moreover have "authorized example_lib d ''bob'' ''reload'' ''10.0.0.1''"
    by (simp add: authorized_def d_def rbac_db_def example_db_def example_user_def)
  moreover have "fst (run_state (updateUsers example_lib c) (calm_world d)) = c"
    using t calm_quiet [of d] by (simp add: calm_world_def)
  ultimately show ?thesis unfolding Let_def d_def [symmetric] w_def [symmetric] c_def [symmetric] by blast
qed

definition acl_permitting :: "string \<Rightarrow> UserInfo" where
  "acl_permitting cmd = \<lparr>ui_isOnDuty = False,
     ui_role = [\<lparr>ra_roleName = ''ops'', ra_permitCmds = [cmd], ra_ips = [], ra_ipNets = []\<rparr>],
     ui_rolesKey = ''ops'', ui_password = ''h'', ui_args = []\<rparr>"

theorem overtaken_request_poisons_cache_witness:
  "let old = acl_permitting ''reload''; new = acl_permitting ''show'';
       c1 = updateTacacsUserInfoAndCache [''bob'' \<mapsto> new] init_client;
       c2 = snd (checkCmdAndServerInRole example_lib ''reload'' [] (ui_rolesKey old) (ui_role old) c1)
   in \<not> fst (fst (author_decision example_lib ''bob'' ''reload'' [] c1)) \<and>
      fst (fst (author_decision example_lib ''bob'' ''reload'' [] c2))"
  unfolding Let_def
  by (rule overtaken_request_poisons_cache [where new = "acl_permitting ''show''" and old = "acl_permitting ''reload''",
        OF _ _ _ _ _ _ refl refl])
    (simp_all add: acl_permitting_def checkRoleMatch_def cmd_matches_def example_lib_def)

end
