(* ===== verification/Approval.thy ===== *)
theory Approval
  imports DbTracking
begin

text \<open>
  \<open>pkg/server/approvalSystem\<close>: the daemon that closes approvals which nobody decided within a day,
  and granted ones whose time is over.  A card that the daemon sends is a value of its output;
  whether the sending succeeds is only logged.
\<close>

subsection \<open>The daemon\<close>

definition ExpiredShutdown :: int where "ExpiredShutdown = 6"
definition ApprovalAll :: int where "ApprovalAll = 5"
definition ApprovalPass :: int where "ApprovalPass = 4"
definition ApprovalUnderReview :: int where "ApprovalUnderReview = 3"
definition ApprovalFailed :: int where "ApprovalFailed = 2"
definition TimeoutShutdown :: int where "TimeoutShutdown = 1"
definition ManualShutdown :: int where "ManualShutdown = 0"
definition approvalTimeout :: int where "approvalTimeout = 86400"

lemmas approval_status = ExpiredShutdown_def ApprovalAll_def ApprovalPass_def ApprovalUnderReview_def
  ApprovalFailed_def TimeoutShutdown_def ManualShutdown_def

text \<open>Seconds as nanoseconds.\<close>

abbreviation (input) secs :: "int \<Rightarrow> int" where
  "secs s \<equiv> s * 1000000000"

text \<open>A card for a mission: the user it goes to, the mission and the kind of the card.\<close>

type_synonym card = "string \<times> TacacsApproval \<times> string"

text \<open>
  The loop that both checks share: \<open>since\<close> and \<open>limit\<close> say when a mission is due, \<open>status\<close> and
  \<open>kind\<close> what becomes of it.  An error of the update is ignored.
\<close>

fun close_loop :: "(TacacsApproval \<Rightarrow> int) \<Rightarrow> int \<Rightarrow> int \<Rightarrow> string \<Rightarrow> TacacsApproval list \<Rightarrow> card list io" where
  "close_loop since limit status kind [] = ret []"
| "close_loop since limit status kind (m # ms) = do {
     now \<leftarrow> time_now;
     cards \<leftarrow> (if now - since m > secs limit then do {
                 _ \<leftarrow> UpdateTacacsApprovalStatus (tap_ID m) status;
                 ret [(tap_User m, m, kind)]
               } else ret []);
     cards' \<leftarrow> close_loop since limit status kind ms;
     ret (cards @ cards')
   }"

definition checkCreateTimeTimeout :: "card list io" where
  "checkCreateTimeTimeout = do {
     (missions, err) \<leftarrow> GetTacacsApproval ApprovalUnderReview;
     if err \<noteq> None then ret []
     else close_loop tap_CreateTime approvalTimeout TimeoutShutdown ''timeout'' missions
   }"

definition checkPermissionTimeout :: "card list io" where
  "checkPermissionTimeout = do {
     (missions, err) \<leftarrow> GetTacacsApproval ApprovalPass;
     if err \<noteq> None then ret []
     else close_loop tap_EndTime 1 ExpiredShutdown ''expired'' missions
   }"

text \<open>\<open>Start\<close> and \<open>Stop\<close> set \<open>run\<close>; each of the two goroutines runs its check once a minute.\<close>

record ApprovalSystem = as_run :: bool

definition NewApprovalSystem :: ApprovalSystem where "NewApprovalSystem = \<lparr>as_run = False\<rparr>"
definition as_Start :: "ApprovalSystem \<Rightarrow> ApprovalSystem" where "as_Start s = s\<lparr>as_run := True\<rparr>"
definition as_Stop :: "ApprovalSystem \<Rightarrow> ApprovalSystem" where "as_Stop s = s\<lparr>as_run := False\<rparr>"

definition running_create :: "ApprovalSystem \<Rightarrow> card list io" where
  "running_create s = (if as_run s then checkCreateTimeTimeout else ret [])"

definition running_permission :: "ApprovalSystem \<Rightarrow> card list io" where
  "running_permission s = (if as_run s then checkPermissionTimeout else ret [])"

subsection \<open>One decision\<close>

text \<open>No row with this id waits for a decision.\<close>

definition decided :: "int \<Rightarrow> db \<Rightarrow> bool" where
  "decided i d = (\<forall>r\<in>set (t_approval d). ar_id r = i \<longrightarrow> ar_status r \<noteq> 3)"

text \<open>Several administrators decide on one approval, one after the other.\<close>

fun approve_all :: "int \<Rightarrow> (int \<times> string) list \<Rightarrow> int result list io" where
  "approve_all i [] = ret []"
| "approve_all i ((status, approver) # as) = do {
     r \<leftarrow> ApproveWithLock i status approver;
     rs \<leftarrow> approve_all i as;
     ret (r # rs)
   }"

definition won :: "int result \<Rightarrow> bool" where
  "won r = (case r of Inl e \<Rightarrow> False | Inr k \<Rightarrow> k > 0)"

lemma decided_touch [simp]: "decided i (touch k n d) = decided i d"
  by (simp add: decided_def touch_def)

lemma approve_stmt_run:
  assumes "approve_stmt i s a t d = Inr (d', k, j)"
  shows "t_approval d' = set_where (\<lambda>r. ar_id r = i \<and> ar_status r = 3)
      (\<lambda>r. r\<lparr>ar_status := s, ar_approver := Some a, ar_approve_time := Some (datetime t)\<rparr>) (t_approval d)"
    and "k \<le> length (filter (\<lambda>r. ar_id r = i \<and> ar_status r = 3) (t_approval d))"
proof -
  let ?f = "\<lambda>r :: approval_row. r\<lparr>ar_status := s, ar_approver := Some a, ar_approve_time := Some (datetime t)\<rparr>"
  let ?hit = "filter (\<lambda>r. ar_id r = i \<and> ar_status r = 3) (t_approval d)"
  have "sql_update MetaKeyApproval t_approval t_approval_update (\<lambda>_ r. ar_id r = i \<and> ar_status r = 3) ?f d = Inr (d', k, j)"
    using assms unfolding approve_stmt_def .
  note run = sql_update_run [OF this]
  have k: "k = length (filter (\<lambda>r. ?f r \<noteq> r) ?hit)" by (rule run(2))
  show "t_approval d' = set_where (\<lambda>r. ar_id r = i \<and> ar_status r = 3) ?f (t_approval d)"
    unfolding run(1) by (simp add: touch_def)
  show "k \<le> length ?hit" unfolding k by (rule length_filter_le)
qed

lemma approve_stmt_decides:
  assumes "approve_stmt i s a t d = Inr (d', k, j)" "s \<noteq> 3"
  shows "decided i d'" "decided i d \<Longrightarrow> k = 0"
proof -
  show "decided i d'"
    unfolding decided_def approve_stmt_run(1) [OF assms(1)] set_where_ball using assms(2) by simp
  assume "decided i d"
  then have "filter (\<lambda>r. ar_id r = i \<and> ar_status r = 3) (t_approval d) = []"
    by (auto simp: decided_def filter_empty_conv)
  then show "k = 0" using approve_stmt_run(2) [OF assms(1)] by simp
qed

lemma BumpMetaVersion_keeps:
  assumes "\<And>n d. P d \<Longrightarrow> P (w_interf w n d)" "\<And>d k. P (d\<lparr>t_meta := k\<rparr>) = P d" "P (w_db w)"
  shows "P (w_db (snd (run_state (BumpMetaVersion key) w))) \<and>
    w_interf (snd (run_state (BumpMetaVersion key) w)) = w_interf w"
  using assms by (auto simp: BumpMetaVersion_def exec_def bump_stmt_def Let_def split: exec_fault.split option.splits)

lemma ApproveWithLock_step:
  assumes "\<And>n d. decided i d \<Longrightarrow> decided i (w_interf w n d)" "s \<noteq> 3"
    and "run_state (ApproveWithLock i s a) w = (r, w')"
  shows "w_interf w' = w_interf w" "won r \<or> decided i (w_db w) \<Longrightarrow> decided i (w_db w')"
    "decided i (w_db w) \<Longrightarrow> \<not> won r"
proof -
  obtain x w1 where e: "run_state (exec (approve_stmt i s a (w_clock w (w_n w)))) w = (x, w1)" by fastforce
  have i1: "w_interf w1 = w_interf w"
    using e by (auto simp: exec_def Let_def split: exec_fault.splits sum.splits)
  have d1: "decided i (w_db w1)" if "(\<exists>k j. x = Inr (k, j)) \<or> decided i (w_db w)"
    using e that assms(1,2)
    by (auto simp: exec_def Let_def split: exec_fault.splits sum.splits dest: approve_stmt_decides(1))
  have k: "k = 0" if "x = Inr (k, j)" "decided i (w_db w)" for k j
    using e that assms(1,2)
    by (auto simp: exec_def Let_def split: exec_fault.splits sum.splits dest: approve_stmt_decides(2))
  have b: "decided i (w_db w1) \<Longrightarrow> decided i (w_db (snd (run_state (BumpMetaVersion MetaKeyApproval) w1)))"
      "decided i (w_db w1) \<Longrightarrow> w_interf (snd (run_state (BumpMetaVersion MetaKeyApproval) w1)) = w_interf w1"
    using BumpMetaVersion_keeps [of "decided i" w1 MetaKeyApproval] assms(1) i1
    by (simp_all add: decided_def)
  have run: "run_state (ApproveWithLock i s a) w = (case x of Inl e \<Rightarrow> (Inl e, w1)
      | Inr (k, _) \<Rightarrow> (Inr (int k), if k > 0 then snd (run_state (BumpMetaVersion MetaKeyApproval) w1) else w1))"
    by (cases x) (auto simp: ApproveWithLock_def e split_beta)
  show "w_interf w' = w_interf w"
    using run assms(3) b(2) d1 i1 by (cases x) (auto split: if_splits)
  show "decided i (w_db w')" if "won r \<or> decided i (w_db w)"
    using run assms(3) b(1) d1 that by (cases x) (auto simp: won_def split: if_splits)
  show "\<not> won r" if "decided i (w_db w)"
    using run assms(3) k that by (cases x) (auto simp: won_def split: if_splits)
qed

lemma approve_all_decided:
  assumes "\<And>n d. decided i d \<Longrightarrow> decided i (w_interf w n d)" "\<forall>a\<in>set as. fst a \<noteq> 3" "decided i (w_db w)"
  shows "filter won (fst (run_state (approve_all i as) w)) = []"
  using assms
proof (induction as arbitrary: w)
  case (Cons a as)
  obtain s n where a: "a = (s, n)" by (cases a)
  obtain r w1 where 1: "run_state (ApproveWithLock i s n) w = (r, w1)" by fastforce
  note step = ApproveWithLock_step [OF Cons(2) _ 1]
  have "filter won (fst (run_state (approve_all i as) w1)) = []"
    by (rule Cons.IH) (use step Cons(2-) a in auto)
  then show ?case
    using step(3) Cons(3,4) by (simp add: a 1 split_beta)
qed simp

text \<open>
  C16. One decision for an approval.  Whatever several administrators do to one approval one after
  the other, with statements that fail or lose their reply and with other writers in between (who
  do not reopen a decided approval), at most one \<open>ApproveWithLock\<close> reports that it has changed the
  approval, so at most one of them sends out a result.
\<close>

theorem approve_at_most_once:
  assumes "\<forall>n d. decided i d \<longrightarrow> decided i (w_interf w n d)" "\<forall>a\<in>set as. fst a \<noteq> 3"
  shows "length (filter won (fst (run_state (approve_all i as) w))) \<le> 1"
  using assms
proof (induction as arbitrary: w)
  case (Cons a as)
  obtain s n where a: "a = (s, n)" by (cases a)
  obtain r w1 where 1: "run_state (ApproveWithLock i s n) w = (r, w1)" by fastforce
  have "s \<noteq> 3" using Cons(3) a by simp
  note step = ApproveWithLock_step [OF _ this 1]
  show ?case
  proof (cases "won r")
    case True
    have "filter won (fst (run_state (approve_all i as) w1)) = []"
      by (rule approve_all_decided) (use step True Cons(2,3) in auto)
    then show ?thesis by (simp add: a 1 split_beta)
  next
    case False
    have "length (filter won (fst (run_state (approve_all i as) w1))) \<le> 1"
      by (rule Cons.IH) (use step Cons(2,3) in auto)
    then show ?thesis using False by (simp add: a 1 split_beta)
  qed
qed simp

subsection \<open>What the checks close\<close>

lemma quiet_BumpMetaVersion:
  assumes "quiet w"
  shows "\<exists>n m. run_state (BumpMetaVersion key) w = ((), w\<lparr>w_n := n, w_db := w_db w\<lparr>t_meta := m\<rparr>\<rparr>)"
proof (cases "w_conf w = Some False")
  case True
  have "w_DbWrite w" using assms by (simp add: quiet_def)
  then show ?thesis using True by (auto simp: BumpMetaVersion_def quiet_exec [OF assms] bump_stmt_def)
next
  case False
  have "w = w\<lparr>w_n := w_n w, w_db := w_db w\<lparr>t_meta := t_meta (w_db w)\<rparr>\<rparr>" by simp
  moreover have "run_state (BumpMetaVersion key) w = ((), w)"
    using False by (auto simp: BumpMetaVersion_def split: option.splits)
  ultimately show ?thesis by metis
qed

lemma quiet_UpdateTacacsApprovalStatus:
  assumes "quiet w"
  shows "\<exists>n d'. run_state (UpdateTacacsApprovalStatus i s) w = (None, w\<lparr>w_n := n, w_db := d'\<rparr>) \<and>
    t_approval d' = set_where (\<lambda>r. ar_id r = i) (\<lambda>r. r\<lparr>ar_status := s\<rparr>) (t_approval (w_db w))"
proof -
  obtain d' k j where st: "status_stmt i s (w_db w) = Inr (d', k, j)"
    by (auto simp: status_stmt_def sql_update_def Let_def)
  have d': "t_approval d' = set_where (\<lambda>r. ar_id r = i) (\<lambda>r. r\<lparr>ar_status := s\<rparr>) (t_approval (w_db w))"
    using sql_update_run(1) [OF st [unfolded status_stmt_def]] by (simp add: touch_def)
  have "quiet (w\<lparr>w_n := Suc (w_n w), w_db := d'\<rparr>)" using assms by simp
  from quiet_BumpMetaVersion [OF this, of MetaKeyApproval] obtain n m
    where "run_state (BumpMetaVersion MetaKeyApproval) (w\<lparr>w_n := Suc (w_n w), w_db := d'\<rparr>) =
      ((), w\<lparr>w_n := n, w_db := d'\<lparr>t_meta := m\<rparr>\<rparr>)" by auto
  then show ?thesis
    using d' by (intro exI [of _ n] exI [of _ "d'\<lparr>t_meta := m\<rparr>"])
      (simp add: UpdateTacacsApprovalStatus_def quiet_exec [OF assms] st bump_on_success_def)
qed

definition due :: "(TacacsApproval \<Rightarrow> int) \<Rightarrow> int \<Rightarrow> int \<Rightarrow> TacacsApproval list \<Rightarrow> TacacsApproval list" where
  "due since limit now = filter (\<lambda>m. now - since m > secs limit)"

lemma set_where_twice:
  assumes "\<And>r. Q (f r) = Q r" "\<And>r. f (f r) = f r"
  shows "set_where Q f (set_where P f rs) = set_where (\<lambda>r. P r \<or> Q r) f rs"
  using assms by (simp add: set_where_def)

lemma quiet_close_loop:
  assumes "quiet w" "\<And>n. w_clock w n = now"
  shows "\<exists>n d'. run_state (close_loop since limit s kind ms) w =
      (map (\<lambda>m. (tap_User m, m, kind)) (due since limit now ms), w\<lparr>w_n := n, w_db := d'\<rparr>) \<and>
    t_approval d' = set_where (\<lambda>r. ar_id r \<in> tap_ID ` set (due since limit now ms)) (\<lambda>r. r\<lparr>ar_status := s\<rparr>)
      (t_approval (w_db w))"
  using assms
proof (induction ms arbitrary: w)
  case Nil
  then show ?case
    by (auto simp: due_def set_where_def intro!: exI [of _ "w_n w"] exI [of _ "w_db w"])
next
  case (Cons m ms)
  let ?f = "\<lambda>r :: approval_row. r\<lparr>ar_status := s\<rparr>"
  show ?case
  proof (cases "now - since m > secs limit")
    case True
    obtain n1 d1 where 1: "run_state (UpdateTacacsApprovalStatus (tap_ID m) s) w = (None, w\<lparr>w_n := n1, w_db := d1\<rparr>)"
      and d1: "t_approval d1 = set_where (\<lambda>r. ar_id r = tap_ID m) ?f (t_approval (w_db w))"
      using quiet_UpdateTacacsApprovalStatus [OF Cons(2)] by blast
    obtain n2 d2 where 2: "run_state (close_loop since limit s kind ms) (w\<lparr>w_n := n1, w_db := d1\<rparr>) =
        (map (\<lambda>m. (tap_User m, m, kind)) (due since limit now ms), w\<lparr>w_n := n2, w_db := d2\<rparr>)"
      and d2: "t_approval d2 = set_where (\<lambda>r. ar_id r \<in> tap_ID ` set (due since limit now ms)) ?f (t_approval d1)"
      using Cons.IH [of "w\<lparr>w_n := n1, w_db := d1\<rparr>"] Cons(2,3) by auto
    have "t_approval d2 = set_where (\<lambda>r. ar_id r \<in> tap_ID ` set (due since limit now (m # ms))) ?f (t_approval (w_db w))"
      using True unfolding d2 d1 by (subst set_where_twice) (auto simp: due_def)
    then show ?thesis
      using True 1 2 Cons(3) by (auto simp: due_def)
  next
    case False
    then show ?thesis
      using Cons.IH [OF Cons(2,3)] Cons(3) by (auto simp: due_def)
  qed
qed

lemma approvals_loop_map_Inr [simp]:
  "approvals_loop (map Inr rs) acc = (acc @ map (\<lambda>r. projr (scanApproval (Inr r))) rs, None)"
  by (induction rs arbitrary: acc) (auto simp: scanApproval_def)

lemma scanApproval_fields [simp]:
  "tap_ID (projr (scanApproval (Inr r))) = ar_id r" "tap_CreateTime (projr (scanApproval (Inr r))) = ar_create_time r"
  "tap_EndTime (projr (scanApproval (Inr r))) = ar_end_time r" "tap_User (projr (scanApproval (Inr r))) = ar_user r"
  "tap_Status (projr (scanApproval (Inr r))) = ar_status r"
  "tap_ApprovalPermissions (projr (scanApproval (Inr r))) = ar_approval_permissions r"
  "tap_StartTime (projr (scanApproval (Inr r))) = ar_start_time r"
  by (simp_all add: scanApproval_def)

lemma quiet_GetTacacsApproval:
  assumes "quiet w" "status \<in> {0, 1, 2, 3, 4, 6}"
  shows "run_state (GetTacacsApproval status) w =
    ((map (\<lambda>r. projr (scanApproval (Inr r))) (filter (\<lambda>r. ar_status r = status) (t_approval (w_db w))), None),
     w\<lparr>w_n := Suc (w_n w)\<rparr>)"
  unfolding GetTacacsApproval_def Let_def using assms(2) by (simp add: quiet_query [OF assms(1)])

lemma key_image_iff:
  "distinct (map f rs) \<Longrightarrow> r \<in> set rs \<Longrightarrow> f r \<in> f ` {x \<in> set rs. Q x} \<longleftrightarrow> Q r"
  by (auto simp: distinct_map dest: inj_onD)

text \<open>The rows that a check over the rows with one status is to close.\<close>

lemma close_by_status:
  assumes "quiet w" "\<And>n. w_clock w n = now" "distinct (map ar_id (t_approval (w_db w)))"
    and "st \<in> {0, 1, 2, 3, 4, 6}" "\<And>r. since (projr (scanApproval (Inr r))) = since' r"
    and "m = State_Monad.bind (GetTacacsApproval st) (\<lambda>(missions, err).
      if err \<noteq> None then ret [] else close_loop since limit s kind missions)"
  shows "t_approval (w_db (snd (run_state m w))) =
    map (\<lambda>r. if ar_status r = st \<and> now - since' r > secs limit then r\<lparr>ar_status := s\<rparr> else r) (t_approval (w_db w))"
proof -
  let ?w = "w\<lparr>w_n := Suc (w_n w)\<rparr>"
  let ?ms = "map (\<lambda>r. projr (scanApproval (Inr r))) (filter (\<lambda>r. ar_status r = st) (t_approval (w_db w)))"
  obtain n d' where "run_state (close_loop since limit s kind ?ms) ?w =
      (map (\<lambda>m. (tap_User m, m, kind)) (due since limit now ?ms), ?w\<lparr>w_n := n, w_db := d'\<rparr>)"
    and d': "t_approval d' = set_where (\<lambda>r. ar_id r \<in> tap_ID ` set (due since limit now ?ms)) (\<lambda>r. r\<lparr>ar_status := s\<rparr>)
      (t_approval (w_db ?w))"
    using quiet_close_loop [of ?w now since limit s kind ?ms] assms(1,2) by auto
  then have "t_approval (w_db (snd (run_state m w))) =
      set_where (\<lambda>r. ar_id r \<in> tap_ID ` set (due since limit now ?ms)) (\<lambda>r. r\<lparr>ar_status := s\<rparr>) (t_approval (w_db w))"
    by (simp add: assms(6) quiet_GetTacacsApproval [OF assms(1,4)])
  also have "\<dots> = map (\<lambda>r. if ar_status r = st \<and> now - since' r > secs limit then r\<lparr>ar_status := s\<rparr> else r) (t_approval (w_db w))"
    unfolding set_where_def
  proof (rule map_cong [OF refl])
    fix r assume r: "r \<in> set (t_approval (w_db w))"
    have "tap_ID ` set (due since limit now ?ms) =
        ar_id ` {r \<in> set (t_approval (w_db w)). ar_status r = st \<and> now - since' r > secs limit}"
      by (simp add: due_def filter_map image_image o_def assms(5) conj_assoc)
    then have "ar_id r \<in> tap_ID ` set (due since limit now ?ms) \<longleftrightarrow> ar_status r = st \<and> now - since' r > secs limit"
      using key_image_iff [OF assms(3) r] by simp
    then show "(if ar_id r \<in> tap_ID ` set (due since limit now ?ms) then r\<lparr>ar_status := s\<rparr> else r) =
        (if ar_status r = st \<and> now - since' r > secs limit then r\<lparr>ar_status := s\<rparr> else r)" by simp
  qed
  finally show ?thesis .
qed

text \<open>
  C17. What the daemon closes.  When nothing fails and nobody else writes, a check of a running
  daemon closes as timed out exactly the approvals under review that are more than a day old, the
  other check closes as expired exactly the granted ones that ended more than a second ago; no
  other approval changes, and a stopped daemon changes nothing.
\<close>

theorem daemon_closes:
  assumes "quiet w" "\<forall>n. w_clock w n = now" "distinct (map ar_id (t_approval (w_db w)))"
  shows "t_approval (w_db (snd (run_state (running_create (as_Start s)) w))) =
      map (\<lambda>r. if ar_status r = ApprovalUnderReview \<and> now - ar_create_time r > secs 86400
               then r\<lparr>ar_status := TimeoutShutdown\<rparr> else r) (t_approval (w_db w)) \<and>
    t_approval (w_db (snd (run_state (running_permission (as_Start s)) w))) =
      map (\<lambda>r. if ar_status r = ApprovalPass \<and> now - ar_end_time r > secs 1
               then r\<lparr>ar_status := ExpiredShutdown\<rparr> else r) (t_approval (w_db w)) \<and>
    w_db (snd (run_state (running_create (as_Stop s)) w)) = w_db w \<and>
    w_db (snd (run_state (running_permission (as_Stop s)) w)) = w_db w"
proof -
  have c: "\<And>n. w_clock w n = now" using assms(2) by blast
  have "t_approval (w_db (snd (run_state checkCreateTimeTimeout w))) =
      map (\<lambda>r. if ar_status r = ApprovalUnderReview \<and> now - ar_create_time r > secs 86400
               then r\<lparr>ar_status := TimeoutShutdown\<rparr> else r) (t_approval (w_db w))"
    by (rule close_by_status [OF assms(1) c assms(3) _ _ checkCreateTimeTimeout_def [unfolded approvalTimeout_def]])
      (simp_all add: approval_status)
  moreover have "t_approval (w_db (snd (run_state checkPermissionTimeout w))) =
      map (\<lambda>r. if ar_status r = ApprovalPass \<and> now - ar_end_time r > secs 1
               then r\<lparr>ar_status := ExpiredShutdown\<rparr> else r) (t_approval (w_db w))"
    by (rule close_by_status [OF assms(1) c assms(3) _ _ checkPermissionTimeout_def]) (simp_all add: approval_status)
  ultimately show ?thesis by (simp add: running_create_def running_permission_def as_Start_def as_Stop_def)
qed

subsection \<open>An approval lost to the daemon\<close>

text \<open>What a successful \<open>ApproveWithLock\<close> of another process does to the database.\<close>

definition approved :: "int \<Rightarrow> string \<Rightarrow> int \<Rightarrow> db \<Rightarrow> db" where
  "approved i admin t d = (case approve_stmt i ApprovalPass admin t d of Inl _ \<Rightarrow> d | Inr (d', _) \<Rightarrow> d')"

text \<open>
  C18. The daemon reads the approvals under review and then updates each by its id alone, without
  the condition on the status that \<open>ApproveWithLock\<close> has.  An approval that an administrator grants
  between the read and the update ends as timed out, with the name of the administrator on it:
  the grant was reported as successful and is lost.
\<close>

theorem timeout_overwrites_approval:
  assumes "t_approval (w_db w) = [r]" "ar_status r = ApprovalUnderReview" "w_n w = 0" "w_conf w = Some True"
    and "\<forall>n. w_clock w n - ar_create_time r > secs approvalTimeout"
    and "\<forall>n. w_replica w n = (\<lambda>d. d)" "\<forall>n. w_rfault w n = NoFault" "\<forall>n. w_wfault w n = ExecOk"
    and "w_interf w = (\<lambda>n. if n = 1 then approved (ar_id r) admin t else (\<lambda>d. d))"
  shows "t_approval (w_db (snd (run_state checkCreateTimeTimeout w))) =
      [r\<lparr>ar_status := TimeoutShutdown, ar_approver := Some admin, ar_approve_time := Some (datetime t)\<rparr>] \<and>
    won (fst (run_state (ApproveWithLock (ar_id r) ApprovalPass admin) w))"
proof -
  have run: "run_state (GetTacacsApproval ApprovalUnderReview) w =
      (([projr (scanApproval (Inr r))], None), w\<lparr>w_n := 1\<rparr>)"
    using assms by (simp add: GetTacacsApproval_def query_def approval_status Let_def) (simp add: scanApproval_def)
  have d1: "t_approval (approved (ar_id r) admin t (w_db w)) =
      [r\<lparr>ar_status := ApprovalPass, ar_approver := Some admin, ar_approve_time := Some (datetime t)\<rparr>]"
    using assms(1,2) by (simp add: approved_def approve_stmt_def sql_update_def Let_def set_where_def touch_def approval_status)
  have upd: "t_approval (w_db (snd (run_state (UpdateTacacsApprovalStatus (ar_id r) s) (w\<lparr>w_n := 1\<rparr>)))) =
      set_where (\<lambda>x. ar_id x = ar_id r) (\<lambda>x. x\<lparr>ar_status := s\<rparr>) (t_approval (approved (ar_id r) admin t (w_db w)))" for s
    using assms(4,8,9)
    by (simp add: UpdateTacacsApprovalStatus_def exec_def Let_def status_stmt_def sql_update_def touch_def
        bump_on_success_def BumpMetaVersion_def)
  have now: "\<not> w_clock w 1 - ar_create_time r \<le> secs approvalTimeout"
    using assms(5) by (simp add: not_le)
  have "t_approval (w_db (snd (run_state checkCreateTimeTimeout w))) =
      set_where (\<lambda>x. ar_id x = ar_id r) (\<lambda>x. x\<lparr>ar_status := TimeoutShutdown\<rparr>)
        (t_approval (approved (ar_id r) admin t (w_db w)))"
    using now upd [of TimeoutShutdown] by (simp add: checkCreateTimeTimeout_def run split_beta)
  then have 1: "t_approval (w_db (snd (run_state checkCreateTimeTimeout w))) =
      [r\<lparr>ar_status := TimeoutShutdown, ar_approver := Some admin, ar_approve_time := Some (datetime t)\<rparr>]"
    by (simp add: d1 set_where_def)
  have ne: "r\<lparr>ar_status := ApprovalPass, ar_approver := a, ar_approve_time := b\<rparr> \<noteq> r" for a b
    using assms(2) by (cases r) (auto simp: approval_status)
  have "won (fst (run_state (ApproveWithLock (ar_id r) ApprovalPass admin) w))"
    using assms(1-4,8,9) ne
    by (simp add: ApproveWithLock_def exec_def Let_def approve_stmt_def sql_update_def approval_status
        won_def BumpMetaVersion_def)
  with 1 show ?thesis by blast
qed

subsection \<open>Concrete runs\<close>

definition example_row :: "int \<Rightarrow> approval_row" where
  "example_row status = \<lparr>ar_id = 7, ar_create_time = 0, ar_user = ''bob'', ar_approval_permissions = ''ops'',
     ar_start_time = 0, ar_end_time = 10, ar_status = status, ar_approver = None, ar_approve_time = None\<rparr>"

definition approval_world :: "int \<Rightarrow> int \<Rightarrow> world" where
  "approval_world status now = (calm_world (example_db\<lparr>t_approval := [example_row status]\<rparr>))\<lparr>w_clock := (\<lambda>_. now)\<rparr>"

theorem approve_at_most_once_witness:
  "length (filter won (fst (run_state (approve_all 7 [(4, ''ann''), (2, ''eve'')]) (approval_world 3 0)))) = 1"
proof -
  have "length (filter won (fst (run_state (approve_all 7 [(4, ''ann''), (2, ''eve'')]) (approval_world 3 0)))) \<le> 1"
    by (rule approve_at_most_once) (simp_all add: approval_world_def calm_world_def)
  moreover have "won (hd (fst (run_state (approve_all 7 [(4, ''ann''), (2, ''eve'')]) (approval_world 3 0))))"
    by (simp add: approval_world_def calm_world_def example_db_def example_row_def won_def ApproveWithLock_def
        exec_def Let_def approve_stmt_def sql_update_def set_where_def BumpMetaVersion_def split_beta)
  ultimately show ?thesis
    by (cases "fst (run_state (approve_all 7 [(4, ''ann''), (2, ''eve'')]) (approval_world 3 0))")
      (auto simp: split_beta)
qed

lemma quiet_approval_world: "quiet (approval_world status now)"
  by (simp add: quiet_def approval_world_def calm_world_def)

theorem daemon_closes_witness:
  "map ar_status (t_approval (w_db (snd (run_state (running_create (as_Start NewApprovalSystem))
     (approval_world 3 (secs 86401)))))) = [1]"
  using daemon_closes [of "approval_world 3 (secs 86401)" "secs 86401" NewApprovalSystem]
  by (simp add: quiet_approval_world) (simp add: approval_world_def calm_world_def example_db_def example_row_def approval_status)

theorem timeout_overwrites_approval_witness:
  "let w = (approval_world 3 (secs 86401))\<lparr>w_interf := (\<lambda>n. if n = 1 then approved 7 ''ann'' 5 else (\<lambda>d. d))\<rparr>
   in map ar_status (t_approval (w_db (snd (run_state checkCreateTimeTimeout w)))) = [1]"
proof -
  define w where
    "w = (approval_world 3 (secs 86401))\<lparr>w_interf := (\<lambda>n. if n = 1 then approved 7 ''ann'' 5 else (\<lambda>d. d))\<rparr>"
  have row: "ar_id (example_row 3) = 7" "ar_status (example_row 3) = 3" "ar_create_time (example_row 3) = 0"
    by (simp_all add: example_row_def)
  have "t_approval (w_db (snd (run_state checkCreateTimeTimeout w))) =
      [(example_row 3)\<lparr>ar_status := TimeoutShutdown, ar_approver := Some ''ann'', ar_approve_time := Some (datetime 5)\<rparr>]"
    by (rule timeout_overwrites_approval [of w "example_row 3" "''ann''" 5, THEN conjunct1])
      (simp_all add: w_def approval_world_def calm_world_def example_db_def row approval_status approvalTimeout_def cong: if_cong)
  then show ?thesis by (simp add: Let_def w_def approval_status)
qed

end
