(* ===== verification/Permission.thy ===== *)
theory Permission
  imports Approval SyncMap "HOL-Library.AList"
begin

text \<open>
  \<open>pkg/server/permissionSystem\<close>: the daemon that keeps the roles of the users in step with the
  granted approvals, suspends users with an old password, and warns of both.  Go maps are
  association lists in the order of their iteration; sending a card is a parameter that says
  whether it succeeded, and the cards sent are the output.
\<close>

subsection \<open>State\<close>

definition PasswordTimeout :: int where "PasswordTimeout = 7776000"
definition PasswordTimeoutAlarm :: int where "PasswordTimeoutAlarm = 7171200"
definition passwordAlarmDedupWindow :: int where "passwordAlarmDedupWindow = 24 * secs 3600"
definition roleExpiryAlarmDedupWindow :: int where "roleExpiryAlarmDedupWindow = 24 * secs 3600"
definition roleExpiryTier3Day :: int where "roleExpiryTier3Day = 72 * secs 3600"
definition roleExpiryTier1Day :: int where "roleExpiryTier1Day = 24 * secs 3600"
definition roleExpiryTier12Hour :: int where "roleExpiryTier12Hour = 12 * secs 3600"

definition ps_userStatusNormal :: string where "ps_userStatusNormal = ''1''"
definition ps_userStatusPause :: string where "ps_userStatusPause = ''2''"

lemmas permission_consts = PasswordTimeout_def PasswordTimeoutAlarm_def passwordAlarmDedupWindow_def
  roleExpiryAlarmDedupWindow_def roleExpiryTier3Day_def roleExpiryTier1Day_def roleExpiryTier12Hour_def
  ps_userStatusNormal_def ps_userStatusPause_def

record TacacsPermissions =
  tp_StartTime :: int
  tp_EndTime :: int
  tp_Permissions :: string

type_synonym levels = "(string \<times> TacacsPermissions list) list"
type_synonym perms = "(string \<times> levels) list"

record PermissionSystem =
  ps_userInfos :: "(string \<times> TacacsUser) list"
  ps_permissionsInfo :: perms
  ps_alarmHistory :: "(string, int) TypedSyncMap"
  ps_roleExpiryAlarmHistory :: "(string, int) TypedSyncMap"
  ps_run :: bool

definition NewPermissionSystem :: PermissionSystem where
  "NewPermissionSystem = \<lparr>ps_userInfos = [], ps_permissionsInfo = [], ps_alarmHistory = NewTypedSyncMap,
     ps_roleExpiryAlarmHistory = NewTypedSyncMap, ps_run = False\<rparr>"

definition ps_Start :: "PermissionSystem \<Rightarrow> PermissionSystem" where "ps_Start ps = ps\<lparr>ps_run := True\<rparr>"
definition ps_Stop :: "PermissionSystem \<Rightarrow> PermissionSystem" where "ps_Stop ps = ps\<lparr>ps_run := False\<rparr>"

text \<open>\<open>Time.Sub\<close> stays within the range of a \<open>Duration\<close>.\<close>

definition Sub :: "int \<Rightarrow> int \<Rightarrow> int" where
  "Sub t u = max (- (2 ^ 63)) (min (2 ^ 63 - 1) (t - u))"

subsection \<open>Users and approvals\<close>

definition UpdateUserInfos :: "PermissionSystem \<Rightarrow> PermissionSystem io" where
  "UpdateUserInfos ps = do {
     (users, err) \<leftarrow> GetTacacsUserInfos;
     ret (if err \<noteq> None then ps
          else ps\<lparr>ps_userInfos := foldl (\<lambda>m u. AList.update (tu_User u) u m) [] users\<rparr>)
   }"

text \<open>The loop over the sorted time spans; \<open>current\<close> is the one that still grows.\<close>

fun merge_loop :: "TacacsPermissions \<Rightarrow> TacacsPermissions list \<Rightarrow> TacacsPermissions list" where
  "merge_loop current [] = [current]"
| "merge_loop current (t # ts) =
     (if tp_StartTime t > tp_EndTime current then current # merge_loop t ts
      else if tp_EndTime t > tp_EndTime current then merge_loop (current\<lparr>tp_EndTime := tp_EndTime t\<rparr>) ts
      else merge_loop current ts)"

definition merge_sorted :: "TacacsPermissions list \<Rightarrow> TacacsPermissions list" where
  "merge_sorted spans = (case spans of [] \<Rightarrow> [] | t # ts \<Rightarrow> merge_loop t ts)"

text \<open>
  \<open>sort.Slice\<close> leaves spans with the same start in an order of its own; this is the stable one.
  What is proved of the result holds for each order.
\<close>

definition mergeRangeTimes :: "TacacsPermissions list \<Rightarrow> TacacsPermissions list" where
  "mergeRangeTimes spans = merge_sorted (sort_key tp_StartTime spans)"

definition mergePermissions :: "levels \<Rightarrow> levels" where
  "mergePermissions permissions = map (\<lambda>(level, ranges). (level, mergeRangeTimes ranges)) permissions"

text \<open>A missing entry of a map reads as the empty map or slice.\<close>

definition entry :: "('k \<times> 'v list) list \<Rightarrow> 'k \<Rightarrow> 'v list" where
  "entry m k = (case map_of m k of None \<Rightarrow> [] | Some v \<Rightarrow> v)"

fun bucket_loop :: "(string \<times> TacacsUser) list \<Rightarrow> TacacsApproval list \<Rightarrow> perms \<Rightarrow> perms" where
  "bucket_loop users [] temp = temp"
| "bucket_loop users (a # as) temp =
     (if map_of users (tap_User a) = None then bucket_loop users as temp
      else
        (let byLevel = entry temp (tap_User a);
             ranges = entry byLevel (tap_ApprovalPermissions a) @
               [\<lparr>tp_StartTime = tap_StartTime a, tp_EndTime = tap_EndTime a, tp_Permissions = tap_ApprovalPermissions a\<rparr>]
         in bucket_loop users as
              (AList.update (tap_User a) (AList.update (tap_ApprovalPermissions a) ranges byLevel) temp)))"

definition UpdateRoleInfos :: "PermissionSystem \<Rightarrow> PermissionSystem io" where
  "UpdateRoleInfos ps = do {
     (approvals, err) \<leftarrow> GetTacacsApproval ApprovalPass;
     ret (if err \<noteq> None then ps
          else ps\<lparr>ps_permissionsInfo :=
            map (\<lambda>(user, byLevel). (user, mergePermissions byLevel)) (bucket_loop (ps_userInfos ps) approvals [])\<rparr>)
   }"

subsection \<open>Roles\<close>

definition covers :: "int \<Rightarrow> TacacsPermissions \<Rightarrow> bool" where
  "covers now r = (now > tp_StartTime r \<and> now < tp_EndTime r)"

definition getCurrentUserRoleAt :: "perms \<Rightarrow> string \<Rightarrow> int \<Rightarrow> string" where
  "getCurrentUserRoleAt perms user now =
     (case map_of perms user of
        None \<Rightarrow> ''null''
      | Some userPerms \<Rightarrow>
          (let roles = map fst (filter (\<lambda>(level, ranges). list_ex (covers now) ranges) userPerms)
           in if length roles = 0 then ''null'' else Join '','' (sort roles)))"

definition GetCurrentUserRole :: "PermissionSystem \<Rightarrow> string \<Rightarrow> string io" where
  "GetCurrentUserRole ps user = do { now \<leftarrow> time_now; ret (getCurrentUserRoleAt (ps_permissionsInfo ps) user now) }"

definition role_updates :: "(string \<times> TacacsUser) list \<Rightarrow> perms \<Rightarrow> int \<Rightarrow> (string \<times> string) list" where
  "role_updates users perms now =
     map (\<lambda>(user, info). (user, getCurrentUserRoleAt perms user now))
       (filter (\<lambda>(user, info). tu_Role info \<noteq> getCurrentUserRoleAt perms user now) users)"

definition UpdateDatabase :: "PermissionSystem \<Rightarrow> unit io" where
  "UpdateDatabase ps = do {
     now \<leftarrow> time_now;
     let roleUpdates = role_updates (ps_userInfos ps) (ps_permissionsInfo ps) now;
     if length roleUpdates = 0 then ret ()
     else do { _ \<leftarrow> BatchUpdateUserRole roleUpdates; ret () }
   }"

definition periodicUserUpdate :: "PermissionSystem \<Rightarrow> PermissionSystem io" where
  "periodicUserUpdate ps = do {
     ps \<leftarrow> UpdateUserInfos ps;
     ps \<leftarrow> UpdateRoleInfos ps;
     _ \<leftarrow> UpdateDatabase ps;
     ret ps
   }"

subsection \<open>Passwords\<close>

text \<open>
  A card about a password, or about a role that runs out: the user, the kind, the days since the
  change of the password, or the level and the end.
\<close>

datatype notice =
    PasswordCard string string int
  | RoleExpiryCard string string string int

text \<open>\<open>time.Parse\<close>, which reads a time without a zone as UTC, and whether a card gets through.\<close>

record notify_env =
  ne_Parse :: "string \<Rightarrow> int result"
  ne_send :: "notice \<Rightarrow> bool"

definition maxDays :: int where "maxDays = PasswordTimeout div (24 * 60 * 60)"

text \<open>The loop over the users: first the names to suspend, then the names to warn with the days.\<close>

fun timeout_loop :: "(string \<Rightarrow> int result) \<Rightarrow> (string, int) TypedSyncMap \<Rightarrow> int \<Rightarrow> (string \<times> TacacsUser) list \<Rightarrow>
    string list \<times> (string \<times> int) list" where
  "timeout_loop parse alarmHistory now [] = ([], [])"
| "timeout_loop parse alarmHistory now ((user, info) # us) =
     (case timeout_loop parse alarmHistory now us of (expires, alarms) \<Rightarrow>
        if tu_Status info \<noteq> ps_userStatusNormal then (expires, alarms)
        else
          (case parse (tu_PasswordUpdateTime info) of
             Inl err \<Rightarrow> (expires, alarms)
           | Inr t \<Rightarrow>
               (let duration = Sub now t in
                if duration > secs PasswordTimeout then (user # expires, alarms)
                else if duration > secs PasswordTimeoutAlarm then
                  (if (case Get alarmHistory user of Some sent \<Rightarrow> Sub now sent < passwordAlarmDedupWindow | None \<Rightarrow> False)
                   then (expires, alarms)
                   else (expires, (user, duration div (24 * secs 3600)) # alarms))
                else (expires, alarms))))"

definition CheckPasswordTimeout :: "notify_env \<Rightarrow> PermissionSystem \<Rightarrow> (notice list \<times> PermissionSystem) io" where
  "CheckPasswordTimeout env ps = do {
     now \<leftarrow> time_now;
     case timeout_loop (ne_Parse env) (ps_alarmHistory ps) now (ps_userInfos ps) of (expires, alarms) \<Rightarrow> do {
       _ \<leftarrow> (if length expires > 0 then BatchUpdateUserStatus expires ps_userStatusPause else ret None);
       sent \<leftarrow> time_now;
       let warn = map (\<lambda>(user, days). (user, PasswordCard user ''warning'' days)) alarms;
       let ps = ps\<lparr>ps_alarmHistory :=
         foldl (\<lambda>h (user, card). if ne_send env card then Set h user sent else h) (ps_alarmHistory ps) warn\<rparr>;
       ret (map snd warn @ map (\<lambda>user. PasswordCard user ''expired'' 0) expires, ps)
     }
   }"

definition restorable :: "(string \<Rightarrow> int result) \<Rightarrow> int \<Rightarrow> TacacsUser \<Rightarrow> bool" where
  "restorable parse now info =
     (tu_Status info = ps_userStatusPause \<and>
      (case parse (tu_PasswordUpdateTime info) of Inl err \<Rightarrow> False | Inr t \<Rightarrow> Sub now t < secs PasswordTimeout))"

definition CheckPasswordUnTimeout :: "notify_env \<Rightarrow> PermissionSystem \<Rightarrow> (notice list \<times> PermissionSystem) io" where
  "CheckPasswordUnTimeout env ps = do {
     now \<leftarrow> time_now;
     let restored = map fst (filter (\<lambda>(user, info). restorable (ne_Parse env) now info) (ps_userInfos ps));
     if length restored = 0 then ret ([], ps)
     else do {
       err \<leftarrow> BatchUpdateUserStatus restored ps_userStatusNormal;
       if err \<noteq> None then ret ([], ps)
       else ret (map (\<lambda>user. PasswordCard user ''restored'' 0) restored,
                 ps\<lparr>ps_alarmHistory := foldl Delete (ps_alarmHistory ps) restored\<rparr>)
     }
   }"

subsection \<open>Users on duty\<close>

text \<open>\<open>parse\<close> is the list \<open>on_duty\<close> of the JSON text; the result is the card, if any, and its receivers.\<close>

definition UpdateOnDutyUsers ::
  "(string \<Rightarrow> string list result) \<Rightarrow> string \<Rightarrow> (string list \<times> string list \<times> string list \<times> string list) option io" where
  "UpdateOnDutyUsers parse raw =
     (case parse raw of Inl err \<Rightarrow> ret None
      | Inr OnDuty \<Rightarrow> do {
          (whitelist, err) \<leftarrow> GetTacacsOnDutyUserWhiteList;
          if err \<noteq> None then ret None
          else do {
            r \<leftarrow> CoverTacacsOnDutyUser (GetIntersection OnDuty whitelist);
            case r of Inl err \<Rightarrow> ret None
            | Inr (needAdd, needDelete) \<Rightarrow>
                if length needAdd = 0 \<and> length needDelete = 0 then ret None
                else do {
                  current \<leftarrow> GetTacacsOnDutyUser;
                  admins \<leftarrow> GetTacacsAdminUser;
                  ret (Some (admins, needAdd, needDelete, current))
                }
          }
        })"

text \<open>A change of the configuration: the new value of the key \<open>on_duty\<close>, if it changed and is a string.\<close>

definition OnChange ::
  "(string \<Rightarrow> string list result) \<Rightarrow> string option option \<Rightarrow> (string list \<times> string list \<times> string list \<times> string list) option io" where
  "OnChange parse change =
     (case change of None \<Rightarrow> ret None
      | Some None \<Rightarrow> ret None
      | Some (Some raw) \<Rightarrow> UpdateOnDutyUsers parse raw)"

subsection \<open>Roles that run out\<close>

record roleExpiryAlert =
  rx_user :: string
  rx_level :: string
  rx_expireAt :: int
  rx_tier :: string

definition dedupKey :: "roleExpiryAlert \<Rightarrow> string" where
  "dedupKey a = rx_user a @ ''|'' @ rx_level a @ ''|'' @ dec_int (rx_expireAt a div secs 1) @ ''|'' @ rx_tier a"

definition expiry_tier :: "int \<Rightarrow> string" where
  "expiry_tier remain =
     (if remain \<le> roleExpiryTier12Hour then ''12h''
      else if remain \<le> roleExpiryTier1Day then ''1d''
      else if remain \<le> roleExpiryTier3Day then ''3d''
      else [])"

text \<open>The loop over the spans of a level: the first that covers \<open>now\<close> ends it.\<close>

fun span_loop :: "string \<Rightarrow> string \<Rightarrow> int \<Rightarrow> TacacsPermissions list \<Rightarrow> roleExpiryAlert list" where
  "span_loop user level now [] = []"
| "span_loop user level now (r # rs) =
     (if \<not> covers now r then span_loop user level now rs
      else
        (let tier = expiry_tier (Sub (tp_EndTime r) now)
         in if tier \<noteq> [] then [\<lparr>rx_user = user, rx_level = level, rx_expireAt = tp_EndTime r, rx_tier = tier\<rparr>] else []))"

definition computeRoleExpiryAlerts :: "perms \<Rightarrow> int \<Rightarrow> roleExpiryAlert list" where
  "computeRoleExpiryAlerts perms now =
     concat (map (\<lambda>(user, byLevel). concat (map (\<lambda>(level, ranges). span_loop user level now ranges) byLevel)) perms)"

definition expiry_card :: "roleExpiryAlert \<Rightarrow> notice" where
  "expiry_card a = RoleExpiryCard (rx_user a) (rx_level a) (rx_tier a) (rx_expireAt a)"

definition CheckRolePermissionExpiry :: "notify_env \<Rightarrow> PermissionSystem \<Rightarrow> (notice list \<times> PermissionSystem) io" where
  "CheckRolePermissionExpiry env ps = do {
     now \<leftarrow> time_now;
     let alerts = computeRoleExpiryAlerts (ps_permissionsInfo ps) now;
     let pending = filter (\<lambda>a. \<not> (case Get (ps_roleExpiryAlarmHistory ps) (dedupKey a) of
         Some sent \<Rightarrow> Sub now sent < roleExpiryAlarmDedupWindow | None \<Rightarrow> False)) alerts;
     sent \<leftarrow> time_now;
     ret (map expiry_card pending,
          ps\<lparr>ps_roleExpiryAlarmHistory :=
            foldl (\<lambda>h a. if ne_send env (expiry_card a) then Set h (dedupKey a) sent else h)
              (ps_roleExpiryAlarmHistory ps) pending\<rparr>)
   }"

subsection \<open>The daemon\<close>

text \<open>One turn of \<open>runTask\<close>.\<close>

definition runTask :: "(PermissionSystem \<Rightarrow> 'a io) \<Rightarrow> 'a \<Rightarrow> PermissionSystem \<Rightarrow> 'a io" where
  "runTask task idle ps = (if ps_run ps then task ps else ret idle)"

text \<open>The four tasks that \<open>running\<close> starts, each with its cycle in seconds.\<close>

definition running_tasks :: "notify_env \<Rightarrow> ((PermissionSystem \<Rightarrow> (notice list \<times> PermissionSystem) io) \<times> int) list" where
  "running_tasks env =
     [(\<lambda>ps. do { ps \<leftarrow> periodicUserUpdate ps; ret ([], ps) }, 2),
      (CheckPasswordTimeout env, 60),
      (CheckPasswordUnTimeout env, 10),
      (CheckRolePermissionExpiry env, 1800)]"

end
