(* ===== verification/PermissionLaws.thy ===== *)
theory PermissionLaws
  imports Permission "HOL-Library.Multiset"
begin

text \<open>
  The roles of the users are the levels of their granted approvals at the time, and what the
  daemon does about passwords and about roles that run out.
\<close>

subsection \<open>Merging time spans\<close>

definition within :: "int \<Rightarrow> TacacsPermissions \<Rightarrow> bool" where
  "within t r = (tp_StartTime r \<le> t \<and> t \<le> tp_EndTime r)"

lemma merge_loop_start: "\<exists>r rs. merge_loop c ts = r # rs \<and> tp_StartTime r = tp_StartTime c"
  by (induction c ts rule: merge_loop.induct) auto

lemma merge_loop_starts:
  "sorted (map tp_StartTime (c # ts)) \<Longrightarrow> r \<in> set (merge_loop c ts) \<Longrightarrow> tp_StartTime c \<le> tp_StartTime r"
  by (induction c ts rule: merge_loop.induct) (fastforce split: if_splits)+

lemma merge_loop_within:
  assumes "sorted (map tp_StartTime (c # ts))" "\<forall>x\<in>set (c # ts). tp_StartTime x \<le> tp_EndTime x"
  shows "(\<exists>r\<in>set (merge_loop c ts). within t r) \<longleftrightarrow> (\<exists>x\<in>set (c # ts). within t x)"
  using assms
proof (induction c ts rule: merge_loop.induct)
  case (2 c x ts)
  let ?c = "c\<lparr>tp_EndTime := tp_EndTime x\<rparr>"
  consider "tp_StartTime x > tp_EndTime c" | "tp_StartTime x \<le> tp_EndTime c" "tp_EndTime x > tp_EndTime c"
    | "tp_StartTime x \<le> tp_EndTime c" "tp_EndTime x \<le> tp_EndTime c" by linarith
  then show ?case
  proof cases
    case 1
    then show ?thesis using 2 by simp
  next
    case 2
    have "(\<exists>r\<in>set (merge_loop ?c ts). within t r) \<longleftrightarrow> (\<exists>y\<in>set (?c # ts). within t y)"
      using "2.IH"(2) "2.prems" 2 by force
    moreover have "within t ?c \<longleftrightarrow> within t c \<or> within t x"
      using "2.prems" 2 by (auto simp: within_def)
    ultimately show ?thesis using 2 by auto
  next
    case 3
    have "(\<exists>r\<in>set (merge_loop c ts). within t r) \<longleftrightarrow> (\<exists>y\<in>set (c # ts). within t y)"
      using "2.IH"(3) "2.prems" 3 by force
    moreover have "within t x \<Longrightarrow> within t c"
      using "2.prems" 3 by (auto simp: within_def)
    ultimately show ?thesis using 3 by auto
  qed
qed simp

lemma merge_loop_apart:
  "sorted (map tp_StartTime (c # ts)) \<Longrightarrow> sorted_wrt (\<lambda>a b. tp_EndTime a < tp_StartTime b) (merge_loop c ts)"
proof (induction c ts rule: merge_loop.induct)
  case (2 c x ts)
  have "\<forall>r\<in>set (merge_loop x ts). tp_EndTime c < tp_StartTime r" if "tp_StartTime x > tp_EndTime c"
    using merge_loop_starts [of x ts] that "2.prems" by fastforce
  then show ?case using 2 by auto
qed simp

lemma merge_loop_ends:
  "r \<in> set (merge_loop c ts) \<Longrightarrow> tp_StartTime r \<in> tp_StartTime ` set (c # ts) \<and> tp_EndTime r \<in> tp_EndTime ` set (c # ts)"
  by (induction c ts arbitrary: r rule: merge_loop.induct) (fastforce split: if_splits)+

lemma merge_sorted_laws:
  assumes "sorted (map tp_StartTime ts)" "\<forall>x\<in>set ts. tp_StartTime x \<le> tp_EndTime x"
  shows "\<forall>t. (\<exists>r\<in>set (merge_sorted ts). within t r) \<longleftrightarrow> (\<exists>x\<in>set ts. within t x)"
    "sorted_wrt (\<lambda>a b. tp_EndTime a < tp_StartTime b) (merge_sorted ts)"
    "\<forall>r\<in>set (merge_sorted ts). tp_StartTime r \<in> tp_StartTime ` set ts \<and> tp_EndTime r \<in> tp_EndTime ` set ts"
proof -
  show "\<forall>t. (\<exists>r\<in>set (merge_sorted ts). within t r) \<longleftrightarrow> (\<exists>x\<in>set ts. within t x)"
    using merge_loop_within assms by (cases ts) (simp_all add: merge_sorted_def del: sorted_wrt.simps)
  show "sorted_wrt (\<lambda>a b. tp_EndTime a < tp_StartTime b) (merge_sorted ts)"
    using merge_loop_apart assms by (cases ts) (simp_all add: merge_sorted_def)
  show "\<forall>r\<in>set (merge_sorted ts). tp_StartTime r \<in> tp_StartTime ` set ts \<and> tp_EndTime r \<in> tp_EndTime ` set ts"
    using merge_loop_ends by (cases ts) (auto simp: merge_sorted_def)
qed

text \<open>
  C24. Merging keeps the granted time.  In whatever order the sort leaves spans with equal starts,
  the merged spans cover exactly the moments that the given spans cover, ends included, each ends
  before the next begins, and their ends are ends of given spans.
\<close>

theorem merge_exact:
  assumes "mset ts = mset spans" "sorted (map tp_StartTime ts)" "\<forall>x\<in>set spans. tp_StartTime x \<le> tp_EndTime x"
  shows "(\<forall>t. (\<exists>r\<in>set (merge_sorted ts). within t r) \<longleftrightarrow> (\<exists>x\<in>set spans. within t x)) \<and>
    sorted_wrt (\<lambda>a b. tp_EndTime a < tp_StartTime b) (merge_sorted ts) \<and>
    (\<forall>r\<in>set (merge_sorted ts). tp_StartTime r \<in> tp_StartTime ` set spans \<and> tp_EndTime r \<in> tp_EndTime ` set spans)"
  using merge_sorted_laws [of ts] assms mset_eq_setD [OF assms(1)] by simp

subsection \<open>The maps of the daemon\<close>

lemma entry_update: "entry (AList.update k v m) j = (if j = k then v else entry m j)"
  by (simp add: entry_def update_conv')

lemma entry_set: "distinct (map fst m) \<Longrightarrow> (k, v) \<in> set m \<Longrightarrow> entry m k = v"
  by (simp add: entry_def)

lemma entry_present: "entry m k \<noteq> [] \<Longrightarrow> (k, entry m k) \<in> set m"
  by (auto simp: entry_def dest: map_of_SomeD split: option.splits)

lemma foldl_update_distinct:
  "distinct (map k us) \<Longrightarrow> k ` set us \<inter> fst ` set m = {} \<Longrightarrow>
    foldl (\<lambda>m u. AList.update (k u) u m) m us = m @ map (\<lambda>u. (k u, u)) us"
proof (induction us arbitrary: m)
  case (Cons u us)
  have "AList.update (k u) u m = m @ [(k u, u)]"
    using Cons(3) by (induction m) auto
  then show ?case using Cons by auto
qed simp

definition span_of :: "TacacsApproval \<Rightarrow> TacacsPermissions" where
  "span_of a = \<lparr>tp_StartTime = tap_StartTime a, tp_EndTime = tap_EndTime a, tp_Permissions = tap_ApprovalPermissions a\<rparr>"

text \<open>All keys of the two layers of maps are distinct.\<close>

definition proper :: "perms \<Rightarrow> bool" where
  "proper m = (distinct (map fst m) \<and> (\<forall>b\<in>snd ` set m. distinct (map fst b)))"

lemma proper_update:
  assumes "proper m"
  shows "proper (AList.update u (AList.update l rs (entry m u)) m)"
proof -
  have "distinct (map fst (entry m u))"
    using assms by (auto simp: proper_def entry_def dest: map_of_SomeD split: option.split)
  then have d: "distinct (map fst (AList.update l rs (entry m u)))" by (rule distinct_update)
  let ?b = "AList.update l rs (entry m u)"
  have sub: "snd ` set (AList.update u b m) \<subseteq> insert b (snd ` set m)" for b
    by (induction m) auto
  have "distinct (map fst b)" if "b \<in> snd ` set (AList.update u ?b m)" for b
  proof -
    have "b = ?b \<or> b \<in> snd ` set m" using sub [of ?b] that by blast
    then show ?thesis using d assms by (auto simp: proper_def)
  qed
  moreover have "distinct (map fst (AList.update u ?b m))"
    using assms by (simp add: proper_def distinct_update)
  ultimately show ?thesis unfolding proper_def by blast
qed

lemma bucket_loop_proper: "proper m \<Longrightarrow> proper (bucket_loop users as m)"
  by (induction users as m rule: bucket_loop.induct) (auto simp: Let_def proper_update)

lemma bucket_loop_entry:
  "entry (entry (bucket_loop users as m) u) l = entry (entry m u) l @
     map span_of (filter (\<lambda>a. tap_User a = u \<and> tap_ApprovalPermissions a = l \<and> map_of users u \<noteq> None) as)"
  by (induction users as m rule: bucket_loop.induct) (auto simp: Let_def entry_update span_of_def)

lemma merged_entry:
  "entry (entry (map (\<lambda>(user, byLevel). (user, mergePermissions byLevel)) m) u) l = mergeRangeTimes (entry (entry m u) l)"
proof -
  have in_level: "entry (mergePermissions b) l = mergeRangeTimes (entry b l)" for b
    by (induction b) (auto simp: entry_def mergePermissions_def mergeRangeTimes_def merge_sorted_def)
  have "entry (map (\<lambda>(user, byLevel). (user, mergePermissions byLevel)) m) u = mergePermissions (entry m u)"
    by (induction m) (auto simp: entry_def mergePermissions_def)
  then show ?thesis by (simp add: in_level)
qed

lemma merged_proper: "proper m \<Longrightarrow> proper (map (\<lambda>(user, byLevel). (user, mergePermissions byLevel)) m)"
proof -
  have fst: "map fst (map (\<lambda>(user, byLevel). (user, mergePermissions byLevel)) m) = map fst m"
    by (induction m) auto
  have lev: "map fst (mergePermissions b) = map fst b" for b
    by (induction b) (auto simp: mergePermissions_def)
  assume "proper m"
  then show ?thesis unfolding proper_def fst by (auto simp: lev)
qed

subsection \<open>The role of a user\<close>

definition role_text :: "string set \<Rightarrow> string" where
  "role_text S = (if S = {} then ''null'' else Join '','' (sorted_list_of_set S))"

lemma getCurrentUserRoleAt_text:
  assumes "proper perms"
  shows "getCurrentUserRoleAt perms user now = role_text {l. \<exists>r\<in>set (entry (entry perms user) l). covers now r}"
proof -
  let ?m = "entry perms user"
  let ?roles = "map fst (filter (\<lambda>(level, ranges). list_ex (covers now) ranges) ?m)"
  have d: "distinct (map fst ?m)"
    using assms by (auto simp: proper_def entry_def dest: map_of_SomeD split: option.split)
  have dr: "distinct ?roles" by (rule distinct_map_filter [OF d])
  have set: "set ?roles = {l. \<exists>r\<in>set (entry ?m l). covers now r}"
  proof (rule set_eqI, rule iffI)
    fix l assume "l \<in> set ?roles"
    then obtain rs where "(l, rs) \<in> set ?m" "list_ex (covers now) rs" by auto
    then show "l \<in> {l. \<exists>r\<in>set (entry ?m l). covers now r}" using entry_set [OF d] by (auto simp: list_ex_iff)
  next
    fix l assume "l \<in> {l. \<exists>r\<in>set (entry ?m l). covers now r}"
    then obtain r where r: "r \<in> set (entry ?m l)" "covers now r" by blast
    then obtain rs where "map_of ?m l = Some rs" "entry ?m l = rs"
      by (cases "map_of ?m l") (auto simp: entry_def)
    then show "l \<in> set ?roles" using r by (force simp: list_ex_iff dest: map_of_SomeD)
  qed
  have "getCurrentUserRoleAt perms user now = (if ?roles = [] then ''null'' else Join '','' (sort ?roles))"
    by (auto simp: getCurrentUserRoleAt_def entry_def Let_def split: option.split)
  also have "\<dots> = role_text (set ?roles)"
  proof (cases "?roles = []")
    case False
    then have "set ?roles \<noteq> {}" by (simp only: set_empty not_False_eq_True)
    then show ?thesis
      using False sorted_list_of_set_sort_remdups [of ?roles] distinct_remdups_id [OF dr] unfolding role_text_def by metis
  qed (simp add: role_text_def)
  finally show ?thesis unfolding set .
qed

text \<open>A level that is granted to a user at a moment.\<close>

definition granted :: "db \<Rightarrow> string \<Rightarrow> int \<Rightarrow> string \<Rightarrow> bool" where
  "granted d user now level = (\<exists>a\<in>set (t_approval d). ar_status a = ApprovalPass \<and> ar_user a = user \<and>
     ar_approval_permissions a = level \<and> ar_start_time a < now \<and> now < ar_end_time a)"

text \<open>No granted approval of the user begins or ends at this moment, and none ends before it begins.\<close>

definition between_ends :: "db \<Rightarrow> string \<Rightarrow> int \<Rightarrow> bool" where
  "between_ends d user now = (\<forall>a\<in>set (t_approval d). ar_status a = ApprovalPass \<and> ar_user a = user \<longrightarrow>
     ar_start_time a \<le> ar_end_time a \<and> ar_start_time a \<noteq> now \<and> ar_end_time a \<noteq> now)"

lemma merge_covers:
  assumes "\<forall>x\<in>set spans. tp_StartTime x \<le> tp_EndTime x \<and> tp_StartTime x \<noteq> now \<and> tp_EndTime x \<noteq> now"
  shows "(\<exists>r\<in>set (mergeRangeTimes spans). covers now r) \<longleftrightarrow> (\<exists>x\<in>set spans. covers now x)"
proof -
  have cov: "covers now x \<longleftrightarrow> within now x" if "tp_StartTime x \<noteq> now" "tp_EndTime x \<noteq> now" for x
    using that by (auto simp: covers_def within_def)
  let ?ts = "sort_key tp_StartTime spans"
  have "sorted (map tp_StartTime ?ts)" "\<forall>x\<in>set ?ts. tp_StartTime x \<le> tp_EndTime x" using assms by simp_all
  note laws = merge_sorted_laws [OF this]
  have "(\<exists>r\<in>set (merge_sorted ?ts). covers now r) \<longleftrightarrow> (\<exists>r\<in>set (merge_sorted ?ts). within now r)"
  proof (rule bex_cong [OF refl])
    fix r assume "r \<in> set (merge_sorted ?ts)"
    then have "tp_StartTime r \<in> tp_StartTime ` set spans" "tp_EndTime r \<in> tp_EndTime ` set spans" using laws(3) by auto
    then show "covers now r \<longleftrightarrow> within now r" using assms by (intro cov) auto
  qed
  also have "\<dots> \<longleftrightarrow> (\<exists>x\<in>set spans. within now x)" using laws(1) by simp
  also have "\<dots> \<longleftrightarrow> (\<exists>x\<in>set spans. covers now x)" using assms cov by (intro bex_cong) auto
  finally show ?thesis by (simp add: mergeRangeTimes_def)
qed

subsection \<open>One turn of the update of roles\<close>

lemma quiet_UpdateUserInfos:
  assumes "quiet w" "distinct (map tu_User (t_user (w_db w)))"
  shows "run_state (UpdateUserInfos ps) w =
    (ps\<lparr>ps_userInfos := map (\<lambda>u. (tu_User u, u)) (t_user (w_db w))\<rparr>, w\<lparr>w_n := Suc (w_n w)\<rparr>)"
  using foldl_update_distinct [OF assms(2), of "[]"]
  by (simp add: UpdateUserInfos_def GetTacacsUserInfos_def quiet_query [OF assms(1)])

definition approved_perms :: "(string \<times> TacacsUser) list \<Rightarrow> db \<Rightarrow> perms" where
  "approved_perms users d = map (\<lambda>(user, byLevel). (user, mergePermissions byLevel))
     (bucket_loop users (map (\<lambda>r. projr (scanApproval (Inr r))) (filter (\<lambda>r. ar_status r = ApprovalPass) (t_approval d))) [])"

lemma quiet_UpdateRoleInfos:
  assumes "quiet w"
  shows "run_state (UpdateRoleInfos ps) w =
    (ps\<lparr>ps_permissionsInfo := approved_perms (ps_userInfos ps) (w_db w)\<rparr>, w\<lparr>w_n := Suc (w_n w)\<rparr>)"
  using quiet_GetTacacsApproval [OF assms, of ApprovalPass]
  by (simp add: UpdateRoleInfos_def approved_perms_def ApprovalPass_def)

lemma approved_perms_role:
  assumes "map_of users user \<noteq> None" "between_ends d user now"
  shows "getCurrentUserRoleAt (approved_perms users d) user now = role_text {l. granted d user now l}"
proof -
  let ?as = "map (\<lambda>r. projr (scanApproval (Inr r))) (filter (\<lambda>r. ar_status r = ApprovalPass) (t_approval d))"
  have "proper []" by (simp add: proper_def)
  then have p: "proper (approved_perms users d)"
    unfolding approved_perms_def by (intro merged_proper bucket_loop_proper)
  have "(\<exists>r\<in>set (entry (entry (approved_perms users d) user) l). covers now r) \<longleftrightarrow> granted d user now l" for l
  proof -
    let ?spans = "map span_of (filter (\<lambda>a. tap_User a = user \<and> tap_ApprovalPermissions a = l \<and> map_of users user \<noteq> None) ?as)"
    have "entry (entry (approved_perms users d) user) l = mergeRangeTimes ?spans"
      unfolding approved_perms_def merged_entry bucket_loop_entry by (simp add: entry_def)
    moreover have "\<forall>x\<in>set ?spans. tp_StartTime x \<le> tp_EndTime x \<and> tp_StartTime x \<noteq> now \<and> tp_EndTime x \<noteq> now"
      using assms(2) by (auto simp: between_ends_def span_of_def)
    ultimately have "(\<exists>r\<in>set (entry (entry (approved_perms users d) user) l). covers now r) \<longleftrightarrow> (\<exists>x\<in>set ?spans. covers now x)"
      using merge_covers by simp
    also have "\<dots> \<longleftrightarrow> granted d user now l"
      using assms(1) by (auto simp: granted_def covers_def span_of_def)
    finally show ?thesis .
  qed
  then show ?thesis unfolding getCurrentUserRoleAt_text [OF p] by simp
qed

lemma quiet_BatchUpdateUserRole:
  assumes "quiet w" "roleMap \<noteq> []"
  shows "t_user (w_db (snd (run_state (BatchUpdateUserRole roleMap) w))) =
    set_where (\<lambda>r. \<exists>u\<in>set (map fst roleMap). db_eq (w_db w) (tu_User r) u)
      (\<lambda>u. u\<lparr>tu_Role := the (sql_case (db_eq (w_db w)) roleMap (tu_User u)), tu_RoleUpdateTime := w_fmt w (w_clock w (w_n w))\<rparr>)
      (t_user (w_db w))"
proof -
  obtain d' k j where st: "role_stmt roleMap (w_fmt w (w_clock w (w_n w))) (w_db w) = Inr (d', k, j)"
    by (auto simp: role_stmt_def sql_update_def Let_def)
  note run = sql_update_run [OF st [unfolded role_stmt_def]]
  have "quiet (w\<lparr>w_n := Suc (w_n w), w_db := d'\<rparr>)" using assms(1) by simp
  from quiet_BumpMetaVersion [OF this, of MetaKeyUser] obtain n m
    where "run_state (BumpMetaVersion MetaKeyUser) (w\<lparr>w_n := Suc (w_n w), w_db := d'\<rparr>) =
      ((), w\<lparr>w_n := n, w_db := d'\<lparr>t_meta := m\<rparr>\<rparr>)" by auto
  then have "t_user (w_db (snd (run_state (BatchUpdateUserRole roleMap) w))) = t_user d'"
    using assms(2) by (simp add: BatchUpdateUserRole_def quiet_exec [OF assms(1)] st bump_on_success_def)
  then show ?thesis unfolding run(1) by (simp add: touch_def)
qed

lemma sql_case_map:
  "(\<And>u. u \<in> set us \<Longrightarrow> eq x (k u) \<longleftrightarrow> x = k u) \<Longrightarrow> x \<in> k ` set us \<Longrightarrow>
    sql_case eq (map (\<lambda>u. (k u, f (k u))) us) x = Some (f x)"
  by (induction us) auto

text \<open>The statement for the users whose role differs leaves every user with the role of \<open>R\<close>.\<close>

lemma batch_roles:
  assumes "quiet w" "distinct (map tu_User (t_user (w_db w)))"
    and "\<forall>u\<in>set (t_user (w_db w)). \<forall>v\<in>set (t_user (w_db w)). db_eq (w_db w) (tu_User u) (tu_User v) \<longleftrightarrow> tu_User u = tu_User v"
    and need: "need = filter (\<lambda>u. tu_Role u \<noteq> R (tu_User u)) (t_user (w_db w))"
  shows "(if need = [] then t_user (w_db w)
      else t_user (w_db (snd (run_state (BatchUpdateUserRole (map (\<lambda>u. (tu_User u, R (tu_User u))) need)) w)))) =
    map (\<lambda>u. if tu_Role u = R (tu_User u) then u
             else u\<lparr>tu_Role := R (tu_User u), tu_RoleUpdateTime := w_fmt w (w_clock w (w_n w))\<rparr>) (t_user (w_db w))"
    (is "_ = map ?g ?us")
proof -
  let ?d = "w_db w"
  have eq: "db_eq ?d (tu_User u) (tu_User v) \<longleftrightarrow> tu_User u = tu_User v" if "u \<in> set ?us" "v \<in> set need" for u v
    using assms(3) that by (simp add: need)
  have "(\<exists>v\<in>set need. db_eq ?d (tu_User u) (tu_User v)) \<longleftrightarrow> tu_Role u \<noteq> R (tu_User u)" if u: "u \<in> set ?us" for u
    using u eq [OF u] assms(2) by (auto simp: need distinct_map dest: inj_onD)
  moreover have "sql_case (db_eq ?d) (map (\<lambda>u. (tu_User u, R (tu_User u))) need) (tu_User u) = Some (R (tu_User u))"
    if "u \<in> set ?us" "tu_Role u \<noteq> R (tu_User u)" for u
    using sql_case_map [of need "db_eq ?d" "tu_User u" tu_User R] eq [OF that(1)] that by (simp add: need)
  ultimately have row: "(if \<exists>v\<in>set need. db_eq ?d (tu_User u) (tu_User v)
      then u\<lparr>tu_Role := the (sql_case (db_eq ?d) (map (\<lambda>u. (tu_User u, R (tu_User u))) need) (tu_User u)),
             tu_RoleUpdateTime := w_fmt w (w_clock w (w_n w))\<rparr> else u) = ?g u" if "u \<in> set ?us" for u
    using that by (simp cong: if_cong)
  show ?thesis
  proof (cases "need = []")
    case True
    then have "?g u = u" if "u \<in> set ?us" for u
      using that by (auto simp: need filter_empty_conv)
    with True show ?thesis by (simp add: map_idI)
  next
    case False
    then show ?thesis
      using quiet_BatchUpdateUserRole [OF assms(1), of "map (\<lambda>u. (tu_User u, R (tu_User u))) need"] row
      by (simp add: set_where_def image_iff cong: map_cong)
  qed
qed

text \<open>
  C25. The roles of the users are those of their approvals.  One turn of the daemon, with nothing
  failing and nobody else writing, leaves every user with exactly the levels of the granted
  approvals that hold at the time, sorted and joined - or with \<open>null\<close> when there are
  none - and touches only rows whose role was another.  Nothing failing includes that the text fits
  the column, a \<open>varchar(30)\<close>, whose width is not modelled.
\<close>

theorem roles_follow_approvals:
  assumes "quiet w" "distinct (map tu_User (t_user (w_db w)))"
    and "\<forall>u\<in>set (t_user (w_db w)). \<forall>v\<in>set (t_user (w_db w)). db_eq (w_db w) (tu_User u) (tu_User v) \<longleftrightarrow> tu_User u = tu_User v"
    and "now = w_clock w (w_n w + 2)" "\<forall>u\<in>set (t_user (w_db w)). between_ends (w_db w) (tu_User u) now"
  shows "t_user (w_db (snd (run_state (periodicUserUpdate ps) w))) =
    map (\<lambda>u. let role = role_text {l. granted (w_db w) (tu_User u) now l}
             in if tu_Role u = role then u else u\<lparr>tu_Role := role, tu_RoleUpdateTime := w_fmt w now\<rparr>) (t_user (w_db w))"
proof -
  let ?d = "w_db w" and ?us = "t_user (w_db w)"
  let ?users = "map (\<lambda>u. (tu_User u, u)) ?us" and ?w2 = "w\<lparr>w_n := Suc (Suc (w_n w))\<rparr>"
  define R where "R = (\<lambda>user. role_text {l. granted ?d user now l})"
  define need where "need = filter (\<lambda>u. tu_Role u \<noteq> R (tu_User u)) ?us"
  have q: "quiet (w\<lparr>w_n := Suc (w_n w)\<rparr>)" "quiet ?w2" using assms(1) by simp_all
  have clk: "w_clock w (Suc (Suc (w_n w))) = now" using assms(4) by simp
  have role: "getCurrentUserRoleAt (approved_perms ?users ?d) (tu_User u) now = R (tu_User u)" if "u \<in> set ?us" for u
  proof -
    have "map_of ?users (tu_User u) \<noteq> None" using that by (simp add: map_of_eq_None_iff image_image)
    then show ?thesis unfolding R_def using that assms(5) by (intro approved_perms_role) auto
  qed
  have upd: "role_updates ?users (approved_perms ?users ?d) now = map (\<lambda>u. (tu_User u, R (tu_User u))) need"
    unfolding role_updates_def need_def filter_map map_map comp_def
    by (simp add: role cong: filter_cong)
  have "t_user (w_db (snd (run_state (periodicUserUpdate ps) w))) =
      (if need = [] then t_user (w_db ?w2)
       else t_user (w_db (snd (run_state (BatchUpdateUserRole (map (\<lambda>u. (tu_User u, R (tu_User u))) need)) ?w2))))"
    by (simp add: periodicUserUpdate_def quiet_UpdateUserInfos [OF assms(1,2)] quiet_UpdateRoleInfos [OF q(1)]
        UpdateDatabase_def clk upd split_beta Let_def)
  then show ?thesis
    using batch_roles [OF q(2), of need R] assms(2,3) clk by (simp add: need_def R_def Let_def)
qed

text \<open>A granted approval, a pending one and one that is over, for two users.\<close>

definition approval :: "int \<Rightarrow> string \<Rightarrow> string \<Rightarrow> int \<Rightarrow> int \<Rightarrow> int \<Rightarrow> approval_row" where
  "approval i user level start end status = \<lparr>ar_id = i, ar_create_time = 0, ar_user = user, ar_approval_permissions = level,
     ar_start_time = start, ar_end_time = end, ar_status = status, ar_approver = None, ar_approve_time = None\<rparr>"

definition role_db :: db where
  "role_db = example_db\<lparr>t_user := [example_user ''bob'', example_user ''eve''],
     t_approval := [approval 1 ''bob'' ''net'' (- 5) 10 4, approval 2 ''bob'' ''adm'' (- 9) 20 4,
       approval 3 ''eve'' ''adm'' (- 9) 20 3, approval 4 ''eve'' ''ops'' (- 9) (- 2) 4]\<rparr>"

theorem roles_follow_approvals_witness:
  "map tu_Role (t_user (w_db (snd (run_state (periodicUserUpdate NewPermissionSystem) (calm_world role_db))))) =
     [''adm,net'', ''null'']"
proof -
  let ?w = "calm_world role_db"
  have q: "quiet ?w" by (simp add: quiet_def calm_world_def)
  have d: "w_db ?w = role_db" by (simp add: calm_world_def)
  have 1: "distinct (map tu_User (t_user (w_db ?w)))"
    and 2: "\<forall>u\<in>set (t_user (w_db ?w)). \<forall>v\<in>set (t_user (w_db ?w)). db_eq (w_db ?w) (tu_User u) (tu_User v) \<longleftrightarrow> tu_User u = tu_User v"
    and 3: "0 = w_clock ?w (w_n ?w + 2)"
    and 4: "\<forall>u\<in>set (t_user (w_db ?w)). between_ends (w_db ?w) (tu_User u) 0"
    by (simp_all add: calm_world_def role_db_def example_db_def example_user_def between_ends_def approval_def)
  have g: "{l. granted role_db ''bob'' 0 l} = {''adm'', ''net''}" "{l. granted role_db ''eve'' 0 l} = {}"
    by (auto simp: granted_def role_db_def approval_def approval_status)
  have "role_text {''adm'', ''net''} = ''adm,net''"
    by (simp add: role_text_def)
  with g roles_follow_approvals [OF q 1 2 3 4, of NewPermissionSystem] show ?thesis
    by (simp add: d Let_def) (simp add: role_db_def example_user_def role_text_def)
qed

theorem merge_exact_witness:
  "let s = (\<lambda>a b. \<lparr>tp_StartTime = a, tp_EndTime = b, tp_Permissions = ''ops''\<rparr>)
   in (\<forall>t. (\<exists>r\<in>set (merge_sorted [s 1 5, s 5 7, s 9 10]). within t r) \<longleftrightarrow> (\<exists>x\<in>set [s 9 10, s 1 5, s 5 7]. within t x)) \<and>
      merge_sorted [s 1 5, s 5 7, s 9 10] = [s 1 7, s 9 10]"
  using merge_exact [of "[\<lparr>tp_StartTime = 1, tp_EndTime = 5, tp_Permissions = ''ops''\<rparr>,
      \<lparr>tp_StartTime = 5, tp_EndTime = 7, tp_Permissions = ''ops''\<rparr>,
      \<lparr>tp_StartTime = 9, tp_EndTime = 10, tp_Permissions = ''ops''\<rparr>]"
    "[\<lparr>tp_StartTime = 9, tp_EndTime = 10, tp_Permissions = ''ops''\<rparr>,
      \<lparr>tp_StartTime = 1, tp_EndTime = 5, tp_Permissions = ''ops''\<rparr>,
      \<lparr>tp_StartTime = 5, tp_EndTime = 7, tp_Permissions = ''ops''\<rparr>]"]
  unfolding Let_def by (simp add: merge_sorted_def)

subsection \<open>Passwords\<close>

text \<open>The snapshot of the daemon is the table.\<close>

definition fresh_users :: "PermissionSystem \<Rightarrow> world \<Rightarrow> bool" where
  "fresh_users ps w = (ps_userInfos ps = map (\<lambda>u. (tu_User u, u)) (t_user (w_db w)))"

text \<open>An enabled user whose password is older than the limit.\<close>

definition overdue :: "(string \<Rightarrow> int result) \<Rightarrow> int \<Rightarrow> TacacsUser \<Rightarrow> bool" where
  "overdue parse now u = (tu_Status u = ''1'' \<and>
     (case parse (tu_PasswordUpdateTime u) of Inl e \<Rightarrow> False | Inr t \<Rightarrow> now - t > secs PasswordTimeout))"

text \<open>A suspended user whose password is younger than the limit.\<close>

definition renewed :: "(string \<Rightarrow> int result) \<Rightarrow> int \<Rightarrow> TacacsUser \<Rightarrow> bool" where
  "renewed parse now u = (tu_Status u = ''2'' \<and>
     (case parse (tu_PasswordUpdateTime u) of Inl e \<Rightarrow> False | Inr t \<Rightarrow> now - t < secs PasswordTimeout))"

lemma Sub_compare:
  "\<bar>b\<bar> < 2 ^ 62 \<Longrightarrow> Sub t u > b \<longleftrightarrow> t - u > b" "\<bar>b\<bar> < 2 ^ 62 \<Longrightarrow> Sub t u < b \<longleftrightarrow> t - u < b"
  by (auto simp: Sub_def)

lemma timeout_loop_expires:
  "fst (timeout_loop parse h now us) = map fst (filter (\<lambda>(user, info). overdue parse now info) us)"
proof (induction us)
  case (Cons x us)
  obtain user info where x: "x = (user, info)" by (cases x)
  obtain es as where rest: "timeout_loop parse h now us = (es, as)" by (cases "timeout_loop parse h now us")
  have "fst (timeout_loop parse h now (x # us)) = (if overdue parse now info then user # es else es)"
    by (simp add: x rest overdue_def permission_consts Sub_compare Let_def split: sum.split option.split)
  with Cons show ?case by (simp add: x rest del: timeout_loop.simps)
qed simp

lemma restorable_renewed: "restorable parse now u = renewed parse now u"
  by (auto simp: restorable_def renewed_def permission_consts Sub_compare split: sum.split)

lemma quiet_BatchUpdateUserStatus:
  assumes "quiet w" "users \<noteq> []"
  shows "\<exists>n d'. run_state (BatchUpdateUserStatus users status) w = (None, w\<lparr>w_n := n, w_db := d'\<rparr>) \<and>
    t_user d' = set_where (\<lambda>r. \<exists>u\<in>set users. db_eq (w_db w) (tu_User r) u)
      (\<lambda>u. u\<lparr>tu_Status := status, tu_StatusUpdateTime := w_fmt w (w_clock w (w_n w))\<rparr>) (t_user (w_db w))"
proof -
  let ?st = "sql_update MetaKeyUser t_user t_user_update (\<lambda>d r. \<exists>u\<in>set users. db_eq d (tu_User r) u)
    (\<lambda>u. u\<lparr>tu_Status := status, tu_StatusUpdateTime := w_fmt w (w_clock w (w_n w))\<rparr>)"
  obtain d' k j where st: "?st (w_db w) = Inr (d', k, j)" by (auto simp: sql_update_def Let_def)
  note run = sql_update_run [OF st]
  have "quiet (w\<lparr>w_n := Suc (w_n w), w_db := d'\<rparr>)" using assms(1) by simp
  from quiet_BumpMetaVersion [OF this, of MetaKeyUser] obtain n m
    where "run_state (BumpMetaVersion MetaKeyUser) (w\<lparr>w_n := Suc (w_n w), w_db := d'\<rparr>) =
      ((), w\<lparr>w_n := n, w_db := d'\<lparr>t_meta := m\<rparr>\<rparr>)" by auto
  then have "run_state (BatchUpdateUserStatus users status) w = (None, w\<lparr>w_n := n, w_db := d'\<lparr>t_meta := m\<rparr>\<rparr>)"
    using assms(2) by (simp add: BatchUpdateUserStatus_def quiet_exec [OF assms(1)] st bump_on_success_def)
  moreover have "t_user d' = set_where (\<lambda>r. \<exists>u\<in>set users. db_eq (w_db w) (tu_User r) u)
      (\<lambda>u. u\<lparr>tu_Status := status, tu_StatusUpdateTime := w_fmt w (w_clock w (w_n w))\<rparr>) (t_user (w_db w))"
    unfolding run(1) by (simp add: touch_def)
  ultimately show ?thesis by (intro exI [of _ n] exI [of _ "d'\<lparr>t_meta := m\<rparr>"]) simp
qed

text \<open>User names are unique, also for the comparison of the database.\<close>

definition unique_users :: "db \<Rightarrow> bool" where
  "unique_users d = (distinct (map tu_User (t_user d)) \<and>
     (\<forall>u\<in>set (t_user d). \<forall>v\<in>set (t_user d). db_eq d (tu_User u) (tu_User v) \<longleftrightarrow> tu_User u = tu_User v))"

lemma named_rows:
  assumes "unique_users d" "u \<in> set (t_user d)"
  shows "(\<exists>x\<in>set (map tu_User (filter P (t_user d))). db_eq d (tu_User u) x) \<longleftrightarrow> P u"
proof
  assume "\<exists>x\<in>set (map tu_User (filter P (t_user d))). db_eq d (tu_User u) x"
  then obtain v where v: "v \<in> set (t_user d)" "P v" "db_eq d (tu_User u) (tu_User v)" by auto
  then have "tu_User u = tu_User v" using assms by (simp add: unique_users_def)
  then have "u = v" using assms v(1) by (auto simp: unique_users_def distinct_map dest: inj_onD)
  then show "P u" using v(2) by simp
next
  assume "P u"
  then show "\<exists>x\<in>set (map tu_User (filter P (t_user d))). db_eq d (tu_User u) x"
    using assms by (auto simp: unique_users_def)
qed

lemma fresh_names:
  "fresh_users ps w \<Longrightarrow> map fst (filter (\<lambda>(user, info). P info) (ps_userInfos ps)) = map tu_User (filter P (t_user (w_db w)))"
  by (simp add: fresh_users_def filter_map comp_def)

lemma status_rows:
  assumes "unique_users d"
  shows "set_where (\<lambda>r. \<exists>x\<in>set (map tu_User (filter P (t_user d))). db_eq d (tu_User r) x) f (t_user d) =
    map (\<lambda>u. if P u then f u else u) (t_user d)"
  unfolding set_where_def by (rule map_cong [OF refl]) (simp only: named_rows [OF assms])

lemma UnTimeout_db:
  assumes "map fst (filter (\<lambda>(user, info). restorable (ne_Parse env) (w_clock w (w_n w)) info) (ps_userInfos ps)) = names"
  shows "w_db (snd (run_state (CheckPasswordUnTimeout env ps) w)) =
    w_db (snd (run_state (if names = [] then ret None else BatchUpdateUserStatus names ''1'') w))"
proof -
  have "run_state (CheckPasswordUnTimeout env ps) w = run_state
    (if length names = 0 then ret ([], ps)
     else do {
       err \<leftarrow> BatchUpdateUserStatus names ''1'';
       if err \<noteq> None then ret ([], ps)
       else ret (map (\<lambda>user. PasswordCard user ''restored'' 0) names, ps\<lparr>ps_alarmHistory := foldl Delete (ps_alarmHistory ps) names\<rparr>)
     }) w"
    unfolding assms [symmetric] by (simp add: CheckPasswordUnTimeout_def ps_userStatusNormal_def Let_def)
  then show ?thesis by (simp add: split_beta)
qed

text \<open>
  C26. The daemon suspends exactly the enabled users whose password is older than ninety days and
  enables exactly the suspended users whose password is younger, on a snapshot that is current and
  with nothing failing; all other rows keep every column.  No user qualifies for both, so the two
  tasks do not undo each other.
\<close>

theorem password_age_decides:
  assumes "quiet w" "unique_users (w_db w)" "fresh_users ps w" "now = w_clock w (w_n w)"
  shows "t_user (w_db (snd (run_state (CheckPasswordTimeout env ps) w))) =
      map (\<lambda>u. if overdue (ne_Parse env) now u then u\<lparr>tu_Status := ''2'', tu_StatusUpdateTime := w_fmt w now\<rparr> else u)
        (t_user (w_db w)) \<and>
    t_user (w_db (snd (run_state (CheckPasswordUnTimeout env ps) w))) =
      map (\<lambda>u. if renewed (ne_Parse env) now u then u\<lparr>tu_Status := ''1'', tu_StatusUpdateTime := w_fmt w now\<rparr> else u)
        (t_user (w_db w)) \<and>
    (\<forall>later u. now \<le> later \<longrightarrow> overdue (ne_Parse env) now u \<longrightarrow> \<not> renewed (ne_Parse env) later (u\<lparr>tu_Status := ''2''\<rparr>))"
proof (intro conjI allI impI)
  let ?us = "t_user (w_db w)"
  have batch: "t_user (w_db (snd (run_state (if names = [] then ret None else BatchUpdateUserStatus names s) w))) =
      map (\<lambda>u. if P u then u\<lparr>tu_Status := s, tu_StatusUpdateTime := w_fmt w now\<rparr> else u) ?us"
    if names: "names = map tu_User (filter P ?us)" for names P s
  proof (cases "names = []")
    case True
    then have "map (\<lambda>u. if P u then u\<lparr>tu_Status := s, tu_StatusUpdateTime := w_fmt w now\<rparr> else u) ?us = ?us"
      using names by (intro map_idI) (auto simp: filter_empty_conv)
    then show ?thesis using True by simp
  next
    case False
    obtain n d' where "run_state (BatchUpdateUserStatus names s) w = (None, w\<lparr>w_n := n, w_db := d'\<rparr>)"
      and "t_user d' = set_where (\<lambda>r. \<exists>u\<in>set names. db_eq (w_db w) (tu_User r) u)
        (\<lambda>u. u\<lparr>tu_Status := s, tu_StatusUpdateTime := w_fmt w (w_clock w (w_n w))\<rparr>) ?us"
      using quiet_BatchUpdateUserStatus [OF assms(1) False, of s] by blast
    then show ?thesis using False unfolding names status_rows [OF assms(2)] assms(4) by simp
  qed
  have 1: "fst (timeout_loop (ne_Parse env) h now (ps_userInfos ps)) = map tu_User (filter (overdue (ne_Parse env) now) ?us)" for h
    unfolding timeout_loop_expires using fresh_names [OF assms(3)] by simp
  show "t_user (w_db (snd (run_state (CheckPasswordTimeout env ps) w))) =
      map (\<lambda>u. if overdue (ne_Parse env) now u then u\<lparr>tu_Status := ''2'', tu_StatusUpdateTime := w_fmt w now\<rparr> else u) ?us"
    using batch [OF 1, of "ps_alarmHistory ps" "''2''"]
    by (cases "fst (timeout_loop (ne_Parse env) (ps_alarmHistory ps) now (ps_userInfos ps)) = []")
      (simp_all add: CheckPasswordTimeout_def split_beta assms(4) [symmetric] ps_userStatusPause_def Let_def cong: if_cong)
  have 2: "map fst (filter (\<lambda>(user, info). restorable (ne_Parse env) now info) (ps_userInfos ps)) =
      map tu_User (filter (renewed (ne_Parse env) now) ?us)"
    unfolding restorable_renewed using fresh_names [OF assms(3)] .
  show "t_user (w_db (snd (run_state (CheckPasswordUnTimeout env ps) w))) =
      map (\<lambda>u. if renewed (ne_Parse env) now u then u\<lparr>tu_Status := ''1'', tu_StatusUpdateTime := w_fmt w now\<rparr> else u) ?us"
    using batch [OF refl, of "renewed (ne_Parse env) now" "''1''"] UnTimeout_db [OF 2 [unfolded assms(4)]]
    by (simp only: assms(4))
next
  fix later u assume "now \<le> later" "overdue (ne_Parse env) now u"
  then show "\<not> renewed (ne_Parse env) later (u\<lparr>tu_Status := ''2''\<rparr>)"
    by (auto simp: overdue_def renewed_def split: sum.splits)
qed

text \<open>
  A snapshot that is out of date re-enables an account.  The daemon enables by name, whatever
  the row says by now: an account that an administrator has disabled since the snapshot was read is
  enabled again when the snapshot shows it suspended with a renewed password.
\<close>

theorem stale_snapshot_enables_disabled:
  assumes "quiet w" "unique_users (w_db w)" "u \<in> set (t_user (w_db w))" "tu_Status u = ''0''"
    and "(tu_User u, info) \<in> set (ps_userInfos ps)" "renewed (ne_Parse env) (w_clock w (w_n w)) info"
  shows "\<exists>v\<in>set (t_user (w_db (snd (run_state (CheckPasswordUnTimeout env ps) w)))). tu_User v = tu_User u \<and> tu_Status v = ''1''"
proof -
  let ?now = "w_clock w (w_n w)"
  define names where "names = map fst (filter (\<lambda>(user, info). restorable (ne_Parse env) ?now info) (ps_userInfos ps))"
  have u: "tu_User u \<in> set names"
    using assms(5,6) by (force simp: names_def restorable_renewed)
  then have ne: "names \<noteq> []" by auto
  obtain n d' where run: "run_state (BatchUpdateUserStatus names ''1'') w = (None, w\<lparr>w_n := n, w_db := d'\<rparr>)"
    and d': "t_user d' = set_where (\<lambda>r. \<exists>u\<in>set names. db_eq (w_db w) (tu_User r) u)
      (\<lambda>u. u\<lparr>tu_Status := ''1'', tu_StatusUpdateTime := w_fmt w ?now\<rparr>) (t_user (w_db w))"
    using quiet_BatchUpdateUserStatus [OF assms(1) ne] by blast
  have "\<exists>x\<in>set names. db_eq (w_db w) (tu_User u) x" using u assms(2,3) by (auto simp: unique_users_def)
  then have "u\<lparr>tu_Status := ''1'', tu_StatusUpdateTime := w_fmt w ?now\<rparr> \<in> set (t_user d')"
    unfolding d' set_where_def using assms(3) by force
  moreover have "w_db (snd (run_state (CheckPasswordUnTimeout env ps) w)) = d'"
    unfolding UnTimeout_db [OF names_def [symmetric]] using ne run by simp
  ultimately show ?thesis
    by (intro bexI [of _ "u\<lparr>tu_Status := ''1'', tu_StatusUpdateTime := w_fmt w ?now\<rparr>"]) simp_all
qed

subsection \<open>A read that breaks off\<close>

lemma BatchUpdateUserRole_reads:
  "w_db (snd (run_state (BatchUpdateUserRole m) (w\<lparr>w_rfault := f\<rparr>))) = w_db (snd (run_state (BatchUpdateUserRole m) w))"
  by (simp add: BatchUpdateUserRole_def exec_def Let_def bump_on_success_def BumpMetaVersion_def bump_stmt_def
      split: sum.split exec_fault.split option.split)

text \<open>
  C27. A read of the approvals that breaks off revokes roles.  \<open>GetTacacsApproval\<close> does not look at
  \<open>rows.Err\<close>: when the connection is lost before the first row, the daemon takes the table for
  empty and sets every user's role to \<open>null\<close>.
\<close>

theorem broken_read_revokes_roles:
  assumes "quiet w" "unique_users (w_db w)"
    and "w' = w\<lparr>w_rfault := (\<lambda>n. if n = Suc (w_n w) then NextErr 0 e else NoFault)\<rparr>"
  shows "\<forall>u\<in>set (t_user (w_db (snd (run_state (periodicUserUpdate ps) w')))). tu_Role u = ''null''"
proof -
  let ?us = "t_user (w_db w)" and ?f = "\<lambda>n. if n = Suc (w_n w) then NextErr 0 e else NoFault"
  let ?w2 = "w\<lparr>w_n := Suc (Suc (w_n w))\<rparr>"
  define need where "need = filter (\<lambda>u. tu_Role u \<noteq> ''null'') ?us"
  have q: "\<And>n d. w_replica w n d = d" using assms(1) by (simp add: quiet_def)
  have d: "distinct (map tu_User ?us)" using assms(2) by (simp add: unique_users_def)
  have 1: "run_state (UpdateUserInfos ps) w' =
      (ps\<lparr>ps_userInfos := map (\<lambda>u. (tu_User u, u)) ?us\<rparr>, w'\<lparr>w_n := Suc (w_n w)\<rparr>)"
    using foldl_update_distinct [OF d, of "[]"] q
    by (simp add: UpdateUserInfos_def GetTacacsUserInfos_def query_def assms(3))
  have 2: "run_state (UpdateRoleInfos p) (w'\<lparr>w_n := Suc (w_n w)\<rparr>) =
      (p\<lparr>ps_permissionsInfo := []\<rparr>, w'\<lparr>w_n := Suc (Suc (w_n w))\<rparr>)" for p
    by (simp add: UpdateRoleInfos_def GetTacacsApproval_def ApprovalPass_def query_def assms(3) Let_def)
  have upd: "role_updates (map (\<lambda>u. (tu_User u, u)) ?us) [] t = map (\<lambda>u. (tu_User u, ''null'')) need" for t
    by (simp add: role_updates_def need_def getCurrentUserRoleAt_def filter_map comp_def)
  have w2: "w'\<lparr>w_n := Suc (Suc (w_n w))\<rparr> = ?w2\<lparr>w_rfault := ?f\<rparr>" by (simp add: assms(3))
  have "t_user (w_db (snd (run_state (periodicUserUpdate ps) w'))) =
      (if need = [] then t_user (w_db ?w2)
       else t_user (w_db (snd (run_state (BatchUpdateUserRole (map (\<lambda>u. (tu_User u, ''null'')) need)) ?w2))))"
    by (simp add: periodicUserUpdate_def 1 2 UpdateDatabase_def upd split_beta Let_def w2 BatchUpdateUserRole_reads)
  also have "\<dots> = map (\<lambda>u. if tu_Role u = ''null'' then u
      else u\<lparr>tu_Role := ''null'', tu_RoleUpdateTime := w_fmt ?w2 (w_clock ?w2 (w_n ?w2))\<rparr>) (t_user (w_db ?w2))"
    using assms(1,2) by (intro batch_roles) (simp_all add: need_def unique_users_def)
  finally show ?thesis by auto
qed

subsection \<open>Roles that run out\<close>

lemma span_loop_alerts:
  assumes "sorted_wrt (\<lambda>a b. tp_EndTime a < tp_StartTime b) rs"
  shows "set (span_loop user level now rs) =
    {a. \<exists>r\<in>set rs. covers now r \<and> expiry_tier (Sub (tp_EndTime r) now) \<noteq> [] \<and>
      a = \<lparr>rx_user = user, rx_level = level, rx_expireAt = tp_EndTime r, rx_tier = expiry_tier (Sub (tp_EndTime r) now)\<rparr>}"
  using assms
proof (induction rs)
  case (Cons r rs)
  have "\<not> covers now x" if "covers now r" "x \<in> set rs" for x
    using Cons(2) that by (auto simp: covers_def dest!: bspec)
  then show ?case using Cons by (cases "covers now r") (auto simp: Let_def)
qed simp

definition apart :: "perms \<Rightarrow> bool" where
  "apart perms = (\<forall>user level. sorted_wrt (\<lambda>a b. tp_EndTime a < tp_StartTime b) (entry (entry perms user) level))"

text \<open>
  C28. Warnings are exact.  On merged time spans the warnings are one for each user and level with
  a span around the present that ends within three days, with its end and the tier of the time that
  is left - three days, one day or twelve hours.
\<close>

theorem expiry_alerts_exact:
  assumes "proper perms" "apart perms"
  shows "a \<in> set (computeRoleExpiryAlerts perms now) \<longleftrightarrow>
    (\<exists>r\<in>set (entry (entry perms (rx_user a)) (rx_level a)). covers now r \<and> rx_expireAt a = tp_EndTime r \<and>
      tp_EndTime r - now \<le> 72 * secs 3600 \<and>
      rx_tier a = (if tp_EndTime r - now \<le> 12 * secs 3600 then ''12h''
                   else if tp_EndTime r - now \<le> 24 * secs 3600 then ''1d'' else ''3d''))"
proof -
  have outer: "(u, b) \<in> set perms \<Longrightarrow> entry perms u = b" for u b
    using assms(1) by (simp add: entry_set proper_def)
  have inner: "(u, b) \<in> set perms \<Longrightarrow> (l, rs) \<in> set b \<Longrightarrow> entry b l = rs" for u b l rs
    using assms(1) by (intro entry_set) (force simp: proper_def)+
  have tier: "expiry_tier (Sub e now) \<noteq> [] \<longleftrightarrow> e - now \<le> 72 * secs 3600"
    "e - now \<le> 72 * secs 3600 \<Longrightarrow> expiry_tier (Sub e now) =
      (if e - now \<le> 12 * secs 3600 then ''12h'' else if e - now \<le> 24 * secs 3600 then ''1d'' else ''3d'')" for e
    by (auto simp: expiry_tier_def Sub_def permission_consts)
  have "a \<in> set (computeRoleExpiryAlerts perms now) \<longleftrightarrow>
      (\<exists>u b l rs. (u, b) \<in> set perms \<and> (l, rs) \<in> set b \<and> a \<in> set (span_loop u l now rs))"
    by (force simp: computeRoleExpiryAlerts_def)
  also have "\<dots> \<longleftrightarrow> (\<exists>u l. a \<in> set (span_loop u l now (entry (entry perms u) l)))"
  proof
    assume "\<exists>u b l rs. (u, b) \<in> set perms \<and> (l, rs) \<in> set b \<and> a \<in> set (span_loop u l now rs)"
    then obtain u b l rs where *: "(u, b) \<in> set perms" "(l, rs) \<in> set b" "a \<in> set (span_loop u l now rs)" by blast
    have "entry (entry perms u) l = rs" using outer [OF *(1)] inner [OF *(1,2)] by simp
    then show "\<exists>u l. a \<in> set (span_loop u l now (entry (entry perms u) l))" using *(3) by blast
  next
    assume "\<exists>u l. a \<in> set (span_loop u l now (entry (entry perms u) l))"
    then obtain u l where *: "a \<in> set (span_loop u l now (entry (entry perms u) l))" by blast
    then have ne: "entry (entry perms u) l \<noteq> []" by auto
    then have "entry perms u \<noteq> []" by (auto simp: entry_def)
    from entry_present [OF this] entry_present [OF ne] *
    show "\<exists>u b l rs. (u, b) \<in> set perms \<and> (l, rs) \<in> set b \<and> a \<in> set (span_loop u l now rs)"
      by blast
  qed
  also have "\<dots> \<longleftrightarrow> (\<exists>r\<in>set (entry (entry perms (rx_user a)) (rx_level a)). covers now r \<and> rx_expireAt a = tp_EndTime r \<and>
      expiry_tier (Sub (tp_EndTime r) now) \<noteq> [] \<and> rx_tier a = expiry_tier (Sub (tp_EndTime r) now))"
  proof -
    have eq: "a = \<lparr>rx_user = u, rx_level = l, rx_expireAt = e, rx_tier = t\<rparr> \<longleftrightarrow>
        rx_user a = u \<and> rx_level a = l \<and> rx_expireAt a = e \<and> rx_tier a = t" for u l e t
      by (cases a) auto
    have "sorted_wrt (\<lambda>a b. tp_EndTime a < tp_StartTime b) (entry (entry perms u) l)" for u l
      using assms(2) by (simp add: apart_def)
    note alerts = span_loop_alerts [OF this]
    show ?thesis unfolding alerts mem_Collect_eq eq by blast
  qed
  also have "\<dots> \<longleftrightarrow> (\<exists>r\<in>set (entry (entry perms (rx_user a)) (rx_level a)). covers now r \<and> rx_expireAt a = tp_EndTime r \<and>
      tp_EndTime r - now \<le> 72 * secs 3600 \<and>
      rx_tier a = (if tp_EndTime r - now \<le> 12 * secs 3600 then ''12h''
                   else if tp_EndTime r - now \<le> 24 * secs 3600 then ''1d'' else ''3d''))"
    using tier by (intro bex_cong refl) metis
  finally show ?thesis .
qed

definition remembered :: "(string, int) TypedSyncMap \<Rightarrow> string \<Rightarrow> int \<Rightarrow> bool" where
  "remembered h key now = (case Get h key of Some sent \<Rightarrow> Sub now sent < roleExpiryAlarmDedupWindow | None \<Rightarrow> False)"

lemma sent_history:
  "foldl (\<lambda>h a. if P a then Set h (k a) t else h) h as x =
    (if \<exists>a\<in>set as. P a \<and> k a = x then Some t else h x)"
  by (induction as arbitrary: h) (auto simp: Set_def)

lemma CheckRolePermissionExpiry_run:
  "run_state (CheckRolePermissionExpiry env ps) w =
    (let pending = filter (\<lambda>a. \<not> remembered (ps_roleExpiryAlarmHistory ps) (dedupKey a) (w_clock w (w_n w)))
           (computeRoleExpiryAlerts (ps_permissionsInfo ps) (w_clock w (w_n w)))
     in ((map expiry_card pending, ps\<lparr>ps_roleExpiryAlarmHistory :=
          foldl (\<lambda>h a. if ne_send env (expiry_card a) then Set h (dedupKey a) (w_clock w (w_n w)) else h)
            (ps_roleExpiryAlarmHistory ps) pending\<rparr>), w))"
  by (simp add: CheckRolePermissionExpiry_def remembered_def Let_def)

lemma expiry_card_inj: "expiry_card a = expiry_card b \<longleftrightarrow> a = b"
  by (cases a; cases b) (auto simp: expiry_card_def)

text \<open>
  A warning is not repeated within a day.  When a check has sent the card of a role that runs
  out, no later check within twenty-four hours sends that card again, whatever its snapshot of the
  approvals; a new end, as after an extension, or another tier is another card.
\<close>

theorem expiry_warned_once_a_day:
  assumes "run_state (CheckRolePermissionExpiry env ps) w = ((cards, ps'), w')" "msg \<in> set cards" "ne_send env msg"
    and "ps_roleExpiryAlarmHistory later = ps_roleExpiryAlarmHistory ps'"
    and "w_clock w (w_n w) \<le> w_clock v (w_n v)" "w_clock v (w_n v) - w_clock w (w_n w) < 24 * secs 3600"
  shows "msg \<notin> set (fst (fst (run_state (CheckRolePermissionExpiry env later) v)))"
proof
  let ?h = "ps_roleExpiryAlarmHistory ps"
  define pending where "pending = filter (\<lambda>a. \<not> remembered ?h (dedupKey a) (w_clock w (w_n w)))
    (computeRoleExpiryAlerts (ps_permissionsInfo ps) (w_clock w (w_n w)))"
  have run: "cards = map expiry_card pending" "ps_roleExpiryAlarmHistory ps' =
      foldl (\<lambda>h a. if ne_send env (expiry_card a) then Set h (dedupKey a) (w_clock w (w_n w)) else h) ?h pending"
    using assms(1) by (simp_all add: CheckRolePermissionExpiry_run Let_def pending_def [symmetric]) auto
  obtain a where a: "a \<in> set pending" "msg = expiry_card a" using assms(2) run(1) by auto
  have "\<exists>b\<in>set pending. ne_send env (expiry_card b) \<and> dedupKey b = dedupKey a" using a assms(3) by blast
  then have "ps_roleExpiryAlarmHistory later (dedupKey a) = Some (w_clock w (w_n w))"
    unfolding assms(4) run(2) sent_history by simp
  then have "remembered (ps_roleExpiryAlarmHistory later) (dedupKey a) (w_clock v (w_n v))"
    using assms(5,6) by (simp add: remembered_def Get_def Sub_def roleExpiryAlarmDedupWindow_def)
  moreover assume "msg \<in> set (fst (fst (run_state (CheckRolePermissionExpiry env later) v)))"
  then obtain b where "\<not> remembered (ps_roleExpiryAlarmHistory later) (dedupKey b) (w_clock v (w_n v))" "msg = expiry_card b"
    by (auto simp: CheckRolePermissionExpiry_run Let_def)
  ultimately show False using a(2) by (simp add: expiry_card_inj)
qed

subsection \<open>Users on duty\<close>

text \<open>What a unique key guarantees of a column, under the comparison \<open>eq\<close> of the database.\<close>

definition unique_for :: "(string \<Rightarrow> string \<Rightarrow> bool) \<Rightarrow> string list \<Rightarrow> bool" where
  "unique_for eq xs = (distinct xs \<and> (\<forall>a\<in>set xs. \<forall>b\<in>set xs. eq a b \<longleftrightarrow> a = b))"

lemma no_clash_distinct:
  "(\<And>x y. x \<in> set rows \<union> set xs \<Longrightarrow> y \<in> set xs \<Longrightarrow> eq x y \<longleftrightarrow> x = y) \<Longrightarrow>
    no_clash eq rows xs \<longleftrightarrow> distinct xs \<and> set rows \<inter> set xs = {}"
proof (induction xs arbitrary: rows)
  case (Cons x xs)
  have "no_clash eq (rows @ [x]) xs \<longleftrightarrow> distinct xs \<and> set (rows @ [x]) \<inter> set xs = {}"
    using Cons.prems by (intro Cons.IH) auto
  moreover have "(\<exists>r\<in>set rows. eq r x) \<longleftrightarrow> x \<in> set rows" using Cons.prems by auto
  ultimately show ?case by auto
qed simp

definition cover :: "string list \<Rightarrow> string list \<Rightarrow> (string list \<times> string list) result io" where
  "cover needAdd needDelete = do {
     r1 \<leftarrow> (if length needDelete > 0 then exec (duty_delete needDelete) else ret (Inr (0, 0)));
     case r1 of Inl e \<Rightarrow> ret (Inl e)
     | Inr _ \<Rightarrow> do {
         r2 \<leftarrow> (if length needAdd > 0 then exec (duty_insert needAdd) else ret (Inr (0, 0)));
         case r2 of Inl e \<Rightarrow> ret (Inl e)
         | Inr _ \<Rightarrow> do {
             _ \<leftarrow> (if length needAdd > 0 \<or> length needDelete > 0 then BumpMetaVersion MetaKeyOnDuty else ret ());
             ret (Inr (needAdd, needDelete))
           }
       }
   }"

lemma CoverTacacsOnDutyUser_cover:
  "run_state GetTacacsOnDutyUser w = (duty, w1) \<Longrightarrow> run_state (CoverTacacsOnDutyUser on) w =
    run_state (cover (filter (\<lambda>u. u \<notin> set (GetIntersection on duty)) on)
      (filter (\<lambda>u. u \<notin> set (GetIntersection on duty)) duty)) w1"
  unfolding CoverTacacsOnDutyUser_def cover_def Let_def by (simp only: run_state_bind split_conv)

lemma touch_duty: "t_on_duty (touch k n d) = t_on_duty d"
  by (simp add: touch_def)

lemma quiet_cover:
  assumes "quiet w" "unique_for (db_eq (w_db w)) (t_on_duty (w_db w))"
    and "del = filter P (t_on_duty (w_db w))"
    and "no_clash (db_eq (w_db w)) (filter (\<lambda>u. \<not> P u) (t_on_duty (w_db w))) add"
  obtains n d where "run_state (cover add del) w = (Inr (add, del), w\<lparr>w_n := n, w_db := d\<rparr>)"
    "t_on_duty d = filter (\<lambda>u. \<not> P u) (t_on_duty (w_db w)) @ add"
proof -
  let ?d = "w_db w" and ?rest = "filter (\<lambda>u. \<not> P u) (t_on_duty (w_db w))"
  obtain n1 d1 where 1: "run_state (if length del > 0 then exec (duty_delete del) else ret (Inr (0, 0))) w =
      (Inr (length del, 0), w\<lparr>w_n := n1, w_db := d1\<rparr>)" and d1: "t_on_duty d1 = ?rest" "db_eq d1 = db_eq ?d"
  proof (cases "del = []")
    case True
    then show ?thesis using that [of ?d "w_n w"] assms(3) by (simp add: filter_empty_conv)
  next
    case False
    have mem: "(\<exists>x\<in>set del. db_eq ?d u x) \<longleftrightarrow> P u" if "u \<in> set (t_on_duty ?d)" for u
      using that assms(2,3) by (auto simp: unique_for_def)
    then have "length (filter (\<lambda>u. \<exists>x\<in>set del. db_eq ?d u x) (t_on_duty ?d)) = length del"
      "filter (\<lambda>u. \<not> (\<exists>x\<in>set del. db_eq ?d u x)) (t_on_duty ?d) = ?rest"
      by (simp_all add: assms(3) cong: filter_cong)
    then show ?thesis
      using that [of "touch MetaKeyOnDuty (length del) (?d\<lparr>t_on_duty := ?rest\<rparr>)" "Suc (w_n w)"] False
      by (simp add: quiet_exec [OF assms(1)] duty_delete_def sql_delete_def Let_def touch_def)
  qed
  have q1: "quiet (w\<lparr>w_n := n1, w_db := d1\<rparr>)" using assms(1) by simp
  have clash: "no_clash (db_eq d1) (t_on_duty d1) add"
    using assms(4) by (simp add: d1)
  obtain r2 n2 d2 where 2: "run_state (if length add > 0 then exec (duty_insert add) else ret (Inr (0, 0))) (w\<lparr>w_n := n1, w_db := d1\<rparr>) =
      (Inr r2, w\<lparr>w_n := n2, w_db := d2\<rparr>)" and d2: "t_on_duty d2 = ?rest @ add"
  proof (cases "add = []")
    case True
    then show ?thesis using that [of "(0, 0)" d1 n1] d1 by simp
  next
    case False
    then show ?thesis
      using that [of "(length add, auto_increment d1)" "touch MetaKeyOnDuty (length add)
          (d1\<lparr>t_on_duty := ?rest @ add, auto_increment := auto_increment d1 + int (length add)\<rparr>)" "Suc n1"] clash d1
      by (simp add: quiet_exec [OF q1] duty_insert_def touch_duty)
  qed
  have q2: "quiet (w\<lparr>w_n := n2, w_db := d2\<rparr>)" using assms(1) by simp
  obtain n m where "run_state (BumpMetaVersion MetaKeyOnDuty) (w\<lparr>w_n := n2, w_db := d2\<rparr>) = ((), w\<lparr>w_n := n, w_db := d2\<lparr>t_meta := m\<rparr>\<rparr>)"
    using quiet_BumpMetaVersion [OF q2, of MetaKeyOnDuty] by auto
  then obtain n3 d3 where 3: "run_state (if length add > 0 \<or> length del > 0 then BumpMetaVersion MetaKeyOnDuty else ret ()) (w\<lparr>w_n := n2, w_db := d2\<rparr>) =
      ((), w\<lparr>w_n := n3, w_db := d3\<rparr>)" and d3: "t_on_duty d3 = ?rest @ add"
    using d2 by (cases "length add > 0 \<or> length del > 0") auto
  have "run_state (cover add del) w = (Inr (add, del), w\<lparr>w_n := n3, w_db := d3\<rparr>)"
    unfolding cover_def using 1 2 3 by (simp only: run_state_bind split_conv sum.case run_state_return)
  then show ?thesis using that d3 by blast
qed

text \<open>
  C29. The users on duty follow the configuration.  Both lists have a unique key, which holds for
  the comparison of the database, whatever that is: under \<open>utf8mb4_unicode_ci\<close> it ignores case,
  while the program compares names exactly.  With nothing failing, a new value of the
  configuration leaves in the table exactly the users that it names and that the white list allows,
  letter by letter, and the unique key holds again; a value that is not JSON changes nothing.
  An entry that differs from the one wanted in case only is deleted before the insertion, so it
  does not violate the key.
\<close>

theorem on_duty_follows_configuration:
  assumes "quiet w" "unique_for (db_eq (w_db w)) (t_on_duty (w_db w))" "unique_for (db_eq (w_db w)) (t_white (w_db w))"
  shows "let d = w_db (snd (run_state (OnChange parse (Some (Some raw))) w))
    in case parse raw of
         Inl e \<Rightarrow> d = w_db w
       | Inr names \<Rightarrow> set (t_on_duty d) = set names \<inter> set (t_white (w_db w)) \<and> unique_for (db_eq (w_db w)) (t_on_duty d)"
proof (cases "parse raw")
  case (Inl e)
  then show ?thesis by (simp add: OnChange_def UpdateOnDutyUsers_def)
next
  case (Inr names)
  let ?d = "w_db w"
  define on where "on = GetIntersection names (t_white ?d)"
  define keep where "keep = GetIntersection on (t_on_duty ?d)"
  let ?add = "filter (\<lambda>u. u \<notin> set keep) on" and ?del = "filter (\<lambda>u. u \<notin> set keep) (t_on_duty ?d)"
    and ?w2 = "w\<lparr>w_n := Suc (Suc (w_n w))\<rparr>"
  have on: "set on = set names \<inter> set (t_white ?d)" "distinct on" by (simp_all add: on_def)
  then have unique: "unique_for (db_eq ?d) on" using assms(3) by (auto simp: unique_for_def)
  have keep: "set keep = set on \<inter> set (t_on_duty ?d)" by (simp add: keep_def)
  have q: "quiet ?w2" "quiet (w\<lparr>w_n := Suc (w_n w)\<rparr>)" using assms(1) by simp_all
  have clash: "no_clash (db_eq ?d) (filter (\<lambda>u. \<not> u \<notin> set keep) (t_on_duty ?d)) ?add"
  proof (subst no_clash_distinct)
    show "distinct ?add \<and> set (filter (\<lambda>u. \<not> u \<notin> set keep) (t_on_duty ?d)) \<inter> set ?add = {}"
      using on(2) by auto
  qed (use unique keep in \<open>auto simp: unique_for_def\<close>)
  obtain n d where c: "run_state (cover ?add ?del) ?w2 = (Inr (?add, ?del), ?w2\<lparr>w_n := n, w_db := d\<rparr>)"
    and d: "t_on_duty d = filter (\<lambda>u. \<not> u \<notin> set keep) (t_on_duty ?d) @ ?add"
    by (rule quiet_cover [OF q(1), of ?del "\<lambda>u. u \<notin> set keep" ?add]) (use assms(2) clash in auto)
  have white: "run_state GetTacacsOnDutyUserWhiteList w = ((t_white ?d, None), w\<lparr>w_n := Suc (w_n w)\<rparr>)"
    by (simp add: GetTacacsOnDutyUserWhiteList_def quiet_query [OF assms(1)])
  have reads: "w_db (snd (run_state GetTacacsOnDutyUser v)) = w_db v" "w_db (snd (run_state GetTacacsAdminUser v)) = w_db v" for v
    by (simp_all add: GetTacacsOnDutyUser_def GetTacacsAdminUser_def query_def)
  have duty: "run_state GetTacacsOnDutyUser (w\<lparr>w_n := Suc (w_n w)\<rparr>) = (t_on_duty ?d, ?w2)"
    by (simp add: GetTacacsOnDutyUser_def quiet_query [OF q(2)])
  have "run_state (CoverTacacsOnDutyUser on) (w\<lparr>w_n := Suc (w_n w)\<rparr>) = (Inr (?add, ?del), ?w2\<lparr>w_n := n, w_db := d\<rparr>)"
    unfolding CoverTacacsOnDutyUser_cover [OF duty] keep_def [symmetric] by (rule c)
  then have "w_db (snd (run_state (OnChange parse (Some (Some raw))) w)) = d"
    by (simp add: OnChange_def UpdateOnDutyUsers_def Inr white on_def [symmetric] reads split_beta)
  moreover have s: "set (t_on_duty d) = set names \<inter> set (t_white ?d)" using keep on by (auto simp: d)
  moreover have "distinct (t_on_duty d)" using on(2) assms(2) by (auto simp: d unique_for_def)
  then have "unique_for (db_eq ?d) (t_on_duty d)" using unique s on(1) by (simp add: unique_for_def)
  ultimately show ?thesis by (simp add: Inr)
qed

subsection \<open>Examples\<close>

definition example_env :: notify_env where
  "example_env = \<lparr>ne_Parse = (\<lambda>s. if s = ''old'' then Inr (secs (- 8000000)) else Inr 0), ne_send = (\<lambda>_. True)\<rparr>"

definition aged :: "string \<Rightarrow> string \<Rightarrow> string \<Rightarrow> TacacsUser" where
  "aged name status changed = (example_user name)\<lparr>tu_Status := status, tu_PasswordUpdateTime := changed\<rparr>"

definition age_db :: db where
  "age_db = example_db\<lparr>t_user := [aged ''bob'' ''1'' ''old'', aged ''eve'' ''2'' ''new'', aged ''joe'' ''0'' ''new'']\<rparr>"

definition age_ps :: PermissionSystem where
  "age_ps = NewPermissionSystem\<lparr>ps_userInfos := map (\<lambda>u. (tu_User u, u)) (t_user age_db)\<rparr>"

lemma calm_quiet_db: "quiet (calm_world d)" "w_db (calm_world d) = d" "w_n (calm_world d) = 0" "w_clock (calm_world d) n = 0"
  by (simp_all add: quiet_def calm_world_def)

lemma age_unique: "unique_users age_db"
  by (simp add: unique_users_def age_db_def example_db_def aged_def example_user_def)

theorem password_age_decides_witness:
  "map tu_Status (t_user (w_db (snd (run_state (CheckPasswordTimeout example_env age_ps) (calm_world age_db))))) =
     [''2'', ''2'', ''0''] \<and>
   map tu_Status (t_user (w_db (snd (run_state (CheckPasswordUnTimeout example_env age_ps) (calm_world age_db))))) =
     [''1'', ''1'', ''0'']"
proof -
  have u: "unique_users (w_db (calm_world age_db))" and f: "fresh_users age_ps (calm_world age_db)"
    and c: "0 = w_clock (calm_world age_db) (w_n (calm_world age_db))"
    using age_unique by (simp_all add: calm_quiet_db fresh_users_def age_ps_def)
  show ?thesis
    using password_age_decides [OF calm_quiet_db(1) u f c, of example_env] unfolding calm_quiet_db(2)
    by (simp add: age_db_def aged_def overdue_def renewed_def example_env_def PasswordTimeout_def example_user_def)
qed

theorem stale_snapshot_enables_disabled_witness:
  "let ps = age_ps\<lparr>ps_userInfos := [(''joe'', aged ''joe'' ''2'' ''new'')]\<rparr>
   in \<exists>v\<in>set (t_user (w_db (snd (run_state (CheckPasswordUnTimeout example_env ps) (calm_world age_db))))).
        tu_User v = ''joe'' \<and> tu_Status v = ''1''"
proof -
  let ?u = "aged ''joe'' ''0'' ''new''" and ?ps = "age_ps\<lparr>ps_userInfos := [(''joe'', aged ''joe'' ''2'' ''new'')]\<rparr>"
  have n: "tu_User ?u = ''joe''" by (simp add: aged_def example_user_def)
  have "unique_users (w_db (calm_world age_db))" "?u \<in> set (t_user (w_db (calm_world age_db)))" "tu_Status ?u = ''0''"
    "(tu_User ?u, aged ''joe'' ''2'' ''new'') \<in> set (ps_userInfos ?ps)"
    "renewed (ne_Parse example_env) (w_clock (calm_world age_db) (w_n (calm_world age_db))) (aged ''joe'' ''2'' ''new'')"
    using age_unique by (simp_all add: calm_quiet_db n age_db_def aged_def renewed_def example_env_def PasswordTimeout_def example_user_def)
  from stale_snapshot_enables_disabled [OF calm_quiet_db(1) this] show ?thesis by (simp add: n)
qed

theorem broken_read_revokes_roles_witness:
  "let w = (calm_world role_db)\<lparr>w_rfault := (\<lambda>n. if n = 1 then NextErr 0 (GoError ''bad connection'') else NoFault)\<rparr>
   in \<forall>u\<in>set (t_user (w_db (snd (run_state (periodicUserUpdate NewPermissionSystem) w)))). tu_Role u = ''null''"
  unfolding Let_def
proof (rule broken_read_revokes_roles [OF calm_quiet_db(1)])
  show "unique_users (w_db (calm_world role_db))"
    by (simp add: calm_quiet_db unique_users_def role_db_def example_db_def example_user_def)
qed (simp add: calm_quiet_db)

definition expiring :: perms where
  "expiring = [(''bob'', [(''ops'', [\<lparr>tp_StartTime = - 5, tp_EndTime = secs 7200, tp_Permissions = ''ops''\<rparr>])])]"

lemma expiring_alerts:
  "computeRoleExpiryAlerts expiring 0 = [\<lparr>rx_user = ''bob'', rx_level = ''ops'', rx_expireAt = secs 7200, rx_tier = ''12h''\<rparr>]"
  by (simp add: computeRoleExpiryAlerts_def expiring_def covers_def expiry_tier_def Sub_def permission_consts)

theorem expiry_alerts_exact_witness:
  "\<lparr>rx_user = ''bob'', rx_level = ''ops'', rx_expireAt = secs 7200, rx_tier = ''12h''\<rparr> \<in> set (computeRoleExpiryAlerts expiring 0)"
proof -
  have "proper expiring" "apart expiring"
    by (auto simp: proper_def apart_def expiring_def entry_def)
  from expiry_alerts_exact [OF this] show ?thesis by (simp add: expiring_def entry_def covers_def)
qed

theorem expiry_warned_once_a_day_witness:
  "let ps = NewPermissionSystem\<lparr>ps_permissionsInfo := expiring\<rparr>; r = run_state (CheckRolePermissionExpiry example_env ps) (calm_world age_db)
   in fst (fst r) = [RoleExpiryCard ''bob'' ''ops'' ''12h'' (secs 7200)] \<and>
      RoleExpiryCard ''bob'' ''ops'' ''12h'' (secs 7200) \<notin>
        set (fst (fst (run_state (CheckRolePermissionExpiry example_env (snd (fst r))) (calm_world age_db))))"
proof -
  let ?ps = "NewPermissionSystem\<lparr>ps_permissionsInfo := expiring\<rparr>" and ?w = "calm_world age_db"
  let ?c = "RoleExpiryCard ''bob'' ''ops'' ''12h'' (secs 7200)"
  obtain cards ps' w' where r: "run_state (CheckRolePermissionExpiry example_env ?ps) ?w = ((cards, ps'), w')"
    by (metis prod.exhaust)
  have c: "cards = [?c]"
    using r by (simp add: CheckRolePermissionExpiry_run calm_quiet_db expiring_alerts remembered_def Get_def
        NewPermissionSystem_def NewTypedSyncMap_def expiry_card_def Let_def)
  have "?c \<notin> set (fst (fst (run_state (CheckRolePermissionExpiry example_env ps') ?w)))"
    by (rule expiry_warned_once_a_day [OF r]) (simp_all add: c example_env_def)
  then show ?thesis by (simp add: r c Let_def)
qed

text \<open>The comparison of the database takes an upper case first letter for the lower case one.\<close>

definition same_but_case :: "string \<Rightarrow> string \<Rightarrow> bool" where
  "same_but_case a b = (a = b \<or> tl a = tl b \<and> {hd a, hd b} = {CHR ''B'', CHR ''b''})"

theorem on_duty_follows_configuration_witness:
  "let d = example_db\<lparr>t_on_duty := [''eve'', ''Bob''], t_white := [''eve'', ''bob''], db_eq := same_but_case\<rparr>;
       d' = w_db (snd (run_state (OnChange (\<lambda>_. Inr [''bob'', ''joe'']) (Some (Some ''{}''))) (calm_world d)))
   in db_eq d ''Bob'' ''bob'' \<and> set (t_on_duty d') = {''bob''}"
proof -
  let ?d = "example_db\<lparr>t_on_duty := [''eve'', ''Bob''], t_white := [''eve'', ''bob''], db_eq := same_but_case\<rparr>"
  have "unique_for (db_eq (w_db (calm_world ?d))) (t_on_duty (w_db (calm_world ?d)))"
    "unique_for (db_eq (w_db (calm_world ?d))) (t_white (w_db (calm_world ?d)))"
    by (simp_all add: calm_quiet_db example_db_def unique_for_def same_but_case_def)
  from on_duty_follows_configuration [OF calm_quiet_db(1) this, of "\<lambda>_. Inr [''bob'', ''joe'']" "''{}''"]
  show ?thesis by (auto simp: Let_def calm_quiet_db same_but_case_def)
qed

end
