(* ===== verification/Sha256.thy ===== *)
theory Sha256
  imports GoStrings Md5
begin

text \<open>
  What the signature of a request is computed with: \<open>crypto/sha256\<close> (FIPS 180-4),
  \<open>crypto/hmac\<close> over it (RFC 2104), and \<open>encoding/base64\<close> (RFC 4648).
\<close>

subsection \<open>SHA-256\<close>

definition sha256_K :: "w32 list" where
  "sha256_K = [
   0x428a2f98, 0x71374491, 0xb5c0fbcf, 0xe9b5dba5,
   0x3956c25b, 0x59f111f1, 0x923f82a4, 0xab1c5ed5,
   0xd807aa98, 0x12835b01, 0x243185be, 0x550c7dc3,
   0x72be5d74, 0x80deb1fe, 0x9bdc06a7, 0xc19bf174,
   0xe49b69c1, 0xefbe4786, 0x0fc19dc6, 0x240ca1cc,
   0x2de92c6f, 0x4a7484aa, 0x5cb0a9dc, 0x76f988da,
   0x983e5152, 0xa831c66d, 0xb00327c8, 0xbf597fc7,
   0xc6e00bf3, 0xd5a79147, 0x06ca6351, 0x14292967,
   0x27b70a85, 0x2e1b2138, 0x4d2c6dfc, 0x53380d13,
   0x650a7354, 0x766a0abb, 0x81c2c92e, 0x92722c85,
   0xa2bfe8a1, 0xa81a664b, 0xc24b8b70, 0xc76c51a3,
   0xd192e819, 0xd6990624, 0xf40e3585, 0x106aa070,
   0x19a4c116, 0x1e376c08, 0x2748774c, 0x34b0bcb5,
   0x391c0cb3, 0x4ed8aa4a, 0x5b9cca4f, 0x682e6ff3,
   0x748f82ee, 0x78a5636f, 0x84c87814, 0x8cc70208,
   0x90befffa, 0xa4506ceb, 0xbef9a3f7, 0xc67178f2]"

type_synonym sha256_state = "w32 list"  \<comment> \<open>the eight words\<close>

definition sha256_H :: sha256_state where
  "sha256_H = [
   0x6a09e667, 0xbb67ae85, 0x3c6ef372, 0xa54ff53a,
   0x510e527f, 0x9b05688c, 0x1f83d9ab, 0x5be0cd19]"

definition be32 :: "w32 \<Rightarrow> bytes" where
  "be32 w = [ucast (drop_bit 24 w), ucast (drop_bit 16 w), ucast (drop_bit 8 w), ucast w]"

fun be_words32 :: "bytes \<Rightarrow> w32 list" where
  "be_words32 (a # b # c # d # r) =
     (push_bit 24 (ucast a) OR push_bit 16 (ucast b) OR push_bit 8 (ucast c) OR ucast d) # be_words32 r"
| "be_words32 _ = []"

definition sha256_pad :: "bytes \<Rightarrow> bytes" where
  "sha256_pad m = m @ [0x80] @ replicate ((119 - length m mod 64) mod 64) 0
     @ be32 (word_of_nat (8 * length m div 2 ^ 32)) @ be32 (word_of_nat (8 * length m))"

definition rotr :: "nat \<Rightarrow> w32 \<Rightarrow> w32" where
  "rotr n w = drop_bit n w OR push_bit (32 - n) w"

definition small_sigma0 :: "w32 \<Rightarrow> w32" where
  "small_sigma0 x = (rotr 7 x XOR rotr 18 x XOR drop_bit 3 x)"

definition small_sigma1 :: "w32 \<Rightarrow> w32" where
  "small_sigma1 x = (rotr 17 x XOR rotr 19 x XOR drop_bit 10 x)"

text \<open>The schedule extends the 16 words of a block to 64; the list is built backwards.\<close>

fun sha256_extend :: "nat \<Rightarrow> w32 list \<Rightarrow> w32 list" where
  "sha256_extend 0 ws = ws"
| "sha256_extend (Suc n) ws =
     sha256_extend n ((small_sigma1 (ws ! 1) + ws ! 6 + small_sigma0 (ws ! 14) + ws ! 15) # ws)"

definition sha256_schedule :: "w32 list \<Rightarrow> w32 list" where
  "sha256_schedule block = rev (sha256_extend 48 (rev block))"

fun sha256_round :: "sha256_state \<Rightarrow> w32 \<times> w32 \<Rightarrow> sha256_state" where
  "sha256_round [a, b, c, d, e, f, g, h] (k, w) =
     (let t1 = h + (rotr 6 e XOR rotr 11 e XOR rotr 25 e) + ((e AND f) XOR (NOT e AND g)) + k + w;
          t2 = (rotr 2 a XOR rotr 13 a XOR rotr 22 a) + ((a AND b) XOR (a AND c) XOR (b AND c))
      in [t1 + t2, a, b, c, d + t1, e, f, g])"
| "sha256_round st kw = st"

definition sha256_block :: "sha256_state \<Rightarrow> bytes \<Rightarrow> sha256_state" where
  "sha256_block st blk =
     map2 (+) st (foldl sha256_round st (zip sha256_K (sha256_schedule (be_words32 blk))))"

definition sha256 :: "bytes \<Rightarrow> bytes" where
  "sha256 m = concat (map be32 (foldl sha256_block sha256_H (md5_blocks (sha256_pad m))))"

lemma length_be32 [simp]: "length (be32 w) = 4"
  by (simp add: be32_def)

lemma length_sha256_round [simp]: "length (sha256_round st kw) = length st"
  by (induction st kw rule: sha256_round.induct) (simp_all add: Let_def)

lemma length_sha256_rounds [simp]: "length (foldl sha256_round st kws) = length st"
  by (induction kws arbitrary: st) simp_all

lemma length_sha256_block [simp]: "length (sha256_block st blk) = length st"
  by (simp add: sha256_block_def)

lemma length_sha256_blocks [simp]: "length (foldl sha256_block st blks) = length st"
  by (induction blks arbitrary: st) simp_all

lemma length_concat_be32: "length (concat (map be32 ws)) = 4 * length ws"
  by (induction ws) simp_all

lemma length_sha256 [simp]: "length (sha256 m) = 32"
  by (simp add: sha256_def length_concat_be32 sha256_H_def)

subsection \<open>HMAC\<close>

definition hmac_key :: "bytes \<Rightarrow> bytes" where
  "hmac_key key = (let k = (if length key > 64 then sha256 key else key) in k @ replicate (64 - length k) 0)"

definition hmac_sha256 :: "bytes \<Rightarrow> bytes \<Rightarrow> bytes" where
  "hmac_sha256 key m =
     sha256 (map (\<lambda>b. b XOR 0x5c) (hmac_key key) @ sha256 (map (\<lambda>b. b XOR 0x36) (hmac_key key) @ m))"

lemma length_hmac_sha256 [simp]: "length (hmac_sha256 key m) = 32"
  by (simp add: hmac_sha256_def)

subsection \<open>Base 64\<close>

definition std_alphabet :: string where
  "std_alphabet = ''ABCDEFGHIJKLMNOPQRSTUVWXYZabcdefghijklmnopqrstuvwxyz0123456789+/''"

definition url_alphabet :: string where
  "url_alphabet = ''ABCDEFGHIJKLMNOPQRSTUVWXYZabcdefghijklmnopqrstuvwxyz0123456789-_''"

definition digit64 :: "string \<Rightarrow> nat \<Rightarrow> char" where
  "digit64 alphabet n = alphabet ! (n mod 64)"

text \<open>\<open>pad\<close> is the padding, which \<open>RawURLEncoding\<close> leaves out.\<close>

fun base64 :: "string \<Rightarrow> string \<Rightarrow> nat list \<Rightarrow> string" where
  "base64 al pad (a # b # c # r) =
     [digit64 al (a div 4), digit64 al (16 * a + b div 16), digit64 al (4 * b + c div 64), digit64 al c]
     @ base64 al pad r"
| "base64 al pad [a, b] = [digit64 al (a div 4), digit64 al (16 * a + b div 16), digit64 al (4 * b)] @ pad"
| "base64 al pad [a] = [digit64 al (a div 4), digit64 al (16 * a)] @ pad @ pad"
| "base64 al pad [] = []"

definition StdEncoding :: "bytes \<Rightarrow> string" where
  "StdEncoding bs = base64 std_alphabet ''='' (map unat bs)"

definition RawURLEncoding :: "bytes \<Rightarrow> string" where
  "RawURLEncoding bs = base64 url_alphabet [] (map unat bs)"

lemma base64_chars: "length al = 64 \<Longrightarrow> set (base64 al pad ns) \<subseteq> set al \<union> set pad"
  by (induction al pad ns rule: base64.induct) (auto simp: digit64_def)

lemma base64_Nil_iff [simp]: "base64 al pad ns = [] \<longleftrightarrow> ns = []"
  by (induction al pad ns rule: base64.induct) simp_all

lemma length_raw_base64: "length (base64 al [] ns) = (4 * length ns + 2) div 3"
  by (induction al "[]::string" ns rule: base64.induct) simp_all

end
