(* ===== verification/SwmAuth.thy ===== *)
theory SwmAuth
  imports DbUser Sha256 "HOL-Library.Signed_Division"
begin

text \<open>
  The signature of a request: \<open>swm_signing.go\<close>, which makes it in the web process, and
  \<open>middleware_swm_auth.go\<close> and \<open>acl.go\<close>, which check it in the server together with the
  identity in the headers.  Log and audit output is left out.  \<open>encoding/json\<close> on the two
  bodies that the middleware looks into is a parameter.
\<close>

subsection \<open>Machine integers and strings\<close>

definition wrap64 :: "int \<Rightarrow> int" where
  "wrap64 i = (i + 2 ^ 63) mod 2 ^ 64 - 2 ^ 63"

lemma wrap64_id: "- (2 ^ 63) \<le> i \<Longrightarrow> i < 2 ^ 63 \<Longrightarrow> wrap64 i = i"
  by (simp add: wrap64_def mod_pos_pos_trivial)

text \<open>\<open>strconv.ParseInt(s, 10, 64)\<close>, whose error is not used further.\<close>

definition ParseInt :: "string \<Rightarrow> int option" where
  "ParseInt s =
     (let (neg, ds) = (case s of [] \<Rightarrow> (False, [])
            | c # r \<Rightarrow> if c = CHR ''-'' then (True, r) else if c = CHR ''+'' then (False, r) else (False, s));
          v = (if neg then - int (dec_value ds) else int (dec_value ds))
      in if ds = [] \<or> \<not> list_all is_digit ds then None
         else if - (2 ^ 63) \<le> v \<and> v < 2 ^ 63 then Some v else None)"

subsection \<open>Requests\<close>

text \<open>
  A body is the bytes that can be read from it and the error after the last of them, if it does
  not end with \<open>EOF\<close>.  \<open>rq_Header\<close> is \<open>Header.Get\<close>, the first value of a header or the empty string.
\<close>

datatype body = NilBody | Body bytes "go_error option"

record request =
  rq_Method :: string
  rq_Path :: string
  rq_Header :: "string \<Rightarrow> string"
  rq_Body :: body
  rq_ContentLength :: int
  rq_ClientIP :: string

definition maxBodyPeek :: nat where "maxBodyPeek = 256 * 1024"

definition readAndRestoreBody :: "request \<Rightarrow> bytes result \<times> request" where
  "readAndRestoreBody r =
     (case rq_Body r of NilBody \<Rightarrow> (Inr [], r)
      | Body bs e \<Rightarrow>
          (case e of
             Some err \<Rightarrow> if length bs \<le> maxBodyPeek then (Inl err, r\<lparr>rq_Body := Body [] e\<rparr>)
               else (Inl (GoError ''body too large for peek''), r\<lparr>rq_Body := Body (take (maxBodyPeek + 1) bs) None\<rparr>)
           | None \<Rightarrow>
               let body = take (maxBodyPeek + 1) bs in
               if length body > maxBodyPeek
               then (Inl (GoError ''body too large for peek''), r\<lparr>rq_Body := Body body None\<rparr>)
               else (Inr body, r\<lparr>rq_Body := Body body None, rq_ContentLength := int (length body)\<rparr>)))"

subsection \<open>Access control by path, \<open>acl.go\<close>\<close>

definition adminOnlyPrefixes :: "string list" where
  "adminOnlyPrefixes = [''/tacacs/user/get-admin'', ''/tacacs/user/delete'', ''/tacacs/user/create'',
     ''/tacacs/user/clear/'', ''/tacacs/template/command/'', ''/tacacs/template/server/'']"

definition adminWritePrefixes :: "string list" where
  "adminWritePrefixes = [''/tacacs/system/'', ''/tacacs/template/role/'']"

definition adminOnlyExact :: "string list" where
  "adminOnlyExact = [''/tacacs/user/reset/password'', ''/tacacs/meta/refresh'', ''/tacacs/system/log-config'']"

definition ownershipBodyUserPaths :: "string list" where
  "ownershipBodyUserPaths = [''/tacacs/user/update/password'', ''/tacacs/user/update/notes'',
     ''/tacacs/user/update/basicInfo'', ''/tacacs/approval/create'']"

definition approvalUpdatePath :: string where "approvalUpdatePath = ''/tacacs/approval/update''"
definition approvalStatusClose :: int where "approvalStatusClose = 0"

definition hasBodyMethod :: "string \<Rightarrow> bool" where
  "hasBodyMethod m = (m = ''POST'' \<or> m = ''PUT'' \<or> m = ''DELETE'' \<or> m = ''PATCH'')"

definition pathRequiresAdmin :: "string \<Rightarrow> string \<Rightarrow> bool" where
  "pathRequiresAdmin path m =
     (if path \<in> set adminOnlyExact then True
      else if list_ex (HasPrefix path) adminOnlyPrefixes then True
      else if hasBodyMethod m then list_ex (HasPrefix path) adminWritePrefixes
      else False)"

subsection \<open>The signature header, \<open>swm_signing.go\<close>\<close>

text \<open>The message that is signed.  A header value of the two sides is the same string.\<close>

definition canonical_form :: "string \<Rightarrow> string \<Rightarrow> string \<Rightarrow> string \<Rightarrow> string \<Rightarrow> string \<Rightarrow> bytes \<Rightarrow> string" where
  "canonical_form m path ts nonce user isAdmin body =
     Join [CHR 0x0A] [m, path, ts, nonce, user, isAdmin, hex_string (sha256 body)]"

definition sign :: "string \<Rightarrow> string \<Rightarrow> string" where
  "sign secret canonical = StdEncoding (hmac_sha256 (bytes_of_string secret) (bytes_of_string canonical))"

text \<open>The 16 random bytes are the argument; \<open>None\<close> is a failing \<open>rand.Read\<close>, \<open>nanos\<close> the clock in base 36.\<close>

definition newNonce :: "bytes option \<Rightarrow> string \<Rightarrow> string" where
  "newNonce rand nanos = (case rand of Some b \<Rightarrow> RawURLEncoding b | None \<Rightarrow> nanos)"

definition computeSignatureHeader ::
  "int \<Rightarrow> string \<Rightarrow> string \<Rightarrow> string \<Rightarrow> string \<Rightarrow> string \<Rightarrow> bytes \<Rightarrow> string \<Rightarrow> string" where
  "computeSignatureHeader now nonce m path user isAdmin body secret =
     (let ts = dec_int now;
          sig = sign secret (canonical_form m path ts nonce user isAdmin body)
      in ''t='' @ ts @ '',n='' @ nonce @ '',v1='' @ sig)"

text \<open>\<open>signRequest\<close> of \<open>proxy.go\<close>, after the proxy has set the identity headers.\<close>

definition signRequest :: "int \<Rightarrow> string \<Rightarrow> string \<Rightarrow> string \<Rightarrow> string \<Rightarrow> request \<Rightarrow> request" where
  "signRequest now nonce secret user isAdmin r =
     (case readAndRestoreBody r of (b, r') \<Rightarrow>
        let body = (case b of Inl _ \<Rightarrow> [] | Inr body \<Rightarrow> body)
        in r'\<lparr>rq_Header := (rq_Header r')(''X-SwM-Signature'' :=
              computeSignatureHeader now nonce (rq_Method r) (rq_Path r) user isAdmin body secret)\<rparr>)"

subsection \<open>Nonces\<close>

definition nonceTTL :: int where "nonceTTL = 600 * 10 ^ 9"  \<comment> \<open>in nanoseconds\<close>
definition maxNonceLength :: nat where "maxNonceLength = 128"
definition maxNonceCount :: int where "maxNonceCount = 100000"

text \<open>\<open>nonceStore\<close> maps a nonce to its expiry in seconds; the mutex makes the uses of it sequential.\<close>

record nonces =
  nonceStore :: "(string \<times> int) list"
  nonceCount :: int

text \<open>The body of \<open>Range\<close>, which the cleaner and the full store share.\<close>

fun expire_loop :: "int \<Rightarrow> (string \<times> int) list \<Rightarrow> nonces \<Rightarrow> nonces" where
  "expire_loop now [] ns = ns"
| "expire_loop now ((k, exp) # kvs) ns =
     expire_loop now kvs
       (if exp \<le> now \<and> map_of (nonceStore ns) k \<noteq> None
        then ns\<lparr>nonceStore := filter (\<lambda>p. fst p \<noteq> k) (nonceStore ns), nonceCount := nonceCount ns - 1\<rparr>
        else ns)"

definition expire_nonces :: "int \<Rightarrow> nonces \<Rightarrow> nonces" where
  "expire_nonces now ns = expire_loop now (nonceStore ns) ns"

definition nonceTTLForSkew :: "int \<Rightarrow> int" where
  "nonceTTLForSkew maxSkewSeconds =
     (if maxSkewSeconds > 0 \<and> wrap64 (maxSkewSeconds * 10 ^ 9) > nonceTTL
      then wrap64 (wrap64 (maxSkewSeconds * 10 ^ 9) + 60 * 10 ^ 9) else nonceTTL)"

datatype swmAuthErr = errMissingSecret | errMissingSignature | errBadHeaderFormat | errBadTimestamp
  | errStaleTimestamp | errReplayedNonce | errNonceStoreFull | errBadSignature

fun swmAuthErr_Error :: "swmAuthErr \<Rightarrow> string" where
  "swmAuthErr_Error errMissingSecret = ''shared secret not configured''"
| "swmAuthErr_Error errMissingSignature = ''missing X-SwM-Signature header''"
| "swmAuthErr_Error errBadHeaderFormat = ''bad signature header format''"
| "swmAuthErr_Error errBadTimestamp = ''bad timestamp''"
| "swmAuthErr_Error errStaleTimestamp = ''stale timestamp''"
| "swmAuthErr_Error errReplayedNonce = ''replayed nonce''"
| "swmAuthErr_Error errNonceStoreFull = ''nonce store is full''"
| "swmAuthErr_Error errBadSignature = ''signature mismatch''"

text \<open>The section under \<open>nonceMu\<close>; \<open>nowUnix\<close> is the second reading of the clock.\<close>

definition admit_nonce :: "int \<Rightarrow> int \<Rightarrow> int \<Rightarrow> string \<Rightarrow> nonces \<Rightarrow> swmAuthErr option \<times> nonces" where
  "admit_nonce now nowUnix maxSkewSeconds nonce ns =
     (let ns = (if nonceCount ns \<ge> maxNonceCount then expire_nonces nowUnix ns else ns) in
      if nonceCount ns \<ge> maxNonceCount then (Some errNonceStoreFull, ns)
      else if map_of (nonceStore ns) nonce \<noteq> None then (Some errReplayedNonce, ns)
      else (None, ns\<lparr>nonceStore := nonceStore ns @ [(nonce, wrap64 (now + nonceTTLForSkew maxSkewSeconds sdiv 10 ^ 9))],
                     nonceCount := nonceCount ns + 1\<rparr>))"

subsection \<open>The check\<close>

fun sig_loop :: "string list \<Rightarrow> string \<times> string \<times> string \<Rightarrow> string \<times> string \<times> string" where
  "sig_loop [] acc = acc"
| "sig_loop (p # ps) (ts, nonce, sig) =
     (let p = TrimSpace p in
      sig_loop ps
       (if HasPrefix p ''t='' then (drop 2 p, nonce, sig)
        else if HasPrefix p ''n='' then (ts, drop 2 p, sig)
        else if HasPrefix p ''v1='' then (ts, nonce, drop 3 p)
        else (ts, nonce, sig)))"

definition parseSwmSigHeader :: "string \<Rightarrow> swmAuthErr + string \<times> string \<times> string" where
  "parseSwmSigHeader h =
     (case sig_loop (Split CHR '','' h) ([], [], []) of (ts, nonce, sig) \<Rightarrow>
        if ts = [] \<or> nonce = [] \<or> sig = [] then Inl errBadHeaderFormat else Inr (ts, nonce, sig))"

definition abs64 :: "int \<Rightarrow> int" where
  "abs64 x = (if x < 0 then wrap64 (- x) else x)"

definition verifySwmSignature ::
  "int \<Rightarrow> int \<Rightarrow> string \<Rightarrow> int \<Rightarrow> request \<Rightarrow> nonces \<Rightarrow> swmAuthErr option \<times> request \<times> nonces" where
  "verifySwmSignature now nowUnix secret maxSkewSeconds r ns =
     (if secret = [] then (Some errMissingSecret, r, ns)
      else let sigHeader = rq_Header r ''X-SwM-Signature'' in
      if sigHeader = [] then (Some errMissingSignature, r, ns)
      else (case parseSwmSigHeader sigHeader of Inl e \<Rightarrow> (Some e, r, ns)
      | Inr (ts, nonce, sig) \<Rightarrow>
        let maxSkewSeconds = (if maxSkewSeconds \<le> 0 then 300 else maxSkewSeconds) in
        (case ParseInt ts of None \<Rightarrow> (Some errBadTimestamp, r, ns)
        | Some tsInt \<Rightarrow>
          if abs64 (wrap64 (now - tsInt)) > maxSkewSeconds then (Some errStaleTimestamp, r, ns)
          else if length nonce = 0 \<or> length nonce > maxNonceLength then (Some errBadHeaderFormat, r, ns)
          else (case readAndRestoreBody r of (b, r') \<Rightarrow>
            let body = (case b of Inl _ \<Rightarrow> [] | Inr body \<Rightarrow> body);
                expected = sign secret (canonical_form (rq_Method r) (rq_Path r) ts nonce
                  (rq_Header r ''X-SwM-User'') (rq_Header r ''X-SwM-Is-Admin'') body)
            in if expected \<noteq> sig then (Some errBadSignature, r', ns)
               else (case admit_nonce now nowUnix maxSkewSeconds nonce ns of (e, ns') \<Rightarrow> (e, r', ns'))))))"

subsection \<open>The middleware\<close>

record swm_conf =
  sc_Enforce :: bool
  sc_Secret :: string  \<comment> \<open>what \<open>ResolveSecret\<close> returns\<close>
  sc_MaxSkewSeconds :: int

record peek_json =
  pj_Status :: "bytes \<Rightarrow> int result"
  pj_User :: "bytes \<Rightarrow> string result"

text \<open>
  Whether the next handler runs, with which request and value of \<open>swm-auth-verified\<close> (an unset
  value counts as false), or which answer ends the request.
\<close>

datatype outcome = Next request bool | Abort int string

definition swmAuthExemptPaths :: "string list" where
  "swmAuthExemptPaths = [''/health'']"

text \<open>The part of the middleware that looks into a body.\<close>

definition body_forbidden :: "peek_json \<Rightarrow> string \<Rightarrow> string \<Rightarrow> bool \<Rightarrow> bytes \<Rightarrow> bool" where
  "body_forbidden js path user isAdmin body =
     (length body > 0 \<and>
       ((path = approvalUpdatePath \<and>
          (case pj_Status js body of Inl _ \<Rightarrow> False | Inr st \<Rightarrow> st \<noteq> approvalStatusClose \<and> \<not> isAdmin)) \<or>
        (path \<in> set ownershipBodyUserPaths \<and> \<not> isAdmin \<and>
          (case pj_User js body of Inl _ \<Rightarrow> False | Inr u \<Rightarrow> u \<noteq> [] \<and> u \<noteq> user))))"

definition swmAuthMiddleware :: "peek_json \<Rightarrow> swm_conf \<Rightarrow> int \<Rightarrow> int \<Rightarrow> request \<Rightarrow> nonces \<Rightarrow> outcome \<times> nonces" where
  "swmAuthMiddleware js conf now nowUnix r ns =
     (let path = rq_Path r; enforce = sc_Enforce conf in
      if path \<in> set swmAuthExemptPaths then (Next r False, ns)
      else (case verifySwmSignature now nowUnix (sc_Secret conf) (sc_MaxSkewSeconds conf) r ns of
        (verifyErr, r, ns) \<Rightarrow>
          let user = rq_Header r ''X-SwM-User''; isAdmin = (rq_Header r ''X-SwM-Is-Admin'' = ''1'') in
          if verifyErr \<noteq> None \<and> enforce
          then (Abort 401 (if str_Contains (swmAuthErr_Error (the verifyErr)) ''missing''
                           then ''missing signature'' else ''invalid signature''), ns)
          else if user = [] \<and> enforce then (Abort 401 ''missing identity'', ns)
          else if pathRequiresAdmin path (rq_Method r) \<and> \<not> isAdmin \<and> enforce then (Abort 403 ''forbidden'', ns)
          else if \<not> hasBodyMethod (rq_Method r) then (Next r (verifyErr = None), ns)
          else (case readAndRestoreBody r of
                  (Inl _, r) \<Rightarrow> (Abort 413 ''request body too large or unreadable'', ns)
                | (Inr body, r) \<Rightarrow>
                    if body_forbidden js path user isAdmin body \<and> enforce then (Abort 403 ''forbidden'', ns)
                    else (Next r (verifyErr = None), ns))))"

end
