(* ===== verification/ClickHouse.thy ===== *)
theory ClickHouse
  imports DbMisc DbApproval SwmAuth Permission
begin

text \<open>
  \<open>pkg/server/clickhouse/logstore.go\<close>: queries on the log tables of a ClickHouse server.  The
  driver is a parameter: opening a connection, and what the four kinds of statements return.
  \<open>net/url\<close>, the parsing and printing of times and \<open>%v\<close> are parameters as well.  A timeout or a
  cancelled context is an error that the driver returns.
\<close>

subsection \<open>Types\<close>

record Column =
  co_Name :: string
  co_Type :: string
  co_Position :: int

record TableSchema =
  ts_Name :: string
  ts_Columns :: "Column list"

record Filter =
  fi_Field :: string
  fi_Operator :: string
  fi_Value :: string

record QueryRequest =
  qr_Type :: LogType
  qr_From :: int
  qr_To :: int
  qr_Filters :: "Filter list"
  qr_Columns :: "string list"
  qr_Page :: int
  qr_PageSize :: int
  qr_IncludeTotal :: bool

record ResultColumn =
  rc_Key :: string
  rc_Label :: string
  rc_Type :: string
  rc_Physical :: string

text \<open>An argument of a statement, and a value of a result row.\<close>

datatype arg = AString string | AInt int | ABool bool | ATime int

datatype any = Nil_any | Bytes_any bytes | Time_any int | Basic_any string
  | Ptr_any "any option" | Slice_any "any list" | Other_any string

record QueryResult =
  qs_Type :: LogType
  qs_Columns :: "ResultColumn list"
  qs_Rows :: "(string \<times> any) list list"
  qs_Page :: int
  qs_PageSize :: int
  qs_Total :: nat
  qs_TotalKnown :: bool
  qs_TotalPages :: int
  qs_HasMore :: bool

record ck_conn =
  cc_ping :: "go_error option"  \<comment> \<open>\<open>SELECT 1\<close> and its \<open>Scan\<close>\<close>
  cc_tables :: "string \<Rightarrow> string rows"
  cc_columns :: "string \<Rightarrow> string \<Rightarrow> Column rows"
  cc_count :: "string \<Rightarrow> arg list \<Rightarrow> nat result"
  cc_rows :: "string \<Rightarrow> arg list \<Rightarrow> any list rows"

record ck_lib =
  cl_open :: "string \<Rightarrow> ck_conn result"  \<comment> \<open>\<open>sql.Open\<close> and the first ping\<close>
  cl_parse_url :: "string \<Rightarrow> (string \<times> string) result"  \<comment> \<open>scheme and host\<close>
  cl_dsn :: "string \<Rightarrow> string \<Rightarrow> string \<Rightarrow> (string \<times> string) option \<Rightarrow> string"  \<comment> \<open>\<open>URL.String\<close>\<close>
  cl_parse_rfc3339 :: "string \<Rightarrow> int result"
  cl_parse_local :: "string \<Rightarrow> int result"
  cl_format_milli :: "int \<Rightarrow> string"
  cl_format_rfc3339 :: "int \<Rightarrow> string"

definition ErrNotConfigured :: go_error where
  "ErrNotConfigured = GoError ''clickhouse log store is not configured''"

subsection \<open>Names and types of columns\<close>

definition is_letter :: "char \<Rightarrow> bool" where
  "is_letter c = ((CHR ''A'' \<le> c \<and> c \<le> CHR ''Z'') \<or> (CHR ''a'' \<le> c \<and> c \<le> CHR ''z'') \<or> c = CHR ''_'')"

text \<open>\<open>identifierRE.MatchString\<close>.\<close>

definition identifier_match :: "string \<Rightarrow> bool" where
  "identifier_match s = (case s of [] \<Rightarrow> False | c # r \<Rightarrow> is_letter c \<and> list_all (\<lambda>c. is_letter c \<or> is_digit c) r)"

definition quoteIdentifier :: "string \<Rightarrow> string" where
  "quoteIdentifier identifier =
     (if \<not> identifier_match identifier then [CHR 0x60, CHR 0x60] else [CHR 0x60] @ identifier @ [CHR 0x60])"

text \<open>The text between a prefix and the closing parenthesis.\<close>

definition wrapped :: "string \<Rightarrow> string \<Rightarrow> bool" where
  "wrapped p t = (HasPrefix t p \<and> suffix '')'' t)"

definition unwrap :: "string \<Rightarrow> string \<Rightarrow> string" where
  "unwrap p t = TrimSuffix (drop (length p) t) '')''"

lemma unwrap_shorter: "wrapped p t \<Longrightarrow> p \<noteq> [] \<Longrightarrow> length (unwrap p t) < length t"
  by (cases t; cases p) (auto simp: wrapped_def unwrap_def TrimSuffix_def HasPrefix_def)

function type_loop :: "string \<Rightarrow> string" where
  "type_loop t =
     (if wrapped ''Nullable('' t then type_loop (unwrap ''Nullable('' t)
      else if wrapped ''LowCardinality('' t then type_loop (unwrap ''LowCardinality('' t)
      else t)"
  by pat_completeness auto
termination
  by (relation "measure length") (auto intro: unwrap_shorter)

declare type_loop.simps [simp del]

definition normalizeType :: "string \<Rightarrow> string" where
  "normalizeType raw = type_loop (TrimSpace raw)"

definition isDateType :: "string \<Rightarrow> bool" where
  "isDateType t = HasPrefix t ''Date''"

fun compatible :: "FieldKind \<Rightarrow> string \<Rightarrow> bool" where
  "compatible FieldKindString chType =
     (let base = normalizeType chType in base = ''String'' \<or> HasPrefix base ''FixedString('' \<or> isDateType base)"
| "compatible FieldKindInt chType =
     (let base = normalizeType chType in HasPrefix base ''Int'' \<or> HasPrefix base ''UInt'' \<or> HasPrefix base ''Decimal'')"
| "compatible FieldKindBool chType =
     (let base = normalizeType chType in base = ''Bool'' \<or> base = ''UInt8'' \<or> base = ''Int8'')"
| "compatible FieldKindStringArray chType =
     (let base = normalizeType chType in HasPrefix base ''Array('' \<and> str_Contains base ''String'')"

subsection \<open>Filters\<close>

definition parseTimeValue :: "ck_lib \<Rightarrow> string \<Rightarrow> int result" where
  "parseTimeValue L raw = (case cl_parse_rfc3339 L raw of Inr t \<Rightarrow> Inr t | Inl _ \<Rightarrow> cl_parse_local L raw)"

definition eventValue :: "ck_lib \<Rightarrow> string \<Rightarrow> int \<Rightarrow> arg" where
  "eventValue L chType v =
     (let base = normalizeType chType in
      if isDateType base then ATime v
      else if HasPrefix base ''Int'' \<or> HasPrefix base ''UInt'' then AInt v
      else AString (cl_format_milli L v))"

definition ParseBool :: "string \<Rightarrow> bool result" where
  "ParseBool s =
     (if s \<in> {''1'', ''t'', ''T'', ''TRUE'', ''true'', ''True''} then Inr True
      else if s \<in> {''0'', ''f'', ''F'', ''FALSE'', ''false'', ''False''} then Inr False
      else Inl (GoError (''strconv.ParseBool: parsing '' @ quote s @ '': invalid syntax'')))"

definition ParseInt_result :: "string \<Rightarrow> int result" where
  "ParseInt_result s = (case ParseInt s of Some v \<Rightarrow> Inr v | None \<Rightarrow> Inl (GoError (''strconv.ParseInt: parsing '' @ quote s)))"

text \<open>The typed value of a filter on a field that is no array.\<close>

definition filter_value :: "ck_lib \<Rightarrow> FieldSpec \<Rightarrow> string \<Rightarrow> string \<Rightarrow> arg result" where
  "filter_value L sp baseType raw =
     (if isDateType baseType then map_sum id ATime (parseTimeValue L raw)
      else (case fs_Kind sp of
              FieldKindInt \<Rightarrow> map_sum id AInt (ParseInt_result (TrimSpace raw))
            | FieldKindBool \<Rightarrow> map_sum id ABool (ParseBool (TrimSpace raw))
            | _ \<Rightarrow> Inr (AString raw)))"

definition not_supported :: "string \<Rightarrow> string \<Rightarrow> go_error" where
  "not_supported op key = GoError (op @ '' is not supported for '' @ key)"

definition filterSQL :: "ck_lib \<Rightarrow> FieldSpec \<Rightarrow> Column \<Rightarrow> string \<Rightarrow> string \<Rightarrow> (string \<times> arg) result" where
  "filterSQL L sp column operator raw =
     (let identifier = quoteIdentifier (co_Name column);
          operator = ToLower (TrimSpace operator);
          baseType = normalizeType (co_Type column)
      in
      if fs_Kind sp = FieldKindStringArray then
        (if operator \<noteq> ''contains'' \<and> operator \<noteq> ''not_contains''
         then Inl (GoError (''array field '' @ fs_Key sp @ '' only supports contains/not_contains''))
         else if \<not> HasPrefix baseType ''Array(''
         then Inl (GoError (''field '' @ fs_Key sp @ '' is not backed by an Array column''))
         else if operator = ''contains'' then Inr (''has('' @ identifier @ '', ?)'', AString raw)
         else Inr (''NOT has('' @ identifier @ '', ?)'', AString raw))
      else (case filter_value L sp baseType raw of
        Inl e \<Rightarrow> Inl (GoError (''invalid value for '' @ fs_Key sp @ '': '' @ err_msg e))
      | Inr v \<Rightarrow>
          if operator = ''eq'' then Inr (identifier @ '' = ?'', v)
          else if operator = ''neq'' then Inr (identifier @ '' != ?'', v)
          else if operator = ''gt'' then
            (if fs_Kind sp \<noteq> FieldKindInt then Inl (not_supported ''gt'' (fs_Key sp)) else Inr (identifier @ '' > ?'', v))
          else if operator = ''gte'' then
            (if fs_Kind sp \<noteq> FieldKindInt then Inl (not_supported ''gte'' (fs_Key sp)) else Inr (identifier @ '' >= ?'', v))
          else if operator = ''lt'' then
            (if fs_Kind sp \<noteq> FieldKindInt then Inl (not_supported ''lt'' (fs_Key sp)) else Inr (identifier @ '' < ?'', v))
          else if operator = ''lte'' then
            (if fs_Kind sp \<noteq> FieldKindInt then Inl (not_supported ''lte'' (fs_Key sp)) else Inr (identifier @ '' <= ?'', v))
          else if operator \<in> {''contains'', ''not_contains'', ''starts_with'', ''ends_with''} then
            (if fs_Kind sp \<noteq> FieldKindString then Inl (not_supported operator (fs_Key sp))
             else if operator = ''contains'' then Inr (''positionCaseInsensitive(toString('' @ identifier @ ''), ?) > 0'', AString raw)
             else if operator = ''not_contains'' then Inr (''positionCaseInsensitive(toString('' @ identifier @ ''), ?) = 0'', AString raw)
             else if operator = ''starts_with'' then Inr (''startsWith(toString('' @ identifier @ ''), ?)'', AString raw)
             else Inr (''endsWith(toString('' @ identifier @ ''), ?)'', AString raw))
          else Inl (GoError (''unsupported filter operator '' @ quote operator))))"

record filterClause =
  fc_spec :: FieldSpec
  fc_column :: Column
  fc_operator :: string
  fc_sql :: string
  fc_arg :: arg  \<comment> \<open>never nil, see \<open>filterSQL\<close>\<close>

text \<open>The map of the columns by name: a later column of a name replaces an earlier one.\<close>

definition columns_by_name :: "Column list \<Rightarrow> string \<Rightarrow> Column option" where
  "columns_by_name cols = map_of (rev (map (\<lambda>c. (co_Name c, c)) cols))"

fun buildFilterClauses_loop ::
  "ck_lib \<Rightarrow> LogType \<Rightarrow> Mapping \<Rightarrow> (string \<Rightarrow> Column option) \<Rightarrow> Filter list \<Rightarrow> filterClause list \<Rightarrow> filterClause list result" where
  "buildFilterClauses_loop L typ mapping columns [] clauses = Inr clauses"
| "buildFilterClauses_loop L typ mapping columns (f # fs) clauses =
     (if TrimSpace (fi_Value f) = [] then buildFilterClauses_loop L typ mapping columns fs clauses
      else (case FieldSpecFor typ (fi_Field f) of
              None \<Rightarrow> Inl (GoError (''unknown filter field '' @ quote (fi_Field f)))
            | Some sp \<Rightarrow>
                let physical = map_get (mp_Fields mapping) (fs_Key sp) in
                (case columns physical of
                   None \<Rightarrow> Inl (GoError (''filter column '' @ quote physical @ '' no longer exists''))
                 | Some column \<Rightarrow>
                     (case filterSQL L sp column (fi_Operator f) (fi_Value f) of
                        Inl e \<Rightarrow> Inl e
                      | Inr (part, a) \<Rightarrow> buildFilterClauses_loop L typ mapping columns fs
                          (clauses @ [\<lparr>fc_spec = sp, fc_column = column,
                            fc_operator = ToLower (TrimSpace (fi_Operator f)), fc_sql = part, fc_arg = a\<rparr>])))))"

definition buildFilterClauses ::
  "ck_lib \<Rightarrow> QueryRequest \<Rightarrow> Mapping \<Rightarrow> (string \<Rightarrow> Column option) \<Rightarrow> filterClause list result" where
  "buildFilterClauses L req mapping columns =
     buildFilterClauses_loop L (qr_Type req) mapping columns (qr_Filters req) []"

definition clauseSQL :: "filterClause list \<Rightarrow> string list" where
  "clauseSQL clauses = map fc_sql clauses"

definition clauseArgs :: "filterClause list \<Rightarrow> arg list" where
  "clauseArgs clauses = map fc_arg clauses"

subsection \<open>The statement\<close>

definition eventWhereParts :: "ck_lib \<Rightarrow> QueryRequest \<Rightarrow> Column \<Rightarrow> (string \<times> arg list) result" where
  "eventWhereParts L req event =
     (if TrimSpace (co_Name event) = [] then Inl (GoError ''event time column is required'')
      else Inr (Join '' AND '' [quoteIdentifier (co_Name event) @ '' >= ?'', quoteIdentifier (co_Name event) @ '' < ?''],
                [eventValue L (co_Type event) (qr_From req), eventValue L (co_Type event) (qr_To req)]))"

text \<open>Whether a clause is an equality on the field that a projection is sorted by.\<close>

definition eq_on :: "string \<Rightarrow> Mapping \<Rightarrow> filterClause \<Rightarrow> bool" where
  "eq_on key mapping c = (fc_operator c = ''eq'' \<and> fs_Key (fc_spec c) = key \<and> co_Name (fc_column c) = key \<and>
     map_get (mp_Fields mapping) key = key)"

definition promoted :: "string \<Rightarrow> bool \<Rightarrow> filterClause \<Rightarrow> bool" where
  "promoted key has c = (fc_operator c = ''eq'' \<and> fs_Key (fc_spec c) = key \<and> has \<and> co_Name (fc_column c) = key)"

text \<open>The name of the projection and which clauses go with it; the set of indexes is a predicate.\<close>

definition projectionFilterIndexes :: "Mapping \<Rightarrow> Column \<Rightarrow> filterClause list \<Rightarrow> string \<times> (filterClause \<Rightarrow> bool)" where
  "projectionFilterIndexes mapping event clauses =
     (if co_Name event \<noteq> ''event_time'' then ([], \<lambda>_. False)
      else let hasUser = list_ex (eq_on ''user'' mapping) clauses;
               hasSwitch = list_ex (eq_on ''switchAddr'' mapping) clauses;
               projection = (if hasUser \<and> hasSwitch then ''p_by_switch_user_time''
                             else if hasUser then ''p_by_user_time''
                             else if hasSwitch then ''p_by_switch_time'' else [])
      in if projection = [] then ([], \<lambda>_. False)
         else (projection, \<lambda>c. promoted ''user'' hasUser c \<or> promoted ''switchAddr'' hasSwitch c))"

definition buildQueryParts ::
  "ck_lib \<Rightarrow> QueryRequest \<Rightarrow> Mapping \<Rightarrow> (string \<Rightarrow> Column option) \<Rightarrow> Column \<Rightarrow>
   (string \<times> arg list \<times> string \<times> arg list \<times> string) result" where
  "buildQueryParts L req mapping columns event =
     (case eventWhereParts L req event of Inl e \<Rightarrow> Inl e
      | Inr (eventWhere, eventArgs) \<Rightarrow>
        (case buildFilterClauses L req mapping columns of Inl e \<Rightarrow> Inl e
         | Inr clauses \<Rightarrow>
           (case projectionFilterIndexes mapping event clauses of (projection, optimized) \<Rightarrow>
              let optimizedClauses = filter optimized clauses;
                  others = filter (\<lambda>c. \<not> optimized c) clauses
              in Inr (Join '' AND '' (eventWhere # clauseSQL optimizedClauses), eventArgs @ clauseArgs optimizedClauses,
                      Join '' AND '' (clauseSQL others), clauseArgs others, projection))))"

definition buildWhereParts ::
  "ck_lib \<Rightarrow> QueryRequest \<Rightarrow> Mapping \<Rightarrow> (string \<Rightarrow> Column option) \<Rightarrow> Column \<Rightarrow>
   (string \<times> arg list \<times> string \<times> arg list) result" where
  "buildWhereParts L req mapping columns event =
     (case eventWhereParts L req event of Inl e \<Rightarrow> Inl e
      | Inr (eventWhere, eventArgs) \<Rightarrow>
        (case buildFilterClauses L req mapping columns of Inl e \<Rightarrow> Inl e
         | Inr clauses \<Rightarrow> Inr (eventWhere, eventArgs, Join '' AND '' (clauseSQL clauses), clauseArgs clauses)))"

definition buildWhere ::
  "ck_lib \<Rightarrow> QueryRequest \<Rightarrow> Mapping \<Rightarrow> (string \<Rightarrow> Column option) \<Rightarrow> Column \<Rightarrow> (string \<times> arg list) result" where
  "buildWhere L req mapping columns event =
     (case buildWhereParts L req mapping columns event of Inl e \<Rightarrow> Inl e
      | Inr (eventWhere, eventArgs, filterWhere, filterArgs) \<Rightarrow>
          Inr (if filterWhere \<noteq> [] then eventWhere @ '' AND '' @ filterWhere else eventWhere, eventArgs @ filterArgs))"

fun selected_loop ::
  "LogType \<Rightarrow> Mapping \<Rightarrow> (string \<Rightarrow> Column option) \<Rightarrow> string list \<Rightarrow> string list \<Rightarrow> ResultColumn list \<Rightarrow> ResultColumn list result" where
  "selected_loop typ mapping physical [] seen selected = Inr selected"
| "selected_loop typ mapping physical (key # keys) seen selected =
     (if key \<in> set seen then Inl (GoError (''duplicate result column '' @ quote key))
      else (case FieldSpecFor typ key of
              None \<Rightarrow> Inl (GoError (''unknown result field '' @ quote key))
            | Some sp \<Rightarrow>
                let physicalName = map_get (mp_Fields mapping) key in
                (case physical physicalName of
                   None \<Rightarrow> Inl (GoError (''result column '' @ quote physicalName @ '' no longer exists''))
                 | Some column \<Rightarrow> selected_loop typ mapping physical keys (key # seen)
                     (selected @ [\<lparr>rc_Key = fs_Key sp, rc_Label = DisplayLabel typ (fs_Key sp) mapping,
                                   rc_Type = co_Type column, rc_Physical = co_Name column\<rparr>]))))"

definition selectedColumns ::
  "LogType \<Rightarrow> Mapping \<Rightarrow> (string \<Rightarrow> Column option) \<Rightarrow> string list \<Rightarrow> ResultColumn list result" where
  "selectedColumns typ mapping physical requested =
     (case selected_loop typ mapping physical (if length requested = 0 then map fs_Key (Specs typ) else requested) [] [] of
        Inl e \<Rightarrow> Inl e
      | Inr selected \<Rightarrow> if length selected = 0 then Inl (GoError ''at least one result column is required'') else Inr selected)"

subsection \<open>Schemas\<close>

definition tableSchema :: "ck_conn \<Rightarrow> string \<Rightarrow> string \<Rightarrow> TableSchema result" where
  "tableSchema conn database table =
     (if \<not> identifier_match database \<or> \<not> identifier_match table then Inl (GoError ''invalid clickhouse identifier'')
      else (case cc_columns conn database table of
              QueryFails e \<Rightarrow> Inl (GoError (''list columns for '' @ table @ '': '' @ err_msg e))
            | Rows ss err \<Rightarrow>
                (case scan_all ss [] of (cols, e) \<Rightarrow>
                  (case e of Some e \<Rightarrow> Inl e
                   | None \<Rightarrow> (case err of Some e \<Rightarrow> Inl e
                      | None \<Rightarrow> Inr \<lparr>ts_Name = table, ts_Columns = filter (\<lambda>c. identifier_match (co_Name c)) cols\<rparr>)))))"

fun discover_loop :: "ck_conn \<Rightarrow> string \<Rightarrow> string list \<Rightarrow> TableSchema list \<Rightarrow> TableSchema list result" where
  "discover_loop conn database [] acc = Inr acc"
| "discover_loop conn database (name # names) acc =
     (case tableSchema conn database name of Inl e \<Rightarrow> Inl e
      | Inr schema \<Rightarrow> discover_loop conn database names
          (acc @ [if length (ts_Columns schema) > 200 then schema\<lparr>ts_Columns := take 200 (ts_Columns schema)\<rparr> else schema]))"

definition discoverWithConn :: "ck_conn \<Rightarrow> string \<Rightarrow> TableSchema list result" where
  "discoverWithConn conn database =
     (case cc_tables conn database of
        QueryFails e \<Rightarrow> Inl (GoError (''list clickhouse tables: '' @ err_msg e))
      | Rows ss err \<Rightarrow>
          (case scan_all ss [] of (names, e) \<Rightarrow>
            (case e of Some e \<Rightarrow> Inl e
             | None \<Rightarrow> (case err of Some e \<Rightarrow> Inl e
                | None \<Rightarrow> discover_loop conn database (take 200 (filter identifier_match names)) []))))"

fun schema_loop :: "Mapping \<Rightarrow> (string \<Rightarrow> Column option) \<Rightarrow> FieldSpec list \<Rightarrow> go_error option" where
  "schema_loop mapping columns [] = None"
| "schema_loop mapping columns (sp # sps) =
     (let physical = map_get (mp_Fields mapping) (fs_Key sp) in
      case columns physical of
        None \<Rightarrow> Some (GoError (''field '' @ fs_Key sp @ '' maps to missing column '' @ quote physical))
      | Some column \<Rightarrow>
          if \<not> compatible (fs_Kind sp) (co_Type column)
          then Some (GoError (''field '' @ fs_Key sp @ '' is incompatible with ClickHouse type '' @ co_Type column))
          else schema_loop mapping columns sps)"

definition validateMappingSchema :: "LogType \<Rightarrow> Mapping \<Rightarrow> TableSchema \<Rightarrow> go_error option" where
  "validateMappingSchema typ mapping schema =
     (let columns = columns_by_name (ts_Columns schema) in
      if columns (mp_EventTimeColumn mapping) = None
      then Some (GoError (''event time column '' @ quote (mp_EventTimeColumn mapping) @ '' is missing from '' @ mp_Table mapping))
      else schema_loop mapping columns (Specs typ))"

definition mapping_for :: "ClickHouseLogConfig \<Rightarrow> LogType \<Rightarrow> Mapping" where
  "mapping_for cfg typ = (case map_of (ch_Mappings cfg) typ of None \<Rightarrow> zero_mapping | Some m \<Rightarrow> m)"

fun validate_loop ::
  "ck_conn \<Rightarrow> ClickHouseLogConfig \<Rightarrow> LogType list \<Rightarrow> (LogType \<Rightarrow> TableSchema option) \<Rightarrow> (LogType \<Rightarrow> TableSchema option) result" where
  "validate_loop conn cfg [] schemas = Inr schemas"
| "validate_loop conn cfg (typ # typs) schemas =
     (if \<not> MappingComplete typ (mapping_for cfg typ)
      then Inl (GoError (''mapping for '' @ LogType_String typ @ '' is incomplete or has duplicate columns''))
      else (case tableSchema conn (ch_Database cfg) (mp_Table (mapping_for cfg typ)) of Inl e \<Rightarrow> Inl e
        | Inr schema \<Rightarrow> (case validateMappingSchema typ (mapping_for cfg typ) schema of Some e \<Rightarrow> Inl e
            | None \<Rightarrow> validate_loop conn cfg typs (schemas(typ := Some schema)))))"

definition validateMappingsWithSchemas :: "ck_conn \<Rightarrow> ClickHouseLogConfig \<Rightarrow> (LogType \<Rightarrow> TableSchema option) result" where
  "validateMappingsWithSchemas conn cfg =
     (if ch_Database cfg = [] \<or> \<not> identifier_match (ch_Database cfg) then Inl (GoError ''invalid clickhouse database'')
      else validate_loop conn cfg AllLogTypes (\<lambda>_. None))"

definition validateMappings :: "ck_conn \<Rightarrow> ClickHouseLogConfig \<Rightarrow> go_error option" where
  "validateMappings conn cfg = (case validateMappingsWithSchemas conn cfg of Inl e \<Rightarrow> Some e | Inr _ \<Rightarrow> None)"

subsection \<open>Connections\<close>

definition buildDSN :: "ck_lib \<Rightarrow> ClickHouseLogConfig \<Rightarrow> string result" where
  "buildDSN L cfg =
     (let address = TrimSpace (ch_Address cfg);
          parsed = (if str_Contains address ''://''
            then (case cl_parse_url L address of
                    Inl e \<Rightarrow> Inl (GoError ''invalid clickhouse address'')
                  | Inr (scheme, host) \<Rightarrow>
                      if host = [] then Inl (GoError ''invalid clickhouse address'')
                      else if scheme \<notin> {''clickhouse'', ''http'', ''https''}
                      then Inl (GoError (''unsupported clickhouse address scheme '' @ quote scheme))
                      else Inr (scheme, host))
            else Inr (''clickhouse'', address))
      in case parsed of Inl e \<Rightarrow> Inl e
         | Inr (scheme, host) \<Rightarrow>
             if host = [] then Inl (GoError ''clickhouse address is empty'')
             else Inr (cl_dsn L scheme host (''/'' @ ch_Database cfg)
                    (if ch_Username cfg \<noteq> [] then Some (ch_Username cfg, ch_Password cfg) else None)))"

definition openConnection :: "ck_lib \<Rightarrow> ClickHouseLogConfig \<Rightarrow> ck_conn result" where
  "openConnection L cfg =
     (if TrimSpace (ch_Address cfg) = [] then Inl ErrNotConfigured
      else if \<not> identifier_match (TrimSpace (ch_Database cfg)) then Inl (GoError ''invalid clickhouse database name'')
      else (case buildDSN L cfg of Inl e \<Rightarrow> Inl e | Inr dsn \<Rightarrow> cl_open L dsn))"

record Manager =
  mg_conn :: "ck_conn option"
  mg_config :: ClickHouseLogConfig
  mg_schemas :: "LogType \<Rightarrow> TableSchema option"

definition NewManager :: Manager where
  "NewManager = \<lparr>mg_conn = None, mg_config = zero_config, mg_schemas = (\<lambda>_. None)\<rparr>"

definition TestConnection :: "ck_lib \<Rightarrow> ClickHouseLogConfig \<Rightarrow> go_error option" where
  "TestConnection L cfg = (case openConnection L cfg of Inl e \<Rightarrow> Some e | Inr conn \<Rightarrow> cc_ping conn)"

definition ValidateConfig :: "ck_lib \<Rightarrow> ClickHouseLogConfig \<Rightarrow> go_error option" where
  "ValidateConfig L cfg = (case openConnection L cfg of Inl e \<Rightarrow> Some e | Inr conn \<Rightarrow> validateMappings conn cfg)"

definition Apply :: "ck_lib \<Rightarrow> ClickHouseLogConfig \<Rightarrow> Manager \<Rightarrow> go_error option \<times> Manager" where
  "Apply L cfg m =
     (case openConnection L cfg of Inl e \<Rightarrow> (Some e, m)
      | Inr conn \<Rightarrow> (case validateMappingsWithSchemas conn cfg of Inl e \<Rightarrow> (Some e, m)
          | Inr schemas \<Rightarrow> (None, m\<lparr>mg_conn := Some conn, mg_config := cfg, mg_schemas := schemas\<rparr>)))"

definition Discover :: "ck_lib \<Rightarrow> ClickHouseLogConfig \<Rightarrow> TableSchema list result" where
  "Discover L cfg = (case openConnection L cfg of Inl e \<Rightarrow> Inl e | Inr conn \<Rightarrow> discoverWithConn conn (ch_Database cfg))"

definition ensureLoaded :: "ck_lib \<Rightarrow> json \<Rightarrow> LogType list \<Rightarrow> Manager \<Rightarrow> (go_error option \<times> Manager) io" where
  "ensureLoaded L js types m =
     (if mg_conn m \<noteq> None then ret (None, m)
      else do {
        cfg \<leftarrow> GetClickHouseLogConfig js types;
        ret (case cfg of Inl e \<Rightarrow> (Some e, m)
             | Inr cfg \<Rightarrow>
                 if ch_Address cfg = [] \<or> ch_Database cfg = [] then (Some ErrNotConfigured, m)
                 else (case openConnection L cfg of Inl e \<Rightarrow> (Some e, m)
                       | Inr conn \<Rightarrow> (None, m\<lparr>mg_conn := Some conn, mg_config := cfg, mg_schemas := (\<lambda>_. None)\<rparr>)))
      })"

subsection \<open>A query\<close>

fun normalizeValue :: "ck_lib \<Rightarrow> any \<Rightarrow> any" where
  "normalizeValue L Nil_any = Nil_any"
| "normalizeValue L (Bytes_any b) = Basic_any (string_of_bytes b)"
| "normalizeValue L (Time_any t) = Basic_any (cl_format_rfc3339 L t)"
| "normalizeValue L (Basic_any s) = Basic_any s"
| "normalizeValue L (Ptr_any None) = Nil_any"
| "normalizeValue L (Ptr_any (Some v)) = normalizeValue L v"
| "normalizeValue L (Slice_any vs) = Slice_any (map (normalizeValue L) vs)"
| "normalizeValue L (Other_any s) = Basic_any s"

text \<open>The page and the checks at the start of \<open>Query\<close>.\<close>

definition normalized :: "QueryRequest \<Rightarrow> QueryRequest result" where
  "normalized req =
     (let req = (if qr_Page req \<le> 0 then req\<lparr>qr_Page := 1\<rparr> else req) in
      if qr_Page req > 1000000 then Inl (GoError ''page is too large'')
      else let req = (if qr_PageSize req \<le> 0 then req\<lparr>qr_PageSize := 50\<rparr> else req);
               req = (if qr_PageSize req > 200 then req\<lparr>qr_PageSize := 200\<rparr> else req) in
      if qr_Page req > 100000 then Inl (GoError ''page is too large'')
      else if qr_To req = zero_time \<or> qr_From req = zero_time \<or> \<not> qr_From req < qr_To req
      then Inl (GoError ''event range must be non-empty and from must be before to'')
      else if Sub (qr_To req) (qr_From req) > 31 * 24 * secs 3600
      then Inl (GoError ''event range cannot exceed 31 days'')
      else if length (qr_Filters req) > 20 then Inl (GoError ''too many filters'')
      else if length (qr_Columns req) > 64 then Inl (GoError ''too many result columns'')
      else Inr req)"

text \<open>The schema of the stream that is asked for, from the cache or read and put there.\<close>

definition stream_schema :: "ck_conn \<Rightarrow> LogType \<Rightarrow> Mapping \<Rightarrow> Manager \<Rightarrow> TableSchema result \<times> Manager" where
  "stream_schema conn typ mapping m =
     (case mg_schemas m typ of
        Some schema \<Rightarrow>
          if ts_Name schema = mp_Table mapping then (Inr schema, m)
          else (case tableSchema conn (ch_Database (mg_config m)) (mp_Table mapping) of Inl e \<Rightarrow> (Inl e, m)
            | Inr schema \<Rightarrow> (case validateMappingSchema typ mapping schema of Some e \<Rightarrow> (Inl e, m)
                | None \<Rightarrow> (Inr schema, m\<lparr>mg_schemas := (mg_schemas m)(typ := Some schema)\<rparr>)))
      | None \<Rightarrow>
          (case tableSchema conn (ch_Database (mg_config m)) (mp_Table mapping) of Inl e \<Rightarrow> (Inl e, m)
            | Inr schema \<Rightarrow> (case validateMappingSchema typ mapping schema of Some e \<Rightarrow> (Inl e, m)
                | None \<Rightarrow> (Inr schema, m\<lparr>mg_schemas := (mg_schemas m)(typ := Some schema)\<rparr>))))"

text \<open>The two statements and their arguments.\<close>

record statements =
  sm_count :: string
  sm_query :: string
  sm_args :: "arg list"
  sm_columns :: "ResultColumn list"

definition build_statements ::
  "ck_lib \<Rightarrow> ClickHouseLogConfig \<Rightarrow> Mapping \<Rightarrow> TableSchema \<Rightarrow> QueryRequest \<Rightarrow> statements result" where
  "build_statements L cfg mapping schema req =
     (let columnsByName = columns_by_name (ts_Columns schema) in
      case columnsByName (mp_EventTimeColumn mapping) of
        None \<Rightarrow> Inl (GoError (''event time column '' @ quote (mp_EventTimeColumn mapping) @ '' no longer exists''))
      | Some eventColumn \<Rightarrow>
        (case selectedColumns (qr_Type req) mapping columnsByName (qr_Columns req) of Inl e \<Rightarrow> Inl e
         | Inr selected \<Rightarrow>
           (case buildQueryParts L req mapping columnsByName eventColumn of Inl e \<Rightarrow> Inl e
            | Inr (prewhere, prewhereArgs, filterWhere, filterArgs, projection) \<Rightarrow>
                let qualifiedTable = quoteIdentifier (ch_Database cfg) @ ''.'' @ quoteIdentifier (mp_Table mapping);
                    projectionSettings = (if projection \<noteq> [] then '' SETTINGS optimize_use_projections = 1'' else []);
                    tail = '' FROM '' @ qualifiedTable @ '' PREWHERE '' @ prewhere @
                      (if filterWhere \<noteq> [] then '' WHERE '' @ filterWhere else []);
                    offset = (qr_Page req - 1) * qr_PageSize req;
                    fetchLimit = (if \<not> qr_IncludeTotal req then qr_PageSize req + 1 else qr_PageSize req)
                in if offset < 0 \<or> offset > 100000 then Inl (GoError ''page is too large'')
                   else Inr \<lparr>sm_count = ''SELECT count()'' @ tail @ projectionSettings,
                             sm_query = ''SELECT '' @ Join '', '' (map (\<lambda>c. quoteIdentifier (rc_Physical c)) selected) @ tail @
                               '' ORDER BY '' @ quoteIdentifier (co_Name eventColumn) @ '' DESC'' @
                               '' LIMIT '' @ dec_int fetchLimit @ '' OFFSET '' @ dec_int offset @ projectionSettings,
                             sm_args = prewhereArgs @ filterArgs, sm_columns = selected\<rparr>)))"

definition result_rows :: "ck_lib \<Rightarrow> ResultColumn list \<Rightarrow> any list rows \<Rightarrow> (string \<times> any) list list result" where
  "result_rows L cols q =
     (case q of QueryFails e \<Rightarrow> Inl (GoError (''query clickhouse log rows: '' @ err_msg e))
      | Rows ss err \<Rightarrow>
          (case scan_all ss [] of (values, e) \<Rightarrow>
            (case e of Some e \<Rightarrow> Inl (GoError (''scan clickhouse log row: '' @ err_msg e))
             | None \<Rightarrow> (case err of Some e \<Rightarrow> Inl (GoError (''iterate clickhouse log rows: '' @ err_msg e))
                | None \<Rightarrow> Inr (map (\<lambda>vs. zip (map rc_Key cols) (map (normalizeValue L) vs)) values)))))"

definition page_result ::
  "QueryRequest \<Rightarrow> ResultColumn list \<Rightarrow> nat \<Rightarrow> (string \<times> any) list list \<Rightarrow> QueryResult" where
  "page_result req cols cnt rowsOut =
     (let size = nat (qr_PageSize req);
          more = (if qr_IncludeTotal req then nat (qr_Page req) * size < cnt else length rowsOut > size)
      in \<lparr>qs_Type = qr_Type req, qs_Columns = cols,
          qs_Rows = (if \<not> qr_IncludeTotal req \<and> length rowsOut > size then take size rowsOut else rowsOut),
          qs_Page = qr_Page req, qs_PageSize = qr_PageSize req, qs_Total = cnt,
          qs_TotalKnown = qr_IncludeTotal req,
          qs_TotalPages = (if qr_IncludeTotal req \<and> cnt > 0 then int (((cnt + size - 1) mod 2 ^ 64) div size) else 0),
          qs_HasMore = more\<rparr>)"

text \<open>
  The count and the page are read at the same time; what one of them reports because the other
  has failed and cancelled it is what the driver returns for it.
\<close>

definition run_statements :: "ck_lib \<Rightarrow> ck_conn \<Rightarrow> QueryRequest \<Rightarrow> statements \<Rightarrow> QueryResult result" where
  "run_statements L conn req st =
     (case (if qr_IncludeTotal req then cc_count conn (sm_count st) (sm_args st) else Inr 0) of
        Inl e \<Rightarrow> Inl (GoError (''count clickhouse log rows: '' @ err_msg e))
      | Inr cnt \<Rightarrow>
          (case result_rows L (sm_columns st) (cc_rows conn (sm_query st) (sm_args st)) of Inl e \<Rightarrow> Inl e
           | Inr rowsOut \<Rightarrow> Inr (page_result req (sm_columns st) cnt rowsOut)))"

text \<open>The wait for one of the four slots is left out.\<close>

definition Query :: "ck_lib \<Rightarrow> json \<Rightarrow> LogType list \<Rightarrow> QueryRequest \<Rightarrow> Manager \<Rightarrow> (QueryResult result \<times> Manager) io" where
  "Query L js types req m =
     (case normalized req of Inl e \<Rightarrow> ret (Inl e, m)
      | Inr req \<Rightarrow> do {
          (err, m) \<leftarrow> ensureLoaded L js types m;
          ret (case err of Some e \<Rightarrow> (Inl e, m)
               | None \<Rightarrow>
                 (case mg_conn m of None \<Rightarrow> (Inl ErrNotConfigured, m)
                  | Some conn \<Rightarrow>
                      let mapping = mapping_for (mg_config m) (qr_Type req) in
                      if \<not> MappingComplete (qr_Type req) mapping
                      then (Inl (GoError (''log type '' @ LogType_String (qr_Type req) @ '' is not fully mapped'')), m)
                      else (case stream_schema conn (qr_Type req) mapping m of
                              (Inl e, m) \<Rightarrow> (Inl e, m)
                            | (Inr schema, m) \<Rightarrow>
                                (case build_statements L (mg_config m) mapping schema req of Inl e \<Rightarrow> (Inl e, m)
                                 | Inr st \<Rightarrow> (run_statements L conn req st, m)))))
        })"

end
