(* ===== verification/HttpServer.thy ===== *)
theory HttpServer
  imports ClickHouse Approval UserCache
begin

text \<open>
  What the handlers of \<open>pkg/server/http\<close> share: the state of the process, the identity of a
  request (\<open>identity.go\<close>), the failure counters (\<open>password_failures.go\<close>), the quota of approval
  requests (\<open>resource_limits.go\<close>), the list of source addresses (\<open>middleware_ip_whitelist.go\<close>) and
  the answers.  The critical sections of the mutexes are single steps.
\<close>

subsection \<open>State\<close>

text \<open>
  The counters are maps from users to \<open>int8\<close>; a missing entry counts as 0 and nothing asks
  whether an entry is there.  \<open>sv_quota\<close> is the map of the quota in the order of its iteration.
\<close>

record server =
  sv_world :: world
  sv_updatePasswordErrUser :: "string \<Rightarrow> int"
  sv_checkPasswordErrUser :: "string \<Rightarrow> int"
  sv_quota :: "(string \<times> int list) list"
  sv_manager :: Manager  \<comment> \<open>\<open>clickhouse.DefaultManager\<close>\<close>

type_synonym 'a handler = "(server, 'a) state"

text \<open>An operation of the database package in a handler.\<close>

definition db_op :: "'a io \<Rightarrow> 'a handler" where
  "db_op m = State (\<lambda>s. case run_state m (sv_world s) of (a, w) \<Rightarrow> (a, s\<lparr>sv_world := w\<rparr>))"

text \<open>
  Services the handlers call: \<open>lookup\<close> finds a person by mail address and phone number (the
  first argument tells the calls apart), \<open>parse_time\<close> is \<open>time.ParseInLocation\<close> with the layout of
  the handlers and the local time zone, \<open>types\<close> the order in which maps over the log types are
  iterated.
\<close>

record http_env =
  he_lib :: lib
  he_lookup :: "nat \<Rightarrow> string \<Rightarrow> string \<Rightarrow> go_error option"
  he_parse_time :: "string \<Rightarrow> int result"
  he_json :: json
  he_types :: "LogType list"
  he_clickhouse :: ck_lib

definition GetUserIdByBasicInfo :: "http_env \<Rightarrow> string \<Rightarrow> string \<Rightarrow> go_error option handler" where
  "GetUserIdByBasicInfo env email phone = State (\<lambda>s. (he_lookup env (w_n (sv_world s)) email phone, s))"

subsection \<open>Answers\<close>

text \<open>
  The status and the body of an answer.  The texts of the program are partly Chinese; a text here
  names it in English.
\<close>

record user_info =
  ui_User :: string
  ui_PhoneNumber :: string
  ui_Email :: string
  ui_CreateTime :: string
  ui_Role :: string
  ui_RoleUpdateTime :: string
  ui_PasswordUpdateTime :: string
  ui_Status :: string
  ui_StatusUpdateTime :: string
  ui_Notes :: string

text \<open>The settings of the log display as they are answered.\<close>

record logRedirectConfig =
  lr_Mode :: string
  lr_Authen :: string
  lr_Author :: string
  lr_Account :: string
  lr_VisibleAuthen :: bool
  lr_VisibleAuthor :: bool
  lr_VisibleAccount :: bool

record logMetaField =
  lf_Key :: string
  lf_Label :: string
  lf_FieldName :: string
  lf_Name :: string
  lf_Kind :: FieldKind

record logMetaType =
  lt_Type :: string
  lt_Visible :: bool
  lt_Available :: bool
  lt_Table :: string
  lt_EventTimeColumn :: string
  lt_Fields :: "logMetaField list"

record logMetaView =
  lv_Mode :: string
  lv_External :: logRedirectConfig
  lv_ClickHouseReady :: bool
  lv_Types :: "logMetaType list"

record clickHouseConfigView =
  cv_Address :: string
  cv_Username :: string
  cv_Database :: string
  cv_PasswordConfigured :: bool
  cv_Mappings :: "(string \<times> Mapping) list"

record systemLogConfigView =
  sv_Mode :: string
  sv_External :: logRedirectConfig
  sv_ClickHouse :: clickHouseConfigView

datatype reply_body = Text string
  | Redirects logRedirectConfig | Meta logMetaView | LogRows QueryResult
  | SystemConfig systemLogConfigView | Connected | Tables "TableSchema list"
  | Users "user_info list" | Names "string list" | Status string
  | RoleRows "TacacsRoleTemplate list" | ServerRows "TacacsServerTemplate list"
  | CommandRows "TacacsCommandTemplate list" | ApprovalRows "TacacsApproval list"

type_synonym response = "int \<times> reply_body"

abbreviation respond :: "int \<Rightarrow> string \<Rightarrow> response handler" where
  "respond code msg \<equiv> State_Monad.return (code, Text msg)"

definition StatusOK :: int where "StatusOK = 200"
definition StatusBadRequest :: int where "StatusBadRequest = 400"
definition StatusUnauthorized :: int where "StatusUnauthorized = 401"
definition StatusForbidden :: int where "StatusForbidden = 403"
definition StatusNotFound :: int where "StatusNotFound = 404"
definition StatusMethodNotAllowed :: int where "StatusMethodNotAllowed = 405"
definition StatusConflict :: int where "StatusConflict = 409"
definition StatusRequestEntityTooLarge :: int where "StatusRequestEntityTooLarge = 413"
definition StatusFailedDependency :: int where "StatusFailedDependency = 424"
definition StatusTooManyRequests :: int where "StatusTooManyRequests = 429"

lemmas http_status = StatusOK_def StatusBadRequest_def StatusUnauthorized_def StatusForbidden_def
  StatusNotFound_def StatusMethodNotAllowed_def StatusConflict_def StatusRequestEntityTooLarge_def
  StatusFailedDependency_def StatusTooManyRequests_def

subsection \<open>Identity\<close>

record identity =
  id_username :: string
  id_isAdmin :: bool
  id_verified :: bool

definition requestIdentity :: "request \<Rightarrow> bool \<Rightarrow> identity" where
  "requestIdentity r verified =
     \<lparr>id_username = TrimSpace (rq_Header r ''X-SwM-User''),
      id_isAdmin = (rq_Header r ''X-SwM-Is-Admin'' = ''1''), id_verified = verified\<rparr>"

definition requireVerifiedIdentity :: "identity \<Rightarrow> string \<times> bool \<times> bool" where
  "requireVerifiedIdentity i =
     (if \<not> id_verified i \<or> id_username i = [] then ([], False, False)
      else (id_username i, id_isAdmin i, True))"

definition missing_identity :: response where
  "missing_identity = (StatusUnauthorized, Text ''missing verified identity'')"

text \<open>The answer of \<open>requireAdminIdentity\<close>, if it gives one.\<close>

definition requireAdminIdentity :: "identity \<Rightarrow> response option" where
  "requireAdminIdentity i =
     (case requireVerifiedIdentity i of (_, isAdmin, verified) \<Rightarrow>
        if \<not> verified then Some missing_identity
        else if \<not> isAdmin then Some (StatusForbidden, Text ''admin privileges required'')
        else None)"

definition admin_only :: "identity \<Rightarrow> response handler \<Rightarrow> response handler" where
  "admin_only i h = (case requireAdminIdentity i of Some r \<Rightarrow> State_Monad.return r | None \<Rightarrow> h)"

text \<open>A handler that goes on with the verified user name and administrator flag.\<close>

definition verified_only :: "identity \<Rightarrow> (string \<Rightarrow> bool \<Rightarrow> response handler) \<Rightarrow> response handler" where
  "verified_only i h =
     (case requireVerifiedIdentity i of (username, isAdmin, verified) \<Rightarrow>
        if \<not> verified then State_Monad.return missing_identity else h username isAdmin)"

definition canReadOwnedRecord :: "string \<Rightarrow> string \<Rightarrow> bool \<Rightarrow> bool" where
  "canReadOwnedRecord username owner isAdmin = (isAdmin \<or> (username \<noteq> [] \<and> username = owner))"

definition filterApprovalRowsForUser :: "TacacsApproval list \<Rightarrow> string \<Rightarrow> bool \<Rightarrow> TacacsApproval list" where
  "filterApprovalRowsForUser rows username isAdmin =
     (if isAdmin then rows
      else filter (\<lambda>row. canReadOwnedRecord username (tap_User row) False) rows)"

definition publicRoleRows :: "TacacsRoleTemplate list \<Rightarrow> TacacsRoleTemplate list" where
  "publicRoleRows rows = map (\<lambda>row. zero_role\<lparr>rt_Template := rt_Template row\<rparr>) rows"

subsection \<open>Failed passwords\<close>

definition passwordUpdateFailureCount :: "string \<Rightarrow> int handler" where
  "passwordUpdateFailureCount user = State (\<lambda>s. (sv_updatePasswordErrUser s user, s))"

text \<open>\<open>++\<close> on an \<open>int8\<close> does not wrap, since the guard keeps it below 127.\<close>

definition bounded_inc :: "(string \<Rightarrow> int) \<Rightarrow> string \<Rightarrow> string \<Rightarrow> int" where
  "bounded_inc m user = (if m user < 127 then m(user := m user + 1) else m)"

definition incrementPasswordUpdateFailure :: "string \<Rightarrow> unit handler" where
  "incrementPasswordUpdateFailure user =
     State (\<lambda>s. ((), s\<lparr>sv_updatePasswordErrUser := bounded_inc (sv_updatePasswordErrUser s) user\<rparr>))"

definition resetPasswordUpdateFailure :: "string \<Rightarrow> unit handler" where
  "resetPasswordUpdateFailure user =
     State (\<lambda>s. ((), s\<lparr>sv_updatePasswordErrUser := (sv_updatePasswordErrUser s)(user := 0)\<rparr>))"

definition clearPasswordUpdateFailures :: "unit handler" where
  "clearPasswordUpdateFailures = State (\<lambda>s. ((), s\<lparr>sv_updatePasswordErrUser := (\<lambda>_. 0)\<rparr>))"

definition checkPasswordFailureCount :: "string \<Rightarrow> int handler" where
  "checkPasswordFailureCount user = State (\<lambda>s. (sv_checkPasswordErrUser s user, s))"

definition incrementCheckPasswordFailure :: "string \<Rightarrow> unit handler" where
  "incrementCheckPasswordFailure user =
     State (\<lambda>s. ((), s\<lparr>sv_checkPasswordErrUser := bounded_inc (sv_checkPasswordErrUser s) user\<rparr>))"

definition resetCheckPasswordFailure :: "string \<Rightarrow> unit handler" where
  "resetCheckPasswordFailure user =
     State (\<lambda>s. ((), s\<lparr>sv_checkPasswordErrUser := (sv_checkPasswordErrUser s)(user := 0)\<rparr>))"

definition clearCheckPasswordFailures :: "unit handler" where
  "clearCheckPasswordFailures = State (\<lambda>s. ((), s\<lparr>sv_checkPasswordErrUser := (\<lambda>_. 0)\<rparr>))"

subsection \<open>Quota of approval requests\<close>

definition approvalCreateWindow :: int where "approvalCreateWindow = 600 * 10 ^ 9"
definition approvalCreateMax :: nat where "approvalCreateMax = 20"
definition maxApprovalQuotaUsers :: nat where "maxApprovalQuotaUsers = 100000"

definition quota_entries :: "(string \<times> int list) list \<Rightarrow> string \<Rightarrow> int list" where
  "quota_entries q user = (case map_of q user of None \<Rightarrow> [] | Some es \<Rightarrow> es)"

fun set_quota :: "string \<Rightarrow> int list \<Rightarrow> (string \<times> int list) list \<Rightarrow> (string \<times> int list) list" where
  "set_quota user es [] = [(user, es)]"
| "set_quota user es ((k, v) # q) = (if k = user then (k, es) # q else (k, v) # set_quota user es q)"

text \<open>The entries after the cutoff; a user without any is dropped.\<close>

fun purge_quota :: "int \<Rightarrow> (string \<times> int list) list \<Rightarrow> (string \<times> int list) list" where
  "purge_quota cutoff [] = []"
| "purge_quota cutoff ((k, old) # q) =
     (let fresh = filter (\<lambda>created. cutoff < created) old in
      if length fresh = 0 then purge_quota cutoff q else (k, fresh) # purge_quota cutoff q)"

definition allowApprovalCreate :: "string \<Rightarrow> int \<Rightarrow> (string \<times> int list) list \<Rightarrow> bool \<times> (string \<times> int list) list" where
  "allowApprovalCreate user now q =
     (let user = TrimSpace user in
      if user = [] then (False, q)
      else let cutoff = now - approvalCreateWindow;
               kept = filter (\<lambda>created. cutoff < created) (quota_entries q user) in
      if length kept \<ge> approvalCreateMax then (False, set_quota user kept q)
      else let full = (map_of q user = None \<and> length q \<ge> maxApprovalQuotaUsers);
               q = (if full then purge_quota cutoff q else q) in
      if full \<and> length q \<ge> maxApprovalQuotaUsers then (False, q)
      else (True, set_quota user (kept @ [now]) q))"

definition take_quota :: "string \<Rightarrow> int \<Rightarrow> bool handler" where
  "take_quota user now = State (\<lambda>s. case allowApprovalCreate user now (sv_quota s) of (ok, q) \<Rightarrow> (ok, s\<lparr>sv_quota := q\<rparr>))"

subsection \<open>Source addresses\<close>

definition defaultAllowedCIDRs :: "string list" where
  "defaultAllowedCIDRs = [''127.0.0.1/32'', ''::1/128'']"

text \<open>\<open>None\<close> is the error, whose only use is the panic at the start of the server.\<close>

fun nets_loop :: "lib \<Rightarrow> string list \<Rightarrow> (bytes \<times> bytes) list \<Rightarrow> (bytes \<times> bytes) list option" where
  "nets_loop L [] nets = Some nets"
| "nets_loop L (c # cs) nets =
     (let c = TrimSpace c in
      if c = [] then nets_loop L cs nets
      else (case ParseCIDR L c of None \<Rightarrow> None | Some n \<Rightarrow> nets_loop L cs (nets @ [n])))"

definition ResolveAllowedNets :: "lib \<Rightarrow> string list \<Rightarrow> (bytes \<times> bytes) list option" where
  "ResolveAllowedNets L AllowedCIDRs =
     nets_loop L (if length AllowedCIDRs = 0 then defaultAllowedCIDRs else AllowedCIDRs) []"

definition ipWhitelistExemptPaths :: "string list" where
  "ipWhitelistExemptPaths = [''/health'']"

text \<open>The handler that the factory returns for the networks; \<open>None\<close> lets the request pass.\<close>

definition ipWhitelistMiddleware :: "lib \<Rightarrow> (bytes \<times> bytes) list \<Rightarrow> request \<Rightarrow> response option" where
  "ipWhitelistMiddleware L nets r =
     (if rq_Path r \<in> set ipWhitelistExemptPaths then None
      else (case ParseIP L (rq_ClientIP r) of
              None \<Rightarrow> Some (StatusForbidden, Text ''ip not allowed'')
            | Some ip \<Rightarrow> if list_ex (\<lambda>n. Contains n ip) nets then None
                         else Some (StatusForbidden, Text ''ip not allowed'')))"

subsection \<open>\<open>identity_status.go\<close> and \<open>handler.go\<close>\<close>

text \<open>The value of the \<open>:user\<close> parameter is the argument.\<close>

definition httpInternalUserStatus :: "string \<Rightarrow> response handler" where
  "httpInternalUserStatus param =
     (let username = TrimSpace param in
      if username = [] then respond StatusBadRequest ''user name must not be empty''
      else do {
        (user, err) \<leftarrow> db_op (GetTacacsUserInfoByUserName username);
        case err of Some e \<Rightarrow> respond StatusFailedDependency ''reading the user status failed''
        | None \<Rightarrow> (case user of None \<Rightarrow> respond StatusNotFound ''no such user''
            | Some u \<Rightarrow> State_Monad.return (StatusOK, Status (tu_Status u)))
      })"

text \<open>The two \<open>Ping\<close>s are the argument.\<close>

fun httpApiHealth :: "go_error option list \<Rightarrow> response handler" where
  "httpApiHealth [] = respond StatusOK ''all service is healthy''"
| "httpApiHealth (Some e # ps) = respond StatusFailedDependency (''connect to db failed, err: '' @ err_msg e)"
| "httpApiHealth (None # ps) = httpApiHealth ps"

definition httpApiMetaRefresh :: "identity \<Rightarrow> response handler" where
  "httpApiMetaRefresh i = admin_only i (do {
     err \<leftarrow> db_op RefreshAllMeta;
     case err of Some e \<Rightarrow> respond StatusFailedDependency (''refresh tacacs_meta failed: '' @ err_msg e)
     | None \<Rightarrow> respond StatusOK ''tacacs_meta version bumped for all keys''
   })"

end
