(* ===== verification/HandlersUser.thy ===== *)
theory HandlersUser
  imports HttpServer
begin

text \<open>
  \<open>handler_user.go\<close>: reading users, creating and disabling them, and passwords, notes and contact
  data.  A request is the result of \<open>ShouldBindJSON\<close>; what that has left of a malformed body,
  which the answer quotes, is taken as empty.  The wait group of the shutdown is left out.
\<close>

definition bad_body :: "go_error \<Rightarrow> string" where
  "bad_body e = ''body() convert to struct err: '' @ err_msg e"

subsection \<open>Reading\<close>

definition status_text :: "string \<Rightarrow> string" where
  "status_text st = (if st = ''0'' then ''disabled'' else if st = ''1'' then ''in use'' else if st = ''2'' then ''paused'' else [])"

definition user_view :: "TacacsUser \<Rightarrow> user_info" where
  "user_view u = \<lparr>ui_User = tu_User u, ui_PhoneNumber = tu_PhoneNumber u, ui_Email = tu_Email u,
     ui_CreateTime = tu_CreateTime u, ui_Role = tu_Role u, ui_RoleUpdateTime = tu_RoleUpdateTime u,
     ui_PasswordUpdateTime = tu_PasswordUpdateTime u, ui_Status = status_text (tu_Status u),
     ui_StatusUpdateTime = tu_StatusUpdateTime u, ui_Notes = tu_Notes u\<rparr>"

definition httpApiUserGet :: "identity \<Rightarrow> response handler" where
  "httpApiUserGet i = verified_only i (\<lambda>username isAdmin. do {
     (users, err) \<leftarrow> db_op GetTacacsUserInfos;
     case err of Some e \<Rightarrow> respond StatusFailedDependency (''get tacacs user info err: '' @ err_msg e)
     | None \<Rightarrow> State_Monad.return (StatusOK, Users (map user_view
         (filter (\<lambda>u. canReadOwnedRecord username (tu_User u) isAdmin) users)))
   })"

definition httpApiUserGetAdmin :: "identity \<Rightarrow> response handler" where
  "httpApiUserGetAdmin i = admin_only i (do {
     admins \<leftarrow> db_op GetTacacsAdminUser;
     State_Monad.return (StatusOK, Names admins)
   })"

subsection \<open>Creating, disabling, resetting\<close>

record create_req =
  cr_User :: string
  cr_PhoneNumber :: string
  cr_Email :: string
  cr_Password :: string
  cr_Notes :: string

text \<open>The answer of a handler that ends with an error or success text.\<close>

definition finish :: "string \<Rightarrow> string \<Rightarrow> go_error option \<Rightarrow> response" where
  "finish failed done err =
     (case err of Some e \<Rightarrow> (StatusFailedDependency, Text (failed @ err_msg e)) | None \<Rightarrow> (StatusOK, Text done))"

definition httpApiUserCreate :: "http_env \<Rightarrow> identity \<Rightarrow> create_req result \<Rightarrow> response handler" where
  "httpApiUserCreate env i body = admin_only i (case body of
     Inl e \<Rightarrow> respond StatusFailedDependency (bad_body e)
   | Inr req \<Rightarrow> do {
       (users, err) \<leftarrow> db_op GetTacacsUserInfos;
       case err of Some e \<Rightarrow> respond StatusFailedDependency (''GetTacacsUserInfos err: '' @ err_msg e)
       | None \<Rightarrow>
         if cr_User req = [] \<or> cr_PhoneNumber req = [] \<or> cr_Email req = [] \<or> cr_Password req = []
         then respond StatusBadRequest ''parameters are missing''
         else do {
           lookupErr \<leftarrow> GetUserIdByBasicInfo env (cr_Email req) (cr_PhoneNumber req);
           case lookupErr of Some e \<Rightarrow> respond StatusBadRequest (''looking up the person failed: '' @ err_msg e)
           | None \<Rightarrow> do {
               err \<leftarrow> (if cr_User req \<notin> tu_User ` set users
                       then db_op (CreateUser (cr_User req) (cr_PhoneNumber req) (cr_Email req) (cr_Password req) (cr_Notes req))
                       else State_Monad.return (Some (GoError ''the user exists already'')));
               State_Monad.return (finish (cr_User req @ '' create failed, because:'') (cr_User req @ '' create success'') err)
             }
         }
     })"

record reset_req =
  rr_Operator :: string
  rr_OperatorPassword :: string
  rr_User :: string
  rr_Password :: string

text \<open>The loop over the users; the last entry of the operator counts.\<close>

fun reset_loop :: "lib \<Rightarrow> reset_req \<Rightarrow> TacacsUser list \<Rightarrow> bool \<times> bool \<times> bool \<Rightarrow> bool \<times> bool \<times> bool" where
  "reset_loop L req [] acc = acc"
| "reset_loop L req (u # us) (operatorExist, operatorPwdOk, userExist) =
     (let (e, ok) = (if tu_User u = rr_Operator req
                     then (True, CheckPasswordHash L (rr_OperatorPassword req) (tu_Password u))
                     else (operatorExist, operatorPwdOk))
      in reset_loop L req us (e, ok, if tu_User u = rr_User req then True else userExist))"

definition resetUserPassword :: "string \<Rightarrow> string \<Rightarrow> go_error option handler" where
  "resetUserPassword user password = db_op (ResetUserPassword user password)"

text \<open>From the check of the operator's password on.\<close>

definition reset_checked :: "http_env \<Rightarrow> reset_req \<Rightarrow> TacacsUser list \<Rightarrow> response handler" where
  "reset_checked env req users =
     (case reset_loop (he_lib env) req users (False, False, False) of (operatorExist, operatorPwdOk, userExist) \<Rightarrow>
        if \<not> operatorExist \<or> \<not> operatorPwdOk then respond StatusUnauthorized ''wrong user name or password''
        else do {
          admins \<leftarrow> db_op GetTacacsAdminUser;
          if \<not> IsValueInList (rr_Operator req) admins
          then respond StatusForbidden (''user '' @ rr_Operator req @ '' is no administrator'')
          else if \<not> userExist then respond StatusFailedDependency (''user '' @ rr_User req @ '' does not exist'')
          else do {
            err \<leftarrow> resetUserPassword (rr_User req) (rr_Password req);
            _ \<leftarrow> (if err = None then resetCheckPasswordFailure (rr_User req) else State_Monad.return ());
            State_Monad.return (finish (rr_User req @ '' reset password failed, because:'')
              (rr_User req @ '' reset password success by operator '' @ rr_Operator req) err)
          }
        })"

definition httpApiUserResetPassword :: "http_env \<Rightarrow> identity \<Rightarrow> reset_req result \<Rightarrow> response handler" where
  "httpApiUserResetPassword env i body = admin_only i (case body of
     Inl e \<Rightarrow> respond StatusFailedDependency (bad_body e)
   | Inr req \<Rightarrow> verified_only i (\<lambda>operator _.
       if rr_Operator req \<noteq> operator then respond StatusForbidden ''operator must match signed identity''
       else if rr_Operator req = [] \<or> rr_OperatorPassword req = [] \<or> rr_User req = [] \<or> rr_Password req = []
       then respond StatusBadRequest ''parameters are missing''
       else if rr_Operator req = rr_User req then respond StatusForbidden ''the own password cannot be reset''
       else do {
         (users, err) \<leftarrow> db_op GetTacacsUserInfos;
         case err of Some e \<Rightarrow> respond StatusFailedDependency (''GetTacacsUserInfos err: '' @ err_msg e)
         | None \<Rightarrow> reset_checked env req users
       }))"

definition httpApiUserDelete :: "identity \<Rightarrow> string result \<Rightarrow> response handler" where
  "httpApiUserDelete i body = admin_only i (case body of
     Inl e \<Rightarrow> respond StatusMethodNotAllowed (bad_body e)
   | Inr user \<Rightarrow> do {
       err \<leftarrow> db_op (UpdateUserStatus user ''0'');
       State_Monad.return (finish (''delete user:'' @ user @ '' failed, because:'') (''delete user:'' @ user @ '' success'') err)
     })"

subsection \<open>What users change themselves\<close>

record password_req =
  pr_User :: string
  pr_OldPassword :: string
  pr_NewPassword :: string

text \<open>The first user with the name, as the loop with its \<open>break\<close> finds it.\<close>

fun find_user :: "string \<Rightarrow> TacacsUser list \<Rightarrow> TacacsUser option" where
  "find_user name [] = None"
| "find_user name (u # us) = (if tu_User u = name then Some u else find_user name us)"

text \<open>The part after the check of the failure counter, which is another critical section.\<close>

definition update_password_checked :: "http_env \<Rightarrow> password_req \<Rightarrow> response handler" where
  "update_password_checked env req = do {
     (users, _) \<leftarrow> db_op GetTacacsUserInfos;
     case find_user (pr_User req) users of
       None \<Rightarrow> respond StatusMethodNotAllowed (''user '' @ pr_User req @ '' does not exist'')
     | Some u \<Rightarrow>
         if tu_Status u = ''0'' then respond StatusForbidden ''the account is disabled''
         else if \<not> CheckPasswordHash (he_lib env) (pr_OldPassword req) (tu_Password u)
         then do {
           _ \<leftarrow> incrementPasswordUpdateFailure (pr_User req);
           respond StatusMethodNotAllowed ''the old password is wrong''
         }
         else do {
           err \<leftarrow> db_op (UpdateUserPassword (pr_User req) (pr_NewPassword req));
           _ \<leftarrow> (if err = None then resetPasswordUpdateFailure (pr_User req) else State_Monad.return ());
           State_Monad.return (finish (pr_User req @ '' update password failed, because:'')
             (pr_User req @ '' update password success'') err)
         }
   }"

definition httpApiUserUpdatePassword :: "http_env \<Rightarrow> identity \<Rightarrow> password_req result \<Rightarrow> response handler" where
  "httpApiUserUpdatePassword env i body = (case body of
     Inl e \<Rightarrow> respond StatusMethodNotAllowed (bad_body e)
   | Inr req \<Rightarrow> verified_only i (\<lambda>operator isAdmin.
       if \<not> isAdmin \<and> pr_User req \<noteq> operator then respond StatusForbidden ''only the own password can be changed''
       else do {
         n \<leftarrow> passwordUpdateFailureCount (pr_User req);
         if n > 3 then respond StatusMethodNotAllowed (''too many wrong passwords for '' @ pr_User req)
         else update_password_checked env req
       }))"

record notes_req =
  nr_User :: string
  nr_Notes :: string

definition httpApiUserUpdateNotes :: "identity \<Rightarrow> notes_req result \<Rightarrow> response handler" where
  "httpApiUserUpdateNotes i body = (case body of
     Inl e \<Rightarrow> respond StatusMethodNotAllowed (bad_body e)
   | Inr req \<Rightarrow> verified_only i (\<lambda>operator isAdmin.
       if \<not> isAdmin \<and> nr_User req \<noteq> operator then respond StatusForbidden ''only the own notes can be changed''
       else do {
         err \<leftarrow> db_op (UpdateUserNotes (nr_User req) (nr_Notes req));
         State_Monad.return (finish (nr_User req @ '' update notes failed, because:'') (nr_User req @ '' update notes success'') err)
       }))"

record basic_req =
  br_User :: string
  br_Email :: string
  br_PhoneNumber :: string

definition httpApiUserUpdateBasicInfo :: "http_env \<Rightarrow> identity \<Rightarrow> basic_req result \<Rightarrow> response handler" where
  "httpApiUserUpdateBasicInfo env i body = (case body of
     Inl e \<Rightarrow> respond StatusMethodNotAllowed (bad_body e)
   | Inr req \<Rightarrow> verified_only i (\<lambda>operator isAdmin.
       if \<not> isAdmin \<and> br_User req \<noteq> operator then respond StatusForbidden ''only the own data can be changed''
       else do {
         lookupErr \<leftarrow> GetUserIdByBasicInfo env (br_Email req) (br_PhoneNumber req);
         case lookupErr of Some e \<Rightarrow> respond StatusBadRequest (''looking up the person failed: '' @ err_msg e)
         | None \<Rightarrow> do {
             err \<leftarrow> db_op (UpdateUserEmailAndPhoneNumber (br_User req) (br_Email req) (br_PhoneNumber req));
             State_Monad.return (finish (br_User req @ '' update email failed, because:'') (br_User req @ '' update email success'') err)
           }
       }))"

subsection \<open>The check of a password at login\<close>

record check_req =
  kr_User :: string
  kr_Password :: string

definition check_user_checked :: "http_env \<Rightarrow> check_req \<Rightarrow> response handler" where
  "check_user_checked env req = do {
     (users, _) \<leftarrow> db_op GetTacacsUserInfos;
     case find_user (kr_User req) users of
       None \<Rightarrow> respond StatusMethodNotAllowed (''user '' @ kr_User req @ '' does not exist'')
     | Some u \<Rightarrow>
         if tu_Status u \<noteq> ''1'' \<and> tu_Status u \<noteq> ''2'' then respond StatusForbidden ''the account cannot log in''
         else if \<not> CheckPasswordHash (he_lib env) (kr_Password req) (tu_Password u)
         then do {
           _ \<leftarrow> incrementCheckPasswordFailure (kr_User req);
           respond StatusMethodNotAllowed ''the password is wrong''
         }
         else do {
           _ \<leftarrow> resetCheckPasswordFailure (kr_User req);
           State_Monad.return (StatusOK, Status (tu_Status u))
         }
   }"

definition httpApiCheckUser :: "http_env \<Rightarrow> identity \<Rightarrow> check_req result \<Rightarrow> response handler" where
  "httpApiCheckUser env i body = (case body of
     Inl e \<Rightarrow> respond StatusMethodNotAllowed (''body() bad format: '' @ err_msg e)
   | Inr req \<Rightarrow> verified_only i (\<lambda>operator isAdmin.
       if \<not> isAdmin \<and> kr_User req \<noteq> operator then respond StatusForbidden ''only the own password can be checked''
       else do {
         n \<leftarrow> checkPasswordFailureCount (kr_User req);
         if n > 3 then respond StatusMethodNotAllowed (''too many wrong passwords for '' @ kr_User req)
         else check_user_checked env req
       }))"

definition httpClearCheckPasswordErrUser :: "identity \<Rightarrow> response handler" where
  "httpClearCheckPasswordErrUser i =
     admin_only i (do { _ \<leftarrow> clearCheckPasswordFailures; respond StatusOK ''done'' })"

definition httpClearUpdatePasswordErrUser :: "identity \<Rightarrow> response handler" where
  "httpClearUpdatePasswordErrUser i =
     admin_only i (do { _ \<leftarrow> clearPasswordUpdateFailures; respond StatusOK ''done'' })"

end
