(* ===== verification/HandlersTemplate.thy ===== *)
theory HandlersTemplate
  imports HandlersUser
begin

text \<open>
  \<open>handler_role.go\<close>, \<open>handler_template_server.go\<close> and \<open>handler_template_command.go\<close>: reading,
  creating and deleting roles and the templates they are made of.
\<close>

subsection \<open>Roles\<close>

definition httpApiRoleGet :: "identity \<Rightarrow> response handler" where
  "httpApiRoleGet i = verified_only i (\<lambda>_ isAdmin. do {
     roleTemplate \<leftarrow> db_op GetTacacsRoleTemplate;
     State_Monad.return (StatusOK, RoleRows (if \<not> isAdmin then publicRoleRows roleTemplate else roleTemplate))
   })"

record role_req =
  rq_Template :: string
  rq_ServerTemplateList :: string
  rq_CommandTemplateList :: string

text \<open>The loops over the names in the two lists: whether all templates exist.\<close>

fun servers_exist :: "string list \<Rightarrow> bool handler" where
  "servers_exist [] = State_Monad.return True"
| "servers_exist (sT # sTs) = do {
     (serverTemplate, err) \<leftarrow> db_op (GetTacacsServerTemplatesByTemplate sT);
     if err \<noteq> None \<or> length serverTemplate < 1 then State_Monad.return False else servers_exist sTs
   }"

fun commands_exist :: "string list \<Rightarrow> bool handler" where
  "commands_exist [] = State_Monad.return True"
| "commands_exist (cT # cTs) = do {
     (commandTemplate, err) \<leftarrow> db_op (GetTacacsCommandTemplatesByTemplate cT);
     if err \<noteq> None \<or> length commandTemplate < 1 then State_Monad.return False else commands_exist cTs
   }"

text \<open>The \<open>%v\<close> of the request.\<close>

definition role_text :: "role_req \<Rightarrow> string" where
  "role_text req = ''{'' @ rq_Template req @ '' '' @ rq_ServerTemplateList req @ '' '' @ rq_CommandTemplateList req @ ''}''"

definition httpApiRoleCreate :: "identity \<Rightarrow> role_req result \<Rightarrow> response handler" where
  "httpApiRoleCreate i body = admin_only i (case body of
     Inl e \<Rightarrow> respond StatusMethodNotAllowed (bad_body e)
   | Inr req \<Rightarrow>
       if CHR '','' \<in> set (rq_Template req)
       then respond StatusMethodNotAllowed (''Template('' @ rq_Template req @ '') must not contain comma'')
       else do {
         temp \<leftarrow> db_op (GetTacacsRoleTemplateByTemplate (rq_Template req));
         if rt_Template temp \<noteq> [] then respond StatusMethodNotAllowed (''Template('' @ rq_Template req @ '') already exists'')
         else do {
           ok \<leftarrow> servers_exist (Split CHR '','' (rq_ServerTemplateList req));
           if \<not> ok then respond StatusMethodNotAllowed (''server_template_list('' @ rq_ServerTemplateList req @
             '') does not exist, please create server_template_list first'')
           else do {
             ok \<leftarrow> commands_exist (Split CHR '','' (rq_CommandTemplateList req));
             if \<not> ok then respond StatusMethodNotAllowed (''command_template_list('' @ rq_CommandTemplateList req @
               '') does not exist, please create command_template_list first'')
             else do {
               err \<leftarrow> db_op (CreateRole (rq_Template req) (rq_ServerTemplateList req) (rq_CommandTemplateList req));
               case err of Some e \<Rightarrow> respond StatusMethodNotAllowed (''Create role('' @ role_text req @ '') failed, err:'' @ err_msg e)
               | None \<Rightarrow> respond StatusOK (role_text req @ '' create success'')
             }
           }
         }
       })"

text \<open>The loop that collects the roles of the approvals under review or granted.\<close>

fun using_loop :: "TacacsApproval list \<Rightarrow> string list \<Rightarrow> string list" where
  "using_loop [] isUsingRole = isUsingRole"
| "using_loop (a # as) isUsingRole =
     using_loop as (if \<not> IsValueInList (tap_ApprovalPermissions a) isUsingRole
                    then isUsingRole @ [tap_ApprovalPermissions a] else isUsingRole)"

lemma using_loop_set [simp]: "set (using_loop as us) = tap_ApprovalPermissions ` set as \<union> set us"
  by (induction as arbitrary: us) auto

definition httpApiRoleDelete :: "identity \<Rightarrow> string result \<Rightarrow> response handler" where
  "httpApiRoleDelete i body = admin_only i (case body of
     Inl e \<Rightarrow> respond StatusMethodNotAllowed (bad_body e)
   | Inr template \<Rightarrow> do {
       temp \<leftarrow> db_op (GetTacacsRoleTemplateByTemplate template);
       if rt_Template temp = [] then respond StatusMethodNotAllowed (''Template('' @ template @ '') does not exist'')
       else do {
         (approvingLists, _) \<leftarrow> db_op (GetTacacsApproval ApprovalUnderReview);
         (approvalPassedLists, _) \<leftarrow> db_op (GetTacacsApproval ApprovalPass);
         if IsValueInList template (using_loop (approvingLists @ approvalPassedLists) [])
         then respond StatusMethodNotAllowed (''Template('' @ template @ '') is using'')
         else do {
           err \<leftarrow> db_op (DeleteRole template);
           case err of Some e \<Rightarrow> respond StatusMethodNotAllowed (''Template('' @ template @ '') does not exist'')
           | None \<Rightarrow> respond StatusOK (''Template('' @ template @ '') delete success'')
         }
       }
     })"

subsection \<open>Server and command templates\<close>

definition httpApiTemplateServerGet :: "identity \<Rightarrow> response handler" where
  "httpApiTemplateServerGet i = admin_only i (do {
     (serverTemplate, err) \<leftarrow> db_op GetTacacsServerTemplates;
     case err of Some e \<Rightarrow> respond StatusFailedDependency (''GetTacacsServerTemplates err: '' @ err_msg e)
     | None \<Rightarrow> State_Monad.return (StatusOK, ServerRows serverTemplate)
   })"

definition httpApiTemplateCmdGet :: "identity \<Rightarrow> response handler" where
  "httpApiTemplateCmdGet i = admin_only i (do {
     (cmdTempLists, err) \<leftarrow> db_op GetTacacsCommandTemplates;
     case err of Some e \<Rightarrow> respond StatusFailedDependency (''GetTacacsCommandTemplates err: '' @ err_msg e)
     | None \<Rightarrow> State_Monad.return (StatusOK, CommandRows cmdTempLists)
   })"

record template_req =
  tr_Template :: string
  tr_TemplateDetail :: "string list"

text \<open>The entries that are new, or the first that is no address.\<close>

fun servers_needed :: "lib \<Rightarrow> string list \<Rightarrow> string list \<Rightarrow> string list \<Rightarrow> string + string list" where
  "servers_needed L had [] need = Inr need"
| "servers_needed L had (ip # ips) need =
     (let strType = fst (GetNetworkType L ip) in
      if strType \<noteq> 1 \<and> strType \<noteq> 2 then Inl ip
      else servers_needed L had ips (if ip \<notin> set had then need @ [ip] else need))"

definition added :: "template_req \<Rightarrow> string list \<Rightarrow> go_error option \<Rightarrow> response" where
  "added req needed err =
     (let text = ''Template:'' @ tr_Template req @ '',TemplateDetail:['' @ Join '' '' needed @ '']'' in
      case err of Some e \<Rightarrow> (StatusNotFound, Text (text @ '' add failed, because:'' @ err_msg e))
      | None \<Rightarrow> (StatusOK, Text (text @ '' add success'')))"

definition httpApiTemplateServerAdd :: "lib \<Rightarrow> identity \<Rightarrow> template_req result \<Rightarrow> response handler" where
  "httpApiTemplateServerAdd L i body = admin_only i (case body of
     Inl e \<Rightarrow> respond StatusMethodNotAllowed (bad_body e)
   | Inr req \<Rightarrow>
       if CHR '','' \<in> set (tr_Template req)
       then respond StatusMethodNotAllowed (''Template('' @ tr_Template req @ '') must not contain comma'')
       else if length (tr_TemplateDetail req) < 1 then respond StatusMethodNotAllowed ''body() TemplateDetail is null''
       else do {
         used \<leftarrow> db_op (IsTemplateServerInUsed (Name (tr_Template req)));
         if used then respond StatusMethodNotAllowed ''Template is using!''
         else do {
           (serverLists, err) \<leftarrow> db_op (GetTacacsServerTemplatesByTemplate (tr_Template req));
           case err of Some e \<Rightarrow>
             respond StatusMethodNotAllowed (''GetTacacsServerTemplatesByTemplate failed, err: '' @ err_msg e)
           | None \<Rightarrow> (case servers_needed L (map st_ServerTemplate serverLists) (tr_TemplateDetail req) [] of
               Inl ip \<Rightarrow> respond StatusMethodNotAllowed (''The string '' @ ip @ '' is not in ip format'')
             | Inr serverNeedAdd \<Rightarrow>
                 if length serverNeedAdd < 1
                 then respond StatusOK (''Servers(['' @ Join '' '' (tr_TemplateDetail req) @ '']) has been added, do not add repeatedly '')
                 else do {
                   err \<leftarrow> db_op (AddTacacsServerTemplates (tr_Template req) serverNeedAdd);
                   State_Monad.return (added req serverNeedAdd err)
                 })
         }
       })"

definition httpApiTemplateCmdAdd :: "identity \<Rightarrow> template_req result \<Rightarrow> response handler" where
  "httpApiTemplateCmdAdd i body = admin_only i (case body of
     Inl e \<Rightarrow> respond StatusMethodNotAllowed (bad_body e)
   | Inr req \<Rightarrow>
       if CHR '','' \<in> set (tr_Template req)
       then respond StatusMethodNotAllowed (''Template('' @ tr_Template req @ '') must not contain comma'')
       else do {
         used \<leftarrow> db_op (IsTemplateCmdInUsed (Name (tr_Template req)));
         if used then respond StatusMethodNotAllowed ''Template is using!''
         else do {
           (cmdLists, err) \<leftarrow> db_op (GetTacacsCommandTemplatesByTemplate (tr_Template req));
           case err of Some e \<Rightarrow>
             respond StatusMethodNotAllowed (''GetTacacsCommandTemplatesByTemplate failed, err: '' @ err_msg e)
           | None \<Rightarrow>
               let cmdNeedAdd = filter (\<lambda>cmd. \<not> IsValueInList cmd (map ct_CommandTemplate cmdLists)) (tr_TemplateDetail req) in
               if length cmdNeedAdd < 1
               then respond StatusOK (''Command(['' @ Join '' '' (tr_TemplateDetail req) @ '']) has been added, do not add repeatedly '')
               else do {
                 err \<leftarrow> db_op (AddTacacsCommandTemplate (tr_Template req) cmdNeedAdd);
                 State_Monad.return (added req cmdNeedAdd err)
               }
         }
       })"

record delete_req =
  dr_Id :: int
  dr_Template :: string

text \<open>
  The two handlers for deletion have the same shape; their checks and the deletion are the
  arguments of one definition, \<open>it\<close> is the id or the name and \<open>what\<close> its text.
\<close>

definition delete_template ::
  "(item \<Rightarrow> bool io) \<Rightarrow> bool io \<Rightarrow> (item \<Rightarrow> bool io) \<Rightarrow> (item \<Rightarrow> go_error option io) \<Rightarrow> item \<Rightarrow> string \<Rightarrow> string \<Rightarrow> response handler" where
  "delete_template in_used exists_it may_delete del it what refused = do {
     used \<leftarrow> db_op (in_used it);
     if used then respond StatusMethodNotAllowed ''Template is using!''
     else do {
       ex \<leftarrow> db_op exists_it;
       if ex then do {
         may \<leftarrow> db_op (may_delete it);
         if may then do {
           err \<leftarrow> db_op (del it);
           case err of Some e \<Rightarrow> respond StatusMethodNotAllowed (''delete by '' @ what @ '' failed, err: '' @ err_msg e)
           | None \<Rightarrow> respond StatusOK (''delete by '' @ what @ '' success'')
         }
         else respond StatusOK (what @ refused)
       }
       else respond StatusMethodNotAllowed (what @ '' is not exists'')
     }
   }"

definition last_entry :: string where
  "last_entry = '' delete false. This id is the last entry in the template. The template is still being referenced. Please check the user role.''"

definition still_referenced :: string where
  "still_referenced = '' delete false. The template is still being referenced. Please check the user role.''"

definition httpApiTemplateServerDelete :: "identity \<Rightarrow> delete_req result \<Rightarrow> response handler" where
  "httpApiTemplateServerDelete i body = admin_only i (case body of
     Inl e \<Rightarrow> respond StatusMethodNotAllowed (bad_body e)
   | Inr req \<Rightarrow>
       if (dr_Id req = 0 \<and> dr_Template req = []) \<or> (dr_Id req \<noteq> 0 \<and> dr_Template req \<noteq> [])
       then respond StatusMethodNotAllowed ''id and template cannot be empty or have values at the same time''
       else if dr_Id req \<noteq> 0
       then delete_template IsTemplateServerInUsed (IsIdExistsInTacacsServerTemplate (dr_Id req)) IsIdOrTemplateDeleteServer
              DelTacacsServerTemplate (Id (dr_Id req)) (''id('' @ dec_int (dr_Id req) @ '')'') last_entry
       else delete_template IsTemplateServerInUsed (IsTemplateExistsInTacacsServerTemplate (dr_Template req)) IsIdOrTemplateDeleteServer
              DelTacacsServerTemplate (Name (dr_Template req)) (''template('' @ dr_Template req @ '')'') still_referenced)"

definition httpApiTemplateCmdDelete :: "identity \<Rightarrow> delete_req result \<Rightarrow> response handler" where
  "httpApiTemplateCmdDelete i body = admin_only i (case body of
     Inl e \<Rightarrow> respond StatusMethodNotAllowed (bad_body e)
   | Inr req \<Rightarrow>
       if (dr_Id req = 0 \<and> dr_Template req = []) \<or> (dr_Id req \<noteq> 0 \<and> dr_Template req \<noteq> [])
       then respond StatusMethodNotAllowed ''id and template cannot be empty or have values at the same time''
       else if dr_Id req \<noteq> 0
       then delete_template IsTemplateCmdInUsed (IsIdExistsInTacacsCommandTemplate (dr_Id req)) IsIdOrTemplateDeleteCommand
              DelTacacsCommandTemplate (Id (dr_Id req)) (''id('' @ dec_int (dr_Id req) @ '')'') last_entry
       else delete_template IsTemplateCmdInUsed (IsTemplateExistsInTacacsCommandTemplate (dr_Template req)) IsIdOrTemplateDeleteCommand
              DelTacacsCommandTemplate (Name (dr_Template req)) (''template('' @ dr_Template req @ '')'') still_referenced)"

end
