(* ===== verification/HandlersApproval.thy ===== *)
theory HandlersApproval
  imports HandlersTemplate Permission
begin

text \<open>
  \<open>handler_approval.go\<close>: requests for a role, the list of them and the decisions on them.  The
  cards that are sent in the background are left out.
\<close>

subsection \<open>A new request\<close>

record mission =
  mi_User :: string
  mi_Permission :: string
  mi_Validity :: string
  mi_StartTime :: string
  mi_EndTime :: string

definition hour :: int where "hour = 3600 * 10 ^ 9"

definition forbidden :: "string \<Rightarrow> response" where
  "forbidden msg = (StatusForbidden, Text msg)"

text \<open>Start and end by a number of days, from the current time on.\<close>

definition validity_range :: "int \<Rightarrow> mission \<Rightarrow> response + int \<times> int" where
  "validity_range now req =
     (case ParseInt (mi_Validity req) of None \<Rightarrow> Inl (forbidden ''the validity is no number'')
      | Some validityNum \<Rightarrow>
          if validityNum > 365 \<or> validityNum < 1 then Inl (forbidden ''the validity is not between 1 and 365 days'')
          else if str_Contains (mi_Permission req) ''permitAny'' \<and> validityNum > 1
          then Inl (forbidden ''the operation role is granted for one day at most'')
          else Inr (now, now + validityNum * 24 * hour))"

text \<open>Start and end as they are given.\<close>

definition time_range :: "http_env \<Rightarrow> int \<Rightarrow> mission \<Rightarrow> response + int \<times> int" where
  "time_range env now req =
     (if mi_StartTime req = [] \<or> mi_EndTime req = [] then Inl (forbidden ''start and end must both be given'')
      else (case he_parse_time env (mi_StartTime req) of Inl e \<Rightarrow> Inl (forbidden ''bad format of the start'')
      | Inr StartTime \<Rightarrow> (case he_parse_time env (mi_EndTime req) of Inl e \<Rightarrow> Inl (forbidden ''bad format of the end'')
      | Inr EndTime \<Rightarrow>
          if \<not> EndTime > StartTime then Inl (forbidden ''the end is not after the start'')
          else if \<not> EndTime > now then Inl (forbidden ''the end is not in the future'')
          else let duration = Sub EndTime StartTime in
          if duration > 365 * 24 * hour then Inl (forbidden ''more than 365 days'')
          else if str_Contains (mi_Permission req) ''permitAny'' \<and> duration > 24 * hour
          then Inl (forbidden ''the operation role is granted for one day at most'')
          else Inr (StartTime, EndTime))))"

definition requested_range :: "http_env \<Rightarrow> int \<Rightarrow> mission \<Rightarrow> response + int \<times> int" where
  "requested_range env now req =
     (let useValidity = (mi_Validity req \<noteq> []);
          useTimeRange = (mi_StartTime req \<noteq> [] \<or> mi_EndTime req \<noteq> [])
      in if useValidity \<and> useTimeRange then Inl (forbidden ''only one of validity and start and end may be given'')
         else if \<not> useValidity \<and> \<not> useTimeRange then Inl (forbidden ''one of validity and start and end must be given'')
         else if useValidity then validity_range now req else time_range env now req)"

text \<open>From the quota on.\<close>

definition submit_mission :: "mission \<Rightarrow> int \<times> int \<Rightarrow> response handler" where
  "submit_mission req span = do {
     now \<leftarrow> db_op time_now;
     ok \<leftarrow> take_quota (mi_User req) now;
     if \<not> ok then respond StatusTooManyRequests ''too many requests for approval''
     else do {
       created \<leftarrow> db_op time_now;
       r \<leftarrow> db_op (CreateTacacsApproval \<lparr>tap_ID = 0, tap_CreateTime = created, tap_User = mi_User req,
              tap_ApprovalPermissions = mi_Permission req, tap_StartTime = fst span, tap_EndTime = snd span,
              tap_Status = 3, tap_Approver = [], tap_ApproveTime = zero_time\<rparr>);
       case r of Inl e \<Rightarrow> respond StatusNotFound (''Create Approval err: '' @ err_msg e)
       | Inr _ \<Rightarrow> respond StatusOK ''create success''
     }
   }"

definition httpApiApprovalCreate :: "http_env \<Rightarrow> identity \<Rightarrow> mission result \<Rightarrow> response handler" where
  "httpApiApprovalCreate env i body = (case body of
     Inl e \<Rightarrow> State_Monad.return (forbidden (bad_body e))
   | Inr req \<Rightarrow> verified_only i (\<lambda>operator isAdmin.
       if \<not> isAdmin \<and> mi_User req \<noteq> operator then respond StatusForbidden ''only for oneself''
       else do {
         tacacsUsers \<leftarrow> db_op GetTacacsUser;
         if \<not> IsValueInList (mi_User req) tacacsUsers
         then State_Monad.return (forbidden (''user('' @ mi_User req @ '') is not one of ['' @ Join '' '' tacacsUsers @ '']''))
         else do {
           roleTemplates \<leftarrow> db_op GetRoles;
           if \<not> IsValueInList (mi_Permission req) roleTemplates
           then State_Monad.return (forbidden (''permission('' @ mi_Permission req @ '') is not one of ['' @ Join '' '' roleTemplates @ '']''))
           else do {
             now \<leftarrow> db_op time_now;
             case requested_range env now req of Inl r \<Rightarrow> State_Monad.return r
             | Inr span \<Rightarrow> submit_mission req span
           }
         }
       }))"

subsection \<open>The list\<close>

text \<open>\<open>sort.Slice\<close> may leave rows of the same time in another order.\<close>

definition httpApiApprovalGet :: "identity \<Rightarrow> response handler" where
  "httpApiApprovalGet i = verified_only i (\<lambda>username isAdmin. do {
     (data, err) \<leftarrow> db_op (GetTacacsApproval ApprovalAll);
     case err of Some e \<Rightarrow> respond StatusFailedDependency (''Get Approval err: '' @ err_msg e)
     | None \<Rightarrow> State_Monad.return (StatusOK, ApprovalRows (filterApprovalRowsForUser
         (sort_key (\<lambda>a. - tap_CreateTime a) data) username isAdmin))
   })"

subsection \<open>A decision\<close>

record decision_req =
  dq_Id :: int
  dq_Status :: int

text \<open>From the approval that has been read on.\<close>

definition decide_found :: "decision_req \<Rightarrow> string \<Rightarrow> bool \<Rightarrow> TacacsApproval option result \<Rightarrow> response handler" where
  "decide_found req operator isAdmin approval = (case approval of
     Inl e \<Rightarrow> respond StatusFailedDependency (''reading the approval failed, err: '' @ err_msg e)
   | Inr None \<Rightarrow> respond StatusNotFound (''Mission(id:'' @ dec_int (dq_Id req) @ '') not found'')
   | Inr (Some a) \<Rightarrow>
       if \<not> isAdmin \<and> tap_User a \<noteq> operator then respond StatusForbidden ''only own requests can be closed''
       else do {
         rows \<leftarrow> db_op (ApproveWithLock (dq_Id req) (dq_Status req) operator);
         case rows of Inl e \<Rightarrow> respond StatusFailedDependency (''Update is failed, err: '' @ err_msg e)
         | Inr n \<Rightarrow>
             if n = 0 then respond StatusFailedDependency (''Mission(id:'' @ dec_int (dq_Id req) @ '') not found or status is not 3'')
             else respond StatusOK (''Update success, id:'' @ dec_int (dq_Id req) @ ''`s status change to '' @ dec_int (dq_Status req))
       })"

definition httpApiApprovalUpdate :: "identity \<Rightarrow> decision_req result \<Rightarrow> response handler" where
  "httpApiApprovalUpdate i body = (case body of
     Inl e \<Rightarrow> respond StatusMethodNotAllowed (bad_body e)
   | Inr req \<Rightarrow>
       if dq_Status req \<noteq> 4 \<and> dq_Status req \<noteq> 2 \<and> dq_Status req \<noteq> 0
       then respond StatusFailedDependency (''AuthenStatus('' @ dec_int (dq_Status req) @ '') is not one of [4, 2, 0]'')
       else verified_only i (\<lambda>operator isAdmin.
         if \<not> isAdmin \<and> dq_Status req \<noteq> approvalStatusClose then respond StatusForbidden ''no right to decide''
         else do {
           approval \<leftarrow> db_op (GetTacacsApprovalByID (dq_Id req));
           decide_found req operator isAdmin approval
         }))"

end
