(* ===== verification/HandlersLog.thy ===== *)
theory HandlersLog
  imports HandlersApproval
begin

text \<open>
  \<open>handler_log.go\<close> and \<open>handler_system.go\<close>: the settings of the log display and the queries on the
  logs, with the rows an ordinary user may see.
\<close>

subsection \<open>Settings of the external log system\<close>

text \<open>A call on \<open>DefaultManager\<close> that also reads the database.\<close>

definition manager_op :: "(Manager \<Rightarrow> ('a \<times> Manager) io) \<Rightarrow> 'a handler" where
  "manager_op f = do {
     m \<leftarrow> State (\<lambda>s. (sv_manager s, s));
     (a, m) \<leftarrow> db_op (f m);
     _ \<leftarrow> State (\<lambda>s. ((), s\<lparr>sv_manager := m\<rparr>));
     State_Monad.return a
   }"

fun url_loop :: "(string \<times> (string \<Rightarrow> logRedirectConfig \<Rightarrow> logRedirectConfig)) list \<Rightarrow> logRedirectConfig \<Rightarrow> logRedirectConfig result handler" where
  "url_loop [] cfg = State_Monad.return (Inr cfg)"
| "url_loop ((key, dst) # kvs) cfg = do {
     v \<leftarrow> db_op (GetMisc key);
     case v of Inl e \<Rightarrow> State_Monad.return (Inl e) | Inr v \<Rightarrow> url_loop kvs (dst v cfg)
   }"

definition zero_redirects :: logRedirectConfig where
  "zero_redirects = \<lparr>lr_Mode = [], lr_Authen = [], lr_Author = [], lr_Account = [],
     lr_VisibleAuthen = False, lr_VisibleAuthor = False, lr_VisibleAccount = False\<rparr>"

text \<open>Both loops: three addresses, then three flags.\<close>

definition loadLogRedirectConfig :: "logRedirectConfig result handler" where
  "loadLogRedirectConfig = url_loop
     [(MiscKeyLogRedirectURLAuthen, \<lambda>v c. c\<lparr>lr_Authen := v\<rparr>),
      (MiscKeyLogRedirectURLAuthor, \<lambda>v c. c\<lparr>lr_Author := v\<rparr>),
      (MiscKeyLogRedirectURLAccount, \<lambda>v c. c\<lparr>lr_Account := v\<rparr>),
      (MiscKeyLogRedirectVisibleAuthen, \<lambda>v c. c\<lparr>lr_VisibleAuthen := (v = ''1'')\<rparr>),
      (MiscKeyLogRedirectVisibleAuthor, \<lambda>v c. c\<lparr>lr_VisibleAuthor := (v = ''1'')\<rparr>),
      (MiscKeyLogRedirectVisibleAccount, \<lambda>v c. c\<lparr>lr_VisibleAccount := (v = ''1'')\<rparr>)]
     zero_redirects"

definition boolToFlag :: "bool \<Rightarrow> string" where
  "boolToFlag b = (if b then ''1'' else ''0'')"

definition normalizeRedirectURL :: "ck_lib \<Rightarrow> string \<Rightarrow> string result" where
  "normalizeRedirectURL L raw =
     (let raw = TrimSpace raw in
      if raw = [] then Inr []
      else (case cl_parse_url L raw of
              Inl e \<Rightarrow> Inl (GoError ''url must be an absolute http(s):// address'')
            | Inr (scheme, host) \<Rightarrow>
                if host = [] \<or> (scheme \<noteq> ''http'' \<and> scheme \<noteq> ''https'')
                then Inl (GoError ''url must be an absolute http(s):// address'')
                else Inr raw))"

text \<open>The three addresses, or the first error with its name.\<close>

definition normalized_urls :: "ck_lib \<Rightarrow> logRedirectConfig \<Rightarrow> (string \<times> string \<times> string) result" where
  "normalized_urls L req =
     (case normalizeRedirectURL L (lr_Authen req) of Inl e \<Rightarrow> Inl (GoError (''authen '' @ err_msg e))
      | Inr authen \<Rightarrow> (case normalizeRedirectURL L (lr_Author req) of Inl e \<Rightarrow> Inl (GoError (''author '' @ err_msg e))
      | Inr author \<Rightarrow> (case normalizeRedirectURL L (lr_Account req) of Inl e \<Rightarrow> Inl (GoError (''account '' @ err_msg e))
      | Inr account \<Rightarrow> Inr (authen, author, account))))"

definition validateRedirectConfig :: "ck_lib \<Rightarrow> logRedirectConfig \<Rightarrow> go_error option" where
  "validateRedirectConfig L req = (case normalized_urls L req of Inl e \<Rightarrow> Some e | Inr _ \<Rightarrow> None)"

text \<open>The map that is stored.\<close>

definition redirect_values :: "string \<times> string \<times> string \<Rightarrow> logRedirectConfig \<Rightarrow> (string \<times> string) list" where
  "redirect_values urls req =
     (case urls of (authen, author, account) \<Rightarrow>
       [(MiscKeyLogDisplayMode, ''external''),
        (MiscKeyLogRedirectURLAuthen, authen), (MiscKeyLogRedirectURLAuthor, author), (MiscKeyLogRedirectURLAccount, account),
        (MiscKeyLogRedirectVisibleAuthen, boolToFlag (lr_VisibleAuthen req)),
        (MiscKeyLogRedirectVisibleAuthor, boolToFlag (lr_VisibleAuthor req)),
        (MiscKeyLogRedirectVisibleAccount, boolToFlag (lr_VisibleAccount req))])"

definition saveExternalLogConfig :: "ck_lib \<Rightarrow> logRedirectConfig \<Rightarrow> go_error option handler" where
  "saveExternalLogConfig L req =
     (case normalized_urls L req of Inl e \<Rightarrow> State_Monad.return (Some e)
      | Inr urls \<Rightarrow> db_op (UpsertMiscBatch (redirect_values urls req)))"

definition httpApiSystemGetLogRedirectConfig :: "response handler" where
  "httpApiSystemGetLogRedirectConfig = do {
     cfg \<leftarrow> loadLogRedirectConfig;
     case cfg of Inl e \<Rightarrow> respond StatusFailedDependency (''get log redirect config failed: '' @ err_msg e)
     | Inr cfg \<Rightarrow> do {
         mode \<leftarrow> db_op GetLogDisplayMode;
         State_Monad.return (StatusOK, Redirects (case mode of Inl _ \<Rightarrow> cfg | Inr mode \<Rightarrow> cfg\<lparr>lr_Mode := mode\<rparr>))
       }
   }"

definition httpApiSystemSetLogRedirectConfig :: "http_env \<Rightarrow> identity \<Rightarrow> logRedirectConfig result \<Rightarrow> response handler" where
  "httpApiSystemSetLogRedirectConfig env i body = admin_only i (case body of
     Inl e \<Rightarrow> respond StatusBadRequest (''invalid body: '' @ err_msg e)
   | Inr req \<Rightarrow>
       (case normalized_urls (he_clickhouse env) req of Inl e \<Rightarrow> respond StatusBadRequest (err_msg e)
        | Inr urls \<Rightarrow> do {
            err \<leftarrow> db_op (UpsertMiscBatch (redirect_values urls req));
            case err of Some e \<Rightarrow> respond StatusFailedDependency (''upsert log redirect config failed: '' @ err_msg e)
            | None \<Rightarrow> respond StatusOK ''log redirect config updated''
          }))"

subsection \<open>All settings\<close>

record clickHouseConfigRequest =
  xr_Address :: string
  xr_Username :: string
  xr_Password :: string
  xr_Database :: string
  xr_Mappings :: "(string \<times> Mapping) list"

record systemLogConfigRequest =
  sr_Mode :: string
  sr_External :: logRedirectConfig
  sr_ClickHouse :: clickHouseConfigRequest

definition mappingView :: "(LogType \<times> Mapping) list \<Rightarrow> (string \<times> Mapping) list" where
  "mappingView src = map (\<lambda>(typ, m). (LogType_String typ, m)) src"

definition loadSystemLogConfig :: "http_env \<Rightarrow> systemLogConfigView result handler" where
  "loadSystemLogConfig env = do {
     external \<leftarrow> loadLogRedirectConfig;
     case external of Inl e \<Rightarrow> State_Monad.return (Inl e)
     | Inr external \<Rightarrow> do {
         mode \<leftarrow> db_op GetLogDisplayMode;
         case mode of Inl e \<Rightarrow> State_Monad.return (Inl e)
         | Inr mode \<Rightarrow> do {
             ck \<leftarrow> db_op (GetClickHouseLogConfig (he_json env) (he_types env));
             State_Monad.return (case ck of Inl e \<Rightarrow> Inl e
               | Inr ck \<Rightarrow> Inr \<lparr>sv_Mode = mode, sv_External = external,
                   sv_ClickHouse = \<lparr>cv_Address = ch_Address ck, cv_Username = ch_Username ck, cv_Database = ch_Database ck,
                     cv_PasswordConfigured = (ch_Password ck \<noteq> []), cv_Mappings = mappingView (ch_Mappings ck)\<rparr>\<rparr>)
           }
       }
   }"

definition httpApiSystemGetLogConfig :: "http_env \<Rightarrow> response handler" where
  "httpApiSystemGetLogConfig env = do {
     view \<leftarrow> loadSystemLogConfig env;
     case view of Inl e \<Rightarrow> respond StatusFailedDependency (''get log config failed: '' @ err_msg e)
     | Inr view \<Rightarrow> State_Monad.return (StatusOK, SystemConfig view)
   }"

fun request_mappings :: "(string \<times> Mapping) list \<Rightarrow> (LogType \<times> Mapping) list \<Rightarrow> (LogType \<times> Mapping) list result" where
  "request_mappings [] ms = Inr ms"
| "request_mappings ((rawType, mapping) # rs) ms =
     (case ParseLogType rawType of Inl e \<Rightarrow> Inl e
      | Inr typ \<Rightarrow> request_mappings rs ((typ, mapping) # filter (\<lambda>p. fst p \<noteq> typ) ms))"

definition or_stored :: "string \<Rightarrow> string \<Rightarrow> string" where
  "or_stored s stored = (if TrimSpace s = [] then stored else s)"

definition resolveClickHouseConfig :: "http_env \<Rightarrow> clickHouseConfigRequest \<Rightarrow> ClickHouseLogConfig result handler" where
  "resolveClickHouseConfig env req = do {
     stored \<leftarrow> db_op (GetClickHouseLogConfig (he_json env) (he_types env));
     State_Monad.return (case stored of Inl e \<Rightarrow> Inl e
       | Inr stored \<Rightarrow>
           let password = or_stored (xr_Password req) (ch_Password stored);
               address = or_stored (xr_Address req) (ch_Address stored);
               username = or_stored (xr_Username req) (ch_Username stored);
               database = or_stored (xr_Database req) (ch_Database stored)
           in (case request_mappings (xr_Mappings req) [] of Inl e \<Rightarrow> Inl e
               | Inr mappings \<Rightarrow>
                   if TrimSpace address = [] \<or> TrimSpace database = []
                   then Inl (GoError ''clickhouse address and database are required'')
                   else Inr \<lparr>ch_Address = TrimSpace address, ch_Username = TrimSpace username, ch_Password = password,
                     ch_Database = TrimSpace database,
                     ch_Mappings = (if length mappings = 0 then ch_Mappings stored else mappings)\<rparr>))
   }"

definition apply_op :: "http_env \<Rightarrow> ClickHouseLogConfig \<Rightarrow> go_error option handler" where
  "apply_op env cfg = State (\<lambda>s. case Apply (he_clickhouse env) cfg (sv_manager s) of (e, m) \<Rightarrow> (e, s\<lparr>sv_manager := m\<rparr>))"

text \<open>The branch for the direct display: validate, store, activate.\<close>

definition set_clickhouse :: "http_env \<Rightarrow> clickHouseConfigRequest \<Rightarrow> response handler" where
  "set_clickhouse env req = do {
     cfg \<leftarrow> resolveClickHouseConfig env req;
     case cfg of Inl e \<Rightarrow> respond StatusBadRequest (err_msg e)
     | Inr cfg \<Rightarrow>
         (case ValidateConfig (he_clickhouse env) cfg of
            Some e \<Rightarrow> respond StatusFailedDependency (''clickhouse validation failed: '' @ err_msg e)
          | None \<Rightarrow> do {
              err \<leftarrow> db_op (SaveClickHouseLogConfig (he_json env) (he_types env) cfg);
              case err of Some e \<Rightarrow> respond StatusFailedDependency (''save clickhouse config failed: '' @ err_msg e)
              | None \<Rightarrow> do {
                  err \<leftarrow> apply_op env cfg;
                  case err of Some e \<Rightarrow> respond StatusFailedDependency (''activate clickhouse config failed: '' @ err_msg e)
                  | None \<Rightarrow> respond StatusOK ''clickhouse log config updated''
                }
            })
   }"

definition httpApiSystemSetLogConfig :: "http_env \<Rightarrow> identity \<Rightarrow> systemLogConfigRequest result \<Rightarrow> response handler" where
  "httpApiSystemSetLogConfig env i body = admin_only i (case body of
     Inl e \<Rightarrow> respond StatusBadRequest (''invalid body: '' @ err_msg e)
   | Inr req \<Rightarrow>
       if sr_Mode req \<noteq> ''external'' \<and> sr_Mode req \<noteq> ''clickhouse''
       then respond StatusBadRequest ''mode must be external or clickhouse''
       else if sr_Mode req = ''external'' then
         (case validateRedirectConfig (he_clickhouse env) (sr_External req) of
            Some e \<Rightarrow> respond StatusBadRequest (err_msg e)
          | None \<Rightarrow> do {
              err \<leftarrow> saveExternalLogConfig (he_clickhouse env) (sr_External req);
              case err of Some e \<Rightarrow> respond StatusFailedDependency (err_msg e)
              | None \<Rightarrow> respond StatusOK ''log display mode updated''
            })
       else set_clickhouse env (sr_ClickHouse req))"

definition httpApiSystemClickHouseTest :: "http_env \<Rightarrow> identity \<Rightarrow> clickHouseConfigRequest result \<Rightarrow> response handler" where
  "httpApiSystemClickHouseTest env i body = admin_only i (case body of
     Inl e \<Rightarrow> respond StatusBadRequest (''invalid body: '' @ err_msg e)
   | Inr req \<Rightarrow> do {
       cfg \<leftarrow> resolveClickHouseConfig env req;
       case cfg of Inl e \<Rightarrow> respond StatusBadRequest (err_msg e)
       | Inr cfg \<Rightarrow>
           (case TestConnection (he_clickhouse env) cfg of
              Some e \<Rightarrow> respond StatusFailedDependency (''clickhouse connection failed: '' @ err_msg e)
            | None \<Rightarrow> State_Monad.return (StatusOK, Connected))
     })"

definition httpApiSystemClickHouseSchema :: "http_env \<Rightarrow> identity \<Rightarrow> clickHouseConfigRequest result \<Rightarrow> response handler" where
  "httpApiSystemClickHouseSchema env i body = admin_only i (case body of
     Inl e \<Rightarrow> respond StatusBadRequest (''invalid body: '' @ err_msg e)
   | Inr req \<Rightarrow> do {
       cfg \<leftarrow> resolveClickHouseConfig env req;
       case cfg of Inl e \<Rightarrow> respond StatusBadRequest (err_msg e)
       | Inr cfg \<Rightarrow>
           (case Discover (he_clickhouse env) cfg of
              Inl e \<Rightarrow> respond StatusFailedDependency (''read clickhouse schema failed: '' @ err_msg e)
            | Inr tables \<Rightarrow> State_Monad.return (StatusOK, Tables tables))
     })"

subsection \<open>Queries\<close>

definition errLogIdentityUnverified :: go_error where "errLogIdentityUnverified = GoError ''request identity is not verified''"
definition errLogIdentityMissing :: go_error where "errLogIdentityMissing = GoError ''missing user identity''"
definition errLogAdminHeaderInvalid :: go_error where "errLogAdminHeaderInvalid = GoError ''invalid admin identity''"
definition errLogUserFilterDenied :: go_error where "errLogUserFilterDenied = GoError ''ordinary users cannot filter by username''"

definition logRequestIdentity :: "request \<Rightarrow> bool \<Rightarrow> (string \<times> bool) result" where
  "logRequestIdentity r verified =
     (if \<not> verified then Inl errLogIdentityUnverified
      else let username = TrimSpace (rq_Header r ''X-SwM-User'') in
      if username = [] then Inl errLogIdentityMissing
      else let adminHeader = TrimSpace (rq_Header r ''X-SwM-Is-Admin'') in
      if adminHeader \<noteq> ''0'' \<and> adminHeader \<noteq> ''1'' then Inl errLogAdminHeaderInvalid
      else Inr (username, adminHeader = ''1''))"

fun scope_loop :: "Filter list \<Rightarrow> Filter list \<Rightarrow> Filter list result" where
  "scope_loop [] scoped = Inr scoped"
| "scope_loop (f # fs) scoped =
     (if EqualFold (TrimSpace (fi_Field f)) ''user'' then Inl errLogUserFilterDenied
      else scope_loop fs (scoped @ [f]))"

definition user_filter :: "string \<Rightarrow> Filter" where
  "user_filter username = \<lparr>fi_Field = ''user'', fi_Operator = ''eq'', fi_Value = username\<rparr>"

definition scopeLogFilters :: "Filter list \<Rightarrow> bool \<Rightarrow> string \<Rightarrow> Filter list result" where
  "scopeLogFilters filters isAdmin username =
     (if isAdmin then Inr filters
      else if TrimSpace username = [] then Inl errLogIdentityMissing
      else (case scope_loop filters [] of Inl e \<Rightarrow> Inl e | Inr scoped \<Rightarrow> Inr (scoped @ [user_filter username])))"

definition isLogTypeVisible :: "logRedirectConfig \<Rightarrow> LogType \<Rightarrow> bool" where
  "isLogTypeVisible cfg typ = (case typ of LogTypeAuthen \<Rightarrow> lr_VisibleAuthen cfg
     | LogTypeAuthor \<Rightarrow> lr_VisibleAuthor cfg | LogTypeAccount \<Rightarrow> lr_VisibleAccount cfg)"

definition parseLogBoundary :: "ck_lib \<Rightarrow> string \<Rightarrow> int result" where
  "parseLogBoundary L raw =
     (let raw = TrimSpace raw in
      if raw = [] then Inl (GoError ''value is required'')
      else (case cl_parse_rfc3339 L raw of Inr t \<Rightarrow> Inr t | Inl _ \<Rightarrow> cl_parse_local L raw))"

definition meta_field :: "LogType \<Rightarrow> Mapping \<Rightarrow> FieldSpec \<Rightarrow> logMetaField" where
  "meta_field typ mapping sp = \<lparr>lf_Key = fs_Key sp, lf_Label = DisplayLabel typ (fs_Key sp) mapping,
     lf_FieldName = DisplayLabel typ (fs_Key sp) zero_mapping,
     lf_Name = TrimSpace (map_get (mp_Names mapping) (fs_Key sp)), lf_Kind = fs_Kind sp\<rparr>"

definition meta_type :: "bool \<Rightarrow> ClickHouseLogConfig \<Rightarrow> LogType \<Rightarrow> logMetaType" where
  "meta_type ready cfg typ =
     (let mapping = mapping_for cfg typ in
      \<lparr>lt_Type = LogType_String typ, lt_Visible = True, lt_Available = (ready \<and> MappingComplete typ mapping),
       lt_Table = mp_Table mapping, lt_EventTimeColumn = mp_EventTimeColumn mapping,
       lt_Fields = map (meta_field typ mapping) (Specs typ)\<rparr>)"

definition httpApiLogMeta :: "http_env \<Rightarrow> request \<Rightarrow> bool \<Rightarrow> response handler" where
  "httpApiLogMeta env r verified =
     (case logRequestIdentity r verified of Inl e \<Rightarrow> respond StatusUnauthorized (err_msg e)
      | Inr _ \<Rightarrow> do {
          external \<leftarrow> loadLogRedirectConfig;
          case external of Inl e \<Rightarrow> respond StatusFailedDependency (''load log metadata failed: '' @ err_msg e)
          | Inr external \<Rightarrow> do {
              mode \<leftarrow> db_op GetLogDisplayMode;
              case mode of Inl e \<Rightarrow> respond StatusFailedDependency (''load log display mode failed: '' @ err_msg e)
              | Inr mode \<Rightarrow>
                  if mode = ''external''
                  then State_Monad.return (StatusOK, Meta \<lparr>lv_Mode = mode, lv_External = external, lv_ClickHouseReady = False, lv_Types = []\<rparr>)
                  else do {
                    ckCfg \<leftarrow> db_op (GetClickHouseLogConfig (he_json env) (he_types env));
                    case ckCfg of Inl e \<Rightarrow> respond StatusFailedDependency (''load clickhouse log config failed: '' @ err_msg e)
                    | Inr cfg \<Rightarrow>
                        let ready = (ch_Address cfg \<noteq> [] \<and> ch_Database cfg \<noteq> []) in
                        State_Monad.return (StatusOK, Meta \<lparr>lv_Mode = mode, lv_External = external,
                          lv_ClickHouseReady = ready, lv_Types = map (meta_type ready cfg) AllLogTypes\<rparr>)
                  }
            }
        })"

record logQueryRequest =
  lq_Type :: string
  lq_From :: string
  lq_To :: string
  lq_Filters :: "Filter list"
  lq_Columns :: "string list"
  lq_Page :: int
  lq_PageSize :: int
  lq_IncludeTotal :: bool

text \<open>From the scope of the filters on.\<close>

definition scoped_query :: "http_env \<Rightarrow> logQueryRequest \<Rightarrow> LogType \<Rightarrow> string \<Rightarrow> bool \<Rightarrow> response handler" where
  "scoped_query env body typ username isAdmin =
     (case scopeLogFilters (lq_Filters body) isAdmin username of Inl e \<Rightarrow> respond StatusForbidden (err_msg e)
      | Inr filters \<Rightarrow> (case parseLogBoundary (he_clickhouse env) (lq_From body) of
          Inl e \<Rightarrow> respond StatusBadRequest (''invalid eventRange.from: '' @ err_msg e)
      | Inr from_time \<Rightarrow> (case parseLogBoundary (he_clickhouse env) (lq_To body) of
          Inl e \<Rightarrow> respond StatusBadRequest (''invalid eventRange.to: '' @ err_msg e)
      | Inr to_time \<Rightarrow> do {
          r \<leftarrow> manager_op (Query (he_clickhouse env) (he_json env) (he_types env)
            \<lparr>qr_Type = typ, qr_From = from_time, qr_To = to_time, qr_Filters = filters, qr_Columns = lq_Columns body,
             qr_Page = lq_Page body, qr_PageSize = lq_PageSize body, qr_IncludeTotal = lq_IncludeTotal body\<rparr>);
          case r of Inl e \<Rightarrow> respond StatusFailedDependency (err_msg e)
          | Inr rows \<Rightarrow> State_Monad.return (StatusOK, LogRows rows)
        })))"

definition httpApiLogQuery :: "http_env \<Rightarrow> request \<Rightarrow> bool \<Rightarrow> logQueryRequest result \<Rightarrow> response handler" where
  "httpApiLogQuery env r verified body =
     (case logRequestIdentity r verified of Inl e \<Rightarrow> respond StatusUnauthorized (err_msg e)
      | Inr (username, isAdmin) \<Rightarrow>
        (case body of Inl e \<Rightarrow> respond StatusBadRequest (''invalid body: '' @ err_msg e)
         | Inr body \<Rightarrow>
           if length (lq_Filters body) > 20 \<or> length (lq_Columns body) > 64
           then respond StatusBadRequest ''query contains too many filters or columns''
           else (case ParseLogType (lq_Type body) of Inl e \<Rightarrow> respond StatusBadRequest (err_msg e)
             | Inr typ \<Rightarrow> do {
                 mode \<leftarrow> db_op GetLogDisplayMode;
                 case mode of Inl e \<Rightarrow> respond StatusFailedDependency (''load log display mode failed: '' @ err_msg e)
                 | Inr mode \<Rightarrow>
                     if mode \<noteq> ''clickhouse'' then respond StatusConflict ''log display mode is external''
                     else scoped_query env body typ username isAdmin
               })))"

end
