(* ===== verification/Routes.thy ===== *)
theory Routes
  imports HandlersLog
begin

text \<open>
  \<open>route.go\<close>, \<open>middleware_body_limit.go\<close> and the handler chain of \<open>http.go\<close>: what a request to
  the server goes through.  \<open>gin\<close> runs the next handler of the chain when one returns without
  \<open>Abort\<close>, and a second answer is appended to the first.  What \<open>ShouldBindJSON\<close> makes of the bytes
  of a body is a parameter for each type.  The redirect of \<open>gin\<close> for a trailing slash, which runs
  no handler, counts as an unknown path.
\<close>

subsection \<open>Reading the body\<close>

definition maxBodyBytes :: nat where "maxBodyBytes = 2 ^ 20"

definition MaxBytesError :: go_error where "MaxBytesError = GoError ''http: request body too large''"

definition isBodyTooLargeErr :: "go_error \<Rightarrow> bool" where
  "isBodyTooLargeErr e = (e = MaxBytesError)"

definition bodyLimitMiddleware :: "request \<Rightarrow> request" where
  "bodyLimitMiddleware r =
     (case rq_Body r of NilBody \<Rightarrow> r
      | Body bs e \<Rightarrow> r\<lparr>rq_Body := (if length bs > maxBodyBytes then Body (take maxBodyBytes bs) (Some MaxBytesError) else Body bs e)\<rparr>)"

definition respondBodyTooLarge :: response where
  "respondBodyTooLarge = (StatusRequestEntityTooLarge, Text ''the request body is too large'')"

text \<open>
  The answers that \<open>httpApiLog\<close> has written and the request as it leaves it.  After a failed
  reading it goes to its end without \<open>Abort\<close>, so that the chain goes on with what is left.
\<close>

definition httpApiLog :: "request \<Rightarrow> response list \<times> request" where
  "httpApiLog r =
     (case rq_Body r of NilBody \<Rightarrow> ([], r\<lparr>rq_Body := Body [] None\<rparr>)
      | Body bs None \<Rightarrow> ([], r\<lparr>rq_Body := Body bs None\<rparr>)
      | Body bs (Some e) \<Rightarrow>
          ([if isBodyTooLargeErr e then respondBodyTooLarge else (StatusBadRequest, Text ''can't read body'')],
           r\<lparr>rq_Body := Body [] (Some e)\<rparr>))"

subsection \<open>The routes\<close>

record decoders =
  de_peek :: peek_json
  de_create :: "bytes \<Rightarrow> create_req result"
  de_check :: "bytes \<Rightarrow> check_req result"
  de_password :: "bytes \<Rightarrow> password_req result"
  de_notes :: "bytes \<Rightarrow> notes_req result"
  de_basic :: "bytes \<Rightarrow> basic_req result"
  de_reset :: "bytes \<Rightarrow> reset_req result"
  de_user :: "bytes \<Rightarrow> string result"
  de_template :: "bytes \<Rightarrow> template_req result"
  de_delete :: "bytes \<Rightarrow> delete_req result"
  de_role :: "bytes \<Rightarrow> role_req result"
  de_role_name :: "bytes \<Rightarrow> string result"
  de_mission :: "bytes \<Rightarrow> mission result"
  de_decision :: "bytes \<Rightarrow> decision_req result"
  de_redirect :: "bytes \<Rightarrow> logRedirectConfig result"
  de_log_config :: "bytes \<Rightarrow> systemLogConfigRequest result"
  de_clickhouse :: "bytes \<Rightarrow> clickHouseConfigRequest result"
  de_log_query :: "bytes \<Rightarrow> logQueryRequest result"

definition bind_body :: "(bytes \<Rightarrow> 'a result) \<Rightarrow> request \<Rightarrow> 'a result" where
  "bind_body decode r =
     (case rq_Body r of NilBody \<Rightarrow> Inl (GoError ''invalid request'')
      | Body bs None \<Rightarrow> decode bs | Body bs (Some e) \<Rightarrow> Inl e)"

definition routes ::
  "http_env \<Rightarrow> decoders \<Rightarrow> go_error option list \<Rightarrow> request \<Rightarrow> bool \<Rightarrow> ((string \<times> string) \<times> response handler) list" where
  "routes env de pings r verified =
     (let i = requestIdentity r verified; L = he_lib env in
      [((''GET'', ''/health''), httpApiHealth pings),
       ((''GET'', ''/tacacs/user/get''), httpApiUserGet i),
       ((''GET'', ''/tacacs/user/get-admin''), httpApiUserGetAdmin i),
       ((''POST'', ''/tacacs/user/create''), httpApiUserCreate env i (bind_body (de_create de) r)),
       ((''POST'', ''/tacacs/user/check''), httpApiCheckUser env i (bind_body (de_check de) r)),
       ((''POST'', ''/tacacs/user/update/password''), httpApiUserUpdatePassword env i (bind_body (de_password de) r)),
       ((''POST'', ''/tacacs/user/update/notes''), httpApiUserUpdateNotes i (bind_body (de_notes de) r)),
       ((''POST'', ''/tacacs/user/update/basicInfo''), httpApiUserUpdateBasicInfo env i (bind_body (de_basic de) r)),
       ((''POST'', ''/tacacs/user/reset/password''), httpApiUserResetPassword env i (bind_body (de_reset de) r)),
       ((''DELETE'', ''/tacacs/user/delete''), httpApiUserDelete i (bind_body (de_user de) r)),
       ((''GET'', ''/tacacs/user/clear/updatePasswordErrMap''), httpClearUpdatePasswordErrUser i),
       ((''GET'', ''/tacacs/user/clear/checkPasswordErrMap''), httpClearCheckPasswordErrUser i),
       ((''GET'', ''/tacacs/template/command/get''), httpApiTemplateCmdGet i),
       ((''POST'', ''/tacacs/template/command/add''), httpApiTemplateCmdAdd i (bind_body (de_template de) r)),
       ((''DELETE'', ''/tacacs/template/command/delete''), httpApiTemplateCmdDelete i (bind_body (de_delete de) r)),
       ((''GET'', ''/tacacs/template/server/get''), httpApiTemplateServerGet i),
       ((''POST'', ''/tacacs/template/server/add''), httpApiTemplateServerAdd L i (bind_body (de_template de) r)),
       ((''DELETE'', ''/tacacs/template/server/delete''), httpApiTemplateServerDelete i (bind_body (de_delete de) r)),
       ((''GET'', ''/tacacs/template/role/get''), httpApiRoleGet i),
       ((''POST'', ''/tacacs/template/role/create''), httpApiRoleCreate i (bind_body (de_role de) r)),
       ((''DELETE'', ''/tacacs/template/role/delete''), httpApiRoleDelete i (bind_body (de_role_name de) r)),
       ((''GET'', ''/tacacs/approval/get''), httpApiApprovalGet i),
       ((''POST'', ''/tacacs/approval/create''), httpApiApprovalCreate env i (bind_body (de_mission de) r)),
       ((''POST'', ''/tacacs/approval/update''), httpApiApprovalUpdate i (bind_body (de_decision de) r)),
       ((''POST'', ''/tacacs/meta/refresh''), httpApiMetaRefresh i),
       ((''GET'', ''/tacacs/system/log-redirect-config''), httpApiSystemGetLogRedirectConfig),
       ((''POST'', ''/tacacs/system/log-redirect-config''), httpApiSystemSetLogRedirectConfig env i (bind_body (de_redirect de) r)),
       ((''GET'', ''/tacacs/system/log-config''), httpApiSystemGetLogConfig env),
       ((''POST'', ''/tacacs/system/log-config''), httpApiSystemSetLogConfig env i (bind_body (de_log_config de) r)),
       ((''POST'', ''/tacacs/system/clickhouse/test''), httpApiSystemClickHouseTest env i (bind_body (de_clickhouse de) r)),
       ((''POST'', ''/tacacs/system/clickhouse/schema''), httpApiSystemClickHouseSchema env i (bind_body (de_clickhouse de) r)),
       ((''GET'', ''/tacacs/log/meta''), httpApiLogMeta env r verified),
       ((''POST'', ''/tacacs/log/query''), httpApiLogQuery env r verified (bind_body (de_log_query de) r))])"

definition status_prefix :: string where "status_prefix = ''/internal/user/status/''"

text \<open>The handler for a method and path; a path parameter is not empty and holds no slash.\<close>

definition dispatch_request ::
  "http_env \<Rightarrow> decoders \<Rightarrow> go_error option list \<Rightarrow> request \<Rightarrow> bool \<Rightarrow> response handler" where
  "dispatch_request env de pings r verified =
     (case map_of (routes env de pings r verified) (rq_Method r, rq_Path r) of
        Some h \<Rightarrow> h
      | None \<Rightarrow>
          (let param = drop (length status_prefix) (rq_Path r) in
           if rq_Method r = ''GET'' \<and> HasPrefix (rq_Path r) status_prefix \<and> param \<noteq> [] \<and> CHR ''/'' \<notin> set param
           then httpInternalUserStatus param
           else respond StatusNotFound ''404 page not found''))"

subsection \<open>The chain\<close>

text \<open>The configuration of the server, and one request to it: the two clock readings are for the signature.\<close>

record http_conf =
  hc_env :: http_env
  hc_decoders :: decoders
  hc_swm :: swm_conf
  hc_nets :: "(bytes \<times> bytes) list"

definition serve_request ::
  "http_conf \<Rightarrow> go_error option list \<Rightarrow> int \<Rightarrow> int \<Rightarrow> request \<Rightarrow> server \<Rightarrow> nonces \<Rightarrow> response list \<times> server \<times> nonces" where
  "serve_request hc pings now nowUnix r s ns =
     (case httpApiLog (bodyLimitMiddleware r) of (written, r) \<Rightarrow>
        if rq_Method r = ''OPTIONS'' then (written @ [(204, Text [])], s, ns)
        else (case ipWhitelistMiddleware (he_lib (hc_env hc)) (hc_nets hc) r of
          Some a \<Rightarrow> (written @ [a], s, ns)
        | None \<Rightarrow>
            (case swmAuthMiddleware (de_peek (hc_decoders hc)) (hc_swm hc) now nowUnix r ns of
               (Abort code msg, ns) \<Rightarrow> (written @ [(code, Text msg)], s, ns)
             | (Next r verified, ns) \<Rightarrow>
                 (case run_state (dispatch_request (hc_env hc) (hc_decoders hc) pings r verified) s of
                    (a, s) \<Rightarrow> (written @ [a], s, ns)))))"

end
