(* ===== verification/SwmAuthLaws.thy ===== *)
theory SwmAuthLaws
  imports SwmAuth
begin

text \<open>
  What the signature check promises: the store of nonces stays consistent and bounded, a signed
  request is accepted, a signature stands for one request, and a header is accepted once.
\<close>

subsection \<open>The store of nonces\<close>

definition nonces_ok :: "nonces \<Rightarrow> bool" where
  "nonces_ok ns = (distinct (map fst (nonceStore ns)) \<and> nonceCount ns = int (length (nonceStore ns)) \<and>
     nonceCount ns \<le> maxNonceCount)"

lemma filter_other: "k \<notin> fst ` set xs \<Longrightarrow> filter (\<lambda>p. fst p \<noteq> k) xs = xs"
  by (induction xs) auto

lemma length_filter_one:
  assumes "distinct (map fst kvs)" "map_of kvs k = Some v"
  shows "length (filter (\<lambda>p. fst p \<noteq> k) kvs) + 1 = length kvs"
  using assms
proof (induction kvs)
  case (Cons p kvs)
  show ?case
  proof (cases "fst p = k")
    case True
    then have "k \<notin> fst ` set kvs" using Cons.prems(1) by auto
    then have "filter (\<lambda>p. fst p \<noteq> k) kvs = kvs" by (rule filter_other)
    then show ?thesis using True by simp
  next
    case False
    then show ?thesis using Cons by (cases p) (auto split: if_splits)
  qed
qed simp

text \<open>The loop of \<open>Range\<close> removes exactly the expired nonces and counts them.\<close>

lemma expire_loop_filter:
  assumes "distinct (map fst (kvs @ kept))" "nonceStore ns = kept @ kvs" "nonceCount ns = int (length (nonceStore ns))"
  shows "nonceStore (expire_loop now kvs ns) = kept @ filter (\<lambda>p. \<not> snd p \<le> now) kvs \<and>
    nonceCount (expire_loop now kvs ns) = int (length (nonceStore (expire_loop now kvs ns)))"
  using assms
proof (induction now kvs ns arbitrary: kept rule: expire_loop.induct)
  case (2 now k exp kvs ns)
  have k: "k \<notin> fst ` set kept" "k \<notin> fst ` set kvs" using "2.prems"(1) by auto
  have here: "map_of (nonceStore ns) k = Some exp"
    using k(1) by (simp add: "2.prems"(2) map_add_def map_of_eq_None_iff [THEN iffD2])
  have "filter (\<lambda>p. fst p \<noteq> k) (kept @ kvs) = kept @ kvs"
    using k by (simp add: filter_other)
  then have gone: "filter (\<lambda>p. fst p \<noteq> k) (nonceStore ns) = kept @ kvs"
    by (simp add: "2.prems"(2))
  have d: "distinct (map fst (nonceStore ns))" using "2.prems"(1) by (auto simp: "2.prems"(2))
  show ?case
  proof (cases "exp \<le> now")
    case True
    let ?ns = "ns\<lparr>nonceStore := filter (\<lambda>p. fst p \<noteq> k) (nonceStore ns), nonceCount := nonceCount ns - 1\<rparr>"
    have eq: "(if exp \<le> now \<and> map_of (nonceStore ns) k \<noteq> None then ?ns else ns) = ?ns"
      using True here by simp
    have "nonceCount ?ns = int (length (nonceStore ?ns))"
      using length_filter_one [OF d here] "2.prems"(3) by simp
    moreover have "distinct (map fst (kvs @ kept))" using "2.prems"(1) by auto
    ultimately show ?thesis
      using "2.IH" [unfolded eq, of kept] True gone here by (simp only: expire_loop.simps eq) simp
  next
    case False
    have eq: "(if exp \<le> now \<and> map_of (nonceStore ns) k \<noteq> None
      then ns\<lparr>nonceStore := filter (\<lambda>p. fst p \<noteq> k) (nonceStore ns), nonceCount := nonceCount ns - 1\<rparr> else ns) = ns"
      using False by simp
    show ?thesis
      using "2.IH" [unfolded eq, of "kept @ [(k, exp)]"] False "2.prems" by (simp only: expire_loop.simps eq) simp
  qed
qed simp

lemma expire_nonces_filter:
  assumes "nonces_ok ns"
  shows "nonceStore (expire_nonces now ns) = filter (\<lambda>p. \<not> snd p \<le> now) (nonceStore ns)"
    and "nonceCount (expire_nonces now ns) = int (length (nonceStore (expire_nonces now ns)))"
  using expire_loop_filter [of "nonceStore ns" "[]" ns now] assms
  by (simp_all add: expire_nonces_def nonces_ok_def)

lemma expire_nonces_ok:
  assumes "nonces_ok ns" shows "nonces_ok (expire_nonces now ns)"
proof -
  note f = expire_nonces_filter [OF assms, of now]
  have "length (nonceStore (expire_nonces now ns)) \<le> length (nonceStore ns)"
    by (simp add: f(1))
  then have "nonceCount (expire_nonces now ns) \<le> nonceCount ns"
    using assms f(2) by (simp add: nonces_ok_def)
  then have "nonceCount (expire_nonces now ns) \<le> maxNonceCount" using assms by (simp add: nonces_ok_def)
  moreover have "distinct (map fst (nonceStore (expire_nonces now ns)))"
    using assms by (simp add: f(1) nonces_ok_def distinct_map_filter)
  ultimately show ?thesis using f(2) unfolding nonces_ok_def by blast
qed

lemma admit_nonce_ok:
  assumes "nonces_ok ns" "admit_nonce now nowUnix skew nonce ns = (e, ns')" shows "nonces_ok ns'"
proof -
  define ns1 where "ns1 = (if nonceCount ns \<ge> maxNonceCount then expire_nonces nowUnix ns else ns)"
  have "nonces_ok ns1" using assms(1) by (simp add: ns1_def expire_nonces_ok)
  then show ?thesis
    using assms(2) unfolding admit_nonce_def Let_def ns1_def [symmetric]
    by (auto simp: nonces_ok_def map_of_eq_None_iff split: if_splits)
qed

text \<open>A lookup after expiry, and what an accepted nonce does to the store.\<close>

lemma map_of_filter_value:
  "distinct (map fst kvs) \<Longrightarrow>
   map_of (filter (\<lambda>p. P (snd p)) kvs) k = (case map_of kvs k of None \<Rightarrow> None | Some v \<Rightarrow> if P v then Some v else None)"
  by (induction kvs) (auto simp: map_of_eq_None_iff split: option.splits)

lemma map_of_expire:
  assumes "nonces_ok ns" "map_of (nonceStore ns) m = Some exp"
  shows "map_of (nonceStore (expire_nonces now ns)) m = Some exp \<or> exp \<le> now"
  using assms map_of_filter_value [of "nonceStore ns" "\<lambda>v. \<not> v \<le> now" m]
  by (auto simp: expire_nonces_filter nonces_ok_def)

lemma admit_nonce_keeps:
  assumes "nonces_ok ns" "admit_nonce now nowUnix skew nonce ns = (e, ns')" "map_of (nonceStore ns) m = Some exp"
  shows "map_of (nonceStore ns') m = Some exp \<or> exp \<le> nowUnix"
proof -
  define ns1 where "ns1 = (if nonceCount ns \<ge> maxNonceCount then expire_nonces nowUnix ns else ns)"
  have "map_of (nonceStore ns1) m = Some exp \<or> exp \<le> nowUnix"
    using map_of_expire [OF assms(1,3)] assms(3) by (simp add: ns1_def)
  then show ?thesis
    using assms(2) unfolding admit_nonce_def Let_def ns1_def [symmetric]
    by (auto simp: map_add_def split: if_splits option.splits)
qed

lemma admit_nonce_accepts:
  assumes "nonces_ok ns" "admit_nonce now nowUnix skew nonce ns = (None, ns')"
  shows "map_of (nonceStore ns') nonce = Some (wrap64 (now + nonceTTLForSkew skew sdiv 10 ^ 9))"
    and "map_of (nonceStore ns) nonce = Some exp \<Longrightarrow> exp \<le> nowUnix"
proof -
  define ns1 where "ns1 = (if nonceCount ns \<ge> maxNonceCount then expire_nonces nowUnix ns else ns)"
  have new: "map_of (nonceStore ns1) nonce = None"
    and ns': "nonceStore ns' = nonceStore ns1 @ [(nonce, wrap64 (now + nonceTTLForSkew skew sdiv 10 ^ 9))]"
    using assms(2) unfolding admit_nonce_def Let_def ns1_def [symmetric] by (auto split: if_splits)
  show "map_of (nonceStore ns') nonce = Some (wrap64 (now + nonceTTLForSkew skew sdiv 10 ^ 9))"
    using new by (simp add: ns' map_add_def)
  show "exp \<le> nowUnix" if "map_of (nonceStore ns) nonce = Some exp"
    using map_of_expire [OF assms(1) that, of nowUnix] that new by (auto simp: ns1_def split: if_splits)
qed

lemma admit_nonce_fresh:
  assumes "nonceCount ns < maxNonceCount" "map_of (nonceStore ns) nonce = None"
  shows "admit_nonce now nowUnix skew nonce ns =
    (None, ns\<lparr>nonceStore := nonceStore ns @ [(nonce, wrap64 (now + nonceTTLForSkew skew sdiv 10 ^ 9))],
              nonceCount := nonceCount ns + 1\<rparr>)"
  using assms by (simp add: admit_nonce_def)

subsection \<open>Header and time stamp\<close>

lemma ParseInt_dec_int:
  assumes "- (2 ^ 63) \<le> t" "t < 2 ^ 63" shows "ParseInt (dec_int t) = Some t"
proof -
  have digits: "list_all is_digit (dec_digits n)" for n
    using dec_digits_chars by (auto simp: list_all_iff)
  obtain c r where cr: "dec_digits (nat t) = c # r" by (cases "dec_digits (nat t)") auto
  have "is_digit c" using digits [of "nat t"] by (simp add: cr)
  then have "c \<noteq> CHR ''-''" "c \<noteq> CHR ''+''" by (auto simp: is_digit_def less_eq_char_def)
  then show ?thesis
    using assms digits [of "nat t"] digits [of "nat (- t)"] dec_value_digits [of "nat t"]
    by (simp add: ParseInt_def dec_int_def cr Let_def)
qed

text \<open>
  Which time stamps pass as fresh: those within the skew, and the one that lies exactly
  \<open>2 ^ 63\<close> seconds back, whose distance overflows.
\<close>

lemma abs64_fresh:
  assumes "0 \<le> now" "now < 2 ^ 62" "- (2 ^ 63) \<le> ts" "ts < 2 ^ 63" "0 \<le> skew" "skew < 2 ^ 62"
  shows "\<not> abs64 (wrap64 (now - ts)) > skew \<longleftrightarrow> \<bar>now - ts\<bar> \<le> skew \<or> now - ts = 2 ^ 63"
proof (cases "now - ts < 2 ^ 63")
  case True
  then have "wrap64 (now - ts) = now - ts" using assms by (intro wrap64_id) simp_all
  moreover have "wrap64 (- (now - ts)) = - (now - ts)" if "now - ts < 0"
    using that assms by (intro wrap64_id) simp_all
  ultimately show ?thesis using True by (auto simp: abs64_def)
next
  case False
  define x where "x = now - ts - 2 ^ 63"
  have "x mod 2 ^ 64 = x" using False assms by (simp add: x_def mod_pos_pos_trivial)
  then have "(x + 2 ^ 64) mod 2 ^ 64 = x" by (simp only: mod_add_self2)
  moreover have "x + 2 ^ 64 = now - ts + 2 ^ 63" by (simp add: x_def)
  ultimately have "(now - ts + 2 ^ 63) mod 2 ^ 64 = now - ts - 2 ^ 63" by (simp only: x_def)
  then have w: "wrap64 (now - ts) = now - ts - 2 ^ 64" by (simp add: wrap64_def)
  show ?thesis
  proof (cases "now - ts = 2 ^ 63")
    case True
    then show ?thesis using w assms by (simp add: abs64_def wrap64_def)
  next
    case ne: False
    then have "wrap64 (- (now - ts - 2 ^ 64)) = 2 ^ 64 - (now - ts)"
      using False assms by (subst wrap64_id) simp_all
    then show ?thesis using w ne False assms by (simp add: abs64_def)
  qed
qed

subsection \<open>What is signed\<close>

text \<open>A value that fits between the commas of the header and is not trimmed.\<close>

definition plain_field :: "string \<Rightarrow> bool" where
  "plain_field s = (s \<noteq> [] \<and> list_all (\<lambda>c. c \<noteq> CHR '','' \<and> \<not> is_space c) s)"

lemma plain_fieldD:
  "plain_field s \<Longrightarrow> s \<noteq> [] \<and> CHR '','' \<notin> set s \<and> list_all (\<lambda>c. \<not> is_space c) s"
  by (auto simp: plain_field_def list_all_iff)

lemma plain_alphabet: "set s \<subseteq> set (std_alphabet @ url_alphabet @ ''=-'') \<Longrightarrow> s \<noteq> [] \<Longrightarrow> plain_field s"
proof -
  assume s: "set s \<subseteq> set (std_alphabet @ url_alphabet @ ''=-'')" "s \<noteq> []"
  have "list_all (\<lambda>c. c \<noteq> CHR '','' \<and> \<not> is_space c) (std_alphabet @ url_alphabet @ ''=-'')"
    unfolding std_alphabet_def url_alphabet_def is_space_def by code_simp
  then show ?thesis using s by (auto simp: plain_field_def list_all_iff)
qed

lemma length_alphabets: "length std_alphabet = 64" "length url_alphabet = 64"
  by (simp_all add: std_alphabet_def url_alphabet_def)

lemma sign_chars: "set (sign secret c) \<subseteq> set (std_alphabet @ ''='')"
  unfolding sign_def StdEncoding_def set_append by (rule base64_chars [OF length_alphabets(1)])

lemma sign_not_Nil: "sign secret c \<noteq> []"
proof -
  have "hmac_sha256 (bytes_of_string secret) (bytes_of_string c) \<noteq> []"
    using length_hmac_sha256 by (metis list.size(3) zero_neq_numeral)
  then show ?thesis by (simp add: sign_def StdEncoding_def)
qed

lemma plain_sign: "plain_field (sign secret c)"
  by (rule plain_alphabet [OF _ sign_not_Nil]) (use sign_chars [of secret c] in auto)

lemma is_digit_std: "is_digit c \<Longrightarrow> c \<in> set std_alphabet"
proof -
  define n :: nat where "n = of_char c"
  assume "is_digit c"
  then have "48 \<le> n" "n \<le> 57" by (simp_all add: is_digit_def less_eq_char_def n_def)
  then have "n = 48 \<or> n = 49 \<or> n = 50 \<or> n = 51 \<or> n = 52 \<or> n = 53 \<or> n = 54 \<or> n = 55 \<or> n = 56 \<or> n = 57"
    by presburger
  moreover have "(of_char c = (of_char d :: nat)) = (c = d)" for d by simp
  from this [of "CHR ''0''"] this [of "CHR ''1''"] this [of "CHR ''2''"] this [of "CHR ''3''"]
    this [of "CHR ''4''"] this [of "CHR ''5''"] this [of "CHR ''6''"] this [of "CHR ''7''"]
    this [of "CHR ''8''"] this [of "CHR ''9''"]
  have "n = 48 \<longleftrightarrow> c = CHR ''0''" "n = 49 \<longleftrightarrow> c = CHR ''1''" "n = 50 \<longleftrightarrow> c = CHR ''2''"
    "n = 51 \<longleftrightarrow> c = CHR ''3''" "n = 52 \<longleftrightarrow> c = CHR ''4''" "n = 53 \<longleftrightarrow> c = CHR ''5''"
    "n = 54 \<longleftrightarrow> c = CHR ''6''" "n = 55 \<longleftrightarrow> c = CHR ''7''" "n = 56 \<longleftrightarrow> c = CHR ''8''"
    "n = 57 \<longleftrightarrow> c = CHR ''9''"
    unfolding n_def by simp_all
  ultimately show ?thesis by (auto simp: std_alphabet_def)
qed

lemma plain_dec_int: "plain_field (dec_int t)"
proof (rule plain_alphabet)
  show "set (dec_int t) \<subseteq> set (std_alphabet @ url_alphabet @ ''=-'')"
    using is_digit_std dec_digits_chars by (auto simp: dec_int_def split: if_splits)
qed (simp add: dec_int_def)

lemma plain_newNonce: "length b = 16 \<Longrightarrow> plain_field (newNonce (Some b) nanos) \<and> length (newNonce (Some b) nanos) = 22"
proof
  assume b: "length b = 16"
  have "set (RawURLEncoding b) \<subseteq> set url_alphabet"
    using base64_chars [OF length_alphabets(2), of "[]" "map unat b"] by (simp add: RawURLEncoding_def)
  moreover have "b \<noteq> []" using b by auto
  ultimately show "plain_field (newNonce (Some b) nanos)"
    by (intro plain_alphabet) (auto simp: newNonce_def RawURLEncoding_def)
  show "length (newNonce (Some b) nanos) = 22"
    using b by (simp add: newNonce_def RawURLEncoding_def length_raw_base64)
qed

lemma TrimSpace_plain: "list_all (\<lambda>c. \<not> is_space c) s \<Longrightarrow> TrimSpace s = s"
proof -
  have d: "dropWhile is_space s = s" if "list_all (\<lambda>c. \<not> is_space c) s" for s
    using that by (cases s) auto
  assume "list_all (\<lambda>c. \<not> is_space c) s"
  then show ?thesis using d [of s] d [of "rev s"] by (simp add: TrimSpace_def)
qed

lemma Split_three:
  "CHR '','' \<notin> set a \<Longrightarrow> CHR '','' \<notin> set b \<Longrightarrow> CHR '','' \<notin> set c \<Longrightarrow>
   Split CHR '','' (a @ '','' @ b @ '','' @ c) = [a, b, c]"
  by (simp add: Split_append Split_plain)

text \<open>The two sides agree on the header.\<close>

lemma parse_computed_header:
  assumes "plain_field nonce"
  shows "parseSwmSigHeader (computeSignatureHeader t nonce m path user isAdmin body secret) =
    Inr (dec_int t, nonce, sign secret (canonical_form m path (dec_int t) nonce user isAdmin body))"
proof -
  define ts where "ts = dec_int t"
  define sig where "sig = sign secret (canonical_form m path ts nonce user isAdmin body)"
  have p: "plain_field ts" "plain_field nonce" "plain_field sig"
    using assms by (simp_all add: ts_def sig_def plain_dec_int plain_sign)
  have h: "computeSignatureHeader t nonce m path user isAdmin body secret =
    (''t='' @ ts) @ '','' @ (''n='' @ nonce) @ '','' @ (''v1='' @ sig)"
    by (simp add: computeSignatureHeader_def Let_def ts_def sig_def)
  note d = plain_fieldD [OF p(1)] plain_fieldD [OF p(2)] plain_fieldD [OF p(3)]
  have c: "CHR '','' \<notin> set (''t='' @ ts)" "CHR '','' \<notin> set (''n='' @ nonce)" "CHR '','' \<notin> set (''v1='' @ sig)"
    using d by simp_all
  have "\<not> is_space CHR ''t''" "\<not> is_space CHR ''n''" "\<not> is_space CHR ''v''" "\<not> is_space CHR ''1''" "\<not> is_space CHR ''=''"
    by (simp_all add: is_space_def)
  then have t: "TrimSpace (''t='' @ ts) = ''t='' @ ts" "TrimSpace (''n='' @ nonce) = ''n='' @ nonce"
    "TrimSpace (''v1='' @ sig) = ''v1='' @ sig"
    using d by (simp_all add: TrimSpace_plain)
  have "sig_loop [''t='' @ ts, ''n='' @ nonce, ''v1='' @ sig] ([], [], []) = (ts, nonce, sig)"
  proof -
    have s1: "sig_loop ((''t='' @ ts) # ps) (x, y, z) = sig_loop ps (ts, y, z)" for ps x y z
      using t(1) by (simp add: HasPrefix_def Let_def)
    have s2: "sig_loop ((''n='' @ nonce) # ps) (x, y, z) = sig_loop ps (x, nonce, z)" for ps x y z
      using t(2) by (simp add: HasPrefix_def Let_def)
    have s3: "sig_loop ((''v1='' @ sig) # ps) (x, y, z) = sig_loop ps (x, y, sig)" for ps x y z
      using t(3) by (simp add: HasPrefix_def Let_def)
    show ?thesis by (simp only: s1 s2 s3 sig_loop.simps(1))
  qed
  then have "parseSwmSigHeader (computeSignatureHeader t nonce m path user isAdmin body secret) = Inr (ts, nonce, sig)"
    unfolding parseSwmSigHeader_def h Split_three [OF c] using d by (simp only: prod.case) simp
  then show ?thesis by (simp only: ts_def sig_def)
qed

text \<open>The fields of a header hold no character that the header does not hold.\<close>

lemma TrimSpace_chars: "set (TrimSpace s) \<subseteq> set s"
proof
  fix x
  assume "x \<in> set (TrimSpace s)"
  then have "x \<in> set (dropWhile is_space (rev (dropWhile is_space s)))" by (simp add: TrimSpace_def)
  from set_dropWhileD [OF this] have "x \<in> set (dropWhile is_space s)" by simp
  from set_dropWhileD [OF this] show "x \<in> set s" by simp
qed

lemma sig_loop_chars:
  "sig_loop ps acc = (ts, nonce, sig) \<Longrightarrow> \<forall>p\<in>set ps. set p \<subseteq> S \<Longrightarrow>
   set (fst acc) \<subseteq> S \<and> set (fst (snd acc)) \<subseteq> S \<Longrightarrow> set ts \<subseteq> S \<and> set nonce \<subseteq> S"
proof (induction ps arbitrary: acc)
  case (Cons p ps)
  obtain x y z where acc: "acc = (x, y, z)" by (metis prod_cases3)
  have "set (drop n (TrimSpace p)) \<subseteq> S" for n
    using set_drop_subset [of n "TrimSpace p"] TrimSpace_chars [of p] Cons.prems(2) by (meson list.set_intros(1) order_trans)
  then show ?case
    using Cons.IH [OF Cons.prems(1) [unfolded acc sig_loop.simps Let_def]] Cons.prems(2,3) by (simp add: acc)
qed simp

lemma parse_chars:
  assumes "parseSwmSigHeader h = Inr (ts, nonce, sig)"
  shows "set ts \<subseteq> set h" "set nonce \<subseteq> set h"
proof -
  have "sig_loop (Split CHR '','' h) ([], [], []) = (ts, nonce, sig)"
    using assms by (auto simp: parseSwmSigHeader_def split: prod.splits if_splits)
  moreover have "\<forall>p\<in>set (Split CHR '','' h). set p \<subseteq> set h" using Split_chars by blast
  ultimately have "set ts \<subseteq> set h \<and> set nonce \<subseteq> set h" by (rule sig_loop_chars) simp
  then show "set ts \<subseteq> set h" "set nonce \<subseteq> set h" by simp_all
qed

lemma plain_no_newline: "plain_field s \<Longrightarrow> CHR 0x0A \<notin> set s"
  by (auto simp: plain_field_def list_all_iff is_space_def)

lemma computed_header_no_newline:
  "plain_field nonce \<Longrightarrow> CHR 0x0A \<notin> set (computeSignatureHeader t nonce m path user isAdmin body secret)"
  using plain_no_newline [of nonce] plain_no_newline [OF plain_dec_int, of t] plain_no_newline [OF plain_sign]
  by (simp add: computeSignatureHeader_def Let_def)

subsection \<open>A signature stands for one request\<close>

lemma hex_digit_inj: "a < 16 \<Longrightarrow> b < 16 \<Longrightarrow> hex_digit a = hex_digit b \<Longrightarrow> a = b"
proof -
  have "distinct ''0123456789abcdef''" by simp
  moreover assume "a < 16" "b < 16" "hex_digit a = hex_digit b"
  ultimately show ?thesis unfolding hex_digit_def by (subst (asm) nth_eq_iff_index_eq) simp_all
qed

lemma hex_byte_inj: "a < 256 \<Longrightarrow> b < 256 \<Longrightarrow> hex_byte a = hex_byte b \<Longrightarrow> a = b"
proof -
  assume ab: "a < 256" "b < 256" "hex_byte a = hex_byte b"
  then have "a div 16 mod 16 = b div 16 mod 16" "a mod 16 = b mod 16"
    using hex_digit_inj [of "a div 16 mod 16" "b div 16 mod 16"] hex_digit_inj [of "a mod 16" "b mod 16"]
    by (simp_all add: hex_byte_def)
  moreover from this have "a div 16 = b div 16" using ab(1,2) by (simp add: div_less_iff_less_mult)
  ultimately show "a = b" by (metis mult_div_mod_eq)
qed

lemma hex_string_inj: "hex_string a = hex_string b \<Longrightarrow> a = b"
proof (induction a arbitrary: b)
  case Nil
  then show ?case by (cases b) (simp_all add: hex_string_def hex_byte_def)
next
  case (Cons x a)
  then obtain y b' where b: "b = y # b'" by (cases b) (auto simp: hex_string_def hex_byte_def)
  have "hex_byte (unat x) @ hex_string a = hex_byte (unat y) @ hex_string b'"
    using Cons.prems by (simp add: b hex_string_def)
  moreover have "length (hex_byte (unat x)) = length (hex_byte (unat y))" by (simp add: hex_byte_def)
  ultimately have "hex_byte (unat x) = hex_byte (unat y)" "hex_string a = hex_string b'" by simp_all
  moreover from this have "unat x = unat y" using hex_byte_inj [of "unat x" "unat y"] by simp
  then have "x = y" by (rule unsigned_word_eqI)
  ultimately show ?case using Cons.IH by (simp add: b)
qed

lemma hex_string_newline: "CHR 0x0A \<notin> set (hex_string bs)"
proof -
  have "CHR 0x0A \<noteq> hex_digit n" if "n < 16" for n
  proof -
    have "hex_digit n \<in> set ''0123456789abcdef''"
      unfolding hex_digit_def using that by (intro nth_mem) simp
    then show ?thesis by auto
  qed
  then have "CHR 0x0A \<notin> set (hex_byte n)" for n by (simp add: hex_byte_def)
  then show ?thesis by (simp add: hex_string_def)
qed

text \<open>Only the path may hold a newline: it is what lies between the first and the last five.\<close>

lemma canonical_form_inj:
  assumes "canonical_form m p ts n u a body = canonical_form m' p' ts' n' u' a' body'"
    and "\<forall>s\<in>{m, ts, n, u, a, m', ts', n', u', a'}. CHR 0x0A \<notin> set s"
  shows "m = m' \<and> p = p' \<and> ts = ts' \<and> n = n' \<and> u = u' \<and> a = a' \<and> sha256 body = sha256 body'"
proof -
  define nl where "nl = CHR 0x0A"
  define h h' where "h = hex_string (sha256 body)" and "h' = hex_string (sha256 body')"
  have nh: "nl \<notin> set h" "nl \<notin> set h'" by (simp_all add: h_def h'_def nl_def hex_string_newline)
  have n: "nl \<notin> set m" "nl \<notin> set ts" "nl \<notin> set n" "nl \<notin> set u" "nl \<notin> set a"
    "nl \<notin> set m'" "nl \<notin> set ts'" "nl \<notin> set n'" "nl \<notin> set u'" "nl \<notin> set a'"
    using assms(2) by (simp_all add: nl_def)
  have e: "((((((m @ [nl] @ p) @ [nl] @ ts) @ [nl] @ n) @ [nl] @ u) @ [nl] @ a) @ [nl] @ h) =
    ((((((m' @ [nl] @ p') @ [nl] @ ts') @ [nl] @ n') @ [nl] @ u') @ [nl] @ a') @ [nl] @ h')"
    using assms(1) by (simp add: canonical_form_def h_def h'_def nl_def)
  note e1 = split_at_last [OF e nh]
  note e2 = split_at_last [OF conjunct1 [OF e1] n(5) n(10)]
  note e3 = split_at_last [OF conjunct1 [OF e2] n(4) n(9)]
  note e4 = split_at_last [OF conjunct1 [OF e3] n(3) n(8)]
  note e5 = split_at_last [OF conjunct1 [OF e4] n(2) n(7)]
  have "rev p @ [nl] @ rev m = rev p' @ [nl] @ rev m'"
    using arg_cong [OF conjunct1 [OF e5], of rev] by simp
  from split_at_last [OF this] n have "rev p = rev p' \<and> rev m = rev m'" by simp
  then show ?thesis using e1 e2 e3 e4 e5 hex_string_inj [of "sha256 body" "sha256 body'"]
    by (simp add: h_def h'_def)
qed

subsection \<open>The body\<close>

lemma readAndRestoreBody_keeps:
  assumes "readAndRestoreBody r = (b, r')"
  shows "rq_Method r' = rq_Method r" "rq_Path r' = rq_Path r" "rq_Header r' = rq_Header r"
    "rq_ClientIP r' = rq_ClientIP r"
  using assms by (auto simp: readAndRestoreBody_def Let_def split: body.splits option.splits if_splits)

text \<open>A second reading gives the same.\<close>

lemma readAndRestoreBody_twice:
  "readAndRestoreBody r = (b, r') \<Longrightarrow> readAndRestoreBody r' = (b, r')"
  by (auto simp: readAndRestoreBody_def Let_def split: body.splits option.splits if_splits)

text \<open>The next reader gets the body that was read.\<close>

lemma readAndRestoreBody_restored:
  "readAndRestoreBody r = (Inr body, r') \<Longrightarrow> rq_Body r' = (if rq_Body r = NilBody then NilBody else Body body None)"
  by (auto simp: readAndRestoreBody_def Let_def split: body.splits option.splits if_splits)

definition body_bytes :: "bytes result \<Rightarrow> bytes" where
  "body_bytes b = (case b of Inl _ \<Rightarrow> [] | Inr body \<Rightarrow> body)"

definition effective_skew :: "int \<Rightarrow> int" where
  "effective_skew s = (if s \<le> 0 then 300 else s)"

subsection \<open>The check\<close>

text \<open>The message that a request must be signed with, for the time stamp and nonce of its header.\<close>

definition message_of :: "request \<Rightarrow> string \<Rightarrow> string \<Rightarrow> bytes \<Rightarrow> string" where
  "message_of r ts nonce body = canonical_form (rq_Method r) (rq_Path r) ts nonce
     (rq_Header r ''X-SwM-User'') (rq_Header r ''X-SwM-Is-Admin'') body"

lemma verify_accepts:
  assumes "verifySwmSignature now nowUnix secret skew r ns = (None, r', ns')"
  obtains ts nonce tsInt b where
    "parseSwmSigHeader (rq_Header r ''X-SwM-Signature'') = Inr (ts, nonce, sign secret (message_of r ts nonce (body_bytes b)))"
    "ParseInt ts = Some tsInt" "\<not> abs64 (wrap64 (now - tsInt)) > effective_skew skew"
    "0 < length nonce" "length nonce \<le> maxNonceLength" "readAndRestoreBody r = (b, r')"
    "admit_nonce now nowUnix (effective_skew skew) nonce ns = (None, ns')" "secret \<noteq> []"
  using assms unfolding verifySwmSignature_def Let_def body_bytes_def [symmetric] effective_skew_def [symmetric]
    message_of_def [symmetric]
  by (auto split: if_splits sum.splits prod.splits option.splits)

lemma verify_state:
  assumes "verifySwmSignature now nowUnix secret skew r ns = (e, r', ns')" "nonces_ok ns"
  shows "nonces_ok ns'" and "map_of (nonceStore ns) m = Some exp \<Longrightarrow> map_of (nonceStore ns') m = Some exp \<or> exp \<le> nowUnix"
    and "r' = r \<or> r' = snd (readAndRestoreBody r)"
proof -
  have *: "(ns' = ns \<or> (\<exists>nonce e. admit_nonce now nowUnix (effective_skew skew) nonce ns = (e, ns'))) \<and>
    (r' = r \<or> r' = snd (readAndRestoreBody r))"
    using assms(1) unfolding verifySwmSignature_def Let_def effective_skew_def [symmetric]
    by (auto split: if_splits sum.splits prod.splits option.splits)
  show "nonces_ok ns'" using * admit_nonce_ok [OF assms(2)] assms(2) by blast
  show "map_of (nonceStore ns') m = Some exp \<or> exp \<le> nowUnix" if "map_of (nonceStore ns) m = Some exp"
    using * admit_nonce_keeps [OF assms(2) _ that] that by blast
  show "r' = r \<or> r' = snd (readAndRestoreBody r)" using * by blast
qed

text \<open>A request that carries the header its signer computes is accepted.\<close>

lemma verify_signed:
  assumes "rq_Header r ''X-SwM-Signature'' = computeSignatureHeader t nonce (rq_Method r) (rq_Path r)
      (rq_Header r ''X-SwM-User'') (rq_Header r ''X-SwM-Is-Admin'') (body_bytes b) secret"
    and "readAndRestoreBody r = (b, r')" "secret \<noteq> []" "plain_field nonce" "length nonce \<le> maxNonceLength"
    and "0 \<le> t" "t < 2 ^ 62" "0 \<le> now" "now < 2 ^ 62" "\<bar>now - t\<bar> \<le> effective_skew skew" "effective_skew skew < 2 ^ 62"
  shows "verifySwmSignature now nowUnix secret skew r ns =
    (case admit_nonce now nowUnix (effective_skew skew) nonce ns of (e, ns') \<Rightarrow> (e, r', ns'))"
proof -
  define h where "h = rq_Header r ''X-SwM-Signature''"
  have p: "parseSwmSigHeader h = Inr (dec_int t, nonce, sign secret (message_of r (dec_int t) nonce (body_bytes b)))"
    unfolding h_def assms(1) message_of_def by (rule parse_computed_header [OF assms(4)])
  have "h \<noteq> []" unfolding h_def assms(1) by (simp add: computeSignatureHeader_def Let_def)
  moreover have "ParseInt (dec_int t) = Some t" using assms(6,7) by (intro ParseInt_dec_int) simp_all
  moreover have "0 \<le> effective_skew skew" by (simp add: effective_skew_def)
  then have "\<not> abs64 (wrap64 (now - t)) > effective_skew skew"
    using abs64_fresh [of now t "effective_skew skew"] assms(6-11) by simp
  moreover have "nonce \<noteq> []" using plain_fieldD [OF assms(4)] by simp
  ultimately show ?thesis
    using assms(2,3,5) p unfolding verifySwmSignature_def Let_def body_bytes_def [symmetric]
      effective_skew_def [symmetric] message_of_def [symmetric] h_def [symmetric]
    by (simp split: prod.split)
qed

subsection \<open>A header is accepted once\<close>

text \<open>
  What happens to the store: a tick of the cleaner, or a check of a request with the two readings
  of the clock.  \<open>auth_run\<close> gives the headers that were accepted, with the first of the readings.
\<close>

datatype auth_event = Clean int | Check int int request

fun readings :: "auth_event \<Rightarrow> int list" where
  "readings (Clean t) = [t]"
| "readings (Check now nowUnix r) = [now, nowUnix]"

fun auth_run :: "string \<Rightarrow> int \<Rightarrow> auth_event list \<Rightarrow> nonces \<Rightarrow> (int \<times> string) list \<times> nonces" where
  "auth_run secret skew [] ns = ([], ns)"
| "auth_run secret skew (Clean t # es) ns = auth_run secret skew es (expire_nonces t ns)"
| "auth_run secret skew (Check now nowUnix r # es) ns =
     (case verifySwmSignature now nowUnix secret skew r ns of (e, _, ns) \<Rightarrow>
      case auth_run secret skew es ns of (acc, ns) \<Rightarrow>
        ((if e = None then (now, rq_Header r ''X-SwM-Signature'') # acc else acc), ns))"

definition nonce_of :: "string \<Rightarrow> string" where
  "nonce_of h = (case parseSwmSigHeader h of Inl e \<Rightarrow> [] | Inr (ts, nonce, sig) \<Rightarrow> nonce)"

lemma accepts_nonce:
  assumes "verifySwmSignature now nowUnix secret skew r ns = (None, r', ns')"
  shows "admit_nonce now nowUnix (effective_skew skew) (nonce_of (rq_Header r ''X-SwM-Signature'')) ns = (None, ns')"
  by (rule verify_accepts [OF assms]) (simp add: nonce_of_def)

text \<open>The nonce is in the store until \<open>exp\<close>.\<close>

definition held :: "string \<Rightarrow> int \<Rightarrow> int \<Rightarrow> nonces \<Rightarrow> bool" where
  "held n exp t ns = (map_of (nonceStore ns) n = Some exp \<or> exp \<le> t)"

definition timed :: "int \<Rightarrow> int \<Rightarrow> auth_event list \<Rightarrow> bool" where
  "timed d t es = (sorted (t # concat (map readings es)) \<and> (\<forall>t\<in>set (concat (map readings es)). 0 \<le> t \<and> t < 2 ^ 61) \<and>
     (\<forall>now nowUnix r. Check now nowUnix r \<in> set es \<longrightarrow> nowUnix \<le> now + d))"

lemma timed_Clean: "timed d t (Clean t' # es) \<Longrightarrow> t \<le> t' \<and> timed d t' es"
  by (auto simp: timed_def)

lemma timed_Check: "timed d t (Check now nowUnix r # es) \<Longrightarrow>
  t \<le> now \<and> now \<le> nowUnix \<and> nowUnix \<le> now + d \<and> 0 \<le> now \<and> now < 2 ^ 61 \<and> timed d nowUnix es"
  by (auto simp: timed_def)

lemma held_run:
  "held n exp t ns \<Longrightarrow> nonces_ok ns \<Longrightarrow> timed d t es \<Longrightarrow> (m, h) \<in> set (fst (auth_run secret skew es ns)) \<Longrightarrow>
   nonce_of h = n \<Longrightarrow> exp \<le> m + d"
proof (induction es arbitrary: t ns)
  case (Cons ev es)
  show ?case
  proof (cases ev)
    case (Clean t')
    then have t: "t \<le> t'" "timed d t' es" using Cons.prems(3) timed_Clean by blast+
    have "held n exp t' (expire_nonces t' ns)"
      using Cons.prems(1) t(1) map_of_expire [OF Cons.prems(2)] by (auto simp: held_def)
    then show ?thesis
      using Cons.IH [OF _ expire_nonces_ok [OF Cons.prems(2)] t(2) _ Cons.prems(5)] Cons.prems(4) by (simp add: Clean)
  next
    case (Check now nowUnix r)
    note t = timed_Check [OF Cons.prems(3) [unfolded Check]]
    obtain e r' ns' where v: "verifySwmSignature now nowUnix secret skew r ns = (e, r', ns')"
      by (metis prod_cases3)
    have h': "held n exp nowUnix ns'"
      using Cons.prems(1) t verify_state(2) [OF v Cons.prems(2)] by (auto simp: held_def)
    consider "(m, h) \<in> set (fst (auth_run secret skew es ns'))"
      | "e = None" "m = now" "h = rq_Header r ''X-SwM-Signature''"
      using Cons.prems(4) by (auto simp: Check v split: prod.splits if_splits)
    then show ?thesis
    proof cases
      case 1
      then show ?thesis using Cons.IH [OF h' verify_state(1) [OF v Cons.prems(2)] _ _ Cons.prems(5)] t by blast
    next
      case 2
      have "map_of (nonceStore ns) n = Some exp \<Longrightarrow> exp \<le> nowUnix"
        using admit_nonce_accepts(2) [OF Cons.prems(2) accepts_nonce] v 2 Cons.prems(5) by blast
      then show ?thesis using Cons.prems(1) t 2(2) by (auto simp: held_def)
    qed
  qed
qed simp

lemma accepted_held:
  assumes "verifySwmSignature now nowUnix secret skew r ns = (None, r', ns')" "nonces_ok ns"
    and "0 \<le> now" "now < 2 ^ 61" "effective_skew skew < 600"
  shows "held (nonce_of (rq_Header r ''X-SwM-Signature'')) (now + 600) nowUnix ns'"
proof -
  let ?s = "effective_skew skew"
  have s: "0 < ?s" using assms(5) by (simp add: effective_skew_def)
  have "wrap64 (?s * 10 ^ 9) = ?s * 10 ^ 9" using s assms(5) by (intro wrap64_id) simp_all
  then have "nonceTTLForSkew ?s = nonceTTL" using s assms(5) by (simp add: nonceTTLForSkew_def nonceTTL_def)
  then have "wrap64 (now + nonceTTLForSkew ?s sdiv 10 ^ 9) = now + 600"
    using assms(3,4) by (simp add: nonceTTL_def signed_divide_int_def wrap64_id)
  then show ?thesis
    using admit_nonce_accepts(1) [OF assms(2) accepts_nonce [OF assms(1)]] by (simp add: held_def)
qed

text \<open>The time stamp of a header, and when a header is fresh.\<close>

definition fresh_at :: "int \<Rightarrow> int \<Rightarrow> string \<Rightarrow> bool" where
  "fresh_at skew now h = (\<exists>ts nonce sig tsInt. parseSwmSigHeader h = Inr (ts, nonce, sig) \<and> ParseInt ts = Some tsInt \<and>
     \<not> abs64 (wrap64 (now - tsInt)) > effective_skew skew)"

lemma accepts_fresh:
  "verifySwmSignature now nowUnix secret skew r ns = (None, r', ns') \<Longrightarrow> fresh_at skew now (rq_Header r ''X-SwM-Signature'')"
  unfolding fresh_at_def by (metis verify_accepts)

lemma run_fresh:
  "(m, h) \<in> set (fst (auth_run secret skew es ns)) \<Longrightarrow> timed d t es \<Longrightarrow> fresh_at skew m h \<and> 0 \<le> m \<and> m < 2 ^ 61"
proof (induction es arbitrary: t ns)
  case (Cons ev es)
  show ?case
  proof (cases ev)
    case (Clean t')
    then show ?thesis using Cons.IH [of "expire_nonces t' ns" t'] Cons.prems timed_Clean by auto
  next
    case (Check now nowUnix r)
    note t = timed_Check [OF Cons.prems(2) [unfolded Check]]
    obtain e r' ns' where v: "verifySwmSignature now nowUnix secret skew r ns = (e, r', ns')"
      by (metis prod_cases3)
    consider "(m, h) \<in> set (fst (auth_run secret skew es ns'))"
      | "e = None" "m = now" "h = rq_Header r ''X-SwM-Signature''"
      using Cons.prems(1) by (auto simp: Check v split: prod.splits if_splits)
    then show ?thesis using Cons.IH [of ns' nowUnix] accepts_fresh v t by cases auto
  qed
qed simp

lemma fresh_twice:
  assumes "fresh_at skew a h" "fresh_at skew b h" "0 \<le> a" "a < 2 ^ 61" "0 \<le> b" "b < 2 ^ 61" "effective_skew skew < 600"
  shows "b - a \<le> 2 * effective_skew skew"
proof -
  define s where "s = effective_skew skew"
  have s: "0 < s" "s < 600" using assms(7) by (simp_all add: s_def effective_skew_def)
  obtain ts nonce sig x where x: "parseSwmSigHeader h = Inr (ts, nonce, sig)" "ParseInt ts = Some x"
    and f: "\<not> abs64 (wrap64 (a - x)) > s" "\<not> abs64 (wrap64 (b - x)) > s"
    using assms(1,2) unfolding fresh_at_def s_def by auto
  have int: "- (2 ^ 63) \<le> x" "x < 2 ^ 63"
    using x(2) by (auto simp: ParseInt_def Let_def split: if_splits prod.splits)
  have fresh: "\<not> abs64 (wrap64 (m - x)) > s \<longleftrightarrow> \<bar>m - x\<bar> \<le> s \<or> m - x = 2 ^ 63"
    if "0 \<le> m" "m < 2 ^ 61" for m
    using abs64_fresh [of m x s] that int s by simp
  have "\<bar>a - x\<bar> \<le> s \<or> a - x = 2 ^ 63" "\<bar>b - x\<bar> \<le> s \<or> b - x = 2 ^ 63"
    using f fresh assms(3-6) by blast+
  then have "b - a \<le> 2 * s" using s int assms(3-6) by auto
  then show ?thesis by (simp add: s_def)
qed

text \<open>What holds of an accepted header and each one accepted later.\<close>

definition later_ok :: "int \<Rightarrow> int \<times> string \<Rightarrow> int \<times> string \<Rightarrow> bool" where
  "later_ok d p q = (snd p \<noteq> snd q \<and> (nonce_of (snd p) = nonce_of (snd q) \<longrightarrow> fst p + 600 \<le> fst q + d))"

lemma accepted_once_from:
  assumes "0 \<le> d" "2 * effective_skew skew + d < 600"
  shows "nonces_ok ns \<Longrightarrow> timed d t es \<Longrightarrow>
    sorted_wrt (later_ok d) (fst (auth_run secret skew es ns)) \<and> nonces_ok (snd (auth_run secret skew es ns))"
proof (induction es arbitrary: t ns)
  case (Cons ev es)
  have skew: "effective_skew skew < 600" using assms by (simp add: effective_skew_def split: if_splits)
  show ?case
  proof (cases ev)
    case (Clean t')
    then show ?thesis
      using Cons.IH [OF expire_nonces_ok [OF Cons.prems(1)]] timed_Clean Cons.prems(2) by simp blast
  next
    case (Check now nowUnix r)
    note t = timed_Check [OF Cons.prems(2) [unfolded Check]]
    obtain e r' ns' where v: "verifySwmSignature now nowUnix secret skew r ns = (e, r', ns')"
      by (metis prod_cases3)
    let ?h = "rq_Header r ''X-SwM-Signature''" and ?acc = "fst (auth_run secret skew es ns')"
    have ok: "nonces_ok ns'" by (rule verify_state(1) [OF v Cons.prems(1)])
    have rest: "sorted_wrt (later_ok d) ?acc \<and> nonces_ok (snd (auth_run secret skew es ns'))"
      using Cons.IH [OF ok] t by blast
    have "later_ok d (now, ?h) (m, h)" if "e = None" "(m, h) \<in> set ?acc" for m h
    proof -
      note v = v [unfolded that(1)]
      have gap: "now + 600 \<le> m + d" if "nonce_of h = nonce_of ?h"
        using held_run [OF accepted_held [OF v Cons.prems(1) _ _ skew] ok _ \<open>(m, h) \<in> set ?acc\<close> that] t by blast
      have "fresh_at skew m h \<and> 0 \<le> m \<and> m < 2 ^ 61" using run_fresh [OF that(2)] t by blast
      then have "m - now \<le> 2 * effective_skew skew" if "h = ?h"
        using fresh_twice [OF accepts_fresh [OF v], of m] that t skew by blast
      then have "h \<noteq> ?h" using gap assms by force
      with gap show ?thesis by (auto simp: later_ok_def)
    qed
    then show ?thesis using rest by (auto simp: Check v split: prod.splits)
  qed
qed simp

subsection \<open>Properties\<close>

text \<open>
  C30.  When the clock does not go back, no check waits longer than \<open>d\<close> seconds for the nonces
  and twice the skew plus \<open>d\<close> is less than the ten minutes a nonce is kept, no signature header
  is accepted twice, whatever requests come and whenever the cleaner runs; a nonce in another
  header, with a later time stamp, is accepted again only after ten minutes, less the wait; and
  the count of the nonces stays the size of the store and within its bound.
\<close>

theorem accepted_once:
  assumes "nonces_ok ns" "sorted (concat (map readings es))"
    and "\<forall>t\<in>set (concat (map readings es)). 0 \<le> t \<and> t < 2 ^ 61"
    and "\<forall>now nowUnix r. Check now nowUnix r \<in> set es \<longrightarrow> nowUnix \<le> now + d"
    and "0 \<le> d" "2 * effective_skew skew + d < 600"
    and "auth_run secret skew es ns = (acc, ns')"
  shows "distinct (map snd acc) \<and>
    (\<forall>i j. i < j \<and> j < length acc \<and> nonce_of (snd (acc ! i)) = nonce_of (snd (acc ! j)) \<longrightarrow>
       fst (acc ! i) + 600 \<le> fst (acc ! j) + d) \<and> nonces_ok ns'"
proof -
  have "timed d 0 es" using assms(2-4) by (simp add: timed_def)
  then have s: "sorted_wrt (later_ok d) acc" "nonces_ok ns'"
    using accepted_once_from [OF assms(5,6,1), of 0 es secret] by (simp_all add: assms(7))
  have later: "later_ok d (acc ! i) (acc ! j)" if "i < j" "j < length acc" for i j
    using s(1) that by (rule sorted_wrt_nth_less)
  have "snd (acc ! i) \<noteq> snd (acc ! j)" if "i < length acc" "j < length acc" "i \<noteq> j" for i j
    using later [of i j] later [of j i] that by (cases i j rule: linorder_cases) (auto simp: later_ok_def)
  then have "distinct (map snd acc)" by (simp add: distinct_conv_nth)
  with later s(2) show ?thesis unfolding later_ok_def by blast
qed

text \<open>
  With the default skew of 300 seconds a nonce is forgotten one second too early: a request
  whose signer is 300 seconds ahead of the server is accepted when it arrives and once more, with
  the same signature, exactly ten minutes later.
\<close>

theorem default_skew_replay:
  assumes "rq_Header r ''X-SwM-Signature'' = computeSignatureHeader (T + 300) nonce (rq_Method r) (rq_Path r)
      (rq_Header r ''X-SwM-User'') (rq_Header r ''X-SwM-Is-Admin'') (body_bytes (fst (readAndRestoreBody r))) secret"
    and "secret \<noteq> []" "plain_field nonce" "length nonce \<le> maxNonceLength" "0 \<le> T" "T < 2 ^ 60"
  shows "fst (auth_run secret 0 [Check T T r, Clean (T + 600), Check (T + 600) (T + 600) r]
      \<lparr>nonceStore = [], nonceCount = 0\<rparr>) =
    [(T, rq_Header r ''X-SwM-Signature''), (T + 600, rq_Header r ''X-SwM-Signature'')]"
proof -
  obtain b r' where b: "readAndRestoreBody r = (b, r')" by force
  have skew: "effective_skew 0 = 300" by (simp add: effective_skew_def)
  have h: "rq_Header r ''X-SwM-Signature'' = computeSignatureHeader (T + 300) nonce (rq_Method r) (rq_Path r)
      (rq_Header r ''X-SwM-User'') (rq_Header r ''X-SwM-Is-Admin'') (body_bytes b) secret"
    using assms(1) by (simp add: b)
  have v: "verifySwmSignature now now secret 0 r ns =
      (case admit_nonce now now 300 nonce ns of (e, ns') \<Rightarrow> (e, r', ns'))" if "now = T \<or> now = T + 600" for now ns
    using verify_signed [OF h b assms(2-4), of now 0 now ns] that assms(5,6) by (auto simp: skew)
  have "wrap64 (300 * 10 ^ 9) = 300 * 10 ^ 9" by (rule wrap64_id) simp_all
  then have "nonceTTLForSkew 300 = nonceTTL" by (simp add: nonceTTLForSkew_def nonceTTL_def)
  then have exp: "wrap64 (T + nonceTTLForSkew 300 sdiv 10 ^ 9) = T + 600"
    using assms(5,6) by (simp add: nonceTTL_def signed_divide_int_def wrap64_id)
  have a: "admit_nonce T T 300 nonce \<lparr>nonceStore = [], nonceCount = 0\<rparr> =
      (None, \<lparr>nonceStore = [(nonce, T + 600)], nonceCount = 1\<rparr>)"
    using exp by (subst admit_nonce_fresh) (simp_all add: maxNonceCount_def)
  have c: "expire_nonces (T + 600) \<lparr>nonceStore = [(nonce, T + 600)], nonceCount = 1\<rparr> =
      \<lparr>nonceStore = [], nonceCount = 0\<rparr>"
    by (simp add: expire_nonces_def)
  have "fst (admit_nonce (T + 600) (T + 600) 300 nonce \<lparr>nonceStore = [], nonceCount = 0\<rparr>) = None"
    by (subst admit_nonce_fresh) (simp_all add: maxNonceCount_def)
  then obtain ns where a': "admit_nonce (T + 600) (T + 600) 300 nonce \<lparr>nonceStore = [], nonceCount = 0\<rparr> = (None, ns)"
    by (metis prod.collapse)
  show ?thesis by (simp add: v a c a')
qed

text \<open>
  C31.  A signature header stands for one request: if it is accepted for two, they agree in method,
  path, user, administrator flag and body, unless HMAC-SHA-256 or SHA-256 collide on them.  The
  hypothesis on newlines is what the HTTP parser guarantees for methods and header values; the
  paths may hold newlines.
\<close>

theorem header_stands_for_one_request:
  assumes "verifySwmSignature n1 u1 secret s1 r1 ns1 = (None, r1', ns1')"
    and "verifySwmSignature n2 u2 secret s2 r2 ns2 = (None, r2', ns2')"
    and "rq_Header r1 ''X-SwM-Signature'' = rq_Header r2 ''X-SwM-Signature''"
    and "\<forall>r\<in>{r1, r2}. CHR 0x0A \<notin> set (rq_Method r) \<and> (\<forall>k. CHR 0x0A \<notin> set (rq_Header r k))"
    and "\<And>ts nonce. sign secret (message_of r1 ts nonce (body_bytes (fst (readAndRestoreBody r1)))) =
        sign secret (message_of r2 ts nonce (body_bytes (fst (readAndRestoreBody r2)))) \<Longrightarrow>
      message_of r1 ts nonce (body_bytes (fst (readAndRestoreBody r1))) =
        message_of r2 ts nonce (body_bytes (fst (readAndRestoreBody r2)))"
    and "sha256 (body_bytes (fst (readAndRestoreBody r1))) = sha256 (body_bytes (fst (readAndRestoreBody r2))) \<Longrightarrow>
      body_bytes (fst (readAndRestoreBody r1)) = body_bytes (fst (readAndRestoreBody r2))"
  shows "rq_Method r1 = rq_Method r2 \<and> rq_Path r1 = rq_Path r2 \<and>
    rq_Header r1 ''X-SwM-User'' = rq_Header r2 ''X-SwM-User'' \<and>
    rq_Header r1 ''X-SwM-Is-Admin'' = rq_Header r2 ''X-SwM-Is-Admin'' \<and>
    body_bytes (fst (readAndRestoreBody r1)) = body_bytes (fst (readAndRestoreBody r2))"
proof -
  obtain ts nonce b1 where p1: "readAndRestoreBody r1 = (b1, r1')"
    "parseSwmSigHeader (rq_Header r1 ''X-SwM-Signature'') = Inr (ts, nonce, sign secret (message_of r1 ts nonce (body_bytes b1)))"
    using verify_accepts [OF assms(1)] by metis
  obtain ts' nonce' b2 where p2: "readAndRestoreBody r2 = (b2, r2')"
    "parseSwmSigHeader (rq_Header r2 ''X-SwM-Signature'') = Inr (ts', nonce', sign secret (message_of r2 ts' nonce' (body_bytes b2)))"
    using verify_accepts [OF assms(2)] by metis
  have eq: "ts = ts'" "nonce = nonce'"
    and s: "sign secret (message_of r1 ts nonce (body_bytes b1)) = sign secret (message_of r2 ts nonce (body_bytes b2))"
    using p1(2) p2(2) [folded assms(3)] by (auto simp del: not_None_eq)
  have m: "message_of r1 ts nonce (body_bytes b1) = message_of r2 ts nonce (body_bytes b2)"
    using assms(5) [of ts nonce] s by (simp add: p1(1) p2(1))
  have "CHR 0x0A \<notin> set ts" "CHR 0x0A \<notin> set nonce"
    using parse_chars [OF p1(2)] assms(4) by blast+
  then show ?thesis
    using canonical_form_inj [OF m [unfolded message_of_def]] assms(4,6) by (simp add: p1(1) p2(1))
qed

text \<open>Witnesses: a request to change notes that alice's browser makes through the proxy.\<close>

definition notes_request :: request where
  "notes_request = signRequest 1700000300 (newNonce (Some (replicate 16 7)) []) ''secret'' ''alice'' ''0''
     \<lparr>rq_Method = ''POST'', rq_Path = ''/tacacs/user/update/notes'',
      rq_Header = (\<lambda>k. if k = ''X-SwM-User'' then ''alice'' else if k = ''X-SwM-Is-Admin'' then ''0'' else []),
      rq_Body = Body (bytes_of_string ''{}'') None, rq_ContentLength = 2, rq_ClientIP = ''127.0.0.1''\<rparr>"

lemma notes_request_signed:
  "rq_Header notes_request ''X-SwM-Signature'' = computeSignatureHeader 1700000300 (newNonce (Some (replicate 16 7)) [])
     (rq_Method notes_request) (rq_Path notes_request) (rq_Header notes_request ''X-SwM-User'')
     (rq_Header notes_request ''X-SwM-Is-Admin'') (body_bytes (fst (readAndRestoreBody notes_request))) ''secret''"
  by (simp add: notes_request_def signRequest_def readAndRestoreBody_def body_bytes_def maxBodyPeek_def Let_def)

lemma auth_run_headers:
  "\<forall>now nowUnix r. Check now nowUnix r \<in> set es \<longrightarrow> rq_Header r ''X-SwM-Signature'' = h \<Longrightarrow>
   (m, k) \<in> set (fst (auth_run secret skew es ns)) \<Longrightarrow> k = h"
proof (induction es arbitrary: ns)
  case (Cons ev es)
  then show ?case by (cases ev) (auto split: prod.splits if_splits, (metis fst_conv)+)
qed simp

text \<open>The request is accepted when it comes first, and none of its three replays is.\<close>

theorem accepted_once_witness:
  "map fst (fst (auth_run ''secret'' 299 [Check 1700000100 1700000100 notes_request, Check 1700000101 1700000102 notes_request,
     Clean 1700000400, Check 1700000400 1700000400 notes_request, Clean 1700000700, Check 1700000700 1700000701 notes_request]
       \<lparr>nonceStore = [], nonceCount = 0\<rparr>)) = [1700000100]"
proof -
  let ?h = "rq_Header notes_request ''X-SwM-Signature''" and ?ns = "\<lparr>nonceStore = [], nonceCount = 0\<rparr>"
  let ?es = "[Check 1700000101 1700000102 notes_request,
     Clean 1700000400, Check 1700000400 1700000400 notes_request, Clean 1700000700, Check 1700000700 1700000701 notes_request]"
  let ?all = "Check 1700000100 1700000100 notes_request # ?es"
  obtain b r' where b: "readAndRestoreBody notes_request = (b, r')" by force
  have "length (replicate 16 (7 :: byte)) = 16" by simp
  note n = plain_newNonce [OF this, of "[]"]
  have h: "?h = computeSignatureHeader 1700000300 (newNonce (Some (replicate 16 7)) []) (rq_Method notes_request)
      (rq_Path notes_request) (rq_Header notes_request ''X-SwM-User'') (rq_Header notes_request ''X-SwM-Is-Admin'')
      (body_bytes b) ''secret''"
    using notes_request_signed b by simp
  have "\<exists>ns1. verifySwmSignature 1700000100 1700000100 ''secret'' 299 notes_request ?ns = (None, r', ns1)"
    using n by (subst verify_signed [OF h b]) (simp_all add: maxNonceLength_def effective_skew_def admit_nonce_fresh maxNonceCount_def)
  then obtain ns1 where 1: "verifySwmSignature 1700000100 1700000100 ''secret'' 299 notes_request ?ns = (None, r', ns1)"
    by blast
  obtain rest ns2 where 2: "auth_run ''secret'' 299 ?es ns1 = (rest, ns2)" by fastforce
  have all: "auth_run ''secret'' 299 ?all ?ns = ((1700000100, ?h) # rest, ns2)"
    unfolding auth_run.simps(3) [of _ _ "1700000100"] 1 prod.case 2 by simp
  have "distinct (map snd ((1700000100, ?h) # rest))"
    by (rule conjunct1 [OF accepted_once [OF _ _ _ _ _ _ all, where d = 1]])
      (auto simp: nonces_ok_def maxNonceCount_def effective_skew_def)
  moreover have "k = ?h" if "(m, k) \<in> set rest" for m k
    by (rule auth_run_headers [of ?es ?h m k "''secret''" 299 ns1]) (simp, use that in \<open>simp only: 2 fst_conv\<close>)
  ultimately have "rest = []" by (cases rest) (simp_all, metis prod.collapse)
  then show ?thesis by (simp only: all fst_conv list.map)
qed

theorem default_skew_replay_witness:
  "length (fst (auth_run ''secret'' 0 [Check 1700000000 1700000000 notes_request, Clean 1700000600,
     Check 1700000600 1700000600 notes_request] \<lparr>nonceStore = [], nonceCount = 0\<rparr>)) = 2"
proof -
  have "length (replicate 16 (7 :: byte)) = 16" by simp
  note n = plain_newNonce [OF this, of "[]"]
  show ?thesis
    using default_skew_replay [of notes_request 1700000000 "newNonce (Some (replicate 16 7)) []" "''secret''"]
      notes_request_signed n
    by (simp add: maxNonceLength_def)
qed

lemma notes_request_accepted:
  "\<exists>r' ns'. verifySwmSignature 1700000000 1700000000 ''secret'' 0 (notes_request\<lparr>rq_ClientIP := ip\<rparr>)
     \<lparr>nonceStore = [], nonceCount = 0\<rparr> = (None, r', ns')"
proof -
  let ?r = "notes_request\<lparr>rq_ClientIP := ip\<rparr>"
  have "length (replicate 16 (7 :: byte)) = 16" by simp
  note n = plain_newNonce [OF this, of "[]"]
  obtain b r' where b: "readAndRestoreBody ?r = (b, r')" by force
  have "body_bytes b = body_bytes (fst (readAndRestoreBody notes_request))"
    using b by (simp add: notes_request_def signRequest_def readAndRestoreBody_def body_bytes_def maxBodyPeek_def Let_def)
  then have h: "rq_Header ?r ''X-SwM-Signature'' = computeSignatureHeader 1700000300 (newNonce (Some (replicate 16 7)) [])
     (rq_Method ?r) (rq_Path ?r) (rq_Header ?r ''X-SwM-User'') (rq_Header ?r ''X-SwM-Is-Admin'') (body_bytes b) ''secret''"
    using notes_request_signed by simp
  show ?thesis
    using n by (subst verify_signed [OF h b]) (simp_all add: maxNonceLength_def effective_skew_def admit_nonce_fresh maxNonceCount_def)
qed

theorem header_stands_for_one_request_witness:
  "rq_Header notes_request ''X-SwM-User'' = rq_Header (notes_request\<lparr>rq_ClientIP := ''10.0.0.9''\<rparr>) ''X-SwM-User''"
proof -
  obtain r1 ns1 where 1: "verifySwmSignature 1700000000 1700000000 ''secret'' 0 notes_request
     \<lparr>nonceStore = [], nonceCount = 0\<rparr> = (None, r1, ns1)"
    using notes_request_accepted [of "rq_ClientIP notes_request"] by auto
  obtain r2 ns2 where 2: "verifySwmSignature 1700000000 1700000000 ''secret'' 0 (notes_request\<lparr>rq_ClientIP := ''10.0.0.9''\<rparr>)
     \<lparr>nonceStore = [], nonceCount = 0\<rparr> = (None, r2, ns2)"
    using notes_request_accepted by blast
  have "CHR 0x0A \<notin> set (rq_Header notes_request ''X-SwM-Signature'')"
    unfolding notes_request_signed using plain_newNonce [of "replicate 16 7" "[]"] by (intro computed_header_no_newline) simp
  then have h: "CHR 0x0A \<notin> set (rq_Header notes_request k)" for k
    by (cases "k = ''X-SwM-Signature''") (simp_all add: notes_request_def signRequest_def readAndRestoreBody_def maxBodyPeek_def Let_def)
  have m: "CHR 0x0A \<notin> set (rq_Method notes_request)" and body: "body_bytes (fst (readAndRestoreBody (notes_request\<lparr>rq_ClientIP := ''10.0.0.9''\<rparr>)))
      = body_bytes (fst (readAndRestoreBody notes_request))"
    by (simp_all add: notes_request_def signRequest_def readAndRestoreBody_def maxBodyPeek_def Let_def)
  have msg: "message_of (notes_request\<lparr>rq_ClientIP := ''10.0.0.9''\<rparr>) = message_of notes_request"
    by (intro ext) (simp add: message_of_def)
  show ?thesis
  proof (rule conjunct1 [OF conjunct2 [OF conjunct2 [OF header_stands_for_one_request [OF 1 2]]]])
    show "\<forall>r\<in>{notes_request, notes_request\<lparr>rq_ClientIP := ''10.0.0.9''\<rparr>}.
        CHR 0x0A \<notin> set (rq_Method r) \<and> (\<forall>k. CHR 0x0A \<notin> set (rq_Header r k))"
      using h m by simp
  qed (simp_all only: msg body, simp)
qed

end
