(* ===== verification/RouteLaws.thy ===== *)
theory RouteLaws
  imports Routes SwmAuthLaws
begin

text \<open>
  What a request to the server can change.  The interface \<open>frame\<close> states a change that every
  operation of a handler keeps within bounds; it is interpreted for \<open>nothing changes\<close> and for
  \<open>an ordinary user changes only what is theirs\<close>.
\<close>

subsection \<open>Bounds on the changes of an operation\<close>

named_theorems frame_intros \<open>rules for the operations of a handler\<close>

definition same_env :: "world \<Rightarrow> world \<Rightarrow> bool" where
  "same_env w w' = (w_interf w' = w_interf w \<and> w_replica w' = w_replica w)"

definition io_keeps :: "(world \<Rightarrow> bool) \<Rightarrow> (db \<Rightarrow> db \<Rightarrow> bool) \<Rightarrow> 'a io \<Rightarrow> bool" where
  "io_keeps ok Q m = (\<forall>w. ok w \<longrightarrow> Q (w_db w) (w_db (snd (run_state m w))) \<and> same_env w (snd (run_state m w)))"

definition h_keeps :: "(world \<Rightarrow> bool) \<Rightarrow> (db \<Rightarrow> db \<Rightarrow> bool) \<Rightarrow> (server \<Rightarrow> server \<Rightarrow> bool) \<Rightarrow> 'a handler \<Rightarrow> bool" where
  "h_keeps ok Q K h = (\<forall>s. ok (sv_world s) \<longrightarrow>
     Q (w_db (sv_world s)) (w_db (sv_world (snd (run_state h s)))) \<and>
     same_env (sv_world s) (sv_world (snd (run_state h s))) \<and> K s (snd (run_state h s)))"

locale frame =
  fixes ok :: "world \<Rightarrow> bool" and Q :: "db \<Rightarrow> db \<Rightarrow> bool" and K :: "server \<Rightarrow> server \<Rightarrow> bool"
  assumes Q_refl: "Q d d"
    and Q_trans: "Q d d' \<Longrightarrow> Q d' d'' \<Longrightarrow> Q d d''"
    and K_world: "K s (s\<lparr>sv_world := w\<rparr>)"
    and K_trans: "K s s' \<Longrightarrow> K s' s'' \<Longrightarrow> K s s''"
    and ok_step: "ok w \<Longrightarrow> same_env w w' \<Longrightarrow> Q (w_db w) (w_db w') \<Longrightarrow> ok w'"
begin

lemma K_refl: "K s s"
  using K_world [of s "sv_world s"] by simp

lemma same_env_trans: "same_env w w' \<Longrightarrow> same_env w' w'' \<Longrightarrow> same_env w w''"
  by (simp add: same_env_def)

lemma io_ret: "io_keeps ok Q (ret x)"
  by (simp add: io_keeps_def Q_refl same_env_def)

lemma io_query: "io_keeps ok Q (query sel)"
  by (simp add: io_keeps_def query_def Q_refl same_env_def)

lemma io_world_get: "io_keeps ok Q world_get"
  by (simp add: io_keeps_def Q_refl same_env_def)

lemma io_clock: "io_keeps ok Q time_now" "io_keeps ok Q now_string" "io_keeps ok Q (HashPassword p)"
  by (simp_all add: io_keeps_def Q_refl same_env_def)

lemma io_bind:
  assumes "io_keeps ok Q m" "\<And>x. io_keeps ok Q (f x)"
  shows "io_keeps ok Q (State_Monad.bind m f)"
  unfolding io_keeps_def
proof (intro allI impI)
  fix w assume ok: "ok w"
  obtain x w1 where 1: "run_state m w = (x, w1)" by fastforce
  have "Q (w_db w) (w_db w1)" "same_env w w1" using assms(1) ok by (auto simp: io_keeps_def 1 dest: spec [of _ w])
  moreover have "Q (w_db w1) (w_db (snd (run_state (f x) w1)))" "same_env w1 (snd (run_state (f x) w1))"
    using assms(2) [of x] ok_step [OF ok \<open>same_env w w1\<close>] \<open>Q (w_db w) (w_db w1)\<close> by (auto simp: io_keeps_def)
  ultimately show "Q (w_db w) (w_db (snd (run_state (State_Monad.bind m f) w))) \<and>
      same_env w (snd (run_state (State_Monad.bind m f) w))"
    by (auto simp: 1 intro: Q_trans same_env_trans)
qed

lemma io_cases:
  "(c \<Longrightarrow> io_keeps ok Q a) \<Longrightarrow> (\<not> c \<Longrightarrow> io_keeps ok Q b) \<Longrightarrow> io_keeps ok Q (if c then a else b)"
  "(\<And>x. io_keeps ok Q (f x)) \<Longrightarrow> (\<And>y. io_keeps ok Q (g y)) \<Longrightarrow> io_keeps ok Q (case s of Inl x \<Rightarrow> f x | Inr y \<Rightarrow> g y)"
  "(\<And>x y. io_keeps ok Q (h x y)) \<Longrightarrow> io_keeps ok Q (case p of (x, y) \<Rightarrow> h x y)"
  "io_keeps ok Q a \<Longrightarrow> (\<And>x. io_keeps ok Q (f x)) \<Longrightarrow> io_keeps ok Q (case v of None \<Rightarrow> a | Some x \<Rightarrow> f x)"
  by (auto split: sum.split prod.split option.split)

text \<open>A statement is within bounds if it is so on every database it may run on.\<close>

lemma io_exec:
  assumes "\<And>w. ok w \<Longrightarrow> w_interf w = (\<lambda>_ d. d)" "\<And>w d' k i. ok w \<Longrightarrow> st (w_db w) = Inr (d', k, i) \<Longrightarrow> Q (w_db w) d'"
  shows "io_keeps ok Q (exec st)"
  unfolding io_keeps_def
proof (intro allI impI)
  fix w assume ok: "ok w"
  then have "w_interf w = (\<lambda>_ d. d)" by (rule assms(1))
  then show "Q (w_db w) (w_db (snd (run_state (exec st) w))) \<and> same_env w (snd (run_state (exec st) w))"
    using assms(2) [OF ok] by (auto simp: exec_def Let_def same_env_def Q_refl split: exec_fault.split sum.split)
qed

lemma h_ret: "h_keeps ok Q K (State_Monad.return x)"
  by (simp add: h_keeps_def Q_refl same_env_def K_refl)

lemma h_db_op: "io_keeps ok Q m \<Longrightarrow> h_keeps ok Q K (db_op m)"
  unfolding h_keeps_def io_keeps_def by (auto simp: db_op_def K_world split: prod.split)

text \<open>What the first part has found out may narrow the states for the rest.\<close>

lemma h_bind_when:
  assumes "h_keeps ok0 Q K h" "\<And>x. h_keeps (ok' x) Q K (f x)"
    and "\<And>s x s'. ok0 (sv_world s) \<Longrightarrow> run_state h s = (x, s') \<Longrightarrow> ok' x (sv_world s')"
  shows "h_keeps ok0 Q K (State_Monad.bind h f)"
  unfolding h_keeps_def
proof (intro allI impI)
  fix s :: server
  assume ok: "ok0 (sv_world s)"
  obtain x s1 where 1: "run_state h s = (x, s1)" by fastforce
  have a: "Q (w_db (sv_world s)) (w_db (sv_world s1))" "same_env (sv_world s) (sv_world s1)" "K s s1"
    using assms(1) ok by (auto simp: h_keeps_def 1 dest: spec [of _ s])
  have b: "Q (w_db (sv_world s1)) (w_db (sv_world (snd (run_state (f x) s1))))"
    "same_env (sv_world s1) (sv_world (snd (run_state (f x) s1)))" "K s1 (snd (run_state (f x) s1))"
    using assms(2) [of x] assms(3) [OF ok 1] by (auto simp: h_keeps_def)
  show "Q (w_db (sv_world s)) (w_db (sv_world (snd (run_state (State_Monad.bind h f) s)))) \<and>
      same_env (sv_world s) (sv_world (snd (run_state (State_Monad.bind h f) s))) \<and>
      K s (snd (run_state (State_Monad.bind h f) s))"
    using Q_trans [OF a(1) b(1)] same_env_trans [OF a(2) b(2)] K_trans [OF a(3) b(3)] by (simp add: 1)
qed

lemma h_bind:
  assumes "h_keeps ok Q K h" "\<And>x. h_keeps ok Q K (f x)"
  shows "h_keeps ok Q K (State_Monad.bind h f)"
  using assms(1)
proof (rule h_bind_when [where ok' = "\<lambda>_. ok"])
  show "ok (sv_world s')" if "ok (sv_world s)" "run_state h s = (x, s')" for s s' :: server and x
    using assms(1) that ok_step by (auto simp: h_keeps_def dest: spec [of _ s])
qed (rule assms(2))

lemma h_cases:
  "(c \<Longrightarrow> h_keeps ok Q K a) \<Longrightarrow> (\<not> c \<Longrightarrow> h_keeps ok Q K b) \<Longrightarrow> h_keeps ok Q K (if c then a else b)"
  "(\<And>x. h_keeps ok Q K (f x)) \<Longrightarrow> (\<And>y. h_keeps ok Q K (g y)) \<Longrightarrow> h_keeps ok Q K (case s of Inl x \<Rightarrow> f x | Inr y \<Rightarrow> g y)"
  "(\<And>x y. h_keeps ok Q K (h x y)) \<Longrightarrow> h_keeps ok Q K (case p of (x, y) \<Rightarrow> h x y)"
  "h_keeps ok Q K a \<Longrightarrow> (\<And>x. h_keeps ok Q K (f x)) \<Longrightarrow> h_keeps ok Q K (case v of None \<Rightarrow> a | Some x \<Rightarrow> f x)"
  by (auto split: sum.split prod.split option.split)

lemma h_silent:
  "h_keeps ok Q K (GetUserIdByBasicInfo env e p)" "h_keeps ok Q K (passwordUpdateFailureCount u)"
  "h_keeps ok Q K (checkPasswordFailureCount u)"
  by (simp_all add: h_keeps_def GetUserIdByBasicInfo_def passwordUpdateFailureCount_def checkPasswordFailureCount_def
    Q_refl same_env_def K_refl)

lemmas io_rules = io_ret io_query io_world_get io_clock io_bind io_cases
lemmas h_rules = h_ret h_db_op h_bind h_cases h_silent io_rules

text \<open>The reads of the handlers.\<close>

lemma io_reads:
  "io_keeps ok Q GetTacacsUserInfos" "io_keeps ok Q (GetTacacsUserInfoByUserName u)" "io_keeps ok Q GetTacacsUser"
  "io_keeps ok Q GetTacacsAdminUser" "io_keeps ok Q GetTacacsRoleTemplate" "io_keeps ok Q GetRoles"
  "io_keeps ok Q (GetTacacsApproval st)" "io_keeps ok Q (GetTacacsApprovalByID i)"
  "io_keeps ok Q (GetMisc key)" "io_keeps ok Q GetLogDisplayMode"
  unfolding GetTacacsUserInfos_def GetTacacsUserInfoByUserName_def GetTacacsUser_def GetTacacsAdminUser_def
    GetTacacsRoleTemplate_def GetTacacsRoleTemplates_def GetRoles_def GetTacacsApproval_def GetTacacsApprovalByID_def
    GetMisc_def GetLogDisplayMode_def Let_def
  by (intro io_rules)+

lemma io_mappings_loop: "io_keeps ok Q (mappings_loop js typs cfg)"
  by (induction typs arbitrary: cfg) (simp, intro io_rules io_reads | assumption)+

lemma h_loads:
  "h_keeps ok Q K loadLogRedirectConfig" "h_keeps ok Q K (loadSystemLogConfig env)"
  "h_keeps ok Q K (resolveClickHouseConfig env req)"
proof -
  have loop: "h_keeps ok Q K (url_loop kvs cfg)" for kvs cfg
    by (induction kvs arbitrary: cfg) (auto intro!: h_rules io_reads split: prod.split)
  show l: "h_keeps ok Q K loadLogRedirectConfig" unfolding loadLogRedirectConfig_def by (rule loop)
  have g: "io_keeps ok Q (GetClickHouseLogConfig js typs)" for js typs
    unfolding GetClickHouseLogConfig_def by (intro io_rules io_reads io_mappings_loop)
  show "h_keeps ok Q K (loadSystemLogConfig env)" "h_keeps ok Q K (resolveClickHouseConfig env req)"
    unfolding loadSystemLogConfig_def resolveClickHouseConfig_def by (intro h_rules io_reads l g)+
qed

text \<open>Handlers that read, whoever asks.\<close>

lemma h_health: "h_keeps ok Q K (httpApiHealth pings)"
  by (induction pings rule: httpApiHealth.induct) (simp_all add: h_ret)

lemma h_user_status: "h_keeps ok Q K (httpInternalUserStatus param)"
  unfolding httpInternalUserStatus_def Let_def by (intro h_rules io_reads)

lemma h_settings: "h_keeps ok Q K httpApiSystemGetLogRedirectConfig" "h_keeps ok Q K (httpApiSystemGetLogConfig env)"
  unfolding httpApiSystemGetLogRedirectConfig_def httpApiSystemGetLogConfig_def by (intro h_rules io_reads h_loads)+

end

subsection \<open>Without a verified identity nothing changes\<close>

definition untouched :: "server \<Rightarrow> server \<Rightarrow> bool" where
  "untouched s s' = (\<exists>w. s' = s\<lparr>sv_world := w\<rparr>)"

interpretation still: frame "\<lambda>_. True" "(=)" untouched
proof
  show "untouched s s''" if "untouched s s'" "untouched s' s''" for s s' s''
    using that by (auto simp: untouched_def)
qed (auto simp: untouched_def)

lemma unverified_handlers:
  assumes "\<not> id_verified i"
  shows "verified_only i h = State_Monad.return missing_identity" "admin_only i h' = State_Monad.return missing_identity"
  using assms by (simp_all add: verified_only_def admin_only_def requireAdminIdentity_def requireVerifiedIdentity_def)

lemma still_routes:
  "\<forall>p\<in>set (routes env de pings r False). h_keeps (\<lambda>_. True) (=) untouched (snd p)"
proof -
  have "\<not> id_verified (requestIdentity r False)" by (simp add: requestIdentity_def)
  note u = unverified_handlers [OF this]
  have l: "logRequestIdentity r False = Inl errLogIdentityUnverified" by (simp add: logRequestIdentity_def)
  show ?thesis
    unfolding routes_def Let_def
    by (simp add: u l still.h_health still.h_settings httpApiUserGet_def httpApiUserGetAdmin_def httpApiUserCreate_def
      httpApiCheckUser_def httpApiUserUpdatePassword_def httpApiUserUpdateNotes_def httpApiUserUpdateBasicInfo_def
      httpApiUserResetPassword_def httpApiUserDelete_def httpClearUpdatePasswordErrUser_def httpClearCheckPasswordErrUser_def
      httpApiTemplateCmdGet_def httpApiTemplateCmdAdd_def httpApiTemplateCmdDelete_def httpApiTemplateServerGet_def
      httpApiTemplateServerAdd_def httpApiTemplateServerDelete_def httpApiRoleGet_def httpApiRoleCreate_def
      httpApiRoleDelete_def httpApiApprovalGet_def httpApiApprovalCreate_def httpApiApprovalUpdate_def httpApiMetaRefresh_def
      httpApiSystemSetLogRedirectConfig_def httpApiSystemSetLogConfig_def httpApiSystemClickHouseTest_def
      httpApiSystemClickHouseSchema_def httpApiLogMeta_def httpApiLogQuery_def still.h_ret still.h_cases(1,2))
qed

lemma dispatch_keeps:
  assumes "\<forall>p\<in>set (routes env de pings r verified). h_keeps ok Q K (snd p)"
    and "h_keeps ok Q K (httpInternalUserStatus (drop (length status_prefix) (rq_Path r)))"
    and "h_keeps ok Q K (respond StatusNotFound ''404 page not found'')"
  shows "h_keeps ok Q K (dispatch_request env de pings r verified)"
  using assms by (auto simp: dispatch_request_def Let_def dest!: map_of_SomeD split: option.split)

lemma still_dispatch: "h_keeps (\<lambda>_. True) (=) untouched (dispatch_request env de pings r False)"
  by (rule dispatch_keeps [OF still_routes still.h_user_status still.h_ret])

subsection \<open>What an ordinary user may change\<close>

text \<open>
  Of their own row: contact data, password and notes; the status only from paused to in use, never
  the role.
\<close>

definition own_row :: "db \<Rightarrow> string \<Rightarrow> TacacsUser \<Rightarrow> TacacsUser \<Rightarrow> bool" where
  "own_row d u r r' = (r' = r \<or>
     (db_eq d (tu_User r) u \<and> tu_User r' = tu_User r \<and> tu_CreateTime r' = tu_CreateTime r \<and> tu_Role r' = tu_Role r \<and>
      tu_RoleUpdateTime r' = tu_RoleUpdateTime r \<and>
      (tu_Status r' = tu_Status r \<or> (db_eq d (tu_Status r) ''2'' \<and> tu_Status r' = ''1''))))"

text \<open>Of the approvals: an own one under review may be closed.\<close>

definition own_approval :: "string \<Rightarrow> approval_row \<Rightarrow> approval_row \<Rightarrow> bool" where
  "own_approval u a a' = (a' = a \<or>
     (ar_user a = u \<and> ar_status a = 3 \<and> ar_status a' = 0 \<and> ar_id a' = ar_id a \<and> ar_user a' = ar_user a \<and>
      ar_approval_permissions a' = ar_approval_permissions a))"

text \<open>A new approval is for oneself, and under review or closed.\<close>

definition own_new :: "string \<Rightarrow> approval_row \<Rightarrow> bool" where
  "own_new u a = (ar_user a = u \<and> (ar_status a = 0 \<or> ar_status a = 3))"

definition other_tables_kept :: "db \<Rightarrow> db \<Rightarrow> bool" where
  "other_tables_kept d d' =
     (t_role d' = t_role d \<and> t_server d' = t_server d \<and> t_command d' = t_command d \<and> t_on_duty d' = t_on_duty d \<and>
      t_white d' = t_white d \<and> t_admin d' = t_admin d \<and> t_misc d' = t_misc d \<and> db_eq d' = db_eq d)"

definition confined :: "string \<Rightarrow> db \<Rightarrow> db \<Rightarrow> bool" where
  "confined u d d' =
     (other_tables_kept d d' \<and> list_all2 (own_row d u) (t_user d) (t_user d') \<and>
      list_all2 (own_approval u) (t_approval d) (take (length (t_approval d)) (t_approval d')) \<and>
      list_all (own_new u) (drop (length (t_approval d)) (t_approval d')))"

lemma own_row_trans:
  assumes "own_row d u r r'" "own_row d' u r' r''" "db_eq d' = db_eq d" shows "own_row d u r r''"
  using assms by (auto simp: own_row_def)

lemma own_approval_trans: "own_approval u a a' \<Longrightarrow> own_approval u a' a'' \<Longrightarrow> own_approval u a a''"
  by (auto simp: own_approval_def)

lemma own_approval_new: "own_approval u a a' \<Longrightarrow> own_new u a \<Longrightarrow> own_new u a'"
  by (auto simp: own_approval_def own_new_def)

lemma own_row_refl [simp]: "own_row d u r r"
  by (simp add: own_row_def)

lemma own_approval_refl [simp]: "own_approval u a a"
  by (simp add: own_approval_def)

lemma own_row_collation: "db_eq d' = db_eq d \<Longrightarrow> own_row d' u = own_row d u"
  by (intro ext) (simp add: own_row_def)

lemma list_all2_split:
  assumes "list_all2 R xs (take (length xs) ys)"
  obtains old new where "ys = old @ new" "list_all2 R xs old" "length old = length xs"
  using assms append_take_drop_id [of "length xs" ys] by (metis list_all2_lengthD)

lemma confinedI:
  assumes "other_tables_kept d d'" "list_all2 (own_row d u) (t_user d) (t_user d')"
    "t_approval d' = old @ new" "list_all2 (own_approval u) (t_approval d) old" "list_all (own_new u) new"
  shows "confined u d d'"
  using assms list_all2_lengthD [OF assms(4)] by (simp add: confined_def)

lemma confinedE:
  assumes "confined u d d'"
  obtains old new where "other_tables_kept d d'" "list_all2 (own_row d u) (t_user d) (t_user d')"
    "t_approval d' = old @ new" "list_all2 (own_approval u) (t_approval d) old" "list_all (own_new u) new"
proof -
  let ?n = "length (t_approval d)"
  show ?thesis
    using assms that [of "take ?n (t_approval d')" "drop ?n (t_approval d')"] by (simp add: confined_def)
qed

lemma list_all2_own:
  "list_all2 (own_approval u) xs ys \<Longrightarrow> list_all (own_new u) xs \<Longrightarrow> list_all (own_new u) ys"
  by (induction rule: list_all2_induct) (auto dest: own_approval_new)

lemma confined_refl: "confined u d d"
  by (rule confinedI [of _ _ _ "t_approval d" "[]"]) (simp_all add: other_tables_kept_def list_all2_refl)

lemma confined_trans:
  assumes 1: "confined u d d'" and 2: "confined u d' d''" shows "confined u d d''"
proof -
  obtain old new where c1: "other_tables_kept d d'" "list_all2 (own_row d u) (t_user d) (t_user d')"
    "t_approval d' = old @ new" "list_all2 (own_approval u) (t_approval d) old" "list_all (own_new u) new"
    using 1 by (rule confinedE)
  obtain mid fresh where c2: "other_tables_kept d' d''" "list_all2 (own_row d' u) (t_user d') (t_user d'')"
    "t_approval d'' = mid @ fresh" "list_all2 (own_approval u) (old @ new) mid" "list_all (own_new u) fresh"
    using 2 by (rule confinedE) (simp add: c1(3))
  obtain old2 new2 where m: "mid = old2 @ new2" "list_all2 (own_approval u) old old2" "list_all2 (own_approval u) new new2"
    using c2(4) by (auto simp: list_all2_append1)
  have e: "db_eq d' = db_eq d" using c1(1) by (simp add: other_tables_kept_def)
  show ?thesis
  proof (rule confinedI)
    show "other_tables_kept d d''" using c1(1) c2(1) by (simp add: other_tables_kept_def)
    show "list_all2 (own_row d u) (t_user d) (t_user d'')"
      by (rule list_all2_trans [OF _ c1(2) c2(2)]) (rule own_row_trans [OF _ _ e])
    show "t_approval d'' = old2 @ (new2 @ fresh)" by (simp add: c2(3) m(1))
    show "list_all2 (own_approval u) (t_approval d) old2"
      by (rule list_all2_trans [OF _ c1(4) m(2)]) (rule own_approval_trans)
    show "list_all (own_new u) (new2 @ fresh)" using list_all2_own [OF m(3) c1(5)] c2(5) by simp
  qed
qed

text \<open>What a user does not change in the counters of failed passwords.\<close>

definition counters_kept :: "string \<Rightarrow> server \<Rightarrow> server \<Rightarrow> bool" where
  "counters_kept u s s' = (\<forall>v. v \<noteq> u \<longrightarrow> sv_updatePasswordErrUser s' v = sv_updatePasswordErrUser s v \<and>
     sv_checkPasswordErrUser s' v = sv_checkPasswordErrUser s v)"

text \<open>Nobody else writes meanwhile, and reads are current.\<close>

definition alone :: "world \<Rightarrow> bool" where
  "alone w = (w_interf w = (\<lambda>_ d. d) \<and> w_replica w = (\<lambda>_ d. d))"

interpretation own: frame alone "confined u" "counters_kept u" for u
proof
  show "confined u d d''" if "confined u d d'" "confined u d' d''" for d d' d''
    using that by (rule confined_trans)
qed (simp_all add: confined_refl counters_kept_def alone_def same_env_def)

lemma touch_tables [simp]:
  "t_user (touch k n d) = t_user d" "t_approval (touch k n d) = t_approval d" "t_role (touch k n d) = t_role d"
  "t_server (touch k n d) = t_server d" "t_command (touch k n d) = t_command d" "t_on_duty (touch k n d) = t_on_duty d"
  "t_white (touch k n d) = t_white d" "t_admin (touch k n d) = t_admin d" "t_misc (touch k n d) = t_misc d"
  "db_eq (touch k n d) = db_eq d"
  by (simp_all add: touch_def)

lemma confined_tables:
  assumes "other_tables_kept d d'" "t_user d' = t_user d" "t_approval d' = t_approval d" shows "confined u d d'"
  using assms by (intro confinedI [of _ _ _ "t_approval d" "[]"]) (simp_all add: list_all2_refl)

lemma list_all2_set_where:
  assumes "\<And>r. P r \<Longrightarrow> R r (f r)" "\<And>r. R r r" shows "list_all2 R rs (set_where P f rs)"
  using assms by (auto simp: set_where_def list_all2_map2 intro!: list_all2_refl)

lemma confined_update_user:
  assumes "update_user u f d = Inr (d', k, i)" "\<And>r. db_eq d (tu_User r) u \<Longrightarrow> own_row d u r (f r)"
  shows "confined u d d'"
proof -
  have d': "d' = touch MetaKeyUser (length (filter (\<lambda>r. db_eq d (tu_User r) u) (t_user d)))
      (t_user_update (set_where (\<lambda>r. db_eq d (tu_User r) u) f) d)"
    using assms(1) by (simp add: sql_update_def Let_def split: if_splits)
  show ?thesis
  proof (rule confinedI)
    have "t_user d' = set_where (\<lambda>r. db_eq d (tu_User r) u) f (t_user d)" by (simp add: d')
    then show "list_all2 (own_row d u) (t_user d) (t_user d')"
      using list_all2_set_where [of "\<lambda>r. db_eq d (tu_User r) u" "own_row d u" f "t_user d"] assms(2) by simp
    show "t_approval d' = t_approval d @ []" by (simp add: d')
  qed (simp_all add: d' other_tables_kept_def list_all2_refl)
qed

lemma confined_bump: "bump_stmt k d = Inr (d', n, i) \<Longrightarrow> confined u d d'"
  by (rule confined_tables) (auto simp: bump_stmt_def other_tables_kept_def)

lemma own_BumpMetaVersion: "io_keeps alone (confined u) (BumpMetaVersion key)"
proof -
  have "io_keeps alone (confined u) (exec (bump_stmt key))"
    by (rule own.io_exec) (auto simp: alone_def intro: confined_bump)
  then show ?thesis unfolding BumpMetaVersion_def by (intro own.io_rules) (auto intro!: own.io_rules split: option.split)
qed

lemma own_bump_on_success: "io_keeps alone (confined u) (bump_on_success key r)"
  unfolding bump_on_success_def by (intro own.io_rules own_BumpMetaVersion)

lemma own_update_user:
  assumes "\<And>d r. db_eq d (tu_User r) u \<Longrightarrow> own_row d u r (f r)"
  shows "io_keeps alone (confined u) (exec (update_user u f))"
  by (rule own.io_exec) (auto simp: alone_def intro: confined_update_user assms)

lemma own_user_writes:
  "io_keeps alone (confined u) (UpdateUserNotes u notes)"
  "io_keeps alone (confined u) (UpdateUserEmailAndPhoneNumber u e p)"
  "io_keeps alone (confined u) (UpdateUserPassword u password)"
proof -
  have p: "io_keeps alone (confined u) (exec (password_stmt u h now))" for h now
    by (rule own.io_exec) (auto simp: alone_def password_stmt_def Let_def own_row_def intro!: confined_update_user)
  show "io_keeps alone (confined u) (UpdateUserNotes u notes)"
    "io_keeps alone (confined u) (UpdateUserEmailAndPhoneNumber u e p)" for p
    unfolding UpdateUserNotes_def UpdateUserEmailAndPhoneNumber_def
    by (intro own.io_rules own_bump_on_success own_update_user; simp add: own_row_def)+
  show "io_keeps alone (confined u) (UpdateUserPassword u password)"
    unfolding UpdateUserPassword_def by (intro own.io_rules own_BumpMetaVersion p)
qed

lemma confined_insert_approval:
  assumes "sql_insert MetaKeyApproval t_approval_update (\<lambda>_. False) mk d = Inr (d', k, i)"
    "\<And>i. ar_user (mk i) = u" "\<And>i. ar_status (mk i) = 3"
  shows "confined u d d'"
proof (rule confinedI)
  have d': "d' = touch MetaKeyApproval 1 (t_approval_update (\<lambda>rs. rs @ [mk (auto_increment d)])
      (d\<lparr>auto_increment := auto_increment d + 1\<rparr>))"
    using assms(1) by (force simp: sql_insert_def)
  show "t_approval d' = t_approval d @ [mk (auto_increment d)]" by (simp add: d')
  show "other_tables_kept d d'" "list_all2 (own_row d u) (t_user d) (t_user d')"
    by (simp_all add: d' other_tables_kept_def list_all2_refl)
qed (simp_all add: own_new_def assms list_all2_refl)

lemma own_CreateTacacsApproval:
  assumes "tap_User a = u" "tap_Status a = 3"
  shows "io_keeps alone (confined u) (CreateTacacsApproval a)"
proof -
  have "io_keeps alone (confined u) (exec (sql_insert MetaKeyApproval t_approval_update (\<lambda>_. False)
    (\<lambda>i. \<lparr>ar_id = i, ar_create_time = datetime (tap_CreateTime a), ar_user = tap_User a,
             ar_approval_permissions = tap_ApprovalPermissions a,
             ar_start_time = datetime (tap_StartTime a), ar_end_time = datetime (tap_EndTime a),
             ar_status = tap_Status a, ar_approver = None, ar_approve_time = None\<rparr>)))"
    by (rule own.io_exec) (auto simp: alone_def assms intro!: confined_insert_approval)
  then show ?thesis unfolding CreateTacacsApproval_def by (intro own.io_rules own_BumpMetaVersion)
qed

subsection \<open>The handlers, for an ordinary user\<close>

text \<open>A verified ordinary user.\<close>

definition ordinary :: "identity \<Rightarrow> string \<Rightarrow> bool" where
  "ordinary i u = (\<not> id_isAdmin i \<and> id_username i = u)"

lemma ordinary_admin_only:
  assumes "ordinary i u" shows "admin_only i h \<in> {State_Monad.return missing_identity, respond StatusForbidden ''admin privileges required''}"
  using assms by (auto simp: ordinary_def admin_only_def requireAdminIdentity_def requireVerifiedIdentity_def)

abbreviation keeps_own :: "string \<Rightarrow> 'a handler \<Rightarrow> bool" where
  "keeps_own u h \<equiv> h_keeps alone (confined u) (counters_kept u) h"

lemma own_admin_only: "ordinary i u \<Longrightarrow> keeps_own u (admin_only i h)"
  using ordinary_admin_only [of i u h] by (auto simp: own.h_ret)

lemma own_verified_only:
  assumes "ordinary i u" "keeps_own u (h u False)" shows "keeps_own u (verified_only i h)"
  using assms by (auto simp: ordinary_def verified_only_def requireVerifiedIdentity_def own.h_ret)

lemma own_counters:
  "keeps_own u (incrementPasswordUpdateFailure u)" "keeps_own u (resetPasswordUpdateFailure u)"
  "keeps_own u (incrementCheckPasswordFailure u)" "keeps_own u (resetCheckPasswordFailure u)"
  "keeps_own u (take_quota v now)"
  by (simp_all add: h_keeps_def counters_kept_def bounded_inc_def confined_refl same_env_def
    incrementPasswordUpdateFailure_def resetPasswordUpdateFailure_def incrementCheckPasswordFailure_def
    resetCheckPasswordFailure_def take_quota_def split: prod.split)

lemma own_respond: "keeps_own u (respond c t)"
  by (rule own.h_ret)

lemmas own_rules = own.h_rules own_respond own_counters own_user_writes own.io_reads

lemma own_user_handlers:
  assumes "ordinary i u"
  shows "keeps_own u (httpApiUserGet i)" "keeps_own u (httpApiCheckUser env i ck)"
    "keeps_own u (httpApiUserUpdatePassword env i pw)" "keeps_own u (httpApiUserUpdateNotes i nt)"
    "keeps_own u (httpApiUserUpdateBasicInfo env i bs)" "keeps_own u (httpApiRoleGet i)" "keeps_own u (httpApiApprovalGet i)"
proof -
  note v = own_verified_only [OF assms]
  have pw: "keeps_own (pr_User req) (update_password_checked env req)" for req
    unfolding update_password_checked_def by (intro own_rules)
  have ck: "keeps_own (kr_User req) (check_user_checked env req)" for req
    unfolding check_user_checked_def by (intro own_rules)
  show "keeps_own u (httpApiUserGet i)" "keeps_own u (httpApiRoleGet i)" "keeps_own u (httpApiApprovalGet i)"
    unfolding httpApiUserGet_def httpApiRoleGet_def httpApiApprovalGet_def by (intro v own_rules)+
  show "keeps_own u (httpApiCheckUser env i ck)"
    using ck by (auto simp: httpApiCheckUser_def intro!: v own_rules split: sum.split)
  show "keeps_own u (httpApiUserUpdatePassword env i pw)"
    using pw by (auto simp: httpApiUserUpdatePassword_def intro!: v own_rules split: sum.split)
  show "keeps_own u (httpApiUserUpdateNotes i nt)"
    by (auto simp: httpApiUserUpdateNotes_def intro!: v own_rules split: sum.split)
  show "keeps_own u (httpApiUserUpdateBasicInfo env i bs)"
    by (auto simp: httpApiUserUpdateBasicInfo_def intro!: v own_rules split: sum.split option.split)
qed

lemma own_approval_create:
  assumes "ordinary i u" shows "keeps_own u (httpApiApprovalCreate env i body)"
proof -
  have "keeps_own (mi_User req) (submit_mission req span)" for req span
    unfolding submit_mission_def by (intro own_rules own_CreateTacacsApproval) simp_all
  then show ?thesis
    by (auto simp: httpApiApprovalCreate_def intro!: own_verified_only [OF assms] own_rules split: sum.split)
qed


subsection \<open>Decisions of an ordinary user\<close>

text \<open>All approvals with an id are of the user.\<close>

definition own_id :: "string \<Rightarrow> int \<Rightarrow> world \<Rightarrow> bool" where
  "own_id u j w = (alone w \<and> list_all (\<lambda>r. ar_id r = j \<longrightarrow> ar_user r = u) (t_approval (w_db w)))"

lemma own_approval_id:
  "list_all2 (own_approval u) xs ys \<Longrightarrow> list_all (\<lambda>r. ar_id r = j \<longrightarrow> ar_user r = u) xs \<Longrightarrow>
   list_all (\<lambda>r. ar_id r = j \<longrightarrow> ar_user r = u) ys"
  by (induction rule: list_all2_induct) (auto simp: own_approval_def)

lemma own_id_step:
  assumes "own_id u j w" "same_env w w'" "confined u (w_db w) (w_db w')" shows "own_id u j w'"
proof -
  obtain old new where c: "t_approval (w_db w') = old @ new" "list_all2 (own_approval u) (t_approval (w_db w)) old"
    "list_all (own_new u) new"
    using assms(3) by (rule confinedE)
  have "list_all (\<lambda>r. ar_id r = j \<longrightarrow> ar_user r = u) new"
    using c(3) by (rule list.pred_mono_strong) (simp add: own_new_def)
  then show ?thesis
    using assms(1,2) own_approval_id [OF c(2)] by (simp add: own_id_def c(1) alone_def same_env_def)
qed

interpretation decision: frame "own_id u j" "confined u" "counters_kept u" for u j
proof
  show "confined u d d''" if "confined u d d'" "confined u d' d''" for d d' d''
    using that by (rule confined_trans)
  show "own_id u j w'" if "own_id u j w" "same_env w w'" "confined u (w_db w) (w_db w')" for w w'
    using that by (rule own_id_step)
qed (simp_all add: confined_refl counters_kept_def)

lemma own_close: "io_keeps (own_id u j) (confined u) (ApproveWithLock j 0 u)"
proof -
  have upd: "confined u (w_db w) d'" if own: "own_id u j w" and st: "approve_stmt j 0 u now (w_db w) = Inr (d', k, n)" for w d' k n now
  proof -
    let ?P = "\<lambda>r. ar_id r = j \<and> ar_status r = 3"
    let ?f = "\<lambda>r. r\<lparr>ar_status := 0, ar_approver := Some u, ar_approve_time := Some (datetime now)\<rparr>"
    have d': "d' = touch MetaKeyApproval (length (filter ?P (t_approval (w_db w)))) (t_approval_update (set_where ?P ?f) (w_db w))"
      using sql_update_run(1) [OF st [unfolded approve_stmt_def]] by simp
    have "own_approval u r (?f r)" if "r \<in> set (t_approval (w_db w))" "?P r" for r
      using that own by (auto simp: own_id_def own_approval_def list_all_iff)
    then have "list_all2 (own_approval u) (t_approval (w_db w)) (set_where ?P ?f (t_approval (w_db w)))"
      by (auto simp: set_where_def list_all2_map2 intro!: list.rel_refl_strong)
    then show ?thesis
      by (rule confinedI [of _ _ _ _ "[]", rotated 3]) (simp_all add: d' other_tables_kept_def list_all2_refl)
  qed
  have "io_keeps (own_id u j) (confined u) (exec (approve_stmt j 0 u now))" for now
    by (rule decision.io_exec) (auto simp: own_id_def alone_def intro: upd [unfolded own_id_def alone_def])
  moreover have "io_keeps (own_id u j) (confined u) (BumpMetaVersion MetaKeyApproval)"
    using own_BumpMetaVersion [of u MetaKeyApproval] by (auto simp: io_keeps_def own_id_def)
  ultimately show ?thesis unfolding ApproveWithLock_def by (intro decision.io_rules)
qed

text \<open>Reading an approval by its id finds the only row with it.\<close>

definition decidable :: "world \<Rightarrow> bool" where
  "decidable w = (alone w \<and> distinct (map ar_id (t_approval (w_db w))))"

lemma query_row_in: "query_row (rows_of f rs) = Inr r \<Longrightarrow> r \<in> set rs"
  by (cases f; cases rs) (auto simp: take_Cons' split: if_splits)

lemma scanApproval_user: "scanApproval (Inr r) = Inr a \<Longrightarrow> tap_User a = ar_user r"
  by (auto simp: scanApproval_def)

lemma read_approval:
  assumes "decidable (sv_world s)" "run_state (db_op (GetTacacsApprovalByID j)) s = (Inr (Some a), s')"
  shows "own_id (tap_User a) j (sv_world s')"
proof -
  define w where "w = sv_world s"
  let ?rows = "filter (\<lambda>r. ar_id r = j) (t_approval (w_db w))"
  define q where "q = query_row (rows_of (w_rfault w (w_n w)) ?rows)"
  have w: "alone w" "distinct (map ar_id (t_approval (w_db w)))" using assms(1) by (simp_all add: decidable_def w_def)
  have r: "(case scanApproval q of Inl e \<Rightarrow> if e = ErrNoRows then Inr None else Inl e | Inr a \<Rightarrow> Inr (Some a)) = Inr (Some a)"
    and s': "sv_world s' = w\<lparr>w_n := Suc (w_n w)\<rparr>"
    using assms(2) w(1) by (auto simp: db_op_def GetTacacsApprovalByID_def query_def alone_def q_def w_def)
  from r have a: "scanApproval q = Inr a" by (auto split: sum.splits if_splits)
  then obtain row where q: "q = Inr row" by (auto simp: scanApproval_def split: sum.splits)
  have row: "row \<in> set (t_approval (w_db w))" "ar_id row = j" using query_row_in [of _ ?rows row] q by (auto simp: q_def)
  have "ar_user r = tap_User a" if "r \<in> set (t_approval (w_db w))" "ar_id r = j" for r
    using w(2) row that scanApproval_user [of row a] a q by (auto simp: distinct_map dest: inj_onD)
  then show ?thesis using w(1) by (simp add: s' own_id_def alone_def list_all_iff)
qed

lemma own_decision:
  assumes "ordinary i u"
  shows "h_keeps decidable (confined u) (counters_kept u) (httpApiApprovalUpdate i body)"
proof -
  have weak: "h_keeps decidable (confined u) (counters_kept u) h" if "keeps_own u h" for h :: "response handler"
    using that by (auto simp: h_keeps_def decidable_def)
  have close: "h_keeps (own_id u j) (confined u) (counters_kept u) (db_op (ApproveWithLock j 0 u))" for j
    by (rule decision.h_db_op [OF own_close])
  have v: "h_keeps decidable (confined u) (counters_kept u) (verified_only i h)"
    if "h_keeps decidable (confined u) (counters_kept u) (h u False)" for h
  proof (cases "id_verified i \<and> id_username i \<noteq> []")
    case True
    then show ?thesis using assms that by (simp add: ordinary_def verified_only_def requireVerifiedIdentity_def)
  next
    case False
    then have "verified_only i h = State_Monad.return missing_identity"
      by (auto simp: verified_only_def requireVerifiedIdentity_def)
    then show ?thesis using weak [OF own.h_ret] by simp
  qed
  let ?ok = "\<lambda>j x w. case x of Inr (Some a) \<Rightarrow> own_id (tap_User a) j w | _ \<Rightarrow> alone w"
  have read: "?ok j x (sv_world s')"
    if "decidable (sv_world s)" "run_state (db_op (GetTacacsApprovalByID j)) s = (x, s')" for j x and s s' :: server
  proof -
    have "alone (sv_world s')"
      using that by (auto simp: db_op_def GetTacacsApprovalByID_def query_def decidable_def alone_def)
    then show ?thesis using that read_approval [of s j] by (auto split: sum.split option.split)
  qed
  have get: "h_keeps decidable (confined u) (counters_kept u) (db_op (GetTacacsApprovalByID j))" for j
    using own.h_db_op [OF own.io_reads(8)] by (auto simp: h_keeps_def decidable_def)
  have found: "h_keeps (?ok j x) (confined u) (counters_kept u) (decide_found req u False x)"
    if "dq_Id req = j" "dq_Status req = 0" for req j x
  proof (cases "\<exists>a. x = Inr (Some a) \<and> tap_User a = u")
    case True
    then show ?thesis using that
      by (auto simp: decide_found_def intro!: decision.h_bind decision.h_cases decision.h_db_op [OF own_close] decision.h_ret)
  next
    case False
    then show ?thesis
      by (auto simp: decide_found_def h_keeps_def confined_refl counters_kept_def same_env_def split: sum.split option.split)
  qed
  show ?thesis
  proof (cases body)
    case (Inl e)
    then show ?thesis by (simp add: httpApiApprovalUpdate_def weak own_respond)
  next
    case (Inr req)
    have "h_keeps decidable (confined u) (counters_kept u)
        (State_Monad.bind (db_op (GetTacacsApprovalByID (dq_Id req))) (decide_found req u False))"
      if "dq_Status req = 0"
      by (rule own.h_bind_when [where ok' = "?ok (dq_Id req)", OF get found [OF refl that] read])
    then show ?thesis
      by (auto simp: httpApiApprovalUpdate_def Inr approvalStatusClose_def intro!: v weak [OF own_respond])
  qed
qed

subsection \<open>The whole chain\<close>

lemma own_manager_op: "(\<And>m. io_keeps alone (confined u) (f m)) \<Longrightarrow> keeps_own u (manager_op f)"
proof -
  have "keeps_own u (State (\<lambda>s. (sv_manager s, s)))" "keeps_own u (State (\<lambda>s. ((), s\<lparr>sv_manager := m\<rparr>)))" for m
    by (simp_all add: h_keeps_def confined_refl counters_kept_def same_env_def)
  then show "(\<And>m. io_keeps alone (confined u) (f m)) \<Longrightarrow> keeps_own u (manager_op f)"
    unfolding manager_op_def by (intro own.h_rules)
qed

lemma own_logs: "keeps_own u (httpApiLogMeta env r v)" "keeps_own u (httpApiLogQuery env r v q)"
proof -
  have g: "io_keeps alone (confined u) (GetClickHouseLogConfig js typs)" for js typs
    unfolding GetClickHouseLogConfig_def by (intro own.io_rules own.io_reads own.io_mappings_loop)
  have "io_keeps alone (confined u) (ensureLoaded L js typs m)" for L js typs m
    unfolding ensureLoaded_def by (intro own.io_rules g)
  then have "io_keeps alone (confined u) (Query L js typs req m)" for L js typs req m
    unfolding Query_def by (intro own.io_rules)
  then have "keeps_own u (scoped_query env body lt nm isAdmin)" for body lt nm isAdmin
    unfolding scoped_query_def by (intro own_rules own_manager_op)
  then show "keeps_own u (httpApiLogQuery env r v q)"
    unfolding httpApiLogQuery_def by (intro own_rules)
  show "keeps_own u (httpApiLogMeta env r v)"
    unfolding httpApiLogMeta_def Let_def by (intro own_rules own.h_loads g)
qed

lemma own_routes:
  assumes "\<not> id_isAdmin (requestIdentity r v)" "id_username (requestIdentity r v) = u"
  shows "\<forall>p\<in>set (routes env de pings r v). h_keeps decidable (confined u) (counters_kept u) (snd p)"
proof -
  have o: "ordinary (requestIdentity r v) u" using assms by (simp add: ordinary_def)
  have weak: "h_keeps decidable (confined u) (counters_kept u) h" if "keeps_own u h" for h :: "response handler"
    using that by (auto simp: h_keeps_def decidable_def)
  note a = weak [OF own_admin_only [OF o]]
  show ?thesis
    unfolding routes_def Let_def
    by (simp add: a own_user_handlers [OF o, THEN weak] weak [OF own_approval_create [OF o]] own_decision [OF o]
      own_logs [THEN weak] weak [OF own.h_health] own.h_settings [THEN weak]
      httpApiUserGetAdmin_def httpApiUserCreate_def httpApiUserResetPassword_def httpApiUserDelete_def
      httpClearUpdatePasswordErrUser_def httpClearCheckPasswordErrUser_def httpApiTemplateCmdGet_def httpApiTemplateCmdAdd_def
      httpApiTemplateCmdDelete_def httpApiTemplateServerGet_def httpApiTemplateServerAdd_def httpApiTemplateServerDelete_def
      httpApiRoleCreate_def httpApiRoleDelete_def httpApiMetaRefresh_def httpApiSystemSetLogRedirectConfig_def
      httpApiSystemSetLogConfig_def httpApiSystemClickHouseTest_def httpApiSystemClickHouseSchema_def)
qed

lemma own_dispatch:
  assumes "rq_Header r ''X-SwM-Is-Admin'' \<noteq> ''1''"
  shows "h_keeps decidable (confined (TrimSpace (rq_Header r ''X-SwM-User''))) (counters_kept (TrimSpace (rq_Header r ''X-SwM-User'')))
    (dispatch_request env de pings r v)"
proof -
  let ?u = "TrimSpace (rq_Header r ''X-SwM-User'')"
  have weak: "h_keeps decidable (confined ?u) (counters_kept ?u) h" if "keeps_own ?u h" for h :: "response handler"
    using that by (auto simp: h_keeps_def decidable_def)
  show ?thesis
    by (rule dispatch_keeps [OF own_routes weak [OF own.h_user_status] weak [OF own_respond]])
      (simp_all add: requestIdentity_def assms)
qed

lemma readAndRestoreBody_header: "readAndRestoreBody r = (b, r') \<Longrightarrow> rq_Header r' = rq_Header r"
  by (auto simp: readAndRestoreBody_def Let_def split: body.splits option.splits if_splits)

lemma verify_header: "verifySwmSignature now nowUnix secret skew r ns = (e, r', ns') \<Longrightarrow> rq_Header r' = rq_Header r"
  unfolding verifySwmSignature_def Let_def
  by (auto dest!: readAndRestoreBody_header split: if_splits sum.splits prod.splits option.splits)

lemma middleware_next:
  assumes "swmAuthMiddleware js conf now nowUnix r ns = (Next r' v, ns')"
  shows "rq_Header r' = rq_Header r"
    and "v \<Longrightarrow> fst (verifySwmSignature now nowUnix (sc_Secret conf) (sc_MaxSkewSeconds conf) r ns) = None"
  using assms unfolding swmAuthMiddleware_def Let_def
  by (auto dest!: readAndRestoreBody_header verify_header split: if_splits sum.splits prod.splits)

text \<open>A request that no handler sees changes nothing.\<close>

lemma serve_cases:
  assumes "serve_request hc pings now nowUnix r s ns = (as, s', ns')"
  obtains "s' = s"
  | r' v where "s' = snd (run_state (dispatch_request (hc_env hc) (hc_decoders hc) pings r' v) s)"
      "rq_Header r' = rq_Header r"
      "v \<Longrightarrow> fst (verifySwmSignature now nowUnix (sc_Secret (hc_swm hc)) (sc_MaxSkewSeconds (hc_swm hc))
             (snd (httpApiLog (bodyLimitMiddleware r))) ns) = None"
proof -
  obtain written r1 where l: "httpApiLog (bodyLimitMiddleware r) = (written, r1)" by force
  then have h: "rq_Header r1 = rq_Header r"
    by (auto simp: httpApiLog_def bodyLimitMiddleware_def split: body.splits option.splits if_splits)
  obtain out ns1 where m: "swmAuthMiddleware (de_peek (hc_decoders hc)) (hc_swm hc) now nowUnix r1 ns = (out, ns1)" by force
  show thesis
  proof (cases out)
    case (Abort code msg)
    then have "s' = s" using assms by (auto simp: serve_request_def l m split: if_splits option.splits)
    then show thesis by (rule that(1))
  next
    case (Next r2 v)
    note n = middleware_next [OF m [unfolded Next]]
    have "s' = s \<or> s' = snd (run_state (dispatch_request (hc_env hc) (hc_decoders hc) pings r2 v) s)"
      using assms by (auto simp: serve_request_def l m Next split: if_splits option.splits prod.splits)
    then show thesis using that(1) that(2) [of r2 v] n h by (auto simp: l)
  qed
qed

text \<open>
  C32. A request whose signature does not verify changes nothing: the database, the counters of
  failed passwords, the quotas and the log connection are afterwards what they were, on every
  route, also when the enforcement of signatures is off.
\<close>

theorem unsigned_request_changes_nothing:
  assumes "serve_request hc pings now nowUnix r s ns = (as, s', ns')"
    and "fst (verifySwmSignature now nowUnix (sc_Secret (hc_swm hc)) (sc_MaxSkewSeconds (hc_swm hc))
           (snd (httpApiLog (bodyLimitMiddleware r))) ns) \<noteq> None"
  shows "w_db (sv_world s') = w_db (sv_world s) \<and> untouched s s'"
  using assms(1)
proof (rule serve_cases)
  assume "s' = s"
  then show ?thesis by (simp add: still.K_refl)
next
  fix r' v
  assume d: "s' = snd (run_state (dispatch_request (hc_env hc) (hc_decoders hc) pings r' v) s)"
    and "v \<Longrightarrow> fst (verifySwmSignature now nowUnix (sc_Secret (hc_swm hc)) (sc_MaxSkewSeconds (hc_swm hc))
           (snd (httpApiLog (bodyLimitMiddleware r))) ns) = None"
  then have "\<not> v" using assms(2) by blast
  then show ?thesis
    using still_dispatch [of "hc_env hc" "hc_decoders hc" pings r'] by (auto simp: d h_keeps_def)
qed

text \<open>
  C33. What an ordinary user changes is their own: a request without the administrator mark
  leaves all other tables, the rows and password counters of other users and the approvals of
  others as they are; of the own row never the role, and the status only from paused to in use; of
  the own approvals one under review may be closed, and a new one is under review, for oneself.
  Nobody else writes meanwhile.  The quota, the log connection and the versions are not part of this.
\<close>

theorem ordinary_user_confined:
  assumes "serve_request hc pings now nowUnix r s ns = (as, s', ns')"
    and "rq_Header r ''X-SwM-Is-Admin'' \<noteq> ''1''"
    and "alone (sv_world s)" "distinct (map ar_id (t_approval (w_db (sv_world s))))"
  shows "confined (TrimSpace (rq_Header r ''X-SwM-User'')) (w_db (sv_world s)) (w_db (sv_world s')) \<and>
    counters_kept (TrimSpace (rq_Header r ''X-SwM-User'')) s s'"
  using assms(1)
proof (rule serve_cases)
  assume "s' = s"
  then show ?thesis by (simp add: confined_refl own.K_refl)
next
  fix r' v
  assume d: "s' = snd (run_state (dispatch_request (hc_env hc) (hc_decoders hc) pings r' v) s)"
    and h: "rq_Header r' = rq_Header r"
  show ?thesis
    using own_dispatch [of r' "hc_env hc" "hc_decoders hc" pings v] assms(2-4)
    by (auto simp: d h h_keeps_def decidable_def)
qed

subsection \<open>A sample server\<close>

text \<open>All services answer, no body is accepted but the one that changes the notes of alice.\<close>

definition sample_refusal :: "bytes \<Rightarrow> 'a result" where
  "sample_refusal _ = Inl (GoError ''invalid request'')"

definition sample_env :: http_env where
  "sample_env =
     \<lparr>he_lib = \<lparr>re_compile = (\<lambda>_. True), re_match = (=), ParseIP = (\<lambda>_. Some [127, 0, 0, 1]), ParseCIDR = (\<lambda>_. None),
        CompareHash = (\<lambda>h p. h = ''#'' @ p)\<rparr>,
      he_lookup = (\<lambda>_ _ _. None), he_parse_time = (\<lambda>_. Inr 0),
      he_json = \<lparr>js_marshal_config = (\<lambda>_ _ _ _. Inr ''{}''), js_unmarshal_config = (\<lambda>_. Inr zero_config),
        js_marshal_mapping = (\<lambda>_. Inr ''{}''), js_unmarshal_mapping = (\<lambda>_. Inr zero_mapping)\<rparr>,
      he_types = AllLogTypes,
      he_clickhouse = \<lparr>cl_open = (\<lambda>_. Inl ErrNotConfigured), cl_parse_url = (\<lambda>_. Inr (''http'', ''h'')),
        cl_dsn = (\<lambda>a b c d. a), cl_parse_rfc3339 = (\<lambda>_. Inr 0), cl_parse_local = (\<lambda>_. Inr 0), cl_format_milli = (\<lambda>_. []),
        cl_format_rfc3339 = (\<lambda>_. [])\<rparr>\<rparr>"

definition sample_conf :: "bool \<Rightarrow> http_conf" where
  "sample_conf enforce =
     \<lparr>hc_env = sample_env,
      hc_decoders = \<lparr>de_peek = \<lparr>pj_Status = sample_refusal, pj_User = (\<lambda>_. Inr ''alice'')\<rparr>, de_create = sample_refusal,
        de_check = sample_refusal, de_password = sample_refusal,
        de_notes = (\<lambda>_. Inr \<lparr>nr_User = ''alice'', nr_Notes = ''on leave''\<rparr>), de_basic = sample_refusal,
        de_reset = sample_refusal, de_user = sample_refusal, de_template = sample_refusal, de_delete = sample_refusal,
        de_role = sample_refusal, de_role_name = sample_refusal, de_mission = sample_refusal, de_decision = sample_refusal,
        de_redirect = sample_refusal, de_log_config = sample_refusal, de_clickhouse = sample_refusal,
        de_log_query = sample_refusal\<rparr>,
      hc_swm = \<lparr>sc_Enforce = enforce, sc_Secret = ''secret'', sc_MaxSkewSeconds = 0\<rparr>,
      hc_nets = [([127, 0, 0, 1], [255, 255, 255, 255])]\<rparr>"

definition sample_server :: server where
  "sample_server = \<lparr>sv_world = calm_world (example_db\<lparr>t_user := [example_user ''alice'', example_user ''bob'']\<rparr>),
     sv_updatePasswordErrUser = (\<lambda>_. 0), sv_checkPasswordErrUser = (\<lambda>_. 0), sv_quota = [], sv_manager = NewManager\<rparr>"

text \<open>The request of alice without its signature.\<close>

definition stripped_request :: request where
  "stripped_request = notes_request\<lparr>rq_Header := (rq_Header notes_request)(''X-SwM-Signature'' := [])\<rparr>"

theorem unsigned_request_changes_nothing_witness:
  "w_db (sv_world (fst (snd (serve_request (sample_conf False) [] 1700000000 1700000000 stripped_request sample_server
     \<lparr>nonceStore = [], nonceCount = 0\<rparr>)))) = w_db (sv_world sample_server)"
proof -
  obtain as s' ns' where s: "serve_request (sample_conf False) [] 1700000000 1700000000 stripped_request sample_server
     \<lparr>nonceStore = [], nonceCount = 0\<rparr> = (as, s', ns')" by (metis surj_pair)
  have "rq_Header (snd (httpApiLog (bodyLimitMiddleware stripped_request))) ''X-SwM-Signature'' = []"
    by (simp add: stripped_request_def httpApiLog_def bodyLimitMiddleware_def split: body.split option.split)
  then have v: "fst (verifySwmSignature 1700000000 1700000000 (sc_Secret (hc_swm (sample_conf False)))
      (sc_MaxSkewSeconds (hc_swm (sample_conf False))) (snd (httpApiLog (bodyLimitMiddleware stripped_request)))
      \<lparr>nonceStore = [], nonceCount = 0\<rparr>) \<noteq> None"
    by (simp add: sample_conf_def verifySwmSignature_def)
  show ?thesis using unsigned_request_changes_nothing [OF s v] by (simp add: s)
qed

theorem ordinary_user_confined_witness:
  "confined ''alice'' (w_db (sv_world sample_server)) (w_db (sv_world (fst (snd (serve_request (sample_conf True) []
     1700000000 1700000000 notes_request sample_server \<lparr>nonceStore = [], nonceCount = 0\<rparr>)))))"
proof -
  obtain as s' ns' where s: "serve_request (sample_conf True) [] 1700000000 1700000000 notes_request sample_server
     \<lparr>nonceStore = [], nonceCount = 0\<rparr> = (as, s', ns')" by (metis surj_pair)
  have h: "rq_Header notes_request ''X-SwM-User'' = ''alice''" "rq_Header notes_request ''X-SwM-Is-Admin'' = ''0''"
    by (simp_all add: notes_request_def signRequest_def readAndRestoreBody_def maxBodyPeek_def Let_def)
  have t: "TrimSpace ''alice'' = ''alice''" by code_simp
  have "alone (sv_world sample_server)" "distinct (map ar_id (t_approval (w_db (sv_world sample_server))))"
    by (simp_all add: sample_server_def alone_def calm_world_def example_db_def)
  from ordinary_user_confined [OF s _ this] show ?thesis by (simp add: s h t)
qed

end
