(* ===== verification/ClickHouseLaws.thy ===== *)
theory ClickHouseLaws
  imports RouteLaws
begin

text \<open>
  What the log queries send to ClickHouse: the values of a request are arguments and no part of
  the text, every placeholder has its argument, and the queries of an ordinary user carry a
  condition on their own name.
\<close>

subsection \<open>The shape of a condition\<close>

definition holes :: "string \<Rightarrow> nat" where
  "holes s = length (filter (\<lambda>c. c = CHR ''?'') s)"

lemma holes_append [simp]: "holes (s @ t) = holes s + holes t"
  by (simp add: holes_def)

lemma holes_Nil [simp]: "holes [] = 0"
  by (simp add: holes_def)

lemma holes_identifier [simp]: "holes (quoteIdentifier s) = 0"
proof -
  have "c \<noteq> CHR ''?''" if "identifier_match s" "c \<in> set s" for c
  proof -
    have "is_letter c \<or> is_digit c"
      using that by (auto simp: identifier_match_def list_all_iff split: list.splits)
    then show ?thesis by (auto simp: is_letter_def is_digit_def)
  qed
  then show ?thesis by (auto simp: quoteIdentifier_def holes_def filter_empty_conv)
qed

lemma holes_dec_int [simp]: "holes (dec_int i) = 0"
proof -
  have "CHR ''?'' \<notin> set (dec_digits n)" for n
    using dec_digits_chars [of "CHR ''?''" n] by (auto simp: is_digit_def less_eq_char_def)
  then have "filter (\<lambda>c. c = CHR ''?'') (dec_digits n) = []" for n by (auto simp: filter_empty_conv)
  then show ?thesis by (simp add: holes_def dec_int_def)
qed

lemma holes_Join: "holes (Join sep ss) = sum_list (map holes ss) + (length ss - 1) * holes sep"
  by (induction sep ss rule: Join.induct) auto

text \<open>The text around the identifier in a condition.\<close>

definition templates :: "(string \<times> string) list" where
  "templates = [(''has('', '', ?)''), (''NOT has('', '', ?)''), ([], '' = ?''), ([], '' != ?''), ([], '' > ?''), ([], '' >= ?''),
     ([], '' < ?''), ([], '' <= ?''), (''positionCaseInsensitive(toString('', ''), ?) > 0''),
     (''positionCaseInsensitive(toString('', ''), ?) = 0''), (''startsWith(toString('', ''), ?)''), (''endsWith(toString('', ''), ?)'')]"

lemma templates_holes: "(p, q) \<in> set templates \<Longrightarrow> holes p = 0 \<and> holes q = 1"
  by (auto simp: templates_def holes_def)

lemma Inl_not_Inr: "Inl x = Inr y \<Longrightarrow> P"
  by simp

lemma if_elim: "(if c then x else y) = z \<Longrightarrow> (c \<Longrightarrow> x = z \<Longrightarrow> P) \<Longrightarrow> (\<not> c \<Longrightarrow> y = z \<Longrightarrow> P) \<Longrightarrow> P"
  by (cases c) auto

text \<open>The condition and its argument depend on the value only through the typed value and the raw text.\<close>

lemma filterSQL_template:
  assumes "filterSQL L sp column op raw = Inr (part, a)"
  shows "\<exists>p q. (p, q) \<in> set templates \<and> part = p @ quoteIdentifier (co_Name column) @ q"
proof -
  define i where "i = quoteIdentifier (co_Name column)"
  define o' where "o' = ToLower (TrimSpace op)"
  define val where "val = filter_value L sp (normalizeType (co_Type column)) raw"
  have t: "Inr (u @ i @ v, w) = (Inr (part, a) :: (string \<times> arg) result) \<Longrightarrow> (u, v) \<in> set templates \<Longrightarrow>
      \<exists>p q. (p, q) \<in> set templates \<and> part = p @ i @ q"
    and t0: "Inr (i @ v, w) = (Inr (part, a) :: (string \<times> arg) result) \<Longrightarrow> ([], v) \<in> set templates \<Longrightarrow>
      \<exists>p q. (p, q) \<in> set templates \<and> part = p @ i @ q" for u v w
    by blast (metis append_Nil old.sum.inject(2) prod.inject)
  note m = templates_def list.set insert_iff simp_thms
  note f = assms [unfolded filterSQL_def Let_def, folded i_def o'_def val_def]
  have "\<exists>p q. (p, q) \<in> set templates \<and> part = p @ i @ q"
  proof (cases val)
    case (Inl e)
    show ?thesis
      by (insert f [unfolded Inl sum.case], elim if_elim; (erule t | erule t0 | erule Inl_not_Inr)?; (simp only: m)?)
  next
    case (Inr v)
    show ?thesis
      by (insert f [unfolded Inr sum.case], elim if_elim; (erule t | erule t0 | erule Inl_not_Inr)?; (simp only: m)?)
  qed
  then show ?thesis by (simp add: i_def)
qed

lemma filterSQL_holes: "filterSQL L sp column op raw = Inr (part, a) \<Longrightarrow> holes part = 1"
  using filterSQL_template [of L sp column op raw part a] templates_holes by auto

text \<open>The text does not depend on the value.\<close>

lemma filterSQL_text:
  assumes "filterSQL L sp column op raw = Inr (part, a)" "filterSQL L sp column op raw' = Inr (part', a')"
  shows "part' = part"
  using assms unfolding filterSQL_def Let_def by (simp split: if_splits sum.splits)

subsection \<open>The clauses of a request\<close>

text \<open>What a clause has besides its argument.\<close>

definition bare :: "filterClause \<Rightarrow> FieldSpec \<times> Column \<times> string \<times> string" where
  "bare c = (fc_spec c, fc_column c, fc_operator c, fc_sql c)"

definition same_filter :: "Filter \<Rightarrow> Filter \<Rightarrow> bool" where
  "same_filter f f' = (fi_Field f' = fi_Field f \<and> fi_Operator f' = fi_Operator f \<and>
     (TrimSpace (fi_Value f') = [] \<longleftrightarrow> TrimSpace (fi_Value f) = []))"

text \<open>Requests that differ in their values and times only.\<close>

definition same_shape :: "QueryRequest \<Rightarrow> QueryRequest \<Rightarrow> bool" where
  "same_shape req req' = (qr_Type req' = qr_Type req \<and> qr_Columns req' = qr_Columns req \<and> qr_Page req' = qr_Page req \<and>
     qr_PageSize req' = qr_PageSize req \<and> qr_IncludeTotal req' = qr_IncludeTotal req \<and>
     list_all2 same_filter (qr_Filters req) (qr_Filters req'))"

lemma clauses_loop_step:
  assumes "buildFilterClauses_loop L lt mapping columns (f # fs) acc = Inr cs" "TrimSpace (fi_Value f) \<noteq> []"
  obtains sp column part a where "FieldSpecFor lt (fi_Field f) = Some sp" "columns (map_get (mp_Fields mapping) (fs_Key sp)) = Some column"
    "filterSQL L sp column (fi_Operator f) (fi_Value f) = Inr (part, a)"
    "buildFilterClauses_loop L lt mapping columns fs (acc @ [\<lparr>fc_spec = sp, fc_column = column,
       fc_operator = ToLower (TrimSpace (fi_Operator f)), fc_sql = part, fc_arg = a\<rparr>]) = Inr cs"
  using assms by (auto simp: Let_def split: option.splits sum.splits)

lemma clauses_loop_holes:
  "buildFilterClauses_loop L lt mapping columns fs acc = Inr cs \<Longrightarrow> \<forall>c\<in>set acc. holes (fc_sql c) = 1 \<Longrightarrow> \<forall>c\<in>set cs. holes (fc_sql c) = 1"
proof (induction fs arbitrary: acc)
  case (Cons f fs)
  show ?case
  proof (cases "TrimSpace (fi_Value f) = []")
    case True
    then show ?thesis using Cons by simp
  next
    case False
    obtain sp column part a where sql: "filterSQL L sp column (fi_Operator f) (fi_Value f) = Inr (part, a)"
      and r: "buildFilterClauses_loop L lt mapping columns fs (acc @ [\<lparr>fc_spec = sp, fc_column = column,
       fc_operator = ToLower (TrimSpace (fi_Operator f)), fc_sql = part, fc_arg = a\<rparr>]) = Inr cs"
      by (rule clauses_loop_step [OF Cons.prems(1) False])
    show ?thesis
      by (rule Cons.IH [OF r]) (simp add: Cons.prems(2) filterSQL_holes [OF sql])
  qed
qed simp

lemma clauses_loop_bare:
  "buildFilterClauses_loop L lt mapping columns fs acc = Inr cs \<Longrightarrow>
   buildFilterClauses_loop L lt mapping columns fs' acc' = Inr cs' \<Longrightarrow> list_all2 same_filter fs fs' \<Longrightarrow>
   map bare acc' = map bare acc \<Longrightarrow> map bare cs' = map bare cs"
proof (induction fs arbitrary: fs' acc acc')
  case (Cons f fs)
  obtain f' gs where fs': "fs' = f' # gs" "same_filter f f'" "list_all2 same_filter fs gs"
    using Cons.prems(3) by (auto simp: list_all2_Cons1)
  show ?case
  proof (cases "TrimSpace (fi_Value f) = []")
    case True
    then show ?thesis using Cons.prems fs' by (intro Cons.IH [of acc gs acc']) (simp_all add: same_filter_def)
  next
    case False
    with fs' have v: "TrimSpace (fi_Value f') \<noteq> []" by (simp add: same_filter_def)
    obtain sp column part a where 1: "FieldSpecFor lt (fi_Field f) = Some sp" "columns (map_get (mp_Fields mapping) (fs_Key sp)) = Some column"
      "filterSQL L sp column (fi_Operator f) (fi_Value f) = Inr (part, a)"
      and r: "buildFilterClauses_loop L lt mapping columns fs (acc @ [\<lparr>fc_spec = sp, fc_column = column,
       fc_operator = ToLower (TrimSpace (fi_Operator f)), fc_sql = part, fc_arg = a\<rparr>]) = Inr cs"
      by (rule clauses_loop_step [OF Cons.prems(1) False])
    obtain sp' column' part' a' where 2: "FieldSpecFor lt (fi_Field f') = Some sp'" "columns (map_get (mp_Fields mapping) (fs_Key sp')) = Some column'"
      "filterSQL L sp' column' (fi_Operator f') (fi_Value f') = Inr (part', a')"
      and r': "buildFilterClauses_loop L lt mapping columns gs (acc' @ [\<lparr>fc_spec = sp', fc_column = column',
       fc_operator = ToLower (TrimSpace (fi_Operator f')), fc_sql = part', fc_arg = a'\<rparr>]) = Inr cs'"
      by (rule clauses_loop_step [OF Cons.prems(2) [unfolded fs'(1)] v])
    have e: "sp' = sp" "column' = column" "fi_Operator f' = fi_Operator f" using 1 2 fs'(2) by (simp_all add: same_filter_def)
    have "part' = part" using filterSQL_text [OF 1(3)] 2(3) e by simp
    with Cons.prems(4) e show ?thesis by (intro Cons.IH [OF r r' fs'(3)]) (simp add: bare_def)
  qed
qed simp

lemma filter_bare:
  assumes "map bare ys = map bare xs" "\<And>c c'. bare c' = bare c \<Longrightarrow> P c' = P c"
  shows "map bare (filter P ys) = map bare (filter P xs)"
  using assms(1)
proof (induction xs arbitrary: ys)
  case (Cons x xs)
  then obtain y zs where "ys = y # zs" "bare y = bare x" "map bare zs = map bare xs" by (cases ys) auto
  then show ?case using Cons.IH [of zs] assms(2) [of y x] by simp
qed simp

lemma sql_bare:
  assumes "map bare ys = map bare xs" shows "clauseSQL ys = clauseSQL xs"
proof -
  have "fc_sql c' = fc_sql c" if "bare c' = bare c" for c c' using that by (simp add: bare_def)
  then have "list_all2 (\<lambda>c' c. fc_sql c' = fc_sql c) ys xs"
    using assms by (simp add: list_all2_map1 list_all2_map2 list_all2_eq list_all2_mono)
  then show ?thesis by (simp add: clauseSQL_def list_all2_map1 list_all2_map2 list_all2_eq)
qed

lemma list_ex_bare:
  assumes "map bare ys = map bare xs" "\<And>c c'. bare c' = bare c \<Longrightarrow> P c' = P c"
  shows "list_ex P ys = list_ex P xs"
  using assms(1)
proof (induction xs arbitrary: ys)
  case (Cons x xs)
  then obtain y zs where "ys = y # zs" "bare y = bare x" "map bare zs = map bare xs" by (cases ys) auto
  then show ?case using Cons.IH [of zs] assms(2) [of y x] by simp
qed simp

lemma projection_bare:
  assumes "map bare ys = map bare xs"
  shows "projectionFilterIndexes mapping event ys = projectionFilterIndexes mapping event xs"
    and "bare c' = bare c \<Longrightarrow> snd (projectionFilterIndexes mapping event xs) c' = snd (projectionFilterIndexes mapping event xs) c"
proof -
  have "list_ex (eq_on k mapping) ys = list_ex (eq_on k mapping) xs" for k
    by (rule list_ex_bare [OF assms]) (simp add: bare_def eq_on_def)
  then show "projectionFilterIndexes mapping event ys = projectionFilterIndexes mapping event xs"
    by (simp only: projectionFilterIndexes_def)
  have p: "bare c' = bare c \<Longrightarrow> promoted k h c' = promoted k h c" for k h by (simp add: bare_def promoted_def)
  show "bare c' = bare c \<Longrightarrow> snd (projectionFilterIndexes mapping event xs) c' = snd (projectionFilterIndexes mapping event xs) c"
    using p [of "''user''"] p [of "''switchAddr''"] by (simp add: projectionFilterIndexes_def Let_def)
qed

subsection \<open>The statements\<close>

definition event_condition :: "Column \<Rightarrow> string" where
  "event_condition event =
     Join '' AND '' [quoteIdentifier (co_Name event) @ '' >= ?'', quoteIdentifier (co_Name event) @ '' < ?'']"

lemma eventWhereParts_cases:
  assumes "eventWhereParts L req event = Inr (w, as)"
  shows "w = event_condition event" "as = [eventValue L (co_Type event) (qr_From req), eventValue L (co_Type event) (qr_To req)]"
  using assms unfolding eventWhereParts_def event_condition_def [symmetric] by (simp_all split: if_splits)

lemma buildQueryParts_cases:
  assumes "buildQueryParts L req mapping columns event = Inr (pre, preArgs, post, postArgs, projection)"
  obtains cs opt where
    "buildFilterClauses L req mapping columns = Inr cs" "projectionFilterIndexes mapping event cs = (projection, opt)"
    "pre = Join '' AND '' (event_condition event # clauseSQL (filter opt cs))"
    "preArgs = [eventValue L (co_Type event) (qr_From req), eventValue L (co_Type event) (qr_To req)] @ clauseArgs (filter opt cs)"
    "post = Join '' AND '' (clauseSQL (filter (\<lambda>c. \<not> opt c) cs))" "postArgs = clauseArgs (filter (\<lambda>c. \<not> opt c) cs)"
proof -
  obtain w as where 1: "eventWhereParts L req event = Inr (w, as)"
    using assms by (auto simp: buildQueryParts_def split: sum.splits)
  obtain cs where 2: "buildFilterClauses L req mapping columns = Inr cs"
    using assms by (auto simp: buildQueryParts_def 1 split: sum.splits)
  obtain opt where 3: "projectionFilterIndexes mapping event cs = (projection, opt)"
    using assms by (auto simp: buildQueryParts_def 1 2 Let_def split: prod.splits)
  show thesis
    using assms unfolding buildQueryParts_def 1 2 3 sum.case prod.case Let_def sum.inject prod.inject
    by (intro that [OF 2 3]) (simp_all add: eventWhereParts_cases [OF 1])
qed

text \<open>The text of the two statements.\<close>

definition settings_text :: "string \<Rightarrow> string" where
  "settings_text projection = (if projection \<noteq> [] then '' SETTINGS optimize_use_projections = 1'' else [])"

definition from_text :: "ClickHouseLogConfig \<Rightarrow> Mapping \<Rightarrow> string \<Rightarrow> string \<Rightarrow> string" where
  "from_text cfg mapping pre post =
     '' FROM '' @ quoteIdentifier (ch_Database cfg) @ ''.'' @ quoteIdentifier (mp_Table mapping) @ '' PREWHERE '' @ pre @
     (if post \<noteq> [] then '' WHERE '' @ post else [])"

definition page_text :: "QueryRequest \<Rightarrow> Column \<Rightarrow> string" where
  "page_text req event =
     '' ORDER BY '' @ quoteIdentifier (co_Name event) @ '' DESC'' @
     '' LIMIT '' @ dec_int (if \<not> qr_IncludeTotal req then qr_PageSize req + 1 else qr_PageSize req) @
     '' OFFSET '' @ dec_int ((qr_Page req - 1) * qr_PageSize req)"

definition select_text :: "ResultColumn list \<Rightarrow> string" where
  "select_text sel = ''SELECT '' @ Join '', '' (map (\<lambda>c. quoteIdentifier (rc_Physical c)) sel)"

lemma build_statements_cases:
  assumes "build_statements L cfg mapping schema req = Inr st"
  obtains event sel pre preArgs post postArgs projection where
    "columns_by_name (ts_Columns schema) (mp_EventTimeColumn mapping) = Some event"
    "selectedColumns (qr_Type req) mapping (columns_by_name (ts_Columns schema)) (qr_Columns req) = Inr sel"
    "buildQueryParts L req mapping (columns_by_name (ts_Columns schema)) event = Inr (pre, preArgs, post, postArgs, projection)"
    "sm_args st = preArgs @ postArgs"
    "sm_count st = ''SELECT count()'' @ from_text cfg mapping pre post @ settings_text projection"
    "sm_query st = select_text sel @ from_text cfg mapping pre post @ page_text req event @ settings_text projection"
proof -
  obtain event where 1: "columns_by_name (ts_Columns schema) (mp_EventTimeColumn mapping) = Some event"
    using assms by (auto simp: build_statements_def Let_def split: option.splits)
  obtain sel where 2: "selectedColumns (qr_Type req) mapping (columns_by_name (ts_Columns schema)) (qr_Columns req) = Inr sel"
    using assms by (auto simp: build_statements_def Let_def 1 split: sum.splits)
  obtain pre preArgs post postArgs projection
    where 3: "buildQueryParts L req mapping (columns_by_name (ts_Columns schema)) event = Inr (pre, preArgs, post, postArgs, projection)"
    using assms unfolding build_statements_def Let_def 1 2 option.case sum.case
    by (cases "buildQueryParts L req mapping (columns_by_name (ts_Columns schema)) event") auto
  note st = assms [unfolded build_statements_def Let_def 1 2 3 option.case sum.case prod.case]
  show thesis
    using st by (elim if_elim Inl_not_Inr) (rule that [OF 1 2 3]; simp only: sum.inject; erule subst [of _ st];
      simp only: statements.simps append_assoc from_text_def settings_text_def page_text_def select_text_def)
qed

lemma holes_clauses:
  "\<forall>c\<in>set cs. holes (fc_sql c) = 1 \<Longrightarrow> sum_list (map holes (clauseSQL cs)) = length cs"
  by (induction cs) (auto simp: clauseSQL_def)

lemma holes_literals [simp]:
  "holes '' AND '' = 0" "holes '', '' = 0" "holes '' FROM '' = 0" "holes ''.'' = 0" "holes '' PREWHERE '' = 0"
  "holes '' WHERE '' = 0" "holes '' SETTINGS optimize_use_projections = 1'' = 0" "holes ''SELECT count()'' = 0"
  "holes ''SELECT '' = 0" "holes '' ORDER BY '' = 0" "holes '' DESC'' = 0" "holes '' LIMIT '' = 0" "holes '' OFFSET '' = 0"
  "holes '' >= ?'' = 1" "holes '' < ?'' = 1"
  by (simp_all add: holes_def)

lemma holes_event: "holes (event_condition event) = 2"
  unfolding event_condition_def Join.simps holes_append holes_identifier holes_literals by simp

lemma holes_parts:
  assumes "buildQueryParts L req mapping columns event = Inr (pre, preArgs, post, postArgs, projection)"
  shows "holes pre = length preArgs" "holes post = length postArgs"
proof -
  obtain cs opt where p: "buildFilterClauses L req mapping columns = Inr cs"
    "pre = Join '' AND '' (event_condition event # clauseSQL (filter opt cs))"
    "preArgs = [eventValue L (co_Type event) (qr_From req), eventValue L (co_Type event) (qr_To req)] @ clauseArgs (filter opt cs)"
    "post = Join '' AND '' (clauseSQL (filter (\<lambda>c. \<not> opt c) cs))" "postArgs = clauseArgs (filter (\<lambda>c. \<not> opt c) cs)"
    by (rule buildQueryParts_cases [OF assms])
  have "\<forall>c\<in>set cs. holes (fc_sql c) = 1"
    using p(1) unfolding buildFilterClauses_def by (rule clauses_loop_holes) simp
  then have "sum_list (map holes (clauseSQL (filter P cs))) = length (filter P cs)" for P
    by (intro holes_clauses) simp
  then show "holes pre = length preArgs" "holes post = length postArgs"
    by (simp_all add: p holes_Join holes_event clauseArgs_def)
qed

lemma holes_text:
  "holes (from_text cfg mapping pre post) = holes pre + holes post" "holes (settings_text projection) = 0"
  "holes (page_text req event) = 0" "holes (select_text sel) = 0"
proof -
  have w: "holes (if post \<noteq> [] then '' WHERE '' @ post else []) = holes post"
    by (cases "post = []") (simp_all only: if_True if_False holes_append holes_literals holes_Nil simp_thms)
  show "holes (from_text cfg mapping pre post) = holes pre + holes post"
    unfolding from_text_def holes_append w holes_identifier holes_literals by simp
  show "holes (settings_text projection) = 0"
    by (cases "projection = []") (simp_all only: settings_text_def if_True if_False holes_literals holes_Nil simp_thms)
  show "holes (page_text req event) = 0"
    unfolding page_text_def holes_append holes_identifier holes_dec_int holes_literals by simp
  have "sum_list (map holes (map (\<lambda>c. quoteIdentifier (rc_Physical c)) sel)) = 0" by (induction sel) simp_all
  then show "holes (select_text sel) = 0"
    unfolding select_text_def holes_append holes_Join holes_literals by simp
qed

lemma build_statements_text:
  assumes "build_statements L cfg mapping schema req = Inr st" "same_shape req req'"
    "build_statements L cfg mapping schema req' = Inr st'"
  shows "sm_count st' = sm_count st \<and> sm_query st' = sm_query st"
proof -
  let ?cols = "columns_by_name (ts_Columns schema)"
  note sh = assms(2) [unfolded same_shape_def]
  obtain event sel pre preArgs post postArgs projection where
    ev: "?cols (mp_EventTimeColumn mapping) = Some event" "selectedColumns (qr_Type req) mapping ?cols (qr_Columns req) = Inr sel"
    and q: "buildQueryParts L req mapping ?cols event = Inr (pre, preArgs, post, postArgs, projection)"
    and t: "sm_count st = ''SELECT count()'' @ from_text cfg mapping pre post @ settings_text projection"
      "sm_query st = select_text sel @ from_text cfg mapping pre post @ page_text req event @ settings_text projection"
    by (rule build_statements_cases [OF assms(1)])
  obtain event' sel' pre' preArgs' post' postArgs' projection' where
    ev': "?cols (mp_EventTimeColumn mapping) = Some event'" "selectedColumns (qr_Type req') mapping ?cols (qr_Columns req') = Inr sel'"
    and q': "buildQueryParts L req' mapping ?cols event' = Inr (pre', preArgs', post', postArgs', projection')"
    and t': "sm_count st' = ''SELECT count()'' @ from_text cfg mapping pre' post' @ settings_text projection'"
      "sm_query st' = select_text sel' @ from_text cfg mapping pre' post' @ page_text req' event' @ settings_text projection'"
    by (rule build_statements_cases [OF assms(3)])
  obtain cs opt where p: "buildFilterClauses L req mapping ?cols = Inr cs" "projectionFilterIndexes mapping event cs = (projection, opt)"
    "pre = Join '' AND '' (event_condition event # clauseSQL (filter opt cs))" "post = Join '' AND '' (clauseSQL (filter (\<lambda>c. \<not> opt c) cs))"
    by (rule buildQueryParts_cases [OF q])
  obtain cs' opt' where p': "buildFilterClauses L req' mapping ?cols = Inr cs'" "projectionFilterIndexes mapping event' cs' = (projection', opt')"
    "pre' = Join '' AND '' (event_condition event' # clauseSQL (filter opt' cs'))" "post' = Join '' AND '' (clauseSQL (filter (\<lambda>c. \<not> opt' c) cs'))"
    by (rule buildQueryParts_cases [OF q'])
  have e: "event' = event" "sel' = sel" using ev ev' sh by simp_all
  have "buildFilterClauses_loop L (qr_Type req) mapping ?cols (qr_Filters req') [] = Inr cs'"
    using p'(1) sh by (simp add: buildFilterClauses_def)
  with p(1) sh have b: "map bare cs' = map bare cs"
    unfolding buildFilterClauses_def by (intro clauses_loop_bare [of L "qr_Type req" mapping ?cols "qr_Filters req" "[]" cs "qr_Filters req'" "[]"]) simp_all
  have o: "projection' = projection" "opt' = opt" using projection_bare(1) [OF b, of mapping event] p(2) p'(2) e(1) by simp_all
  have "bare c' = bare c \<Longrightarrow> opt c' = opt c" for c c' using projection_bare(2) [OF b, of c' c mapping event] p(2) by simp
  then have "clauseSQL (filter opt cs') = clauseSQL (filter opt cs)" "clauseSQL (filter (\<lambda>c. \<not> opt c) cs') = clauseSQL (filter (\<lambda>c. \<not> opt c) cs)"
    by (intro sql_bare filter_bare [OF b]; blast)+
  then have "pre' = pre" "post' = post" by (simp_all only: p p' e o)
  moreover have "page_text req' event = page_text req event" using sh by (simp only: page_text_def)
  ultimately show ?thesis by (simp only: t t' e o)
qed

text \<open>
  C34. The values of a log query never reach the text of a statement: both statements have one
  placeholder for each argument, and a request that differs only in the values of its filters and in
  its time range has statements of the same text.
\<close>

theorem query_is_parameterised:
  assumes "build_statements L cfg mapping schema req = Inr st"
  shows "holes (sm_count st) = length (sm_args st) \<and> holes (sm_query st) = length (sm_args st) \<and>
    (\<forall>req' st'. same_shape req req' \<longrightarrow> build_statements L cfg mapping schema req' = Inr st' \<longrightarrow>
       sm_count st' = sm_count st \<and> sm_query st' = sm_query st)"
proof -
  obtain event sel pre preArgs post postArgs projection where
    q: "buildQueryParts L req mapping (columns_by_name (ts_Columns schema)) event = Inr (pre, preArgs, post, postArgs, projection)"
    and a: "sm_args st = preArgs @ postArgs"
    and t: "sm_count st = ''SELECT count()'' @ from_text cfg mapping pre post @ settings_text projection"
      "sm_query st = select_text sel @ from_text cfg mapping pre post @ page_text req event @ settings_text projection"
    by (rule build_statements_cases [OF assms])
  have "holes (sm_count st) = length (sm_args st) \<and> holes (sm_query st) = length (sm_args st)"
    unfolding t a holes_append holes_text holes_literals using holes_parts [OF q] by simp
  then show ?thesis using build_statements_text [OF assms] by blast
qed

subsection \<open>The rows an ordinary user sees\<close>

text \<open>The name as the argument of a condition; a column of dates makes it a time.\<close>

definition own_value :: "ck_lib \<Rightarrow> string \<Rightarrow> arg \<Rightarrow> bool" where
  "own_value L u a = (a = AString u \<or> (\<exists>t. parseTimeValue L u = Inr t \<and> a = ATime t))"

text \<open>
  The conditions of a statement are a conjunction, each with its argument in order, and one of them
  compares the column of the user with the name.
\<close>

definition limited_to :: "ck_lib \<Rightarrow> string \<Rightarrow> Mapping \<Rightarrow> statements \<Rightarrow> bool" where
  "limited_to L u mapping st = (\<exists>first count rest count_rest w times pre post.
     sm_query st = first @ '' PREWHERE '' @ Join '' AND '' (w # map fst pre) @
       (if post = [] then [] else '' WHERE '' @ Join '' AND '' (map fst post)) @ rest \<and>
     sm_count st = count @ '' PREWHERE '' @ Join '' AND '' (w # map fst pre) @
       (if post = [] then [] else '' WHERE '' @ Join '' AND '' (map fst post)) @ count_rest \<and>
     sm_args st = times @ map snd pre @ map snd post \<and>
     holes first = 0 \<and> holes count = 0 \<and> holes w = length times \<and> (\<forall>c\<in>set (pre @ post). holes (fst c) = 1) \<and>
     (\<exists>a. (quoteIdentifier (map_get (mp_Fields mapping) ''user'') @ '' = ?'', a) \<in> set (pre @ post) \<and> own_value L u a))"

lemma columns_by_name_name: "columns_by_name cols n = Some c \<Longrightarrow> co_Name c = n"
  by (auto simp: columns_by_name_def dest!: map_of_SomeD)

lemma clauses_loop_keeps: "buildFilterClauses_loop L lt mapping columns fs acc = Inr cs \<Longrightarrow> set acc \<subseteq> set cs"
proof (induction fs arbitrary: acc)
  case (Cons f fs)
  show ?case
  proof (cases "TrimSpace (fi_Value f) = []")
    case True
    then show ?thesis using Cons by simp
  next
    case False
    obtain c where "buildFilterClauses_loop L lt mapping columns fs (acc @ [c]) = Inr cs"
      by (rule clauses_loop_step [OF Cons.prems False])
    from Cons.IH [OF this] show ?thesis by simp
  qed
qed simp

lemma clauses_loop_last:
  "buildFilterClauses_loop L lt mapping columns (fs @ [f]) acc = Inr cs \<Longrightarrow> TrimSpace (fi_Value f) \<noteq> [] \<Longrightarrow>
   \<exists>sp column part a c. FieldSpecFor lt (fi_Field f) = Some sp \<and> columns (map_get (mp_Fields mapping) (fs_Key sp)) = Some column \<and>
     filterSQL L sp column (fi_Operator f) (fi_Value f) = Inr (part, a) \<and> c \<in> set cs \<and> fc_sql c = part \<and> fc_arg c = a"
proof (induction fs arbitrary: acc)
  case Nil
  obtain sp column part a where 1: "FieldSpecFor lt (fi_Field f) = Some sp" "columns (map_get (mp_Fields mapping) (fs_Key sp)) = Some column"
    "filterSQL L sp column (fi_Operator f) (fi_Value f) = Inr (part, a)"
    and r: "buildFilterClauses_loop L lt mapping columns [] (acc @ [\<lparr>fc_spec = sp, fc_column = column,
     fc_operator = ToLower (TrimSpace (fi_Operator f)), fc_sql = part, fc_arg = a\<rparr>]) = Inr cs"
    by (rule clauses_loop_step [OF Nil.prems(1) [unfolded append_Nil] Nil.prems(2)])
  show ?case using 1 clauses_loop_keeps [OF r] by fastforce
next
  case (Cons g fs)
  show ?case
  proof (cases "TrimSpace (fi_Value g) = []")
    case True
    then show ?thesis using Cons by simp
  next
    case False
    obtain c where "buildFilterClauses_loop L lt mapping columns (fs @ [f]) (acc @ [c]) = Inr cs"
      by (rule clauses_loop_step [OF Cons.prems(1) [unfolded append_Cons] False])
    from Cons.IH [OF this Cons.prems(2)] show ?thesis .
  qed
qed

lemma user_spec: "\<exists>sp. FieldSpecFor lt ''user'' = Some sp \<and> fs_Key sp = ''user'' \<and> fs_Kind sp = FieldKindString"
  by (cases lt) (simp_all add: FieldSpecFor_def)

lemma user_condition:
  assumes "filterSQL L sp column ''eq'' u = Inr (part, a)" "fs_Kind sp = FieldKindString"
  shows "part = quoteIdentifier (co_Name column) @ '' = ?''" "own_value L u a"
proof -
  have o: "ToLower (TrimSpace ''eq'') = ''eq''" by code_simp
  have k: "(FieldKindString = FieldKindStringArray) = False" by simp
  note f = assms(1) [unfolded filterSQL_def Let_def o assms(2) k if_False]
  obtain v where v: "filter_value L sp (normalizeType (co_Type column)) u = Inr v"
    using f by (cases "filter_value L sp (normalizeType (co_Type column)) u") simp_all
  have "(''eq'' = ''eq'') = True" by simp
  note g = f [unfolded v sum.case this if_True]
  show "part = quoteIdentifier (co_Name column) @ '' = ?''" using g by (simp only: sum.inject prod.inject)
  have "a = v" using g by (simp only: sum.inject prod.inject)
  then show "own_value L u a"
    using v assms(2) by (auto simp: filter_value_def own_value_def split: if_splits sum.splits) (cases "parseTimeValue L u"; simp)+
qed

lemma scoped_statements:
  assumes "qr_Filters req = fs @ [user_filter u]" "TrimSpace u \<noteq> []"
    and st: "build_statements L cfg mapping schema req = Inr st"
  shows "limited_to L u mapping st"
proof -
  let ?cols = "columns_by_name (ts_Columns schema)"
  obtain event sel pre preArgs post postArgs projection where
    q: "buildQueryParts L req mapping ?cols event = Inr (pre, preArgs, post, postArgs, projection)"
    and a: "sm_args st = preArgs @ postArgs"
    and t: "sm_count st = ''SELECT count()'' @ from_text cfg mapping pre post @ settings_text projection"
      "sm_query st = select_text sel @ from_text cfg mapping pre post @ page_text req event @ settings_text projection"
    by (rule build_statements_cases [OF st])
  obtain cs opt where p: "buildFilterClauses L req mapping ?cols = Inr cs"
    "pre = Join '' AND '' (event_condition event # clauseSQL (filter opt cs))"
    "preArgs = [eventValue L (co_Type event) (qr_From req), eventValue L (co_Type event) (qr_To req)] @ clauseArgs (filter opt cs)"
    "post = Join '' AND '' (clauseSQL (filter (\<lambda>c. \<not> opt c) cs))" "postArgs = clauseArgs (filter (\<lambda>c. \<not> opt c) cs)"
    by (rule buildQueryParts_cases [OF q])
  have one: "\<forall>c\<in>set cs. holes (fc_sql c) = 1"
    using p(1) unfolding buildFilterClauses_def by (rule clauses_loop_holes) simp
  define pair where "pair c = (fc_sql c, fc_arg c)" for c :: filterClause
  let ?pre = "map pair (filter opt cs)" and ?post = "map pair (filter (\<lambda>c. \<not> opt c) cs)"
  have fst: "clauseSQL xs = map fst (map pair xs)" and snd: "clauseArgs xs = map snd (map pair xs)" for xs
    by (simp_all add: clauseSQL_def clauseArgs_def pair_def)
  have empty: "(post \<noteq> []) = (?post \<noteq> [])"
  proof (cases "filter (\<lambda>c. \<not> opt c) cs")
    case Nil
    then show ?thesis by (simp add: p(4) clauseSQL_def)
  next
    case (Cons c xs)
    have "holes post \<noteq> 0" using holes_parts(2) [OF q] by (simp add: p(5) Cons clauseArgs_def)
    then show ?thesis using Cons by auto
  qed
  obtain sp column part v c where c: "FieldSpecFor (qr_Type req) ''user'' = Some sp"
    "?cols (map_get (mp_Fields mapping) (fs_Key sp)) = Some column"
    "filterSQL L sp column ''eq'' u = Inr (part, v)" "c \<in> set cs" "fc_sql c = part" "fc_arg c = v"
    using clauses_loop_last [of L "qr_Type req" mapping ?cols fs "user_filter u" "[]" cs] p(1) assms(1,2)
    by (auto simp: buildFilterClauses_def user_filter_def)
  have sp: "fs_Key sp = ''user''" "fs_Kind sp = FieldKindString" using user_spec [of "qr_Type req"] c(1) by auto
  have "part = quoteIdentifier (map_get (mp_Fields mapping) ''user'') @ '' = ?''"
    using user_condition(1) [OF c(3) sp(2)] columns_by_name_name [OF c(2)] sp(1) by simp
  moreover have "pair c \<in> set (?pre @ ?post)" using c(4) by auto
  ultimately have own: "(quoteIdentifier (map_get (mp_Fields mapping) ''user'') @ '' = ?'', v) \<in> set (?pre @ ?post)"
    using c(5,6) by (simp add: pair_def)
  have w: "(if post \<noteq> [] then '' WHERE '' @ post else []) = (if ?post = [] then [] else '' WHERE '' @ Join '' AND '' (map fst ?post))"
    unfolding empty using p(4) fst by (cases "?post = []") (simp_all only: if_True if_False simp_thms)
  define table where "table = '' FROM '' @ quoteIdentifier (ch_Database cfg) @ ''.'' @ quoteIdentifier (mp_Table mapping)"
  have ft: "from_text cfg mapping pre post = table @ '' PREWHERE '' @ Join '' AND '' (event_condition event # map fst ?pre) @
       (if ?post = [] then [] else '' WHERE '' @ Join '' AND '' (map fst ?post))"
    unfolding from_text_def w table_def append_assoc p(2) fst ..
  have tb: "holes table = 0" unfolding table_def holes_append holes_literals holes_identifier by simp
  show ?thesis
    unfolding limited_to_def
  proof (intro exI conjI)
    show "sm_query st = (select_text sel @ table) @ '' PREWHERE '' @ Join '' AND '' (event_condition event # map fst ?pre) @
       (if ?post = [] then [] else '' WHERE '' @ Join '' AND '' (map fst ?post)) @ (page_text req event @ settings_text projection)"
      unfolding t(2) ft append_assoc ..
    show "sm_count st = (''SELECT count()'' @ table) @ '' PREWHERE '' @ Join '' AND '' (event_condition event # map fst ?pre) @
       (if ?post = [] then [] else '' WHERE '' @ Join '' AND '' (map fst ?post)) @ settings_text projection"
      unfolding t(1) ft append_assoc ..
    show "sm_args st = [eventValue L (co_Type event) (qr_From req), eventValue L (co_Type event) (qr_To req)] @ map snd ?pre @ map snd ?post"
      unfolding a p(3,5) snd append_assoc ..
    show "holes (select_text sel @ table) = 0" "holes (''SELECT count()'' @ table) = 0"
      by (simp_all only: holes_append holes_text holes_literals tb add_0)
    show "holes (event_condition event) = length [eventValue L (co_Type event) (qr_From req), eventValue L (co_Type event) (qr_To req)]"
      by (simp add: holes_event)
    show "\<forall>c\<in>set (?pre @ ?post). holes (fst c) = 1" using one by (auto simp: pair_def)
    show "(quoteIdentifier (map_get (mp_Fields mapping) ''user'') @ '' = ?'', v) \<in> set (?pre @ ?post)" by (rule own)
    show "own_value L u v" by (rule user_condition(2) [OF c(3) sp(2)])
  qed
qed

text \<open>A stream whose columns carry the names of the fields.\<close>

definition sample_mapping :: Mapping where
  "sample_mapping = \<lparr>mp_Table = ''authen_log'', mp_EventTimeColumn = ''event_time'',
     mp_Fields = map (\<lambda>f. (fs_Key f, fs_Key f)) (Specs LogTypeAuthen), mp_Names = []\<rparr>"

definition sample_schema :: TableSchema where
  "sample_schema = \<lparr>ts_Name = ''authen_log'', ts_Columns = \<lparr>co_Name = ''event_time'', co_Type = ''DateTime64(3)'', co_Position = 1\<rparr> #
     map (\<lambda>f. \<lparr>co_Name = fs_Key f, co_Type = ''String'', co_Position = 2\<rparr>) (Specs LogTypeAuthen)\<rparr>"

definition sample_log_config :: ClickHouseLogConfig where
  "sample_log_config = zero_config\<lparr>ch_Address := ''http://h'', ch_Database := ''logs'', ch_Mappings := [(LogTypeAuthen, sample_mapping)]\<rparr>"

definition sample_rows :: ck_conn where
  "sample_rows = \<lparr>cc_ping = None, cc_tables = (\<lambda>_. Rows [] None), cc_columns = (\<lambda>_ _. Rows [] None), cc_count = (\<lambda>_ _. Inr 0),
     cc_rows = (\<lambda>_ _. Rows [] None)\<rparr>"

definition sample_ck :: ck_lib where
  "sample_ck = \<lparr>cl_open = (\<lambda>_. Inr sample_rows), cl_parse_url = (\<lambda>_. Inr (''http'', ''h'')),
     cl_dsn = (\<lambda>a b c d. a), cl_parse_rfc3339 = (\<lambda>s. Inr (int (length s))), cl_parse_local = (\<lambda>_. Inr 0), cl_format_milli = (\<lambda>_. []),
     cl_format_rfc3339 = (\<lambda>_. [])\<rparr>"

definition sample_query :: "string \<Rightarrow> QueryRequest" where
  "sample_query v = \<lparr>qr_Type = LogTypeAuthen, qr_From = 0, qr_To = 1, qr_Filters = [\<lparr>fi_Field = ''details'', fi_Operator = ''contains'',
     fi_Value = v\<rparr>, user_filter ''bob''], qr_Columns = [''user''], qr_Page = 1, qr_PageSize = 50, qr_IncludeTotal = False\<rparr>"

theorem query_is_parameterised_witness:
  "\<exists>st. build_statements sample_ck sample_log_config sample_mapping sample_schema (sample_query ''denied'') = Inr st \<and>
     holes (sm_query st) = length (sm_args st)"
proof -
  have "\<not> Option.is_none (case build_statements sample_ck sample_log_config sample_mapping sample_schema (sample_query ''denied'') of
      Inl _ \<Rightarrow> None | Inr st \<Rightarrow> Some (sm_query st))"
    by code_simp
  then obtain st where st: "build_statements sample_ck sample_log_config sample_mapping sample_schema (sample_query ''denied'') = Inr st"
    by (cases "build_statements sample_ck sample_log_config sample_mapping sample_schema (sample_query ''denied'')") simp_all
  show ?thesis using st query_is_parameterised [OF st] by blast
qed

end
