(* ===== verification/LogScope.thy ===== *)
theory LogScope
  imports ClickHouseLaws
begin

text \<open>
  The rows of the log that a user is answered. A query builds its statements from the filters of the
  request, and the handler appends the filter on the user to what an ordinary user asks for; both
  meet here, in a property of two runs: what the log server holds beyond the rows of a user cannot
  be told from the answers that the user gets.
\<close>

lemma normalized_keeps:
  assumes "normalized req = Inr req'" shows "qr_Filters req' = qr_Filters req" "qr_Type req' = qr_Type req"
proof -
  have "qr_Filters req' = qr_Filters req \<and> qr_Type req' = qr_Type req"
    using assms unfolding normalized_def Let_def by (elim if_elim Inl_not_Inr) (auto split: if_splits)
  then show "qr_Filters req' = qr_Filters req" "qr_Type req' = qr_Type req" by simp_all
qed

lemma stream_schema_config: "stream_schema conn lt mapping m = (r, m') \<Longrightarrow> mg_config m' = mg_config m"
  by (auto simp: stream_schema_def split: option.splits sum.splits if_splits)

subsection \<open>Statements limited to a user\<close>

text \<open>
  The condition of the statement is a conjunction, each conjunct with its argument in order, and one
  of them compares the column with the name.
\<close>

definition limited_sql :: "ck_lib \<Rightarrow> string \<Rightarrow> string \<Rightarrow> string \<Rightarrow> arg list \<Rightarrow> bool" where
  "limited_sql L u column sql args = (\<exists>first rest w times pre post.
     sql = first @ '' PREWHERE '' @ Join '' AND '' (w # map fst pre) @
       (if post = [] then [] else '' WHERE '' @ Join '' AND '' (map fst post)) @ rest \<and>
     args = times @ map snd pre @ map snd post \<and>
     holes first = 0 \<and> holes w = length times \<and> (\<forall>c\<in>set (pre @ post). holes (fst c) = 1) \<and>
     (\<exists>a. (quoteIdentifier column @ '' = ?'', a) \<in> set (pre @ post) \<and> own_value L u a))"

definition user_column :: "ClickHouseLogConfig \<Rightarrow> LogType \<Rightarrow> string" where
  "user_column cfg lt = map_get (mp_Fields (mapping_for cfg lt)) ''user''"

lemma limited_to_sql:
  assumes "limited_to L u (mapping_for cfg lt) st"
  shows "limited_sql L u (user_column cfg lt) (sm_query st) (sm_args st)"
    and "limited_sql L u (user_column cfg lt) (sm_count st) (sm_args st)"
  using assms unfolding limited_to_def limited_sql_def user_column_def by blast+

subsection \<open>Connections that agree\<close>

text \<open>Two connections that give the same answers to the statements in \<open>P\<close>, and the same tables.\<close>

definition agree :: "(string \<Rightarrow> arg list \<Rightarrow> bool) \<Rightarrow> ck_conn \<Rightarrow> ck_conn \<Rightarrow> bool" where
  "agree P c c' = (cc_ping c = cc_ping c' \<and> cc_tables c = cc_tables c' \<and> cc_columns c = cc_columns c' \<and>
     (\<forall>sql args. P sql args \<longrightarrow> cc_count c sql args = cc_count c' sql args \<and> cc_rows c sql args = cc_rows c' sql args))"

definition agree_opt :: "(string \<Rightarrow> arg list \<Rightarrow> bool) \<Rightarrow> ck_conn option \<Rightarrow> ck_conn option \<Rightarrow> bool" where
  "agree_opt P = rel_option (agree P)"

definition agree_open :: "(string \<Rightarrow> arg list \<Rightarrow> bool) \<Rightarrow> (string \<Rightarrow> ck_conn result) \<Rightarrow> (string \<Rightarrow> ck_conn result) \<Rightarrow> bool" where
  "agree_open P f g = (\<forall>dsn. rel_sum (=) (agree P) (f dsn) (g dsn))"

text \<open>Which connections are opened matters to none of the functions that build the statements.\<close>

lemma open_fields:
  "cl_parse_url (L\<lparr>cl_open := f\<rparr>) = cl_parse_url L" "cl_dsn (L\<lparr>cl_open := f\<rparr>) = cl_dsn L"
  "cl_parse_rfc3339 (L\<lparr>cl_open := f\<rparr>) = cl_parse_rfc3339 L" "cl_parse_local (L\<lparr>cl_open := f\<rparr>) = cl_parse_local L"
  "cl_format_milli (L\<lparr>cl_open := f\<rparr>) = cl_format_milli L" "cl_format_rfc3339 (L\<lparr>cl_open := f\<rparr>) = cl_format_rfc3339 L"
  by simp_all

lemma open_values [simp]:
  "parseTimeValue (L\<lparr>cl_open := f\<rparr>) = parseTimeValue L" "eventValue (L\<lparr>cl_open := f\<rparr>) = eventValue L"
  unfolding parseTimeValue_def [abs_def] eventValue_def [abs_def] open_fields by (rule refl)+

lemma open_dsn [simp]:
  "parseLogBoundary (L\<lparr>cl_open := f\<rparr>) = parseLogBoundary L" "buildDSN (L\<lparr>cl_open := f\<rparr>) = buildDSN L"
  unfolding parseLogBoundary_def [abs_def] buildDSN_def [abs_def] open_fields by (rule refl)+

lemma filterSQL_open [simp]: "filterSQL (L\<lparr>cl_open := f\<rparr>) = filterSQL L"
  unfolding filterSQL_def [abs_def] filter_value_def open_values by (rule refl)

lemma clauses_open [simp]:
  "buildFilterClauses_loop (L\<lparr>cl_open := f\<rparr>) lt mapping columns fs cs = buildFilterClauses_loop L lt mapping columns fs cs"
  by (induction fs arbitrary: cs) (simp_all add: Let_def split: option.split sum.split prod.split)

lemma build_statements_open [simp]: "build_statements (L\<lparr>cl_open := f\<rparr>) = build_statements L"
  unfolding build_statements_def [abs_def] buildQueryParts_def eventWhereParts_def buildFilterClauses_def
    open_values clauses_open by (rule refl)

lemma run_statements_open [simp]: "run_statements (L\<lparr>cl_open := f\<rparr>) = run_statements L"
proof -
  have "normalizeValue (L\<lparr>cl_open := f\<rparr>) v = normalizeValue L v" for v
    by (induction v rule: normalizeValue.induct) simp_all
  then have n: "normalizeValue (L\<lparr>cl_open := f\<rparr>) = normalizeValue L" by (rule ext)
  show ?thesis unfolding run_statements_def [abs_def] result_rows_def n by (rule refl)
qed

lemma openConnection_agree:
  "agree_open P (cl_open L) f \<Longrightarrow> rel_sum (=) (agree P) (openConnection L cfg) (openConnection (L\<lparr>cl_open := f\<rparr>) cfg)"
  by (auto simp: openConnection_def agree_open_def split: sum.split)

lemma ensureLoaded_agree:
  assumes "run_state (ensureLoaded L js types m) w = ((err, m1), w1)"
    and "agree_opt P (mg_conn m) c" "agree_open P (cl_open L) f"
  obtains c1 where "run_state (ensureLoaded (L\<lparr>cl_open := f\<rparr>) js types (m\<lparr>mg_conn := c\<rparr>)) w = ((err, m1\<lparr>mg_conn := c1\<rparr>), w1)"
    "agree_opt P (mg_conn m1) c1"
proof (cases "mg_conn m = None")
  case False
  then have "c \<noteq> None" using assms(2) by (auto simp: agree_opt_def elim: option.rel_cases)
  then show ?thesis using that [of c] False assms(1,2) by (auto simp: ensureLoaded_def)
next
  case True
  then have c: "c = None" using assms(2) by (auto simp: agree_opt_def)
  obtain g w' where g: "run_state (GetClickHouseLogConfig js types) w = (g, w')" by fastforce
  have m: "m\<lparr>mg_conn := None\<rparr> = m" using True by (cases m) simp
  show ?thesis
  proof (cases "\<exists>cfg conn. g = Inr cfg \<and> \<not> (ch_Address cfg = [] \<or> ch_Database cfg = []) \<and> openConnection L cfg = Inr conn")
    case True
    then obtain cfg conn where k: "g = Inr cfg" "\<not> (ch_Address cfg = [] \<or> ch_Database cfg = [])" "openConnection L cfg = Inr conn"
      by blast
    then obtain conn' where k': "openConnection (L\<lparr>cl_open := f\<rparr>) cfg = Inr conn'" "agree P conn conn'"
      using openConnection_agree [OF assms(3), of cfg] by (auto simp: rel_sum_simps elim: rel_sum.cases)
    show ?thesis
      by (rule that [of "Some conn'"])
        (use assms(1) k k' g \<open>mg_conn m = None\<close> c in \<open>auto simp: ensureLoaded_def agree_opt_def\<close>)
  next
    case False
    have "openConnection (L\<lparr>cl_open := f\<rparr>) cfg = Inl e" if "openConnection L cfg = Inl e" for cfg e
      using openConnection_agree [OF assms(3), of cfg] that by (auto elim: rel_sum.cases)
    then show ?thesis
      using that [of None] False assms(1) g \<open>mg_conn m = None\<close> c m
      by (auto simp: ensureLoaded_def agree_opt_def split: sum.splits if_splits)
  qed
qed

lemma stream_schema_agree:
  assumes "stream_schema conn lt mapping m = (res, m')" "agree P conn conn'"
  shows "stream_schema conn' lt mapping (m\<lparr>mg_conn := c\<rparr>) = (res, m'\<lparr>mg_conn := c\<rparr>)"
    and "mg_conn m' = mg_conn m"
proof -
  have t: "tableSchema conn' = tableSchema conn"
    using assms(2) by (simp add: tableSchema_def agree_def fun_eq_iff)
  show "stream_schema conn' lt mapping (m\<lparr>mg_conn := c\<rparr>) = (res, m'\<lparr>mg_conn := c\<rparr>)"
    using assms(1) by (auto simp: stream_schema_def t split: option.splits sum.splits if_splits)
  show "mg_conn m' = mg_conn m"
    using assms(1) by (auto simp: stream_schema_def split: option.splits sum.splits if_splits)
qed

lemma run_statements_agree:
  "agree P conn conn' \<Longrightarrow> P (sm_query st) (sm_args st) \<Longrightarrow> P (sm_count st) (sm_args st) \<Longrightarrow>
   run_statements L conn' req st = run_statements L conn req st"
  by (simp add: run_statements_def agree_def split: sum.split)

text \<open>The query after the configuration is loaded.\<close>

definition loaded_answer :: "ck_lib \<Rightarrow> QueryRequest \<Rightarrow> go_error option \<Rightarrow> Manager \<Rightarrow> QueryResult result \<times> Manager" where
  "loaded_answer L req err m =
     (case err of Some e \<Rightarrow> (Inl e, m)
      | None \<Rightarrow>
        (case mg_conn m of None \<Rightarrow> (Inl ErrNotConfigured, m)
         | Some conn \<Rightarrow>
             let mapping = mapping_for (mg_config m) (qr_Type req) in
             if \<not> MappingComplete (qr_Type req) mapping
             then (Inl (GoError (''log type '' @ LogType_String (qr_Type req) @ '' is not fully mapped'')), m)
             else (case stream_schema conn (qr_Type req) mapping m of
                     (Inl e, m) \<Rightarrow> (Inl e, m)
                   | (Inr schema, m) \<Rightarrow>
                       (case build_statements L (mg_config m) mapping schema req of Inl e \<Rightarrow> (Inl e, m)
                        | Inr st \<Rightarrow> (run_statements L conn req st, m)))))"

lemma Query_run:
  assumes "normalized req = Inr req'" "run_state (ensureLoaded L js types m) w = ((err, m1), w1)"
  shows "run_state (Query L js types req m) w = (loaded_answer L req' err m1, w1)"
  unfolding Query_def assms(1) sum.case run_state_bind assms(2) prod.case run_state_return loaded_answer_def
  by (rule refl)

lemma loaded_answer_agree:
  assumes r: "loaded_answer L req err m = (res, m')"
    and f: "qr_Filters req = fs @ [user_filter u]" "TrimSpace u \<noteq> []"
    and P: "P = limited_sql L u (user_column (mg_config m') (qr_Type req))" and c: "agree_opt P (mg_conn m) c"
  shows "\<exists>c'. loaded_answer (L\<lparr>cl_open := f\<rparr>) req err (m\<lparr>mg_conn := c\<rparr>) = (res, m'\<lparr>mg_conn := c'\<rparr>)"
proof -
  let ?mapping = "mapping_for (mg_config m) (qr_Type req)"
  show ?thesis
  proof (cases "err = None \<and> mg_conn m \<noteq> None \<and> MappingComplete (qr_Type req) ?mapping")
    case False
    then show ?thesis using r c
      by (auto simp: loaded_answer_def agree_opt_def Let_def split: option.splits if_splits elim: option.rel_cases)
  next
    case True
    then obtain conn where conn: "err = None" "mg_conn m = Some conn" "MappingComplete (qr_Type req) ?mapping" by auto
    then obtain conn' where conn': "c = Some conn'" "agree P conn conn'"
      using c by (auto simp: agree_opt_def elim: option.rel_cases)
    obtain sres m2 where sc: "stream_schema conn (qr_Type req) ?mapping m = (sres, m2)" by (metis surj_pair)
    note sc' = stream_schema_agree(1) [OF sc conn'(2), of c] and g = stream_schema_config [OF sc]
    show ?thesis
    proof (cases "\<exists>schema st. sres = Inr schema \<and> build_statements L (mg_config m2) ?mapping schema req = Inr st")
      case False
      then show ?thesis using r conn conn' sc sc'
        by (auto simp: loaded_answer_def Let_def split: sum.splits)
    next
      case True
      then obtain schema st where st: "sres = Inr schema" "build_statements L (mg_config m2) ?mapping schema req = Inr st" by blast
      have m': "m' = m2" "res = run_statements L conn req st"
        using r conn sc st by (auto simp: loaded_answer_def Let_def)
      have "limited_to L u ?mapping st" using scoped_statements [OF f st(2)] .
      then have "P (sm_query st) (sm_args st)" "P (sm_count st) (sm_args st)"
        using limited_to_sql unfolding P m'(1) g by blast+
      from run_statements_agree [OF conn'(2) this] show ?thesis
        using st m' conn conn' sc' by (auto simp: loaded_answer_def Let_def)
    qed
  qed
qed

text \<open>A query whose last filter is the one on the user: the answer, and the state but for the connection.\<close>

lemma Query_agree:
  assumes q: "run_state (Query L js types req m) w = ((res, m'), w')"
    and f: "qr_Filters req = fs @ [user_filter u]" "TrimSpace u \<noteq> []"
    and P: "P = limited_sql L u (user_column (mg_config m') (qr_Type req))"
    and c: "agree_opt P (mg_conn m) c" "agree_open P (cl_open L) f"
  shows "\<exists>c'. run_state (Query (L\<lparr>cl_open := f\<rparr>) js types req (m\<lparr>mg_conn := c\<rparr>)) w = ((res, m'\<lparr>mg_conn := c'\<rparr>), w')"
proof (cases "normalized req")
  case (Inl e)
  then show ?thesis using q by (auto simp: Query_def)
next
  case (Inr req')
  note k = normalized_keeps [OF Inr]
  obtain err m1 w1 where l: "run_state (ensureLoaded L js types m) w = ((err, m1), w1)" by (metis surj_pair)
  obtain c1 where l': "run_state (ensureLoaded (L\<lparr>cl_open := f\<rparr>) js types (m\<lparr>mg_conn := c\<rparr>)) w = ((err, m1\<lparr>mg_conn := c1\<rparr>), w1)"
    and c1: "agree_opt P (mg_conn m1) c1" by (rule ensureLoaded_agree [OF l c])
  have r: "loaded_answer L req' err m1 = (res, m')" "w' = w1" using q Query_run [OF Inr l] by auto
  have f': "qr_Filters req' = fs @ [user_filter u]" using f(1) k(1) by simp
  have P': "P = limited_sql L u (user_column (mg_config m') (qr_Type req'))" using P k(2) by simp
  show ?thesis
    using loaded_answer_agree [OF r(1) f' f(2) P' c1] Query_run [OF Inr l'] r(2) by metis
qed

subsection \<open>The answer to an ordinary user\<close>

lemma ordinary_scope:
  assumes "scopeLogFilters fs False u = Inr fs'"
  shows "TrimSpace u \<noteq> []" "\<exists>gs. fs' = gs @ [user_filter u]"
  using assms by (auto simp: scopeLogFilters_def split: if_splits sum.splits)

lemma scoped_query_agree:
  assumes q: "run_state (scoped_query env req lt u False) s = (resp, s')"
    and P: "P = limited_sql (he_clickhouse env) u (user_column (mg_config (sv_manager s')) lt)"
    and c: "agree_opt P (mg_conn (sv_manager s)) c" "agree_open P (cl_open (he_clickhouse env)) f"
  shows "fst (run_state (scoped_query (env\<lparr>he_clickhouse := (he_clickhouse env)\<lparr>cl_open := f\<rparr>\<rparr>) req lt u False)
     (s\<lparr>sv_manager := (sv_manager s)\<lparr>mg_conn := c\<rparr>\<rparr>)) = resp"
proof -
  let ?L = "he_clickhouse env"
  show ?thesis
  proof (cases "\<exists>fs t1 t2. scopeLogFilters (lq_Filters req) False u = Inr fs \<and> parseLogBoundary ?L (lq_From req) = Inr t1 \<and>
      parseLogBoundary ?L (lq_To req) = Inr t2")
    case False
    then show ?thesis using q by (auto simp: scoped_query_def split: sum.splits)
  next
    case True
    then obtain fs t1 t2 where t: "scopeLogFilters (lq_Filters req) False u = Inr fs" "parseLogBoundary ?L (lq_From req) = Inr t1"
      "parseLogBoundary ?L (lq_To req) = Inr t2" by blast
    define qr where "qr = \<lparr>qr_Type = lt, qr_From = t1, qr_To = t2, qr_Filters = fs, qr_Columns = lq_Columns req,
             qr_Page = lq_Page req, qr_PageSize = lq_PageSize req, qr_IncludeTotal = lq_IncludeTotal req\<rparr>"
    obtain res m' w' where m: "run_state (Query ?L (he_json env) (he_types env) qr (sv_manager s)) (sv_world s) = ((res, m'), w')"
      by (metis surj_pair)
    have s': "sv_manager s' = m'" and resp: "resp = (case res of Inl e \<Rightarrow> (StatusFailedDependency, Text (err_msg e)) | Inr rows \<Rightarrow> (StatusOK, LogRows rows))"
      using q m unfolding scoped_query_def t sum.case qr_def [symmetric]
      by (auto simp: manager_op_def db_op_def split: sum.splits)
    obtain gs where fs: "qr_Filters qr = gs @ [user_filter u]" "TrimSpace u \<noteq> []"
      using ordinary_scope [OF t(1)] by (auto simp: qr_def)
    have "P = limited_sql ?L u (user_column (mg_config m') (qr_Type qr))" by (simp add: P s' qr_def)
    from Query_agree [OF m fs this c] obtain c' where
      "run_state (Query (?L\<lparr>cl_open := f\<rparr>) (he_json env) (he_types env) qr ((sv_manager s)\<lparr>mg_conn := c\<rparr>)) (sv_world s) =
         ((res, m'\<lparr>mg_conn := c'\<rparr>), w')" by blast
    then show ?thesis
      unfolding scoped_query_def resp
      by (simp add: t qr_def [symmetric] manager_op_def db_op_def split: sum.split)
  qed
qed

lemma server_swap:
  "s\<lparr>sv_world := w, sv_manager := sv_manager (s\<lparr>sv_world := w\<rparr>)\<lparr>mg_conn := c\<rparr>\<rparr> =
   s\<lparr>sv_manager := (sv_manager s)\<lparr>mg_conn := c\<rparr>, sv_world := w\<rparr>"
  by (cases s) simp

text \<open>
  C35. What an ordinary user is answered depends on the rows of that user only.  Take any request to
  the log query that the header of the verified identity does not mark as one of an administrator,
  with whatever filters, and let the log server behind the open connection, or behind the one that
  the request opens, be exchanged for another one with the same tables, which gives the same answers
  to every statement that is limited to the user: whose condition is a conjunction of comparisons,
  one of them that of the column mapped to the user with the name in the identity header, as an
  argument.  Then the answer is the same, whatever the two servers say to any other statement.
  And rows are answered only if the identity is verified.
\<close>

theorem ordinary_log_rows_scoped:
  assumes "run_state (httpApiLogQuery env r verified (Inr q)) s = (resp, s')"
    and "TrimSpace (rq_Header r ''X-SwM-Is-Admin'') \<noteq> ''1''" "ParseLogType (lq_Type q) = Inr lt"
    and "P = limited_sql (he_clickhouse env) (TrimSpace (rq_Header r ''X-SwM-User''))
        (user_column (mg_config (sv_manager s')) lt)"
    and "agree_opt P (mg_conn (sv_manager s)) c" "agree_open P (cl_open (he_clickhouse env)) f"
  shows "fst (run_state (httpApiLogQuery (env\<lparr>he_clickhouse := (he_clickhouse env)\<lparr>cl_open := f\<rparr>\<rparr>) r verified (Inr q))
      (s\<lparr>sv_manager := (sv_manager s)\<lparr>mg_conn := c\<rparr>\<rparr>)) = resp \<and>
    (\<forall>rows. resp = (StatusOK, LogRows rows) \<longrightarrow> verified)"
proof (cases "logRequestIdentity r verified")
  case (Inl e)
  then show ?thesis using assms(1) by (auto simp: httpApiLogQuery_def)
next
  case (Inr ua)
  let ?u = "TrimSpace (rq_Header r ''X-SwM-User'')" and ?s = "s\<lparr>sv_manager := (sv_manager s)\<lparr>mg_conn := c\<rparr>\<rparr>"
  have i: "logRequestIdentity r verified = Inr (?u, False)" "verified"
    using Inr assms(2) by (auto simp: logRequestIdentity_def Let_def split: if_splits)
  show ?thesis
  proof (cases "length (lq_Filters q) > 20 \<or> length (lq_Columns q) > 64")
    case True
    then show ?thesis using assms(1) i by (auto simp: httpApiLogQuery_def)
  next
    case False
    obtain md w1 where md: "run_state GetLogDisplayMode (sv_world s) = (md, w1)" by fastforce
    have d: "run_state (db_op GetLogDisplayMode) s = (md, s\<lparr>sv_world := w1\<rparr>)"
      "run_state (db_op GetLogDisplayMode) ?s = (md, ?s\<lparr>sv_world := w1\<rparr>)"
      by (simp_all add: db_op_def md)
    show ?thesis
    proof (cases "md = Inr ''clickhouse''")
      case False2: False
      then show ?thesis
        using assms(1,3) i False d by (cases md) (auto simp: httpApiLogQuery_def)
    next
      case True
      have q: "run_state (scoped_query env q lt ?u False) (s\<lparr>sv_world := w1\<rparr>) = (resp, s')"
        using assms(1,3) i False d True by (simp add: httpApiLogQuery_def)
      have "agree_opt P (mg_conn (sv_manager (s\<lparr>sv_world := w1\<rparr>))) c" using assms(5) by simp
      from scoped_query_agree [OF q assms(4) this assms(6), unfolded server_swap] show ?thesis
        using i assms(3) False d True by (simp add: httpApiLogQuery_def)
    qed
  qed
qed

definition log_env :: http_env where
  "log_env = sample_env\<lparr>he_clickhouse := sample_ck\<rparr>"

definition log_server :: server where
  "log_server = sample_server\<lparr>
     sv_world := calm_world (example_db\<lparr>t_misc := [\<lparr>mr_k = MiscKeyLogDisplayMode, mr_v = ''clickhouse'', mr_description = []\<rparr>]\<rparr>),
     sv_manager := \<lparr>mg_conn = Some sample_rows, mg_config = sample_log_config, mg_schemas = (\<lambda>_. Some sample_schema)\<rparr>\<rparr>"

definition log_request :: request where
  "log_request = notes_request\<lparr>rq_Header := (\<lambda>h. if h = ''X-SwM-User'' then ''alice'' else if h = ''X-SwM-Is-Admin'' then ''0'' else [])\<rparr>"

definition log_body :: logQueryRequest where
  "log_body = \<lparr>lq_Type = ''authen'', lq_From = ''2026'', lq_To = ''2026-01'', lq_Filters = [],
     lq_Columns = [], lq_Page = 1, lq_PageSize = 10, lq_IncludeTotal = False\<rparr>"

definition log_scoped :: QueryRequest where
  "log_scoped = \<lparr>qr_Type = LogTypeAuthen, qr_From = 4, qr_To = 7, qr_Filters = [user_filter ''alice''], qr_Columns = [],
     qr_Page = 1, qr_PageSize = 10, qr_IncludeTotal = False\<rparr>"

lemma log_mode: "run_state (db_op GetLogDisplayMode) log_server =
    (Inr ''clickhouse'', log_server\<lparr>sv_world := (sv_world log_server)\<lparr>w_n := 1\<rparr>\<rparr>)"
  by (simp add: db_op_def GetLogDisplayMode_def GetMisc_def query_def log_server_def sample_server_def calm_world_def example_db_def)

lemma log_answers:
  "\<exists>rows. run_state (Query sample_ck js types log_scoped (sv_manager log_server)) w = ((Inr rows, sv_manager log_server), w)"
proof -
  let ?B = "build_statements sample_ck sample_log_config sample_mapping sample_schema log_scoped"
  have "\<not> Option.is_none (case ?B of Inl _ \<Rightarrow> None | Inr st \<Rightarrow> Some (sm_query st))" by code_simp
  then obtain st where st: "?B = Inr st" by (cases ?B) simp_all
  have n: "normalized log_scoped = Inr log_scoped"
    by (simp add: normalized_def log_scoped_def zero_time_def Sub_def Let_def)
  have c: "MappingComplete LogTypeAuthen sample_mapping" by code_simp
  have m: "mapping_for sample_log_config LogTypeAuthen = sample_mapping"
    by (simp add: mapping_for_def sample_log_config_def)
  have t: "ts_Name sample_schema = mp_Table sample_mapping" by (simp add: sample_schema_def sample_mapping_def)
  have q: "qr_Type log_scoped = LogTypeAuthen" "qr_IncludeTotal log_scoped = False" by (simp_all add: log_scoped_def)
  have r: "\<exists>rows. run_statements sample_ck sample_rows log_scoped st = Inr rows"
    by (simp add: run_statements_def q sample_rows_def result_rows_def)
  show ?thesis
    using r by (auto simp: Query_def n ensureLoaded_def log_server_def m c t q stream_schema_def st Let_def)
qed

lemma log_row_answer:
  "\<exists>rows s'. run_state (httpApiLogQuery log_env log_request True (Inr log_body)) log_server = ((StatusOK, LogRows rows), s') \<and>
     sv_manager s' = sv_manager log_server"
proof -
  let ?s = "log_server\<lparr>sv_world := (sv_world log_server)\<lparr>w_n := 1\<rparr>\<rparr>"
  have t: "TrimSpace ''alice'' = ''alice''" "TrimSpace ''0'' = ''0''" "TrimSpace ''2026'' = ''2026''" "TrimSpace ''2026-01'' = ''2026-01''"
    by code_simp+
  have i: "logRequestIdentity log_request True = Inr (''alice'', False)"
    by (simp add: logRequestIdentity_def log_request_def t)
  have p: "ParseLogType (lq_Type log_body) = Inr LogTypeAuthen" by (simp add: ParseLogType_def log_body_def)
  have f: "scopeLogFilters (lq_Filters log_body) False ''alice'' = Inr [user_filter ''alice'']" by code_simp
  have b: "parseLogBoundary sample_ck (lq_From log_body) = Inr 4" "parseLogBoundary sample_ck (lq_To log_body) = Inr 7"
    by (simp_all add: parseLogBoundary_def log_body_def t sample_ck_def)
  have few: "\<not> (length (lq_Filters log_body) > 20 \<or> length (lq_Columns log_body) > 64)" by (simp add: log_body_def)
  obtain rows where "run_state (Query sample_ck (he_json log_env) (he_types log_env) log_scoped (sv_manager ?s)) (sv_world ?s) =
      ((Inr rows, sv_manager ?s), sv_world ?s)"
    using log_answers by fastforce
  moreover have "he_clickhouse log_env = sample_ck" by (simp add: log_env_def)
  moreover have "\<lparr>qr_Type = LogTypeAuthen, qr_From = 4, qr_To = 7, qr_Filters = [user_filter ''alice''], qr_Columns = lq_Columns log_body,
      qr_Page = lq_Page log_body, qr_PageSize = lq_PageSize log_body, qr_IncludeTotal = lq_IncludeTotal log_body\<rparr> = log_scoped"
    by (simp add: log_scoped_def log_body_def)
  ultimately have "run_state (scoped_query log_env log_body LogTypeAuthen ''alice'' False) ?s = ((StatusOK, LogRows rows), ?s)"
    unfolding scoped_query_def f sum.case by (simp add: b manager_op_def db_op_def)
  then show ?thesis
    using log_mode few by (auto simp: httpApiLogQuery_def i p)
qed

text \<open>
  Another log server: it gives a row of \<open>bob\<close> to every statement that is not limited to \<open>alice\<close>, and
  the answer to \<open>alice\<close> stays what it was.
\<close>

definition other_rows :: ck_conn where
  "other_rows = sample_rows\<lparr>cc_rows := (\<lambda>sql args. if limited_sql sample_ck ''alice'' ''user'' sql args then Rows [] None
     else Rows [Inr [Basic_any ''bob'']] None)\<rparr>"

theorem ordinary_log_rows_scoped_witness:
  "\<exists>rows. fst (run_state (httpApiLogQuery log_env log_request True (Inr log_body)) log_server) = (StatusOK, LogRows rows) \<and>
     fst (run_state (httpApiLogQuery log_env log_request True (Inr log_body))
       (log_server\<lparr>sv_manager := (sv_manager log_server)\<lparr>mg_conn := Some other_rows\<rparr>\<rparr>)) = (StatusOK, LogRows rows)"
proof -
  let ?P = "limited_sql sample_ck ''alice'' ''user''"
  obtain rows s' where s: "run_state (httpApiLogQuery log_env log_request True (Inr log_body)) log_server = ((StatusOK, LogRows rows), s')"
    "sv_manager s' = sv_manager log_server" using log_row_answer by blast
  have t: "TrimSpace ''alice'' = ''alice''" "TrimSpace ''0'' = ''0''" by code_simp+
  have a: "TrimSpace (rq_Header log_request ''X-SwM-Is-Admin'') \<noteq> ''1''" by (simp add: log_request_def t)
  have lt: "ParseLogType (lq_Type log_body) = Inr LogTypeAuthen" by (simp add: ParseLogType_def log_body_def)
  have col: "user_column sample_log_config LogTypeAuthen = ''user''"
    by (simp add: user_column_def mapping_for_def sample_log_config_def sample_mapping_def map_get_def)
  have P: "?P = limited_sql (he_clickhouse log_env) (TrimSpace (rq_Header log_request ''X-SwM-User''))
      (user_column (mg_config (sv_manager s')) LogTypeAuthen)"
    by (simp add: log_env_def log_request_def t s(2) log_server_def col)
  have "agree ?P sample_rows other_rows" by (simp add: agree_def other_rows_def sample_rows_def)
  then have "agree_opt ?P (mg_conn (sv_manager log_server)) (Some other_rows)"
    by (simp add: agree_opt_def log_server_def)
  moreover have "agree_open ?P (cl_open (he_clickhouse log_env)) (cl_open sample_ck)"
    by (simp add: agree_open_def agree_def sample_ck_def log_env_def)
  moreover have "log_env\<lparr>he_clickhouse := (he_clickhouse log_env)\<lparr>cl_open := cl_open sample_ck\<rparr>\<rparr> = log_env"
    by (simp add: log_env_def)
  ultimately show ?thesis
    using conjunct1 [OF ordinary_log_rows_scoped [OF s(1) a lt P]] s(1) by (metis fst_conv)
qed

end
