(* ===== verification/LogHub.thy ===== *)
theory LogHub
  imports AaaHandler DbMisc
begin

text \<open>
  \<open>pkg/client/logHub/logHub.go\<close>: the queue that carries the log records of the client to the
  log hub.  Producers append under a lock, one worker takes batches off the front and sends them with
  up to three attempts, \<open>Stop\<close> closes the queue.  The RPC \<open>Bulk\<close> is a parameter: what the n-th call
  answers, with its metadata.  Waiting times, the logger and the periodic output of the counters are
  left out; an entry of the log of a batch is kept as a value.
\<close>

subsection \<open>Messages of \<open>loghub.pb.go\<close>\<close>

text \<open>The fields of the messages that this program reads or writes; the rest keep their zero values.\<close>

datatype AttributeValue = StringValue string | IntValue int | BoolValue bool | ArrayValue "AttributeValue list"

record LogEvent =
  ev_Stream :: string
  ev_TimestampUnixNano :: int
  ev_SeverityText :: string
  ev_Attributes :: "(string \<times> AttributeValue) list"

record ItemError =
  ie_Code :: string
  ie_Message :: string
  ie_Field :: string

record BulkItemResult =
  bi_Success :: bool
  bi_Stream :: string
  bi_Error :: "ItemError option"

record BulkResponse =
  br_Items :: "BulkItemResult list"
  br_SuccessCount :: int
  br_FailureCount :: int

type_synonym MD = "string \<Rightarrow> string list"

text \<open>The answer to the n-th call; \<open>None\<close> is a panic inside the call.\<close>

type_synonym bulk = "nat \<Rightarrow> LogEvent list \<Rightarrow> (MD \<times> BulkResponse result) option"

subsection \<open>The queue\<close>

definition defaultSoftMaxQueueSize :: int where "defaultSoftMaxQueueSize = 100000"
definition maxBulkSize :: nat where "maxBulkSize = 300"
definition workerRetryMax :: nat where "workerRetryMax = 2"

text \<open>What the worker logs.\<close>

datatype hub_line =
    PartialFailure nat int int string string  \<comment> \<open>batch, success, failure, trace, sample\<close>
  | WriteFailed nat string go_error  \<comment> \<open>batch, trace, error\<close>
  | WorkerPanic

text \<open>
  The variables of the package.  \<open>hb_calls\<close> counts the calls of \<open>Bulk\<close>; the counters are far from the
  bounds of \<open>int64\<close>.
\<close>

record hub =
  hb_Enable :: bool
  hb_buf :: "LogEvent list"
  hb_bufClosed :: bool
  hb_softMaxQueue :: int
  hb_stopOnce :: bool
  metricEnqueued :: int
  metricSent :: int
  metricDroppedFull :: int
  metricFailedFinal :: int
  metricWorkerPanic :: int
  hb_calls :: nat
  hb_lines :: "hub_line list"

definition hub_zero :: hub where
  "hub_zero = \<lparr>hb_Enable = False, hb_buf = [], hb_bufClosed = False, hb_softMaxQueue = 0, hb_stopOnce = False, metricEnqueued = 0,
     metricSent = 0, metricDroppedFull = 0, metricFailedFinal = 0, metricWorkerPanic = 0, hb_calls = 0, hb_lines = []\<rparr>"

text \<open>\<open>Init\<close>; the argument is what \<open>grpc.NewClient\<close> returns.\<close>

definition hub_Init :: "go_error option \<Rightarrow> int \<Rightarrow> hub \<Rightarrow> go_error option \<times> hub" where
  "hub_Init conn queueSize h =
     (let queueSize = (if queueSize \<le> 0 then defaultSoftMaxQueueSize else queueSize) in
      case conn of Some e \<Rightarrow> (Some e, h)
      | None \<Rightarrow> (None, h\<lparr>hb_softMaxQueue := queueSize, hb_buf := [], hb_bufClosed := False, hb_Enable := True\<rparr>))"

text \<open>The part of \<open>enqueue\<close> under the lock, with whether it took the event, and the whole.\<close>

definition enqueue_locked :: "LogEvent \<Rightarrow> hub \<Rightarrow> bool \<times> hub" where
  "enqueue_locked event h =
     (if hb_bufClosed h then (False, h)
      else if int (length (hb_buf h)) \<ge> hb_softMaxQueue h
      then (False, h\<lparr>metricDroppedFull := metricDroppedFull h + 1\<rparr>)
      else (True, h\<lparr>hb_buf := hb_buf h @ [event]\<rparr>))"

definition count_enqueued :: "hub \<Rightarrow> hub" where
  "count_enqueued h = h\<lparr>metricEnqueued := metricEnqueued h + 1\<rparr>"

definition enqueue :: "LogEvent \<Rightarrow> hub \<Rightarrow> hub" where
  "enqueue event h =
     (if \<not> hb_Enable h then h
      else case enqueue_locked event h of (took, h) \<Rightarrow> if took then count_enqueued h else h)"

text \<open>\<open>Stop\<close> up to the wait for the worker.\<close>

definition hub_Stop :: "hub \<Rightarrow> hub" where
  "hub_Stop h =
     (if \<not> hb_Enable h then h
      else if hb_stopOnce h then h
      else h\<lparr>hb_stopOnce := True, hb_Enable := False, hb_bufClosed := True\<rparr>)"

text \<open>\<open>None\<close> while the worker waits on the condition variable.\<close>

definition pullBatch :: "hub \<Rightarrow> (LogEvent list \<times> bool \<times> hub) option" where
  "pullBatch h =
     (if length (hb_buf h) = 0 \<and> \<not> hb_bufClosed h then None
      else if length (hb_buf h) = 0 \<and> hb_bufClosed h then Some ([], True, h)
      else let n = (if length (hb_buf h) > maxBulkSize then maxBulkSize else length (hb_buf h))
           in Some (take n (hb_buf h), False, h\<lparr>hb_buf := drop n (hb_buf h)\<rparr>))"

subsection \<open>Sending a batch\<close>

definition firstMDValue :: "MD \<Rightarrow> string \<Rightarrow> string" where
  "firstMDValue md key = (case md key of [] \<Rightarrow> [] | v # _ \<Rightarrow> v)"

fun sampleFirstBulkError :: "BulkItemResult list \<Rightarrow> string" where
  "sampleFirstBulkError [] = []"
| "sampleFirstBulkError (it # items) =
     (if bi_Success it then sampleFirstBulkError items
      else (case bi_Error it of
              None \<Rightarrow> ''stream='' @ bi_Stream it @ '' (no error detail)''
            | Some e \<Rightarrow> ''stream='' @ bi_Stream it @ '' code='' @ ie_Code e @ '' msg='' @ ie_Message e @ '' field='' @ ie_Field e))"

fun count_items :: "BulkItemResult list \<Rightarrow> int \<Rightarrow> int \<Rightarrow> int \<times> int" where
  "count_items [] success failure = (success, failure)"
| "count_items (it # items) success failure =
     (if bi_Success it then count_items items (success + 1) failure else count_items items success (failure + 1))"

text \<open>How many events of a batch an answer reports as written and as refused.\<close>

definition bulk_counts :: "nat \<Rightarrow> BulkResponse \<Rightarrow> int \<times> int" where
  "bulk_counts n resp =
     (let success = br_SuccessCount resp; failure = br_FailureCount resp in
      if success = 0 \<and> failure = 0
      then (if length (br_Items resp) > 0 then count_items (br_Items resp) success failure else (int n, failure))
      else (success, failure))"

definition bulk_done :: "LogEvent list \<Rightarrow> string \<Rightarrow> BulkResponse \<Rightarrow> hub \<Rightarrow> hub" where
  "bulk_done events traceID resp h =
     (case bulk_counts (length events) resp of (success, failure) \<Rightarrow>
        let h = h\<lparr>metricSent := metricSent h + success\<rparr> in
        if failure > 0
        then h\<lparr>metricFailedFinal := metricFailedFinal h + failure,
               hb_lines := hb_lines h @ [PartialFailure (length events) success failure traceID (sampleFirstBulkError (br_Items resp))]\<rparr>
        else h)"

definition bulk_failed :: "LogEvent list \<Rightarrow> string \<Rightarrow> go_error \<Rightarrow> hub \<Rightarrow> hub" where
  "bulk_failed events lastTraceID lastErr h =
     h\<lparr>metricFailedFinal := metricFailedFinal h + int (length events),
       hb_lines := hb_lines h @ [WriteFailed (length events) lastTraceID lastErr]\<rparr>"

text \<open>
  The attempts, with how many are left; the result is whether the loop panicked.  The first attempt
  sets the last error and trace before they are read.
\<close>

fun send_loop :: "bulk \<Rightarrow> LogEvent list \<Rightarrow> nat \<Rightarrow> string \<Rightarrow> go_error \<Rightarrow> hub \<Rightarrow> bool \<times> hub" where
  "send_loop bulk events 0 lastTraceID lastErr h = (False, bulk_failed events lastTraceID lastErr h)"
| "send_loop bulk events (Suc left) lastTraceID lastErr h =
     (let answer = bulk (hb_calls h) events; h = h\<lparr>hb_calls := Suc (hb_calls h)\<rparr> in
      case answer of None \<Rightarrow> (True, h)
      | Some (hdr, Inr resp) \<Rightarrow> (False, bulk_done events (firstMDValue hdr ''x-trace-id'') resp h)
      | Some (hdr, Inl err) \<Rightarrow> send_loop bulk events left (firstMDValue hdr ''x-trace-id'') err h)"

definition sendBulk :: "bulk \<Rightarrow> LogEvent list \<Rightarrow> hub \<Rightarrow> bool \<times> hub" where
  "sendBulk bulk events h =
     (if length events = 0 then (False, h) else send_loop bulk events (Suc workerRetryMax) [] (GoError []) h)"

definition worker_recover :: "hub \<Rightarrow> hub" where
  "worker_recover h = h\<lparr>metricWorkerPanic := metricWorkerPanic h + 1, hb_lines := hb_lines h @ [WorkerPanic]\<rparr>"

text \<open>One round of the worker: \<open>None\<close> while it waits, else whether it shuts down.\<close>

definition workerIteration :: "bulk \<Rightarrow> hub \<Rightarrow> (bool \<times> hub) option" where
  "workerIteration bulk h =
     (case pullBatch h of None \<Rightarrow> None
      | Some (batch, finished, h) \<Rightarrow>
          if finished then Some (True, h)
          else (case sendBulk bulk batch h of (panic, h) \<Rightarrow> Some (False, if panic then worker_recover h else h)))"

text \<open>The worker alone with the queue; \<open>None\<close> when it does not return.\<close>

partial_function (option) runWorker :: "bulk \<Rightarrow> hub \<Rightarrow> hub option" where
  "runWorker bulk h =
     Option.bind (workerIteration bulk h) (\<lambda>(shutdown, h). if shutdown then Some h else runWorker bulk h)"

subsection \<open>The events\<close>

definition strAttr :: "string \<Rightarrow> AttributeValue" where "strAttr s = StringValue s"
definition intAttr :: "int \<Rightarrow> AttributeValue" where "intAttr i = IntValue i"
definition boolAttr :: "bool \<Rightarrow> AttributeValue" where "boolAttr b = BoolValue b"
definition strArrayAttr :: "string list \<Rightarrow> AttributeValue" where "strArrayAttr ss = ArrayValue (map strAttr ss)"

definition account_event :: "AccountInfo \<Rightarrow> LogEvent" where
  "account_event info =
     \<lparr>ev_Stream = ''tacacs_account'', ev_TimestampUnixNano = ai_TimeStamp info, ev_SeverityText = ''INFO'',
      ev_Attributes =
        [(''time'', strAttr (ai_Time info)), (''timeStamp'', intAttr (ai_TimeStamp info)),
         (''timeRange'', intAttr (ai_TimeRange info)), (''user'', strAttr (ai_User info)),
         (''switchAddr'', strAttr (ai_SwitchAddr info)), (''serverAddr'', strAttr (ai_ServerAddr info)),
         (''cmd'', strAttr (ai_Cmd info)), (''port'', strAttr (ai_Port info)), (''flags'', intAttr (ai_Flags info)),
         (''authenMethod'', intAttr (ai_AuthenMethod info)), (''privLvl'', intAttr (ai_PrivLvl info)),
         (''authenType'', intAttr (ai_AuthenType info)), (''authenService'', intAttr (ai_AuthenService info)),
         (''arg'', strArrayAttr (ai_Arg info)), (''isSingleConnect'', boolAttr (ai_IsSingleConnect info)),
         (''tacacsClient'', strAttr (ai_TacacsClient info))]\<rparr>"

definition author_event :: "AuthorInfo \<Rightarrow> LogEvent" where
  "author_event info =
     \<lparr>ev_Stream = ''tacacs_author'', ev_TimestampUnixNano = ao_TimeStamp info, ev_SeverityText = ''INFO'',
      ev_Attributes =
        [(''time'', strAttr (ao_Time info)), (''timeStamp'', intAttr (ao_TimeStamp info)),
         (''timeRange'', intAttr (ao_TimeRange info)), (''user'', strAttr (ao_User info)),
         (''switchAddr'', strAttr (ao_SwitchAddr info)), (''serverAddr'', strAttr (ao_ServerAddr info)),
         (''authorStatus'', strAttr (ao_AuthorStatus info)), (''details'', strAttr (ao_Details info)),
         (''cmd'', strAttr (ao_Cmd info)), (''isSingleConnect'', boolAttr (ao_IsSingleConnect info)),
         (''tacacsClient'', strAttr (ao_TacacsClient info))]\<rparr>"

definition authen_event :: "AuthenInfo \<Rightarrow> LogEvent" where
  "authen_event info =
     \<lparr>ev_Stream = ''tacacs_authen'', ev_TimestampUnixNano = an_TimeStamp info, ev_SeverityText = ''INFO'',
      ev_Attributes =
        [(''time'', strAttr (an_Time info)), (''timeStamp'', intAttr (an_TimeStamp info)),
         (''timeRange'', intAttr (an_TimeRange info)), (''user'', strAttr (an_User info)),
         (''switchAddr'', strAttr (an_SwitchAddr info)), (''serverAddr'', strAttr (an_ServerAddr info)),
         (''authenStatus'', strAttr (an_AuthenStatus info)), (''details'', strAttr (an_Details info)),
         (''isSingleConnect'', boolAttr (an_IsSingleConnect info)), (''tacacsClient'', strAttr (an_TacacsClient info))]\<rparr>"

definition hub_LogAccount :: "AccountInfo \<Rightarrow> hub \<Rightarrow> hub" where
  "hub_LogAccount info h = enqueue (account_event info) h"

definition hub_LogAuthor :: "AuthorInfo \<Rightarrow> hub \<Rightarrow> hub" where
  "hub_LogAuthor info h = enqueue (author_event info) h"

definition hub_LogAuthen :: "AuthenInfo \<Rightarrow> hub \<Rightarrow> hub" where
  "hub_LogAuthen info h = enqueue (authen_event info) h"

end
