(* ===== verification/LogHubLaws.thy ===== *)
theory LogHubLaws
  imports LogHub "HOL-Library.Multiset"
begin

text \<open>
  What the queue to the log hub promises: the events name their attributes the way the log queries of
  the server do, a closed queue is drained in a bounded number of calls, and no interleaving of
  producers, worker and \<open>Stop\<close> loses, repeats or reorders an accepted event.
\<close>

subsection \<open>The attributes of the events\<close>

fun value_kind :: "AttributeValue \<Rightarrow> FieldKind" where
  "value_kind (StringValue _) = FieldKindString"
| "value_kind (IntValue _) = FieldKindInt"
| "value_kind (BoolValue _) = FieldKindBool"
| "value_kind (ArrayValue _) = FieldKindStringArray"

lemmas attr_simps = strAttr_def intAttr_def boolAttr_def strArrayAttr_def

text \<open>
  The attributes of the three kinds of events are, in order, exactly the fields that the log
  queries of the server know for that log, each with a value of the kind that the query expects.
\<close>

theorem events_match_query_fields:
  "map (\<lambda>(k, v). (k, value_kind v)) (ev_Attributes (authen_event i)) = map (\<lambda>f. (fs_Key f, fs_Kind f)) (Specs LogTypeAuthen) \<and>
   map (\<lambda>(k, v). (k, value_kind v)) (ev_Attributes (author_event j)) = map (\<lambda>f. (fs_Key f, fs_Kind f)) (Specs LogTypeAuthor) \<and>
   map (\<lambda>(k, v). (k, value_kind v)) (ev_Attributes (account_event k)) = map (\<lambda>f. (fs_Key f, fs_Kind f)) (Specs LogTypeAccount)"
  by (simp add: authen_event_def author_event_def account_event_def attr_simps)

subsection \<open>Sending a batch\<close>

text \<open>What the attempts leave alone.\<close>

definition same_queue :: "hub \<Rightarrow> hub \<Rightarrow> bool" where
  "same_queue h h' = (hb_buf h' = hb_buf h \<and> hb_bufClosed h' = hb_bufClosed h \<and> hb_Enable h' = hb_Enable h \<and>
     hb_softMaxQueue h' = hb_softMaxQueue h \<and> metricEnqueued h' = metricEnqueued h \<and> metricDroppedFull h' = metricDroppedFull h)"

text \<open>An answer that reports every event of the batch once.\<close>

definition honest :: "bulk \<Rightarrow> bool" where
  "honest bulk = (\<forall>n es. es \<noteq> [] \<longrightarrow> (\<exists>hdr r. bulk n es = Some (hdr, r) \<and>
     (case r of Inl _ \<Rightarrow> True
      | Inr resp \<Rightarrow> br_FailureCount resp \<ge> 0 \<and>
          (br_SuccessCount resp + br_FailureCount resp = int (length es) \<or>
           br_SuccessCount resp = 0 \<and> br_FailureCount resp = 0 \<and> length (br_Items resp) \<in> {0, length es}))))"

lemma count_items_sum: "count_items items s f = (s', f') \<Longrightarrow> s' + f' = s + f + int (length items) \<and> f' \<ge> f"
  by (induction items arbitrary: s f) (fastforce split: if_splits)+

lemma bulk_counts_sum:
  assumes "br_FailureCount resp \<ge> 0"
    "br_SuccessCount resp + br_FailureCount resp = int n \<or>
     br_SuccessCount resp = 0 \<and> br_FailureCount resp = 0 \<and> length (br_Items resp) \<in> {0, n}" "n > 0"
  shows "case bulk_counts n resp of (s, f) \<Rightarrow> s + f = int n \<and> f \<ge> 0"
proof (cases "br_SuccessCount resp = 0 \<and> br_FailureCount resp = 0 \<and> br_Items resp \<noteq> []")
  case True
  obtain s f where c: "count_items (br_Items resp) 0 0 = (s, f)" by (metis surj_pair)
  have "length (br_Items resp) = n" using assms(2,3) True by auto
  then show ?thesis using count_items_sum [OF c] True c by (simp add: bulk_counts_def)
next
  case False
  then show ?thesis using assms by (auto simp: bulk_counts_def Let_def)
qed

lemma bulk_done_queue: "same_queue h (bulk_done es t resp h)" "hb_calls (bulk_done es t resp h) = hb_calls h"
  by (auto simp: same_queue_def bulk_done_def Let_def split: prod.split)

lemma bulk_done_counts:
  assumes "case bulk_counts (length es) resp of (s, f) \<Rightarrow> s + f = int (length es) \<and> f \<ge> 0"
  shows "metricSent (bulk_done es t resp h) + metricFailedFinal (bulk_done es t resp h) =
    metricSent h + metricFailedFinal h + int (length es)"
  using assms by (auto simp: bulk_done_def Let_def split: prod.splits)

lemma same_queue_trans: "same_queue a b \<Longrightarrow> same_queue b c \<Longrightarrow> same_queue a c"
  by (simp add: same_queue_def)

lemma send_loop_queue:
  "send_loop bulk es left t e h = (p, h') \<Longrightarrow> same_queue h h' \<and> hb_calls h \<le> hb_calls h' \<and> hb_calls h' \<le> hb_calls h + left"
proof (induction left arbitrary: t e h)
  case 0
  then show ?case by (auto simp: same_queue_def bulk_failed_def)
next
  case (Suc left)
  let ?h = "h\<lparr>hb_calls := Suc (hb_calls h)\<rparr>"
  have q: "same_queue h ?h" by (simp add: same_queue_def)
  show ?case
  proof (cases "bulk (hb_calls h) es")
    case None
    then show ?thesis using Suc.prems q by (auto simp: Let_def)
  next
    case (Some a)
    then obtain hdr r where a: "bulk (hb_calls h) es = Some (hdr, r)" by (metis surj_pair)
    show ?thesis
    proof (cases r)
      case (Inr resp)
      then show ?thesis using Suc.prems a same_queue_trans [OF q bulk_done_queue(1)] bulk_done_queue(2) [where h = ?h] by (auto simp: Let_def)
    next
      case (Inl err)
      have "send_loop bulk es left (firstMDValue hdr ''x-trace-id'') err ?h = (p, h')" using Suc.prems a Inl by (simp add: Let_def)
      from Suc.IH [OF this] show ?thesis using same_queue_trans [OF q] by auto
    qed
  qed
qed

lemma send_loop_counts:
  "honest bulk \<Longrightarrow> es \<noteq> [] \<Longrightarrow> send_loop bulk es left t e h = (p, h') \<Longrightarrow>
   \<not> p \<and> metricSent h' + metricFailedFinal h' = metricSent h + metricFailedFinal h + int (length es) \<and>
   metricWorkerPanic h' = metricWorkerPanic h"
proof (induction left arbitrary: t e h)
  case 0
  then show ?case by (auto simp: bulk_failed_def)
next
  case (Suc left)
  let ?h = "h\<lparr>hb_calls := Suc (hb_calls h)\<rparr>"
  obtain hdr r where a: "bulk (hb_calls h) es = Some (hdr, r)"
    and c: "case r of Inl _ \<Rightarrow> True
      | Inr resp \<Rightarrow> br_FailureCount resp \<ge> 0 \<and>
          (br_SuccessCount resp + br_FailureCount resp = int (length es) \<or>
           br_SuccessCount resp = 0 \<and> br_FailureCount resp = 0 \<and> length (br_Items resp) \<in> {0, length es})"
    using Suc.prems(1,2) unfolding honest_def by blast
  show ?case
  proof (cases r)
    case (Inr resp)
    have 1: "p = False" "h' = bulk_done es (firstMDValue hdr ''x-trace-id'') resp ?h" using Suc.prems(3) a Inr by (simp_all add: Let_def)
    have "case bulk_counts (length es) resp of (s, f) \<Rightarrow> s + f = int (length es) \<and> f \<ge> 0"
      using c Inr Suc.prems(2) by (intro bulk_counts_sum) simp_all
    from bulk_done_counts [OF this, of _ ?h] show ?thesis unfolding 1
      by (simp add: bulk_done_def Let_def split: prod.split)
  next
    case (Inl err)
    have "send_loop bulk es left (firstMDValue hdr ''x-trace-id'') err ?h = (p, h')" using Suc.prems(3) a Inl by (simp add: Let_def)
    from Suc.IH [OF Suc.prems(1,2) this] show ?thesis by simp
  qed
qed

lemma sendBulk_queue:
  assumes "sendBulk bulk es h = (p, h')"
  shows "same_queue h h'" "hb_calls h' \<le> hb_calls h + 3"
  using assms send_loop_queue [of bulk es 3 "[]" "GoError []" h p h']
  by (auto simp: sendBulk_def workerRetryMax_def same_queue_def numeral_3_eq_3 split: if_splits)

lemma sendBulk_counts:
  assumes "honest bulk" "sendBulk bulk es h = (p, h')"
  shows "\<not> p \<and> metricSent h' + metricFailedFinal h' = metricSent h + metricFailedFinal h + int (length es) \<and>
    metricWorkerPanic h' = metricWorkerPanic h"
proof (cases "es = []")
  case True
  then show ?thesis using assms(2) by (simp add: sendBulk_def)
next
  case False
  then have "send_loop bulk es (Suc workerRetryMax) [] (GoError []) h = (p, h')" using assms(2) unfolding sendBulk_def by simp
  then show ?thesis by (rule send_loop_counts [OF assms(1) False])
qed

subsection \<open>A closed queue is drained\<close>

lemma pullBatch_closed:
  assumes "hb_bufClosed h"
  shows "pullBatch h = (if hb_buf h = [] then Some ([], True, h)
    else Some (take maxBulkSize (hb_buf h), False, h\<lparr>hb_buf := drop maxBulkSize (hb_buf h)\<rparr>))"
  using assms by (auto simp: pullBatch_def Let_def)

text \<open>A round of the worker on a closed queue that is not empty.\<close>

lemma iteration_closed:
  assumes "hb_bufClosed h" "hb_buf h \<noteq> []"
  obtains h' where "workerIteration bulk h = Some (False, h')" "hb_bufClosed h'" "hb_buf h' = drop maxBulkSize (hb_buf h)"
    "hb_calls h' \<le> hb_calls h + 3"
    "honest bulk \<Longrightarrow> metricSent h' + metricFailedFinal h' = metricSent h + metricFailedFinal h + int (min maxBulkSize (length (hb_buf h))) \<and>
       metricWorkerPanic h' = metricWorkerPanic h"
proof -
  let ?b = "take maxBulkSize (hb_buf h)" and ?h = "h\<lparr>hb_buf := drop maxBulkSize (hb_buf h)\<rparr>"
  obtain p g where g: "sendBulk bulk ?b ?h = (p, g)" by (metis surj_pair)
  let ?g = "if p then worker_recover g else g"
  have w: "workerIteration bulk h = Some (False, ?g)"
    using assms by (simp add: workerIteration_def pullBatch_closed g)
  show thesis
  proof (rule that [OF w])
    show "hb_bufClosed ?g" "hb_buf ?g = drop maxBulkSize (hb_buf h)" "hb_calls ?g \<le> hb_calls h + 3"
      using sendBulk_queue [OF g] assms(1) by (simp_all add: same_queue_def worker_recover_def)
    assume "honest bulk"
    from sendBulk_counts [OF this g]
    show "metricSent ?g + metricFailedFinal ?g = metricSent h + metricFailedFinal h + int (min maxBulkSize (length (hb_buf h))) \<and>
       metricWorkerPanic ?g = metricWorkerPanic h"
      by (simp add: min.commute)
  qed
qed

text \<open>How many batches a queue of \<open>n\<close> events makes.\<close>

definition batches_of :: "nat \<Rightarrow> nat" where
  "batches_of n = (n + (maxBulkSize - 1)) div maxBulkSize"

lemma batches_of_0: "batches_of 0 = 0"
  by (simp add: batches_of_def maxBulkSize_def)

lemma batches_of_step: "0 < n \<Longrightarrow> batches_of n = Suc (batches_of (n - maxBulkSize))"
proof -
  assume "0 < n"
  then show ?thesis
  proof (cases "n \<le> 300")
    case True
    with \<open>0 < n\<close> have "(n + 299) div 300 = 1" by (intro div_nat_eqI) simp_all
    then show ?thesis using True by (simp add: batches_of_def maxBulkSize_def)
  next
    case False
    then obtain m where "n = m + 300" by (metis le_add_diff_inverse2 nat_le_linear)
    then show ?thesis by (simp add: batches_of_def maxBulkSize_def)
  qed
qed

text \<open>
  C37. Once the queue is closed the worker returns, whatever the log hub answers and even if every call
  panics: the queue is then empty, at most three calls were made for each batch of 300, and if each
  answer reports every event of its batch, every event that was queued is counted once, as sent or as failed.
\<close>

theorem closed_queue_drains:
  assumes "hb_bufClosed h"
  shows "\<exists>h'. runWorker bulk h = Some h' \<and> hb_buf h' = [] \<and>
    hb_calls h' \<le> hb_calls h + 3 * batches_of (length (hb_buf h)) \<and>
    (honest bulk \<longrightarrow> metricSent h' + metricFailedFinal h' = metricSent h + metricFailedFinal h + int (length (hb_buf h)) \<and>
       metricWorkerPanic h' = metricWorkerPanic h)"
  using assms
proof (induction "length (hb_buf h)" arbitrary: h rule: less_induct)
  case less
  show ?case
  proof (cases "hb_buf h = []")
    case True
    then have "runWorker bulk h = Some h"
      using less.prems by (subst runWorker.simps) (simp add: workerIteration_def pullBatch_closed)
    then show ?thesis using True by (simp add: batches_of_0)
  next
    case False
    obtain g where g: "workerIteration bulk h = Some (False, g)" "hb_bufClosed g" "hb_buf g = drop maxBulkSize (hb_buf h)"
      "hb_calls g \<le> hb_calls h + 3"
      "honest bulk \<Longrightarrow> metricSent g + metricFailedFinal g = metricSent h + metricFailedFinal h + int (min maxBulkSize (length (hb_buf h))) \<and>
         metricWorkerPanic g = metricWorkerPanic h"
      using iteration_closed [OF less.prems False] by blast
    have "length (hb_buf g) < length (hb_buf h)" using False g(3) by (simp add: maxBulkSize_def)
    from less.hyps [OF this g(2)] obtain h' where h': "runWorker bulk g = Some h'" "hb_buf h' = []"
      "hb_calls h' \<le> hb_calls g + 3 * batches_of (length (hb_buf g))"
      "honest bulk \<longrightarrow> metricSent h' + metricFailedFinal h' = metricSent g + metricFailedFinal g + int (length (hb_buf g)) \<and>
         metricWorkerPanic h' = metricWorkerPanic g" by blast
    have r: "runWorker bulk h = Some h'" by (subst runWorker.simps) (simp add: g(1) h'(1))
    have "batches_of (length (hb_buf h)) = Suc (batches_of (length (hb_buf g)))"
      using batches_of_step [of "length (hb_buf h)"] False by (simp add: g(3))
    then have c: "hb_calls h' \<le> hb_calls h + 3 * batches_of (length (hb_buf h))" using h'(3) g(4) by simp
    have "honest bulk \<Longrightarrow> metricSent h' + metricFailedFinal h' = metricSent h + metricFailedFinal h + int (length (hb_buf h)) \<and>
       metricWorkerPanic h' = metricWorkerPanic h"
      using g(5) h'(4) by (auto simp: g(3))
    then show ?thesis using r h'(2) c by blast
  qed
qed

subsection \<open>Producers, the worker and \<open>Stop\<close> together\<close>

text \<open>
  A producer has read \<open>Enable\<close> and waits for the lock (\<open>hs_entered\<close>), or has left the lock and has not
  counted its event yet (\<open>hs_uncounted\<close>). The worker sends without holding the lock.
\<close>

datatype worker = Idle | Sending "LogEvent list" | Gone

record hub_state =
  hs_hub :: hub
  hs_entered :: "LogEvent multiset"
  hs_uncounted :: nat
  hs_worker :: worker

datatype hub_label = Accepted LogEvent | Refused LogEvent | Handed "LogEvent list" | Quiet

inductive hub_step :: "bulk \<Rightarrow> hub_state \<Rightarrow> hub_label \<Rightarrow> hub_state \<Rightarrow> bool" for bulk where
  enter: "hb_Enable (hs_hub s) \<Longrightarrow> hub_step bulk s Quiet (s\<lparr>hs_entered := add_mset e (hs_entered s)\<rparr>)"
| accept: "\<lbrakk>e \<in># hs_entered s; enqueue_locked e (hs_hub s) = (True, h)\<rbrakk> \<Longrightarrow>
    hub_step bulk s (Accepted e) (s\<lparr>hs_hub := h, hs_entered := hs_entered s - {#e#}, hs_uncounted := Suc (hs_uncounted s)\<rparr>)"
| refuse: "\<lbrakk>e \<in># hs_entered s; enqueue_locked e (hs_hub s) = (False, h)\<rbrakk> \<Longrightarrow>
    hub_step bulk s (Refused e) (s\<lparr>hs_hub := h, hs_entered := hs_entered s - {#e#}\<rparr>)"
| counted: "hs_uncounted s = Suc n \<Longrightarrow> hub_step bulk s Quiet (s\<lparr>hs_hub := count_enqueued (hs_hub s), hs_uncounted := n\<rparr>)"
| pull: "\<lbrakk>hs_worker s = Idle; pullBatch (hs_hub s) = Some (b, False, h)\<rbrakk> \<Longrightarrow>
    hub_step bulk s Quiet (s\<lparr>hs_hub := h, hs_worker := Sending b\<rparr>)"
| shutdown: "\<lbrakk>hs_worker s = Idle; pullBatch (hs_hub s) = Some (b, True, h)\<rbrakk> \<Longrightarrow>
    hub_step bulk s Quiet (s\<lparr>hs_hub := h, hs_worker := Gone\<rparr>)"
| send: "\<lbrakk>hs_worker s = Sending b; sendBulk bulk b (hs_hub s) = (p, h)\<rbrakk> \<Longrightarrow>
    hub_step bulk s (Handed b) (s\<lparr>hs_hub := if p then worker_recover h else h, hs_worker := Idle\<rparr>)"
| stop: "hub_step bulk s Quiet (s\<lparr>hs_hub := hub_Stop (hs_hub s)\<rparr>)"

inductive hub_run :: "bulk \<Rightarrow> hub_state \<Rightarrow> hub_label list \<Rightarrow> hub_state \<Rightarrow> bool" for bulk s0 where
  refl: "hub_run bulk s0 [] s0"
| step: "hub_run bulk s0 tr s \<Longrightarrow> hub_step bulk s l s' \<Longrightarrow> hub_run bulk s0 (tr @ [l]) s'"

inductive_simps hub_run_Nil: "hub_run bulk s0 [] s"

text \<open>The events that were accepted, those that were refused, and the batches given to \<open>Bulk\<close>, in order.\<close>

definition accepted :: "hub_label list \<Rightarrow> LogEvent list" where
  "accepted tr = concat (map (\<lambda>l. case l of Accepted e \<Rightarrow> [e] | _ \<Rightarrow> []) tr)"

definition refused :: "hub_label list \<Rightarrow> LogEvent list" where
  "refused tr = concat (map (\<lambda>l. case l of Refused e \<Rightarrow> [e] | _ \<Rightarrow> []) tr)"

definition handed :: "hub_label list \<Rightarrow> LogEvent list list" where
  "handed tr = concat (map (\<lambda>l. case l of Handed b \<Rightarrow> [b] | _ \<Rightarrow> []) tr)"

lemma trace_snoc [simp]:
  "accepted [] = []" "refused [] = []" "handed [] = []"
  "accepted (tr @ [l]) = accepted tr @ (case l of Accepted e \<Rightarrow> [e] | _ \<Rightarrow> [])"
  "refused (tr @ [l]) = refused tr @ (case l of Refused e \<Rightarrow> [e] | _ \<Rightarrow> [])"
  "handed (tr @ [l]) = handed tr @ (case l of Handed b \<Rightarrow> [b] | _ \<Rightarrow> [])"
  by (simp_all add: accepted_def refused_def handed_def)

fun in_flight :: "worker \<Rightarrow> LogEvent list" where
  "in_flight (Sending b) = b"
| "in_flight _ = []"

definition hub_started :: "hub \<Rightarrow> hub_state" where
  "hub_started h = \<lparr>hs_hub = h, hs_entered = {#}, hs_uncounted = 0, hs_worker = Idle\<rparr>"

text \<open>What holds in every state, with the trace that led to it.\<close>

definition hub_inv :: "bulk \<Rightarrow> hub_label list \<Rightarrow> hub_state \<Rightarrow> bool" where
  "hub_inv bulk tr s = (let h = hs_hub s in
     accepted tr = concat (handed tr) @ in_flight (hs_worker s) @ hb_buf h \<and>
     (\<forall>b\<in>set (handed tr). 0 < length b \<and> length b \<le> maxBulkSize) \<and>
     (\<forall>b. hs_worker s = Sending b \<longrightarrow> 0 < length b \<and> length b \<le> maxBulkSize) \<and>
     (hs_worker s = Gone \<longrightarrow> hb_bufClosed h \<and> hb_buf h = []) \<and>
     int (length (hb_buf h)) \<le> max 0 (hb_softMaxQueue h) \<and>
     metricEnqueued h + int (hs_uncounted s) = int (length (accepted tr)) \<and>
     metricDroppedFull h \<le> int (length (refused tr)) \<and>
     (honest bulk \<longrightarrow> metricSent h + metricFailedFinal h = int (length (concat (handed tr)))))"

lemma pullBatch_cases:
  assumes "pullBatch h = Some (b, d, h')"
  shows "if d then b = [] \<and> h' = h \<and> hb_bufClosed h \<and> hb_buf h = []
    else hb_buf h = b @ hb_buf h' \<and> 0 < length b \<and> length b \<le> maxBulkSize \<and> h' = h\<lparr>hb_buf := hb_buf h'\<rparr>"
  using assms by (auto simp: pullBatch_def Let_def maxBulkSize_def split: if_splits)

lemma enqueue_locked_cases:
  assumes "enqueue_locked e h = (took, h')"
  shows "if took then \<not> hb_bufClosed h \<and> int (length (hb_buf h)) < hb_softMaxQueue h \<and> h' = h\<lparr>hb_buf := hb_buf h @ [e]\<rparr>
    else h' = h \<or> h' = h\<lparr>metricDroppedFull := metricDroppedFull h + 1\<rparr>"
  using assms by (auto simp: enqueue_locked_def split: if_splits)

lemma hub_inv_step:
  assumes "hub_step bulk s l s'" "hub_inv bulk tr s"
  shows "hub_inv bulk (tr @ [l]) s'"
  using assms
proof cases
  case (accept e h)
  then show ?thesis using assms(2) enqueue_locked_cases [OF accept(4)] by (auto simp: hub_inv_def Let_def)
next
  case (refuse e h)
  then show ?thesis using assms(2) enqueue_locked_cases [OF refuse(4)] by (auto simp: hub_inv_def Let_def)
next
  case (pull b h)
  then show ?thesis using assms(2) pullBatch_cases [OF pull(4)]
    by (cases h) (auto simp: hub_inv_def Let_def)
next
  case (shutdown b h)
  then show ?thesis using assms(2) pullBatch_cases [OF shutdown(4)] by (auto simp: hub_inv_def Let_def)
next
  case (send b p h)
  let ?h = "if p then worker_recover h else h"
  have q: "hb_buf ?h = hb_buf (hs_hub s)" "hb_bufClosed ?h = hb_bufClosed (hs_hub s)" "hb_softMaxQueue ?h = hb_softMaxQueue (hs_hub s)"
    "metricEnqueued ?h = metricEnqueued (hs_hub s)" "metricDroppedFull ?h = metricDroppedFull (hs_hub s)"
    using sendBulk_queue(1) [OF send(4)] by (simp_all add: same_queue_def worker_recover_def)
  have "honest bulk \<Longrightarrow> metricSent ?h + metricFailedFinal ?h =
      metricSent (hs_hub s) + metricFailedFinal (hs_hub s) + int (length b)"
    using sendBulk_counts [OF _ send(4)] by simp
  then show ?thesis using assms(2) send(3) unfolding send(1,2) hub_inv_def by (simp add: Let_def q)
qed (use assms(2) in \<open>auto simp: hub_inv_def Let_def count_enqueued_def hub_Stop_def\<close>)

text \<open>
  C36. However producers, the worker and \<open>Stop\<close> interleave after \<open>Init\<close>: the accepted events are, in
  order and each once, those of the batches already given to \<open>Bulk\<close>, the batch in flight and the queue
  (the attempts of one batch may send it several times); a batch has 1 to 300 events; the queue respects its limit; the worker only leaves when the queue is closed and
  empty; and the counters agree with what happened.
\<close>

theorem no_event_lost:
  assumes "hub_Init conn queueSize hub_zero = (None, h0)" "hub_run bulk (hub_started h0) tr s"
  shows "accepted tr = concat (handed tr) @ in_flight (hs_worker s) @ hb_buf (hs_hub s) \<and>
    (\<forall>b\<in>set (handed tr). 0 < length b \<and> length b \<le> 300) \<and>
    int (length (hb_buf (hs_hub s))) \<le> (if queueSize \<le> 0 then 100000 else queueSize) \<and>
    (hs_worker s = Gone \<longrightarrow> hb_bufClosed (hs_hub s) \<and> accepted tr = concat (handed tr)) \<and>
    metricEnqueued (hs_hub s) + int (hs_uncounted s) = int (length (accepted tr)) \<and>
    metricDroppedFull (hs_hub s) \<le> int (length (refused tr)) \<and>
    (honest bulk \<longrightarrow> metricSent (hs_hub s) + metricFailedFinal (hs_hub s) = int (length (concat (handed tr))))"
proof -
  have h0: "h0 = hub_zero\<lparr>hb_softMaxQueue := (if queueSize \<le> 0 then 100000 else queueSize), hb_buf := [], hb_bufClosed := False, hb_Enable := True\<rparr>"
    using assms(1) by (auto simp: hub_Init_def defaultSoftMaxQueueSize_def Let_def split: option.splits)
  have "hub_inv bulk tr s \<and> hb_softMaxQueue (hs_hub s) = hb_softMaxQueue h0"
    using assms(2)
  proof induction
    case refl
    show ?case by (simp add: hub_inv_def hub_started_def h0 hub_zero_def)
  next
    case (step tr s l s')
    have "hb_softMaxQueue (hs_hub s') = hb_softMaxQueue (hs_hub s)"
      using step.hyps(2) by cases (auto simp: enqueue_locked_def pullBatch_def Let_def count_enqueued_def hub_Stop_def worker_recover_def
        same_queue_def dest!: sendBulk_queue(1) split: if_splits)
    then show ?case using hub_inv_step [OF step.hyps(2)] step.IH by simp
  qed
  then show ?thesis by (auto simp: hub_inv_def Let_def maxBulkSize_def h0)
qed

subsection \<open>Witnesses\<close>

text \<open>A log hub that cannot be reached.\<close>

definition no_service :: bulk where
  "no_service = (\<lambda>_ _. Some (\<lambda>_. [], Inl (GoError ''unavailable'')))"

definition sample_event :: LogEvent where
  "sample_event = \<lparr>ev_Stream = ''tacacs_authen'', ev_TimestampUnixNano = 0, ev_SeverityText = ''INFO'', ev_Attributes = []\<rparr>"

theorem closed_queue_drains_witness:
  "\<exists>h'. runWorker no_service (hub_zero\<lparr>hb_bufClosed := True, hb_buf := [sample_event, sample_event]\<rparr>) = Some h' \<and>
     hb_buf h' = [] \<and> metricSent h' + metricFailedFinal h' = 2 \<and> hb_calls h' \<le> 3"
proof -
  have "honest no_service" by (simp add: honest_def no_service_def)
  then show ?thesis
    using closed_queue_drains [of "hub_zero\<lparr>hb_bufClosed := True, hb_buf := [sample_event, sample_event]\<rparr>" no_service]
    by (auto simp: hub_zero_def batches_of_def maxBulkSize_def)
qed

theorem no_event_lost_witness:
  "\<exists>h0 s. hub_Init None 0 hub_zero = (None, h0) \<and> hub_run no_service (hub_started h0) [Quiet, Accepted sample_event] s \<and>
     hb_buf (hs_hub s) = [sample_event]"
proof -
  let ?h = "snd (hub_Init None 0 hub_zero)"
  let ?s1 = "(hub_started ?h)\<lparr>hs_entered := add_mset sample_event (hs_entered (hub_started ?h))\<rparr>"
  let ?s2 = "?s1\<lparr>hs_hub := ?h\<lparr>hb_buf := [sample_event]\<rparr>, hs_entered := hs_entered ?s1 - {#sample_event#}, hs_uncounted := Suc (hs_uncounted ?s1)\<rparr>"
  have i: "hub_Init None 0 hub_zero = (None, ?h)" by (simp add: hub_Init_def)
  have 1: "hub_step no_service (hub_started ?h) Quiet ?s1"
    by (rule hub_step.enter) (simp add: hub_started_def hub_Init_def)
  have 2: "hub_step no_service ?s1 (Accepted sample_event) ?s2"
    by (rule hub_step.accept) (simp_all add: hub_started_def hub_Init_def enqueue_locked_def hub_zero_def defaultSoftMaxQueueSize_def)
  have r: "hub_run no_service (hub_started ?h) [Quiet, Accepted sample_event] ?s2"
    using hub_run.step [OF hub_run.step [OF hub_run.refl 1] 2] by simp
  have "accepted [Quiet, Accepted sample_event] = [sample_event]" "handed [Quiet, Accepted sample_event] = []"
    by (simp_all add: accepted_def handed_def)
  with no_event_lost [OF i r] have "hb_buf (hs_hub ?s2) = [sample_event]" by (simp add: hub_started_def)
  with i r show ?thesis by blast
qed

end
