(* ===== verification/RateLimit.thy ===== *)
theory RateLimit
  imports SwmAuth DbApproval "HOL-Library.AList"
begin

text \<open>
  \<open>pkg/swm/http/ratelimit.go\<close>: the buckets that bound the logins and registrations of the web
  process by source, account and in total.  The mutex makes the uses of the map sequential; the order
  in which Go ranges over it does not matter, since the deletions are independent.  Audit output is
  left out.
\<close>

subsection \<open>Buckets\<close>

definition loginAttemptWindow :: int where "loginAttemptWindow = 60 * 10 ^ 9"  \<comment> \<open>in nanoseconds\<close>
definition loginAttemptMax :: int where "loginAttemptMax = 5"
definition globalAttemptMax :: int where "globalAttemptMax = 1000"
definition lockoutDur :: int where "lockoutDur = 15 * 60 * 10 ^ 9"
definition maxRateBuckets :: nat where "maxRateBuckets = 100000"

record ipBucket =
  bk_count :: int
  bk_windowStart :: int
  bk_failCount :: int
  bk_lockedUntil :: int

type_synonym buckets = "(string \<times> ipBucket) list"

definition new_bucket :: "int \<Rightarrow> ipBucket" where
  "new_bucket now = \<lparr>bk_count = 0, bk_windowStart = now, bk_failCount = 0, bk_lockedUntil = zero_time\<rparr>"

definition set_bucket :: "string \<Rightarrow> (ipBucket \<Rightarrow> ipBucket) \<Rightarrow> buckets \<Rightarrow> buckets" where
  "set_bucket key f bs = (case map_of bs key of None \<Rightarrow> bs | Some b \<Rightarrow> AList.update key (f b) bs)"

text \<open>The entries that the ticker and a full map remove.\<close>

definition idle_bucket :: "int \<Rightarrow> ipBucket \<Rightarrow> bool" where
  "idle_bucket now b = (now - bk_windowStart b > 2 * loginAttemptWindow \<and> bk_lockedUntil b < now)"

definition cleanup_buckets :: "int \<Rightarrow> buckets \<Rightarrow> buckets" where
  "cleanup_buckets now bs = filter (\<lambda>(k, b). \<not> idle_bucket now b) bs"

definition roll_window :: "int \<Rightarrow> ipBucket \<Rightarrow> ipBucket" where
  "roll_window now b =
     (if now - bk_windowStart b > loginAttemptWindow
      then (let b = b\<lparr>bk_windowStart := now, bk_count := 0\<rparr> in
            if \<not> now < bk_lockedUntil b then b\<lparr>bk_failCount := 0, bk_lockedUntil := zero_time\<rparr> else b)
      else b)"

text \<open>The result tells whether there is a bucket for the key in the map that is returned.\<close>

definition getBucketLocked :: "string \<Rightarrow> int \<Rightarrow> buckets \<Rightarrow> bool \<times> buckets" where
  "getBucketLocked key now bs =
     (if key = [] then (False, bs)
      else (case map_of bs key of
        Some b \<Rightarrow> (True, AList.update key (roll_window now b) bs)
      | None \<Rightarrow>
          let bs = (if length bs \<ge> maxRateBuckets then cleanup_buckets now bs else bs) in
          if length bs \<ge> maxRateBuckets then (False, bs)
          else (True, AList.update key (new_bucket now) bs)))"

definition key_limit :: "string \<Rightarrow> int" where
  "key_limit key = (if key = ''global'' then globalAttemptMax else loginAttemptMax)"

definition locked_at :: "int \<Rightarrow> buckets \<Rightarrow> string \<Rightarrow> bool" where
  "locked_at now bs key = (case map_of bs key of None \<Rightarrow> False | Some b \<Rightarrow> now < bk_lockedUntil b)"

text \<open>The loop that stops at the first locked key, and the one that counts.\<close>

fun locked_loop :: "string list \<Rightarrow> int \<Rightarrow> buckets \<Rightarrow> bool \<times> buckets" where
  "locked_loop [] now bs = (False, bs)"
| "locked_loop (key # keys) now bs =
     (case getBucketLocked key now bs of (found, bs) \<Rightarrow>
        if found \<and> locked_at now bs key then (True, bs) else locked_loop keys now bs)"

fun count_loop :: "string list \<Rightarrow> int \<Rightarrow> bool \<Rightarrow> buckets \<Rightarrow> bool \<times> buckets" where
  "count_loop [] now locked bs = (locked, bs)"
| "count_loop (key # keys) now locked bs =
     (case getBucketLocked key now bs of (found, bs) \<Rightarrow>
        if \<not> found then count_loop keys now locked bs
        else let bs = set_bucket key (\<lambda>b. b\<lparr>bk_count := bk_count b + 1\<rparr>) bs;
                 over = (case map_of bs key of None \<Rightarrow> False | Some b \<Rightarrow> bk_count b > key_limit key)
             in count_loop keys now (locked \<or> over) bs)"

text \<open>The section of \<open>LoginRateLimit\<close> under the lock: whether the request is refused.\<close>

definition limit_keys :: "string list \<Rightarrow> int \<Rightarrow> buckets \<Rightarrow> bool \<times> buckets" where
  "limit_keys keys now bs =
     (case locked_loop keys now bs of (locked, bs) \<Rightarrow>
        if \<not> locked then count_loop keys now False bs else (True, bs))"

definition fail_bucket :: "string \<Rightarrow> int \<Rightarrow> ipBucket \<Rightarrow> ipBucket" where
  "fail_bucket key now b =
     (let b = b\<lparr>bk_failCount := bk_failCount b + 1\<rparr> in
      if bk_failCount b \<ge> key_limit key then b\<lparr>bk_lockedUntil := now + lockoutDur, bk_failCount := 0\<rparr> else b)"

text \<open>The loops of \<open>RecordLoginFailure\<close> and \<open>ResetLoginCounter\<close>.\<close>

fun fail_keys :: "string list \<Rightarrow> int \<Rightarrow> buckets \<Rightarrow> buckets" where
  "fail_keys [] now bs = bs"
| "fail_keys (key # keys) now bs =
     (case getBucketLocked key now bs of (found, bs) \<Rightarrow>
        if \<not> found then fail_keys keys now bs else fail_keys keys now (set_bucket key (fail_bucket key now) bs))"

fun reset_keys :: "string list \<Rightarrow> buckets \<Rightarrow> buckets" where
  "reset_keys [] bs = bs"
| "reset_keys (key # keys) bs =
     (if key = ''global'' then reset_keys keys bs
      else reset_keys keys (set_bucket key (\<lambda>b. b\<lparr>bk_failCount := 0, bk_lockedUntil := zero_time\<rparr>) bs))"

subsection \<open>The keys of a request\<close>

text \<open>
  A request to the web process: the \<open>username\<close> of the URL query and what \<open>gin\<close> keeps under
  \<open>rate-limit-username\<close>.  \<open>url.ParseQuery\<close> and \<open>Get("username")\<close> on the bytes of a body are a parameter.
\<close>

record web_request = request +
  wq_QueryUsername :: string
  wq_RateUser :: "string option"

definition requestUsername :: "(bytes \<Rightarrow> string result) \<Rightarrow> web_request \<Rightarrow> string \<times> web_request" where
  "requestUsername form c =
     (case wq_RateUser c of
        Some username \<Rightarrow> (TrimSpace username, c)
      | None \<Rightarrow>
          if TrimSpace (wq_QueryUsername c) \<noteq> [] then (TrimSpace (wq_QueryUsername c), c)
          else (case rq_Body c of
            NilBody \<Rightarrow> ([], c)
          | Body raw err \<Rightarrow>
              if rq_Method c = ''GET'' then ([], c)
              else if rq_ContentLength c \<le> 0 \<or> rq_ContentLength c > 8192 then ([], c)
              else let c = c\<lparr>rq_Body := Body raw None\<rparr> in
              if err \<noteq> None then ([], c)
              else if length raw > 8192 then ([], c)
              else (case form raw of Inl _ \<Rightarrow> ([], c) | Inr v \<Rightarrow> (TrimSpace v, c))))"

definition rateLimitKeys :: "(bytes \<Rightarrow> string result) \<Rightarrow> web_request \<Rightarrow> string list \<times> web_request" where
  "rateLimitKeys form c =
     (case requestUsername form c of (username, c) \<Rightarrow>
        if username \<noteq> []
        then ([''ip:'' @ TrimSpace (rq_ClientIP c), ''global'', ''user:'' @ ToLower username], c\<lparr>wq_RateUser := Some username\<rparr>)
        else ([''ip:'' @ TrimSpace (rq_ClientIP c), ''global''], c))"

definition LoginRateLimit :: "(bytes \<Rightarrow> string result) \<Rightarrow> int \<Rightarrow> web_request \<Rightarrow> buckets \<Rightarrow> bool \<times> web_request \<times> buckets" where
  "LoginRateLimit form now c bs =
     (case rateLimitKeys form c of (keys, c) \<Rightarrow>
        (case limit_keys keys now bs of (locked, bs) \<Rightarrow> (locked, c, bs)))"

definition RecordLoginFailure :: "(bytes \<Rightarrow> string result) \<Rightarrow> int \<Rightarrow> web_request \<Rightarrow> buckets \<Rightarrow> buckets" where
  "RecordLoginFailure form now c bs = fail_keys (fst (rateLimitKeys form c)) now bs"

definition ResetLoginCounter :: "(bytes \<Rightarrow> string result) \<Rightarrow> web_request \<Rightarrow> buckets \<Rightarrow> buckets" where
  "ResetLoginCounter form c bs = reset_keys (fst (rateLimitKeys form c)) bs"

end
