(* ===== verification/RateLimitLaws.thy ===== *)
theory RateLimitLaws
  imports RateLimit
begin

text \<open>
  What the buckets promise for one key, over any sequence of uses of the map: at most the limit of
  requests pass in a window, and a lockout lasts.  The account key is taken from the query of the URL
  when there is one, which the last section shows to open a way around the bucket of an account.
\<close>

subsection \<open>Any sequence of uses\<close>

datatype login_op = Attempt "string list" int | Failed "string list" int | Succeeded "string list" | Sweep int

text \<open>The key lists of the attempts that passed, and the buckets afterwards.\<close>

fun login_run :: "login_op list \<Rightarrow> buckets \<Rightarrow> string list list \<times> buckets" where
  "login_run [] bs = ([], bs)"
| "login_run (Attempt keys now # ops) bs =
     (case limit_keys keys now bs of (refused, bs) \<Rightarrow>
        case login_run ops bs of (passed, bs) \<Rightarrow> (if refused then passed else keys # passed, bs))"
| "login_run (Failed keys now # ops) bs = login_run ops (fail_keys keys now bs)"
| "login_run (Succeeded keys # ops) bs = login_run ops (reset_keys keys bs)"
| "login_run (Sweep now # ops) bs = login_run ops (cleanup_buckets now bs)"

fun op_time :: "login_op \<Rightarrow> int option" where
  "op_time (Attempt _ now) = Some now"
| "op_time (Failed _ now) = Some now"
| "op_time (Sweep now) = Some now"
| "op_time (Succeeded _) = None"

text \<open>
  A property of the bucket of \<open>k\<close> that the uses of the map at the times \<open>T\<close> keep; a client of this
  contract gets it over whole sequences.
\<close>

locale bucket_property =
  fixes k :: string and T :: "int \<Rightarrow> bool" and P :: "ipBucket \<Rightarrow> bool"
  assumes stays: "P b \<Longrightarrow> T now \<Longrightarrow> \<not> idle_bucket now b"
    and rolls: "P b \<Longrightarrow> T now \<Longrightarrow> P (roll_window now b)"
    and counts: "P b \<Longrightarrow> P (b\<lparr>bk_count := bk_count b + 1\<rparr>)"
    and fails: "P b \<Longrightarrow> T now \<Longrightarrow> P (fail_bucket k now b)"

definition has_bucket :: "string \<Rightarrow> (ipBucket \<Rightarrow> bool) \<Rightarrow> buckets \<Rightarrow> bool" where
  "has_bucket k P bs = (\<exists>b. map_of bs k = Some b \<and> P b)"

lemma cleanup_keeps: "map_of bs k = Some b \<Longrightarrow> \<not> idle_bucket now b \<Longrightarrow> map_of (cleanup_buckets now bs) k = Some b"
  by (induction bs) (auto simp: cleanup_buckets_def split: if_splits)

lemma set_bucket_same: "map_of (set_bucket key f bs) key = map_option f (map_of bs key)"
  by (auto simp: set_bucket_def update_conv' split: option.split)

lemma set_bucket_other: "k \<noteq> key \<Longrightarrow> map_of (set_bucket key f bs) k = map_of bs k"
  by (auto simp: set_bucket_def update_conv' split: option.split)

lemma set_bucket_has:
  assumes "has_bucket k P bs" "\<And>b. key = k \<Longrightarrow> P b \<Longrightarrow> P (f b)"
  shows "has_bucket k P (set_bucket key f bs)"
  using assms by (cases "key = k") (auto simp: has_bucket_def set_bucket_same set_bucket_other)

lemma has_bucket_other [simp]: "key \<noteq> k \<Longrightarrow> has_bucket k P (set_bucket key f bs) = has_bucket k P bs"
  by (simp add: has_bucket_def set_bucket_other)

context bucket_property begin

lemma sweep_has: "has_bucket k P bs \<Longrightarrow> T now \<Longrightarrow> has_bucket k P (cleanup_buckets now bs)"
  using cleanup_keeps stays by (fastforce simp: has_bucket_def)

lemma get_has:
  assumes "has_bucket k P bs" "T now"
  shows "has_bucket k P (snd (getBucketLocked key now bs))"
proof (cases "key = k")
  case True
  then show ?thesis using assms rolls by (auto simp: has_bucket_def getBucketLocked_def update_conv')
next
  case False
  then show ?thesis using assms sweep_has [OF assms]
    by (auto simp: has_bucket_def getBucketLocked_def update_conv' Let_def split: option.splits)
qed

lemma get_found: "has_bucket k P bs \<Longrightarrow> k \<noteq> [] \<Longrightarrow> fst (getBucketLocked k now bs)"
  by (auto simp: has_bucket_def getBucketLocked_def)

lemma locked_loop_has: "has_bucket k P bs \<Longrightarrow> T now \<Longrightarrow> has_bucket k P (snd (locked_loop keys now bs))"
proof (induction keys arbitrary: bs)
  case (Cons key keys)
  obtain found g where g: "getBucketLocked key now bs = (found, g)" by (metis surj_pair)
  have "has_bucket k P g" using get_has [OF Cons.prems, of key] g by simp
  then show ?case using Cons by (simp add: g)
qed simp

lemma count_loop_has: "has_bucket k P bs \<Longrightarrow> T now \<Longrightarrow> has_bucket k P (snd (count_loop keys now locked bs))"
proof (induction keys arbitrary: bs locked)
  case (Cons key keys)
  obtain found g where g: "getBucketLocked key now bs = (found, g)" by (metis surj_pair)
  have "has_bucket k P g" using get_has [OF Cons.prems, of key] g by simp
  moreover from this have "has_bucket k P (set_bucket key (\<lambda>b. b\<lparr>bk_count := bk_count b + 1\<rparr>) g)"
    by (rule set_bucket_has) (rule counts)
  ultimately show ?case using Cons by (simp add: g Let_def)
qed simp

lemma limit_has: "has_bucket k P bs \<Longrightarrow> T now \<Longrightarrow> has_bucket k P (snd (limit_keys keys now bs))"
  using locked_loop_has [of bs now keys] count_loop_has
  by (auto simp: limit_keys_def split: prod.splits)

lemma fail_has: "has_bucket k P bs \<Longrightarrow> T now \<Longrightarrow> has_bucket k P (fail_keys keys now bs)"
proof (induction keys arbitrary: bs)
  case (Cons key keys)
  obtain found g where g: "getBucketLocked key now bs = (found, g)" by (metis surj_pair)
  have h: "has_bucket k P g" using get_has [OF Cons.prems, of key] g by simp
  then have "has_bucket k P (set_bucket key (fail_bucket key now) g)"
    by (rule set_bucket_has) (use fails Cons.prems(2) in auto)
  then show ?case using Cons h by (simp add: g)
qed simp

end

lemma reset_other: "k \<notin> set keys \<Longrightarrow> has_bucket k P bs \<Longrightarrow> has_bucket k P (reset_keys keys bs)"
  by (induction keys arbitrary: bs) auto

lemma reset_has:
  assumes "has_bucket k P bs" "\<And>b. P b \<Longrightarrow> P (b\<lparr>bk_failCount := 0, bk_lockedUntil := zero_time\<rparr>)"
  shows "has_bucket k P (reset_keys keys bs)"
  using assms(1)
proof (induction keys arbitrary: bs)
  case (Cons key keys)
  have "has_bucket k P (set_bucket key (\<lambda>b. b\<lparr>bk_failCount := 0, bk_lockedUntil := zero_time\<rparr>) bs)"
    using Cons.prems by (rule set_bucket_has) (rule assms(2))
  then show ?case using Cons by simp
qed simp

text \<open>The two properties: a window has begun and counted \<open>n\<close> requests; a lockout that began at \<open>t\<close>.\<close>

interpretation window: bucket_property k "\<lambda>now. now \<le> w + loginAttemptWindow" "\<lambda>b. bk_windowStart b = w \<and> n \<le> bk_count b" for k w n
  by unfold_locales (auto simp: idle_bucket_def roll_window_def fail_bucket_def Let_def loginAttemptWindow_def)

interpretation lockout: bucket_property k "\<lambda>now. t \<le> now \<and> now < t + lockoutDur" "\<lambda>b. t + lockoutDur \<le> bk_lockedUntil b" for k t
  by unfold_locales (auto simp: idle_bucket_def roll_window_def fail_bucket_def Let_def lockoutDur_def)

subsection \<open>A lockout lasts\<close>

lemma locked_loop_locks:
  assumes "has_bucket k (\<lambda>b. t + lockoutDur \<le> bk_lockedUntil b) bs" "t \<le> now" "now < t + lockoutDur" "k \<in> set keys" "k \<noteq> []"
  shows "fst (locked_loop keys now bs)"
  using assms(1,4)
proof (induction keys arbitrary: bs)
  case (Cons key keys)
  obtain found g where g: "getBucketLocked key now bs = (found, g)" by (metis surj_pair)
  have h: "has_bucket k (\<lambda>b. t + lockoutDur \<le> bk_lockedUntil b) g"
    using lockout.get_has [OF Cons.prems(1), of now key] assms(2,3) g by simp
  show ?case
  proof (cases "key = k")
    case True
    have found using lockout.get_found [OF Cons.prems(1) assms(5), of now] g True by simp
    moreover have "locked_at now g k" using h assms(3) by (auto simp: has_bucket_def locked_at_def)
    ultimately show ?thesis using g True by simp
  next
    case False
    then show ?thesis using Cons h by (simp add: g)
  qed
qed simp

lemma lockout_run:
  assumes "has_bucket k (\<lambda>b. t + lockoutDur \<le> bk_lockedUntil b) bs" "k \<noteq> []"
    and "\<forall>op\<in>set ops. \<forall>now. op_time op = Some now \<longrightarrow> t \<le> now \<and> now < t + lockoutDur"
    and "\<forall>keys. Succeeded keys \<in> set ops \<longrightarrow> k \<notin> set keys"
  shows "\<forall>keys\<in>set (fst (login_run ops bs)). k \<notin> set keys"
  using assms(1,3,4)
proof (induction ops arbitrary: bs)
  case (Cons op ops)
  have next_run: "has_bucket k (\<lambda>b. t + lockoutDur \<le> bk_lockedUntil b) g \<Longrightarrow> \<forall>keys\<in>set (fst (login_run ops g)). k \<notin> set keys" for g
    using Cons.IH Cons.prems(2,3) by (meson list.set_intros(2))
  show ?case
  proof (cases op)
    case (Attempt keys now)
    have T: "t \<le> now" "now < t + lockoutDur" using Cons.prems(2) Attempt by auto
    obtain refused g where g: "limit_keys keys now bs = (refused, g)" by (metis surj_pair)
    have "has_bucket k (\<lambda>b. t + lockoutDur \<le> bk_lockedUntil b) g"
      using lockout.limit_has [OF Cons.prems(1), of now keys] T g by simp
    then have "\<forall>keys\<in>set (fst (login_run ops g)). k \<notin> set keys" by (rule next_run)
    moreover have "refused" if "k \<in> set keys"
    proof -
      have "fst (locked_loop keys now bs)" by (rule locked_loop_locks [OF Cons.prems(1) T that assms(2)])
      then show ?thesis using g by (simp add: limit_keys_def split: prod.splits)
    qed
    ultimately show ?thesis by (auto simp: Attempt g split: prod.splits)
  next
    case (Failed keys now)
    then have "t \<le> now \<and> now < t + lockoutDur" using Cons.prems(2) by auto
    from next_run [OF lockout.fail_has [OF Cons.prems(1) this]] show ?thesis by (simp add: Failed)
  next
    case (Succeeded keys)
    then have "k \<notin> set keys" using Cons.prems(3) by auto
    from next_run [OF reset_other [OF this Cons.prems(1)]] show ?thesis by (simp add: Succeeded)
  next
    case (Sweep now)
    then have "t \<le> now \<and> now < t + lockoutDur" using Cons.prems(2) by auto
    from next_run [OF lockout.sweep_has [OF Cons.prems(1) this]] show ?thesis by (simp add: Sweep)
  qed
qed simp

text \<open>The failure that reaches the limit begins a lockout.\<close>

lemma failure_locks:
  assumes "k \<in> set keys" "distinct keys" "k \<noteq> []" "map_of bs k = Some b" "now - bk_windowStart b \<le> loginAttemptWindow"
    "key_limit k \<le> bk_failCount b + 1"
  shows "has_bucket k (\<lambda>b. now + lockoutDur \<le> bk_lockedUntil b) (fail_keys keys now bs)"
  using assms(1,2,4)
proof (induction keys arbitrary: bs)
  case (Cons key keys)
  show ?case
  proof (cases "key = k")
    case True
    have g: "getBucketLocked k now bs = (True, AList.update k b bs)"
      using Cons.prems(3) assms(3,5) by (simp add: getBucketLocked_def roll_window_def)
    have "has_bucket k (\<lambda>b. now + lockoutDur \<le> bk_lockedUntil b) (set_bucket k (fail_bucket k now) (AList.update k b bs))"
      using assms(6) by (simp add: has_bucket_def set_bucket_same update_conv' fail_bucket_def)
    from lockout.fail_has [OF this, of now keys] show ?thesis
      using True g by (simp add: lockoutDur_def)
  next
    case False
    obtain found g where g: "getBucketLocked key now bs = (found, g)" by (metis surj_pair)
    have "\<not> idle_bucket now b" using assms(5) by (auto simp: idle_bucket_def loginAttemptWindow_def)
    then have m: "map_of g k = Some b"
      using g False Cons.prems(3) cleanup_keeps
      by (auto simp: getBucketLocked_def update_conv' Let_def split: if_splits option.splits)
    show ?thesis using Cons.IH [of g] Cons.IH [of "set_bucket key (fail_bucket key now) g"] Cons.prems(1,2) False m
      by (simp add: g set_bucket_other)
  qed
qed simp

subsection \<open>A window lets the limit pass\<close>

lemma count_loop_locked: "fst (count_loop keys now True bs)"
  by (induction keys arbitrary: bs) (simp_all add: Let_def split: prod.split)

text \<open>Counting at \<open>k\<close>: the loop that ends unlocked has counted one more and stayed within the limit.\<close>

lemma count_loop_counts:
  assumes "has_bucket k (\<lambda>b. bk_windowStart b = w \<and> n \<le> bk_count b) bs" "now \<le> w + loginAttemptWindow" "k \<in> set keys" "k \<noteq> []"
    "\<not> fst (count_loop keys now locked bs)"
  shows "has_bucket k (\<lambda>b. bk_windowStart b = w \<and> n + 1 \<le> bk_count b) (snd (count_loop keys now locked bs)) \<and> n + 1 \<le> key_limit k"
  using assms(1,3,5)
proof (induction keys arbitrary: bs locked)
  case (Cons key keys)
  obtain found g where g: "getBucketLocked key now bs = (found, g)" by (metis surj_pair)
  have h: "has_bucket k (\<lambda>b. bk_windowStart b = w \<and> n \<le> bk_count b) g"
    using window.get_has [OF Cons.prems(1) assms(2), of key] g by simp
  define g' where "g' = set_bucket key (\<lambda>b. b\<lparr>bk_count := bk_count b + 1\<rparr>) g"
  define over where "over = (case map_of g' key of None \<Rightarrow> False | Some b \<Rightarrow> bk_count b > key_limit key)"
  have step: "count_loop (key # keys) now locked bs = (if found then count_loop keys now (locked \<or> over) g' else count_loop keys now locked g)"
    by (simp add: g g'_def over_def Let_def)
  show ?case
  proof (cases "key = k")
    case True
    have f: found using window.get_found [OF Cons.prems(1) assms(4), of now] g True by simp
    obtain b where b: "map_of g k = Some b" "bk_windowStart b = w" "n \<le> bk_count b" using h by (auto simp: has_bucket_def)
    have g': "map_of g' k = Some (b\<lparr>bk_count := bk_count b + 1\<rparr>)" by (simp add: g'_def True set_bucket_same b)
    have "\<not> over"
      using Cons.prems(3) step f count_loop_locked [of keys now g'] by (cases over) simp_all
    then have "n + 1 \<le> key_limit k" using g' b(3) True by (simp add: over_def)
    moreover have "has_bucket k (\<lambda>b. bk_windowStart b = w \<and> n + 1 \<le> bk_count b) g'" using g' b by (simp add: has_bucket_def)
    from window.count_loop_has [OF this assms(2), of keys "locked \<or> over"]
    have "has_bucket k (\<lambda>b. bk_windowStart b = w \<and> n + 1 \<le> bk_count b) (snd (count_loop (key # keys) now locked bs))"
      using step f by simp
    ultimately show ?thesis by blast
  next
    case False
    then have k: "k \<in> set keys" using Cons.prems(2) by simp
    have h': "has_bucket k (\<lambda>b. bk_windowStart b = w \<and> n \<le> bk_count b) g'" using h False by (simp add: g'_def)
    show ?thesis
      using Cons.IH [OF h k, of locked] Cons.IH [OF h' k, of "locked \<or> over"] Cons.prems(3) unfolding step
      by (cases found) (simp_all only: if_True if_False simp_thms)
  qed
qed simp

lemma limit_counts:
  assumes "has_bucket k (\<lambda>b. bk_windowStart b = w \<and> n \<le> bk_count b) bs" "now \<le> w + loginAttemptWindow" "k \<in> set keys" "k \<noteq> []"
    "limit_keys keys now bs = (False, g)"
  shows "has_bucket k (\<lambda>b. bk_windowStart b = w \<and> n + 1 \<le> bk_count b) g \<and> n + 1 \<le> key_limit k"
proof -
  obtain l h where l: "locked_loop keys now bs = (l, h)" by (metis surj_pair)
  have "has_bucket k (\<lambda>b. bk_windowStart b = w \<and> n \<le> bk_count b) h"
    using window.locked_loop_has [OF assms(1,2), of keys] l by simp
  moreover have "\<not> l" "count_loop keys now False h = (False, g)" using assms(5) l by (simp_all add: limit_keys_def split: if_splits)
  ultimately show ?thesis using count_loop_counts [OF _ assms(2,3,4), of n h False] by simp
qed

lemma window_run:
  assumes "has_bucket k (\<lambda>b. bk_windowStart b = w \<and> n \<le> bk_count b) bs" "k \<noteq> []"
    and "\<forall>op\<in>set ops. \<forall>now. op_time op = Some now \<longrightarrow> now \<le> w + loginAttemptWindow"
  shows "int (length (filter (\<lambda>keys. k \<in> set keys) (fst (login_run ops bs)))) \<le> max 0 (key_limit k - n)"
  using assms(1,3)
proof (induction ops arbitrary: bs n)
  case (Cons op ops)
  have ops: "\<forall>op\<in>set ops. \<forall>now. op_time op = Some now \<longrightarrow> now \<le> w + loginAttemptWindow" using Cons.prems(2) by simp
  show ?case
  proof (cases op)
    case (Attempt keys now)
    have T: "now \<le> w + loginAttemptWindow" using Cons.prems(2) Attempt by auto
    obtain refused g where g: "limit_keys keys now bs = (refused, g)" by (metis surj_pair)
    obtain passed r where r: "login_run ops g = (passed, r)" by (metis surj_pair)
    show ?thesis
    proof (cases "\<not> refused \<and> k \<in> set keys")
      case True
      have h: "has_bucket k (\<lambda>b. bk_windowStart b = w \<and> n + 1 \<le> bk_count b) g" "n + 1 \<le> key_limit k"
        using limit_counts [OF Cons.prems(1) T _ assms(2), of keys g] True g by simp_all
      show ?thesis using Cons.IH [OF h(1) ops] h(2) True by (simp add: Attempt g r)
    next
      case False
      have "has_bucket k (\<lambda>b. bk_windowStart b = w \<and> n \<le> bk_count b) g"
        using window.limit_has [OF Cons.prems(1) T, of keys] g by simp
      from Cons.IH [OF this ops] show ?thesis using False by (auto simp: Attempt g r)
    qed
  next
    case (Failed keys now)
    then have "now \<le> w + loginAttemptWindow" using Cons.prems(2) by auto
    from Cons.IH [OF window.fail_has [OF Cons.prems(1) this] ops] show ?thesis by (simp add: Failed)
  next
    case (Succeeded keys)
    have "has_bucket k (\<lambda>b. bk_windowStart b = w \<and> n \<le> bk_count b) (reset_keys keys bs)"
      by (rule reset_has [OF Cons.prems(1)]) simp
    from Cons.IH [OF this ops] show ?thesis by (simp add: Succeeded)
  next
    case (Sweep now)
    then have "now \<le> w + loginAttemptWindow" using Cons.prems(2) by auto
    from Cons.IH [OF window.sweep_has [OF Cons.prems(1) this] ops] show ?thesis by (simp add: Sweep)
  qed
qed simp

text \<open>
  C38. Over any sequence of attempts, failures, successes and cleanings by any callers: while the window
  of a source or account is open, at most five requests with its key pass (a thousand in total); and from
  the failure that reaches that number on, none passes for 15 minutes, unless a login with the key succeeds.
\<close>

theorem login_throttled:
  assumes "map_of bs k = Some b" "k \<noteq> []"
  shows "(\<forall>ops. (\<forall>op\<in>set ops. \<forall>now. op_time op = Some now \<longrightarrow> now \<le> bk_windowStart b + loginAttemptWindow) \<longrightarrow>
      int (length (filter (\<lambda>keys. k \<in> set keys) (fst (login_run ops bs)))) \<le> max 0 (key_limit k - bk_count b)) \<and>
    (\<forall>keys t ops. k \<in> set keys \<longrightarrow> distinct keys \<longrightarrow> t \<le> bk_windowStart b + loginAttemptWindow \<longrightarrow> key_limit k \<le> bk_failCount b + 1 \<longrightarrow>
      (\<forall>op\<in>set ops. \<forall>now. op_time op = Some now \<longrightarrow> t \<le> now \<and> now < t + lockoutDur) \<longrightarrow>
      (\<forall>keys. Succeeded keys \<in> set ops \<longrightarrow> k \<notin> set keys) \<longrightarrow>
      (\<forall>keys\<in>set (fst (login_run (Failed keys t # ops) bs)). k \<notin> set keys))"
proof (intro conjI allI impI)
  fix ops assume "\<forall>op\<in>set ops. \<forall>now. op_time op = Some now \<longrightarrow> now \<le> bk_windowStart b + loginAttemptWindow"
  then show "int (length (filter (\<lambda>keys. k \<in> set keys) (fst (login_run ops bs)))) \<le> max 0 (key_limit k - bk_count b)"
    using assms by (intro window_run [where w = "bk_windowStart b"]) (simp_all add: has_bucket_def)
next
  fix keys t ops
  assume a: "k \<in> set keys" "distinct keys" "t \<le> bk_windowStart b + loginAttemptWindow" "key_limit k \<le> bk_failCount b + 1"
    and o: "\<forall>op\<in>set ops. \<forall>now. op_time op = Some now \<longrightarrow> t \<le> now \<and> now < t + lockoutDur"
      "\<forall>keys. Succeeded keys \<in> set ops \<longrightarrow> k \<notin> set keys"
  have "has_bucket k (\<lambda>b. t + lockoutDur \<le> bk_lockedUntil b) (fail_keys keys t bs)"
    using a by (intro failure_locks [OF _ _ assms(2,1)]) simp_all
  from lockout_run [OF this assms(2) o]
  show "\<forall>keys\<in>set (fst (login_run (Failed keys t # ops) bs)). k \<notin> set keys" by simp
qed

subsection \<open>The account of the bucket\<close>

text \<open>
  A request with a \<open>username\<close> in its query never touches the bucket of another account, whatever
  account its form names.
\<close>

lemma get_other:
  assumes "k \<noteq> key" "length bs < maxRateBuckets"
  shows "map_of (snd (getBucketLocked key now bs)) k = map_of bs k"
  using assms by (auto simp: getBucketLocked_def update_conv' Let_def split: option.split)

lemma query_names_the_bucket:
  assumes "wq_RateUser c = None" "TrimSpace (wq_QueryUsername c) = q" "q \<noteq> []"
  shows "fst (rateLimitKeys form c) = [''ip:'' @ TrimSpace (rq_ClientIP c), ''global'', ''user:'' @ ToLower q]"
  using assms by (simp add: rateLimitKeys_def requestUsername_def)

lemma length_update: "length (AList.update k v al) \<le> Suc (length al)"
  by (induction al) auto

lemma length_set_bucket: "length (set_bucket key f bs) = length bs"
proof (cases "map_of bs key")
  case (Some b)
  then have "key \<in> fst ` set bs" by (metis image_eqI fst_conv map_of_SomeD)
  then have "length (AList.update key v bs) = length bs" for v by (induction bs) auto
  then show ?thesis by (simp add: set_bucket_def Some)
qed (simp add: set_bucket_def)

lemma length_get: "length bs < maxRateBuckets \<Longrightarrow> length (snd (getBucketLocked key now bs)) \<le> Suc (length bs)"
  using length_update by (auto simp: getBucketLocked_def Let_def split: option.split)

lemma fail_other:
  "k \<notin> set keys \<Longrightarrow> length bs + length keys \<le> maxRateBuckets \<Longrightarrow> map_of (fail_keys keys now bs) k = map_of bs k"
proof (induction keys arbitrary: bs)
  case (Cons key keys)
  obtain found g where g: "getBucketLocked key now bs = (found, g)" by (metis surj_pair)
  have "map_of g k = map_of bs k" "length g \<le> Suc (length bs)"
    using get_other [of k key bs now] length_get [of bs key now] Cons.prems g by simp_all
  then show ?case using Cons by (simp add: g set_bucket_other length_set_bucket)
qed simp

text \<open>
  A failed login whose URL carries another \<open>username\<close> leaves the bucket of the account in its form alone.
\<close>

theorem account_lockout_evaded:
  assumes "wq_RateUser c = None" "TrimSpace (wq_QueryUsername c) = q" "q \<noteq> []" "ToLower q \<noteq> victim"
    "length bs + 3 \<le> maxRateBuckets"
  shows "map_of (RecordLoginFailure form now c bs) (''user:'' @ victim) = map_of bs (''user:'' @ victim)"
  unfolding RecordLoginFailure_def query_names_the_bucket [OF assms(1-3)]
  by (rule fail_other) (use assms(4,5) in auto)

subsection \<open>Witnesses\<close>

theorem login_throttled_witness:
  "[''ip:10.0.0.1''] \<notin> set (fst (login_run [Failed [''ip:10.0.0.1''] 4, Attempt [''ip:10.0.0.1''] 5]
     [(''ip:10.0.0.1'', \<lparr>bk_count = 4, bk_windowStart = 0, bk_failCount = 4, bk_lockedUntil = zero_time\<rparr>)]))"
proof -
  let ?k = "''ip:10.0.0.1''" and ?b = "\<lparr>bk_count = 4, bk_windowStart = 0, bk_failCount = 4, bk_lockedUntil = zero_time\<rparr>"
  have "map_of [(?k, ?b)] ?k = Some ?b" "?k \<noteq> []" by simp_all
  note t = login_throttled [OF this, THEN conjunct2, rule_format, of "[?k]" 4 "[Attempt [?k] 5]"]
  have "\<forall>keys\<in>set (fst (login_run [Failed [?k] 4, Attempt [?k] 5] [(?k, ?b)])). ?k \<notin> set keys"
    by (rule ballI, rule t) (auto simp: loginAttemptWindow_def key_limit_def loginAttemptMax_def lockoutDur_def)
  then show ?thesis by auto
qed

theorem account_lockout_evaded_witness:
  "map_of (RecordLoginFailure (\<lambda>_. Inr ''bob'') 5
     \<lparr>rq_Method = ''POST'', rq_Path = ''/login'', rq_Header = (\<lambda>_. []), rq_Body = Body [1] None, rq_ContentLength = 1,
      rq_ClientIP = ''10.0.0.1'', wq_QueryUsername = ''x'', wq_RateUser = None\<rparr> []) ''user:bob'' = None"
proof -
  have "TrimSpace ''x'' = ''x''" by code_simp
  then show ?thesis
    using account_lockout_evaded [of "\<lparr>rq_Method = ''POST'', rq_Path = ''/login'', rq_Header = (\<lambda>_. []), rq_Body = Body [1] None,
      rq_ContentLength = 1, rq_ClientIP = ''10.0.0.1'', wq_QueryUsername = ''x'', wq_RateUser = None\<rparr>" "''x''" "''bob''" "[]"
      "\<lambda>_. Inr ''bob''" 5]
    by (simp add: maxRateBuckets_def ToLower_def)
qed

end
