(* ===== verification/SwmWeb.thy ===== *)
theory SwmWeb
  imports RateLimit
begin

text \<open>
  The web process, \<open>pkg/swm/http\<close>: sessions (\<open>handler.go\<close>), the CSRF token (\<open>csrf.go\<close>), its own calls
  of the server (\<open>internal_request.go\<close>, \<open>user_status.go\<close>), and the proxy with its access control
  (\<open>proxy.go\<close>).  \<open>httpclient\<close>, the parsing of URLs and JSON, the random bytes and the cookie
  store are parameters; a session is what the store has decoded.  What \<open>ReverseProxy\<close> does to a request
  after \<open>ServeHTTP\<close>, log and audit output are left out.
\<close>

subsection \<open>Parameters and sessions\<close>

type_synonym headers = "(string \<times> string) list"

record web_lib =
  wl_get :: "string \<Rightarrow> headers \<Rightarrow> bytes result"  \<comment> \<open>\<open>httpclient.Get\<close>\<close>
  wl_post :: "string \<Rightarrow> headers \<Rightarrow> bytes \<Rightarrow> bytes result"
  wl_url_path :: "string \<Rightarrow> string result"  \<comment> \<open>\<open>url.Parse\<close> and \<open>Path\<close>\<close>
  wl_path_escape :: "string \<Rightarrow> string"
  wl_marshal :: "(string \<times> string) list \<Rightarrow> bytes"
  wl_status :: "bytes \<Rightarrow> string result"  \<comment> \<open>the field \<open>status\<close>, empty when absent\<close>
  wl_admins :: "bytes \<Rightarrow> string list option result"  \<comment> \<open>\<open>None\<close> is \<open>null\<close>\<close>
  wl_peek :: peek_json
  wl_form :: "bytes \<Rightarrow> string result"

record web_conf =
  wc_TacacsManagerUrl :: string
  wc_Secret :: string  \<comment> \<open>what \<open>ResolveSwmSecret\<close> returns\<close>
  wc_SessionTimeOut :: int  \<comment> \<open>in minutes\<close>

text \<open>The clock, in nanoseconds and as a Unix time, and the next nonce and token.\<close>

record web_now =
  wn_now :: int
  wn_unix :: int
  wn_nonce :: string
  wn_token :: string

text \<open>The values of a session; \<open>nil\<close> is \<open>None\<close>.\<close>

record web_session =
  ws_authenticated :: "bool option"
  ws_username :: "string option"
  ws_last_access :: "int option"
  ws_password_reset_only :: "bool option"
  ws_csrf :: "string option"

definition Clear :: web_session where
  "Clear = \<lparr>ws_authenticated = None, ws_username = None, ws_last_access = None, ws_password_reset_only = None, ws_csrf = None\<rparr>"

text \<open>Messages stand for the Chinese texts; \<open>Forward\<close> is a request given to the reverse proxy.\<close>

datatype web_answer = WJson int string | WHtml int string string | Redirect string | Forward request

subsection \<open>Requests of the process itself\<close>

definition swmSystemUser :: string where "swmSystemUser = ''__swm-system__''"

definition buildSwmInternalHeaders ::
  "web_lib \<Rightarrow> web_conf \<Rightarrow> web_now \<Rightarrow> string \<Rightarrow> string \<Rightarrow> bytes \<Rightarrow> headers result" where
  "buildSwmInternalHeaders L conf n m fullURL body =
     (if wc_Secret conf = [] then Inr []
      else (case wl_url_path L fullURL of Inl e \<Rightarrow> Inl (GoError (''parse url: '' @ err_msg e))
        | Inr path \<Rightarrow> Inr [(''X-SwM-User'', swmSystemUser), (''X-SwM-Is-Admin'', ''1''),
            (''X-SwM-Signature'', computeSignatureHeader (wn_unix n) (wn_nonce n) m path swmSystemUser ''1'' body (wc_Secret conf))]))"

definition signedInternalGet :: "web_lib \<Rightarrow> web_conf \<Rightarrow> web_now \<Rightarrow> string \<Rightarrow> bytes result" where
  "signedInternalGet L conf n fullURL =
     (case buildSwmInternalHeaders L conf n ''GET'' fullURL [] of Inl e \<Rightarrow> Inl e | Inr headers \<Rightarrow> wl_get L fullURL headers)"

definition signedInternalPost :: "web_lib \<Rightarrow> web_conf \<Rightarrow> web_now \<Rightarrow> string \<Rightarrow> bytes \<Rightarrow> bytes result" where
  "signedInternalPost L conf n fullURL body =
     (case buildSwmInternalHeaders L conf n ''POST'' fullURL body of Inl e \<Rightarrow> Inl e | Inr headers \<Rightarrow> wl_post L fullURL headers body)"

definition TrimRight_slash :: "string \<Rightarrow> string" where
  "TrimRight_slash s = rev (dropWhile (\<lambda>c. c = CHR ''/'') (rev s))"

definition getUserStatus :: "web_lib \<Rightarrow> web_conf \<Rightarrow> web_now \<Rightarrow> string \<Rightarrow> string result" where
  "getUserStatus L conf n username =
     (if TrimSpace username = [] then Inl (GoError ''empty username'')
      else (case signedInternalGet L conf n (TrimRight_slash (wc_TacacsManagerUrl conf) @ ''/internal/user/status/'' @ wl_path_escape L username) of
        Inl e \<Rightarrow> Inl e
      | Inr body \<Rightarrow> (case wl_status L body of
          Inl e \<Rightarrow> Inl (GoError (''decode user status: '' @ err_msg e))
        | Inr status \<Rightarrow> if status = [] then Inl (GoError ''empty user status'') else Inr status)))"

definition adminCacheTTL :: int where "adminCacheTTL = 30 * 10 ^ 9"

text \<open>\<open>adminCache\<close> and \<open>adminCacheAt\<close>; the locks make the uses sequential.\<close>

record admin_cache =
  adminCache :: "string list option"
  adminCacheAt :: int

definition cached_admins :: "admin_cache \<Rightarrow> string list" where
  "cached_admins c = (case adminCache c of None \<Rightarrow> [] | Some a \<Rightarrow> a)"

definition getAdminUsers :: "web_lib \<Rightarrow> web_conf \<Rightarrow> web_now \<Rightarrow> admin_cache \<Rightarrow> string list \<times> admin_cache" where
  "getAdminUsers L conf n c =
     (if adminCache c \<noteq> None \<and> wn_now n - adminCacheAt c < adminCacheTTL then (cached_admins c, c)
      else (case signedInternalGet L conf n (wc_TacacsManagerUrl conf @ ''/tacacs/user/get-admin'') of
        Inl e \<Rightarrow> (cached_admins c, c)
      | Inr msg \<Rightarrow> (case wl_admins L msg of
          Inl e \<Rightarrow> (cached_admins c, c)
        | Inr admins \<Rightarrow> (let c = \<lparr>adminCache = admins, adminCacheAt = wn_now n\<rparr> in (cached_admins c, c)))))"

subsection \<open>The session of a request\<close>

definition isAjax :: "request \<Rightarrow> bool" where
  "isAjax c =
     (if rq_Header c ''X-Requested-With'' = ''XMLHttpRequest'' then True
      else let accept = rq_Header c ''Accept'' in
        str_Contains accept ''application/json'' \<and> \<not> str_Contains accept ''text/html'')"

definition redirectOrJSON :: "request \<Rightarrow> string \<Rightarrow> string \<Rightarrow> web_answer" where
  "redirectOrJSON c location msg = (if isAjax c then WJson 401 msg else Redirect location)"

definition passwordResetPathAllowed :: "request \<Rightarrow> bool" where
  "passwordResetPathAllowed c =
     (if rq_Method c = ''GET'' \<and> rq_Path c = ''/'' then True
      else rq_Method c = ''POST'' \<and> rq_Path c = ''/tacacs/user/update/password'')"

definition EnsureCSRFToken :: "web_now \<Rightarrow> web_session \<Rightarrow> web_session" where
  "EnsureCSRFToken n s =
     (case ws_csrf s of Some v \<Rightarrow> if v \<noteq> [] then s else s\<lparr>ws_csrf := Some (wn_token n)\<rparr>
      | None \<Rightarrow> s\<lparr>ws_csrf := Some (wn_token n)\<rparr>)"

definition expired :: "web_conf \<Rightarrow> web_now \<Rightarrow> web_session \<Rightarrow> bool" where
  "expired conf n s = (case ws_last_access s of None \<Rightarrow> True
     | Some t \<Rightarrow> wn_now n - t > wc_SessionTimeOut conf * (60 * 10 ^ 9))"

text \<open>
  \<open>AuthRequired\<close>: the answer that ends the request, or the user name, with the session as it is saved.
\<close>

definition AuthRequired :: "web_lib \<Rightarrow> web_conf \<Rightarrow> web_now \<Rightarrow> request \<Rightarrow> web_session \<Rightarrow> (web_answer + string) \<times> web_session" where
  "AuthRequired L conf n c s =
     (if ws_authenticated s = None then (Inl (redirectOrJSON c ''/login'' ''not logged in''), s)
      else if expired conf n s then (Inl (redirectOrJSON c ''/login'' ''session expired''), Clear)
      else (case ws_username s of
        None \<Rightarrow> (Inl (redirectOrJSON c ''/login'' ''invalid session''), Clear)
      | Some username \<Rightarrow>
          if TrimSpace username = [] then (Inl (redirectOrJSON c ''/login'' ''invalid session''), Clear)
          else (case getUserStatus L conf n username of
            Inl e \<Rightarrow> (Inl (redirectOrJSON c ''/login'' ''account status unknown''), s)
          | Inr status \<Rightarrow>
              let go_on = (\<lambda>s. (Inr username, EnsureCSRFToken n (s\<lparr>ws_last_access := Some (wn_now n)\<rparr>))) in
              if status = ''0'' then (Inl (redirectOrJSON c ''/login'' ''account disabled''), Clear)
              else if status = ''2'' then
                (if \<not> passwordResetPathAllowed c then (Inl (redirectOrJSON c ''/'' ''change the password first''), s)
                 else go_on (s\<lparr>ws_password_reset_only := Some True\<rparr>))
              else if status = ''1'' then go_on (s\<lparr>ws_password_reset_only := Some False\<rparr>)
              else (Inl (redirectOrJSON c ''/login'' ''invalid account status''), s))))"

definition csrfHeaderName :: string where "csrfHeaderName = ''X-CSRF-Token''"

text \<open>\<open>CSRFProtect\<close>: the answer, if it ends the request.\<close>

definition CSRFProtect :: "request \<Rightarrow> web_session \<Rightarrow> web_answer option" where
  "CSRFProtect c s =
     (let m = rq_Method c in
      if m = ''GET'' \<or> m = ''HEAD'' \<or> m = ''OPTIONS'' then None
      else let expected = (case ws_csrf s of None \<Rightarrow> [] | Some v \<Rightarrow> v); got = rq_Header c csrfHeaderName in
        if expected = [] \<or> got = [] \<or> expected \<noteq> got then Some (WJson 403 ''CSRF token check failed'') else None)"

subsection \<open>The proxy\<close>

text \<open>The lists and the check by path of \<open>proxy.go\<close>, a copy of those of \<open>acl.go\<close>.\<close>

definition web_adminOnlyPrefixes :: "string list" where
  "web_adminOnlyPrefixes = [''/tacacs/user/get-admin'', ''/tacacs/user/delete'', ''/tacacs/user/create'',
     ''/tacacs/user/clear/'', ''/tacacs/template/command/'', ''/tacacs/template/server/'']"

definition web_adminWritePrefixes :: "string list" where
  "web_adminWritePrefixes = [''/tacacs/system/'', ''/tacacs/template/role/'']"

definition web_adminOnlyExact :: "string list" where
  "web_adminOnlyExact = [''/tacacs/user/reset/password'', ''/tacacs/meta/refresh'', ''/tacacs/system/log-config'']"

definition web_ownershipBodyUserPaths :: "string list" where
  "web_ownershipBodyUserPaths = [''/tacacs/user/update/password'', ''/tacacs/user/update/notes'',
     ''/tacacs/user/update/basicInfo'', ''/tacacs/approval/create'']"

definition web_hasBodyMethod :: "string \<Rightarrow> bool" where
  "web_hasBodyMethod m = (m = ''POST'' \<or> m = ''PUT'' \<or> m = ''DELETE'' \<or> m = ''PATCH'')"

definition web_pathRequiresAdmin :: "string \<Rightarrow> string \<Rightarrow> bool" where
  "web_pathRequiresAdmin path m =
     (if path \<in> set web_adminOnlyExact then True
      else if list_ex (HasPrefix path) web_adminOnlyPrefixes then True
      else if web_hasBodyMethod m then list_ex (HasPrefix path) web_adminWritePrefixes
      else False)"

text \<open>The checks of a body that is not empty; the answer, if one of them fails.\<close>

definition check_body :: "web_lib \<Rightarrow> string \<Rightarrow> string \<Rightarrow> bool \<Rightarrow> bytes \<Rightarrow> web_answer option" where
  "check_body L path username isAdmin body =
     (if path = ''/tacacs/approval/update'' \<and>
         (case pj_Status (wl_peek L) body of Inl _ \<Rightarrow> False | Inr st \<Rightarrow> st \<noteq> 0 \<and> \<not> isAdmin)
      then Some (WJson 403 ''may not decide approvals'')
      else if path \<in> set web_ownershipBodyUserPaths \<and> \<not> isAdmin \<and>
         (case pj_User (wl_peek L) body of Inl _ \<Rightarrow> False | Inr u \<Rightarrow> u \<noteq> [] \<and> u \<noteq> username)
      then Some (WJson 403 ''may not change data of others'')
      else None)"

text \<open>Steps 4 to 6: strip the headers of the client, set the identity, sign.\<close>

definition strip_swm :: "(string \<Rightarrow> string) \<Rightarrow> string \<Rightarrow> string" where
  "strip_swm h = (\<lambda>k. if HasPrefix (ToLower k) ''x-swm-'' then [] else h k)"

definition inject_identity :: "web_conf \<Rightarrow> web_now \<Rightarrow> string \<Rightarrow> bool \<Rightarrow> request \<Rightarrow> request" where
  "inject_identity conf n username isAdmin r =
     (let isAdminVal = (if isAdmin then ''1'' else ''0'');
          r = r\<lparr>rq_Header := (strip_swm (rq_Header r))(''X-SwM-User'' := username, ''X-SwM-Is-Admin'' := isAdminVal)\<rparr>
      in if wc_Secret conf \<noteq> [] then signRequest (wn_unix n) (wn_nonce n) (wc_Secret conf) username isAdminVal r else r)"

definition proxy_body :: "web_lib \<Rightarrow> string \<Rightarrow> bool \<Rightarrow> request \<Rightarrow> web_answer option \<times> request" where
  "proxy_body L username isAdmin r =
     (if web_hasBodyMethod (rq_Method r)
      then (case readAndRestoreBody r of
              (Inl e, r) \<Rightarrow> (Some (WJson 413 ''body too large or unreadable''), r)
            | (Inr body, r) \<Rightarrow> (if length body > 0 then check_body L (rq_Path r) username isAdmin body else None, r))
      else (None, r))"

definition TacacsProxyHandler ::
  "web_lib \<Rightarrow> web_conf \<Rightarrow> web_now \<Rightarrow> web_session \<Rightarrow> request \<Rightarrow> admin_cache \<Rightarrow> web_answer \<times> admin_cache" where
  "TacacsProxyHandler L conf n s r cache =
     (let username = (case ws_username s of None \<Rightarrow> [] | Some u \<Rightarrow> u) in
      if username = [] then (WJson 401 ''not logged in'', cache)
      else (case getAdminUsers L conf n cache of (admins, cache) \<Rightarrow>
        let isAdmin = (username \<in> set admins) in
        if web_pathRequiresAdmin (rq_Path r) (rq_Method r) \<and> \<not> isAdmin then (WJson 403 ''forbidden'', cache)
        else (case proxy_body L username isAdmin r of
                (Some a, r) \<Rightarrow> (a, cache)
              | (None, r) \<Rightarrow> (Forward (inject_identity conf n username isAdmin r), cache))))"

text \<open>The chain of \<open>route\<close> for a path below \<open>/tacacs/\<close>.\<close>

definition maxSWMBodyBytes :: nat where "maxSWMBodyBytes = 2 ^ 20"

definition requestBodyLimitMiddleware :: "request \<Rightarrow> request" where
  "requestBodyLimitMiddleware r =
     (case rq_Body r of NilBody \<Rightarrow> r
      | Body bs e \<Rightarrow> r\<lparr>rq_Body := (if length bs > maxSWMBodyBytes
          then Body (take maxSWMBodyBytes bs) (Some (GoError ''http: request body too large'')) else Body bs e)\<rparr>)"

definition serve_tacacs ::
  "web_lib \<Rightarrow> web_conf \<Rightarrow> web_now \<Rightarrow> request \<Rightarrow> web_session \<Rightarrow> admin_cache \<Rightarrow> web_answer \<times> web_session \<times> admin_cache" where
  "serve_tacacs L conf n r s cache =
     (let r = requestBodyLimitMiddleware r in
      case AuthRequired L conf n r s of
        (Inl a, s) \<Rightarrow> (a, s, cache)
      | (Inr username, s) \<Rightarrow>
          (case CSRFProtect r s of Some a \<Rightarrow> (a, s, cache)
           | None \<Rightarrow> (case TacacsProxyHandler L conf n s r cache of (a, cache) \<Rightarrow> (a, s, cache))))"

subsection \<open>Login, logout and registration\<close>

definition maxUsernameLen :: nat where "maxUsernameLen = 64"
definition maxPasswordLen :: nat where "maxPasswordLen = 128"
definition maxNotesLen :: nat where "maxNotesLen = 500"
definition maxEmailLen :: nat where "maxEmailLen = 128"
definition maxPhoneLen :: nat where "maxPhoneLen = 32"

text \<open>\<open>usernameAllowed.MatchString\<close>.\<close>

definition usernameAllowed :: "string \<Rightarrow> bool" where
  "usernameAllowed s = (s \<noteq> [] \<and> list_all (\<lambda>c. (CHR ''A'' \<le> c \<and> c \<le> CHR ''Z'') \<or> (CHR ''a'' \<le> c \<and> c \<le> CHR ''z'') \<or> is_digit c \<or>
     c = CHR ''.'' \<or> c = CHR ''_'' \<or> c = CHR ''-'') s)"

text \<open>The values of the posted form, and whether saving the session fails.\<close>

record login_form =
  fo_username :: string
  fo_password :: string

definition handleLogin ::
  "web_lib \<Rightarrow> web_conf \<Rightarrow> web_now \<Rightarrow> login_form \<Rightarrow> go_error option \<Rightarrow> web_request \<Rightarrow> web_session \<Rightarrow> buckets \<Rightarrow>
   web_answer \<times> web_session \<times> buckets" where
  "handleLogin L conf n f save c s bs =
     (let username = TrimSpace (fo_username f); password = fo_password f in
      if username = [] \<or> password = [] then (WHtml 401 ''login.html'' ''name or password empty'', s, bs)
      else if length username > maxUsernameLen \<or> length password > maxPasswordLen
      then (WHtml 400 ''login.html'' ''name or password too long'', s, bs)
      else (case signedInternalPost L conf n (wc_TacacsManagerUrl conf @ ''/tacacs/user/check'')
              (wl_marshal L [(''user'', username), (''password'', password)]) of
        Inl e \<Rightarrow> (WHtml 401 ''login.html'' ''name or password wrong'', s, RecordLoginFailure (wl_form L) (wn_now n) c bs)
      | Inr checkBody \<Rightarrow>
          let status = (case wl_status L checkBody of Inl _ \<Rightarrow> [] | Inr st \<Rightarrow> st) in
          if status \<noteq> ''1'' \<and> status \<noteq> ''2''
          then (WHtml 401 ''login.html'' ''name or password wrong'', s, RecordLoginFailure (wl_form L) (wn_now n) c bs)
          else (case save of Some e \<Rightarrow> (WJson 500 ''cannot save the session'', s, bs)
             | None \<Rightarrow> (Redirect ''/'',
                 EnsureCSRFToken n (s\<lparr>ws_authenticated := Some True, ws_username := Some username, ws_last_access := Some (wn_now n),
                   ws_password_reset_only := Some (status = ''2'')\<rparr>),
                 ResetLoginCounter (wl_form L) c bs))))"

text \<open>\<open>POST /login\<close> with its rate limit.\<close>

definition serve_login ::
  "web_lib \<Rightarrow> web_conf \<Rightarrow> web_now \<Rightarrow> login_form \<Rightarrow> go_error option \<Rightarrow> web_request \<Rightarrow> web_session \<Rightarrow> buckets \<Rightarrow>
   web_answer \<times> web_session \<times> buckets" where
  "serve_login L conf n f save c s bs =
     (case LoginRateLimit (wl_form L) (wn_now n) c bs of (locked, c, bs) \<Rightarrow>
        if locked then (WHtml 429 ''login.html'' ''too many requests'', s, bs)
        else handleLogin L conf n f save c s bs)"

definition handleLogout :: "web_session \<Rightarrow> web_answer \<times> web_session" where
  "handleLogout s = (Redirect ''/login'', Clear)"

text \<open>Whether the session counts as expired, and the flag of the answer.\<close>

definition checkSession :: "web_lib \<Rightarrow> web_conf \<Rightarrow> web_now \<Rightarrow> web_session \<Rightarrow> (bool \<times> bool option) \<times> web_session" where
  "checkSession L conf n s =
     (if ws_authenticated s = None \<or> expired conf n s then ((True, None), s)
      else (case ws_username s of
        None \<Rightarrow> ((False, Some (ws_password_reset_only s = Some True)), s)
      | Some username \<Rightarrow>
          if username = [] then ((False, Some (ws_password_reset_only s = Some True)), s)
          else (case getUserStatus L conf n username of
            Inl e \<Rightarrow> ((True, None), Clear)
          | Inr status \<Rightarrow>
              if status = ''0'' then ((True, None), Clear)
              else let s = s\<lparr>ws_password_reset_only := Some (status = ''2'')\<rparr> in
                   ((False, Some (ws_password_reset_only s = Some True)), s))))"

record create_form = login_form +
  fo_notes :: string
  fo_email :: string
  fo_phone_number :: string

definition handleCreateUser :: "web_lib \<Rightarrow> web_conf \<Rightarrow> web_now \<Rightarrow> create_form \<Rightarrow> web_answer" where
  "handleCreateUser L conf n f =
     (let username = TrimSpace (fo_username f); password = fo_password f; notes = fo_notes f;
          email = TrimSpace (fo_email f); phone = TrimSpace (fo_phone_number f) in
      if username = [] \<or> password = [] then WJson 400 ''name or password empty''
      else if \<not> usernameAllowed username then WJson 400 ''name has characters that are not allowed''
      else if email = [] then WJson 400 ''email empty''
      else if phone = [] then WJson 400 ''phone empty''
      else if length username > maxUsernameLen \<or> length password > maxPasswordLen \<or> length notes > maxNotesLen \<or>
              length email > maxEmailLen \<or> length phone > maxPhoneLen
      then WJson 400 ''field too long''
      else (case signedInternalPost L conf n (wc_TacacsManagerUrl conf @ ''/tacacs/user/create'')
              (wl_marshal L [(''user'', username), (''password'', password), (''notes'', notes), (''email'', email),
                (''phone_number'', phone)]) of
        Inl e \<Rightarrow> WJson 400 ''creating the user failed''
      | Inr _ \<Rightarrow> WJson 200 ''user created''))"

definition Index :: "web_lib \<Rightarrow> web_conf \<Rightarrow> web_now \<Rightarrow> string \<Rightarrow> web_session \<Rightarrow> admin_cache \<Rightarrow> (string \<times> bool \<times> bool) \<times> admin_cache" where
  "Index L conf n username s cache =
     (case getAdminUsers L conf n cache of (admins, cache) \<Rightarrow>
        ((username, username \<in> set admins, ws_password_reset_only s = Some True), cache))"

end
