(* ===== verification/SwmWebLaws.thy ===== *)
theory SwmWebLaws
  imports SwmWeb SwmAuthLaws HttpServer
begin

text \<open>
  What the web process and the server do to one request: whatever the proxy forwards comes from a live
  session of an account that the server lets in, and passes the signature and access checks of the
  server under the identity of that session.
\<close>

subsection \<open>The two copies of the access control\<close>

lemma same_access_control:
  "web_pathRequiresAdmin = pathRequiresAdmin" "web_hasBodyMethod = hasBodyMethod"
  "web_ownershipBodyUserPaths = ownershipBodyUserPaths"
  by (simp_all add: fun_eq_iff web_pathRequiresAdmin_def pathRequiresAdmin_def web_hasBodyMethod_def hasBodyMethod_def
      web_adminOnlyExact_def adminOnlyExact_def web_adminOnlyPrefixes_def adminOnlyPrefixes_def
      web_adminWritePrefixes_def adminWritePrefixes_def web_ownershipBodyUserPaths_def ownershipBodyUserPaths_def)

lemma same_body_check:
  "(check_body L path u isAdmin body = None \<or> body = []) = (\<not> body_forbidden (wl_peek L) path u isAdmin body)"
  unfolding check_body_def body_forbidden_def same_access_control approvalUpdatePath_def approvalStatusClose_def
  by (simp split: sum.split)

subsection \<open>Reading a body again\<close>

lemma read_again:
  assumes "readAndRestoreBody r = (b, r')"
  shows "body_bytes (fst (readAndRestoreBody r')) = body_bytes b"
  using assms by (auto simp: readAndRestoreBody_def body_bytes_def maxBodyPeek_def Let_def split: body.splits option.splits if_splits)

lemma read_ok_again:
  assumes "readAndRestoreBody r = (Inr body, r')"
  shows "readAndRestoreBody r' = (Inr body, r')"
  using assms by (auto simp: readAndRestoreBody_def maxBodyPeek_def Let_def split: body.splits option.splits if_splits)

lemma read_keeps:
  assumes "readAndRestoreBody r = (b, r')"
  shows "rq_Method r' = rq_Method r" "rq_Path r' = rq_Path r" "rq_Header r' = rq_Header r"
  using assms by (auto simp: readAndRestoreBody_def Let_def split: body.splits option.splits if_splits)

text \<open>Reading looks at the body only.\<close>

lemma read_other:
  "readAndRestoreBody (r\<lparr>rq_Header := h\<rparr>) = map_prod id (\<lambda>r. r\<lparr>rq_Header := h\<rparr>) (readAndRestoreBody r)"
  "readAndRestoreBody (r\<lparr>rq_ClientIP := ip\<rparr>) = map_prod id (\<lambda>r. r\<lparr>rq_ClientIP := ip\<rparr>) (readAndRestoreBody r)"
  by (auto simp: readAndRestoreBody_def Let_def split: body.split option.split)

subsection \<open>What is forwarded\<close>

text \<open>A request as it arrives at the server, and what its signature covers.\<close>

lemma injected:
  fixes isAdmin :: bool and u :: string and conf :: web_conf and n :: web_now
  assumes "wc_Secret conf \<noteq> []" "readAndRestoreBody r = (b, r')"
  defines "mark \<equiv> if isAdmin then ''1'' else ''0''" and "q \<equiv> inject_identity conf n u isAdmin r"
  shows "rq_Method q = rq_Method r" "rq_Path q = rq_Path r" "rq_Header q ''X-SwM-User'' = u" "rq_Header q ''X-SwM-Is-Admin'' = mark"
    "rq_Header q ''X-SwM-Signature'' = computeSignatureHeader (wn_unix n) (wn_nonce n) (rq_Method r) (rq_Path r) u mark (body_bytes b) (wc_Secret conf)"
    "\<And>k. HasPrefix (ToLower k) ''x-swm-'' \<Longrightarrow> k \<notin> {''X-SwM-User'', ''X-SwM-Is-Admin'', ''X-SwM-Signature''} \<Longrightarrow> rq_Header q k = []"
    "body_bytes (fst (readAndRestoreBody (q\<lparr>rq_ClientIP := ip\<rparr>))) = body_bytes b"
    "b = Inr body \<Longrightarrow> readAndRestoreBody (q\<lparr>rq_ClientIP := ip\<rparr>) = (Inr body, q\<lparr>rq_ClientIP := ip\<rparr>)"
proof -
  define h where "h = (strip_swm (rq_Header r))(''X-SwM-User'' := u, ''X-SwM-Is-Admin'' := mark)"
  have r: "readAndRestoreBody (r\<lparr>rq_Header := h\<rparr>) = (b, r'\<lparr>rq_Header := h\<rparr>)" by (simp add: read_other assms(2))
  have q: "q = r'\<lparr>rq_Header := h(''X-SwM-Signature'' :=
      computeSignatureHeader (wn_unix n) (wn_nonce n) (rq_Method r) (rq_Path r) u mark (body_bytes b) (wc_Secret conf))\<rparr>"
    using assms(1) r by (simp add: q_def inject_identity_def h_def mark_def signRequest_def body_bytes_def Let_def)
  show "rq_Method q = rq_Method r" "rq_Path q = rq_Path r" "rq_Header q ''X-SwM-User'' = u" "rq_Header q ''X-SwM-Is-Admin'' = mark"
    "rq_Header q ''X-SwM-Signature'' = computeSignatureHeader (wn_unix n) (wn_nonce n) (rq_Method r) (rq_Path r) u mark (body_bytes b) (wc_Secret conf)"
    using read_keeps [OF assms(2)] by (simp_all add: q h_def)
  show "rq_Header q k = []" if "HasPrefix (ToLower k) ''x-swm-''" "k \<notin> {''X-SwM-User'', ''X-SwM-Is-Admin'', ''X-SwM-Signature''}" for k
    using that by (simp add: q h_def strip_swm_def)
  show "body_bytes (fst (readAndRestoreBody (q\<lparr>rq_ClientIP := ip\<rparr>))) = body_bytes b"
    using read_again [OF assms(2)] by (simp add: q read_other)
  show "b = Inr body \<Longrightarrow> readAndRestoreBody (q\<lparr>rq_ClientIP := ip\<rparr>) = (Inr body, q\<lparr>rq_ClientIP := ip\<rparr>)"
    using read_ok_again [of r body r'] assms(2) by (simp add: q read_other)
qed

text \<open>The hypotheses on the two clocks, the nonce and the shared secret.\<close>

definition in_step :: "web_conf \<Rightarrow> web_now \<Rightarrow> swm_conf \<Rightarrow> int \<Rightarrow> bool" where
  "in_step conf n sc now = (sc_Secret sc = wc_Secret conf \<and> wc_Secret conf \<noteq> [] \<and> plain_field (wn_nonce n) \<and>
     length (wn_nonce n) \<le> maxNonceLength \<and> 0 \<le> wn_unix n \<and> wn_unix n < 2 ^ 62 \<and> 0 \<le> now \<and> now < 2 ^ 62 \<and>
     \<bar>now - wn_unix n\<bar> \<le> effective_skew (sc_MaxSkewSeconds sc) \<and> effective_skew (sc_MaxSkewSeconds sc) < 2 ^ 62)"

lemma proxied_accepted:
  fixes ip :: string
  assumes p: "proxy_body L u isAdmin r0 = (None, r)" and acl: "\<not> (web_pathRequiresAdmin (rq_Path r0) (rq_Method r0) \<and> \<not> isAdmin)"
    and u: "u \<noteq> []" and st: "in_step conf n sc now" and path: "rq_Path r0 \<notin> set swmAuthExemptPaths"
    and fresh: "admit_nonce now nowUnix (effective_skew (sc_MaxSkewSeconds sc)) (wn_nonce n) ns = (None, ns')"
  defines "a \<equiv> (inject_identity conf n u isAdmin r)\<lparr>rq_ClientIP := ip\<rparr>"
  shows "\<exists>q. swmAuthMiddleware (wl_peek L) sc now nowUnix a ns = (Next q True, ns') \<and> rq_Header q = rq_Header a \<and>
    rq_Method q = rq_Method r0 \<and> rq_Path q = rq_Path r0"
proof -
  note st' = st [unfolded in_step_def]
  obtain b r' where b: "readAndRestoreBody r = (b, r')" by (metis surj_pair)
  have m: "rq_Method r = rq_Method r0" "rq_Path r = rq_Path r0"
    and body: "hasBodyMethod (rq_Method r0) \<Longrightarrow> \<exists>body. b = Inr body \<and> \<not> body_forbidden (wl_peek L) (rq_Path r0) u isAdmin body"
  proof -
    have "rq_Method r = rq_Method r0 \<and> rq_Path r = rq_Path r0 \<and>
      (hasBodyMethod (rq_Method r0) \<longrightarrow> (\<exists>body. b = Inr body \<and> \<not> body_forbidden (wl_peek L) (rq_Path r0) u isAdmin body))"
    proof (cases "hasBodyMethod (rq_Method r0)")
      case True
      obtain b0 where b0: "readAndRestoreBody r0 = (b0, r)" using p True by (cases "readAndRestoreBody r0") (auto simp: proxy_body_def same_access_control split: sum.splits)
      then obtain body where body: "b0 = Inr body" "length body > 0 \<longrightarrow> check_body L (rq_Path r) u isAdmin body = None"
        using p True by (cases b0) (auto simp: proxy_body_def same_access_control split: if_splits)
      have "b = Inr body" using read_ok_again [OF b0 [unfolded body(1)]] b by simp
      moreover have "\<not> body_forbidden (wl_peek L) (rq_Path r0) u isAdmin body"
        using same_body_check [of L "rq_Path r0" u isAdmin body] body(2) read_keeps [OF b0] by auto
      ultimately show ?thesis using read_keeps [OF b0] by blast
    next
      case False
      then have "r = r0" using p by (simp add: proxy_body_def same_access_control)
      then show ?thesis using False by simp
    qed
    then show "rq_Method r = rq_Method r0" "rq_Path r = rq_Path r0"
      "hasBodyMethod (rq_Method r0) \<Longrightarrow> \<exists>body. b = Inr body \<and> \<not> body_forbidden (wl_peek L) (rq_Path r0) u isAdmin body" by blast+
  qed
  note i = injected [where conf = conf and u = u and isAdmin = isAdmin and n = n, OF _ b]
  have sec: "wc_Secret conf \<noteq> []" using st' by simp
  obtain b' a' where a': "readAndRestoreBody a = (b', a')" by (metis surj_pair)
  have bb: "body_bytes b' = body_bytes b" using i(7) [OF sec, of ip] a' by (simp add: a_def)
  have hd: "rq_Method a = rq_Method r0" "rq_Path a = rq_Path r0" "rq_Header a ''X-SwM-User'' = u"
    "rq_Header a ''X-SwM-Is-Admin'' = (if isAdmin then ''1'' else ''0'')"
    using i(1-4) [OF sec] m by (simp_all add: a_def)
  have v: "verifySwmSignature now nowUnix (sc_Secret sc) (sc_MaxSkewSeconds sc) a ns = (None, a', ns')"
  proof -
    have "rq_Header a ''X-SwM-Signature'' = computeSignatureHeader (wn_unix n) (wn_nonce n) (rq_Method a) (rq_Path a)
        (rq_Header a ''X-SwM-User'') (rq_Header a ''X-SwM-Is-Admin'') (body_bytes b') (sc_Secret sc)"
      unfolding hd bb using i(5) [OF sec] m st' by (simp add: a_def)
    from verify_signed [OF this a'] show ?thesis using st' fresh by simp
  qed
  have k: "rq_Header a' = rq_Header a" "rq_Path a' = rq_Path r0" "rq_Method a' = rq_Method r0" using read_keeps [OF a'] hd by simp_all
  show ?thesis
  proof (cases "hasBodyMethod (rq_Method r0)")
    case True
    obtain body where body: "b = Inr body" "\<not> body_forbidden (wl_peek L) (rq_Path r0) u isAdmin body" using body [OF True] by blast
    have again: "readAndRestoreBody a = (Inr body, a)" using i(8) [OF sec body(1), of ip] by (simp add: a_def)
    then have "a' = a" using a' by simp
    then have "swmAuthMiddleware (wl_peek L) sc now nowUnix a ns = (Next a True, ns')"
      using v path acl u True body(2) again hd by (cases isAdmin) (simp_all add: swmAuthMiddleware_def Let_def same_access_control)
    then show ?thesis using hd by blast
  next
    case False
    then have "swmAuthMiddleware (wl_peek L) sc now nowUnix a ns = (Next a' True, ns')"
      using v path acl u hd k by (cases isAdmin) (simp_all add: swmAuthMiddleware_def Let_def same_access_control)
    then show ?thesis using k by blast
  qed
qed

subsection \<open>Who gets through\<close>

lemma authorised:
  assumes "AuthRequired L conf n c s = (Inr u, s')"
  shows "ws_username s = Some u" "TrimSpace u \<noteq> []" "\<not> expired conf n s" "ws_authenticated s \<noteq> None" "ws_username s' = Some u"
    "getUserStatus L conf n u = Inr ''1'' \<or> getUserStatus L conf n u = Inr ''2'' \<and> passwordResetPathAllowed c"
proof -
  obtain v where v: "ws_username s = Some v" "ws_authenticated s \<noteq> None" "\<not> expired conf n s" "TrimSpace v \<noteq> []"
    using assms by (auto simp: AuthRequired_def split: if_splits option.splits)
  obtain st where st: "getUserStatus L conf n v = Inr st"
    using assms v by (cases "getUserStatus L conf n v") (simp_all add: AuthRequired_def)
  have "u = v \<and> ws_username s' = Some v \<and> (st = ''1'' \<or> st = ''2'' \<and> passwordResetPathAllowed c)"
    using assms v st by (auto simp: AuthRequired_def Let_def EnsureCSRFToken_def split: if_splits option.splits)
  then show "ws_username s = Some u" "TrimSpace u \<noteq> []" "\<not> expired conf n s" "ws_authenticated s \<noteq> None" "ws_username s' = Some u"
    "getUserStatus L conf n u = Inr ''1'' \<or> getUserStatus L conf n u = Inr ''2'' \<and> passwordResetPathAllowed c"
    using v st by auto
qed

lemma limit_keeps: "rq_Method (requestBodyLimitMiddleware r) = rq_Method r" "rq_Path (requestBodyLimitMiddleware r) = rq_Path r"
    "rq_Header (requestBodyLimitMiddleware r) = rq_Header r"
  by (simp_all add: requestBodyLimitMiddleware_def split: body.split)

text \<open>
  C39. A request that the web process forwards to the server comes with a session that is not expired
  and belongs to an account that the server reports as active, or as paused when it changes the password;
  a request that may change something carries the CSRF token of the session.  If clocks, secret and nonce
  are in order, the server accepts its signature, its access control lets it pass, and the identity there
  is the user of the session, with the administrator mark exactly if the web process counts them among
  the administrators, whatever identity headers the client has sent.  The request is taken as the proxy
  handler leaves it: what \<open>ReverseProxy\<close> drops or adds on the way, such as the headers that the client
  names in \<open>Connection\<close>, is left out.
\<close>

theorem forwarded_request_authorised:
  assumes fw: "serve_tacacs L conf n r s cache = (Forward q, s', cache')" and path: "HasPrefix (rq_Path r) ''/tacacs/''"
    and st: "in_step conf n sc now"
    and fresh: "admit_nonce now nowUnix (effective_skew (sc_MaxSkewSeconds sc)) (wn_nonce n) ns = (None, ns')"
  shows "\<exists>u p. ws_username s = Some u \<and> ws_authenticated s \<noteq> None \<and> \<not> expired conf n s \<and>
    (getUserStatus L conf n u = Inr ''1'' \<or>
       getUserStatus L conf n u = Inr ''2'' \<and> rq_Method r = ''POST'' \<and> rq_Path r = ''/tacacs/user/update/password'') \<and>
    (rq_Method r \<in> {''GET'', ''HEAD'', ''OPTIONS''} \<or>
       rq_Header r csrfHeaderName \<noteq> [] \<and> ws_csrf s' = Some (rq_Header r csrfHeaderName)) \<and>
    swmAuthMiddleware (wl_peek L) sc now nowUnix (q\<lparr>rq_ClientIP := ip\<rparr>) ns = (Next p True, ns') \<and>
    rq_Method p = rq_Method r \<and> rq_Path p = rq_Path r \<and>
    requestIdentity p True =
      \<lparr>id_username = TrimSpace u, id_isAdmin = (u \<in> set (fst (getAdminUsers L conf n cache))), id_verified = True\<rparr>"
proof -
  let ?r = "requestBodyLimitMiddleware r"
  obtain u s1 where a: "AuthRequired L conf n ?r s = (Inr u, s1)"
    using fw by (auto simp: serve_tacacs_def Let_def AuthRequired_def redirectOrJSON_def split: if_splits option.splits sum.splits)
  note au = authorised [OF a]
  have u: "u \<noteq> []" using au(2) by (auto simp: TrimSpace_def)
  have csrf: "CSRFProtect ?r s1 = None"
  proof (rule ccontr)
    assume "CSRFProtect ?r s1 \<noteq> None"
    then have "CSRFProtect ?r s1 = Some (WJson 403 ''CSRF token check failed'')"
      by (auto simp: CSRFProtect_def Let_def split: if_splits)
    then show False using fw a by (simp add: serve_tacacs_def Let_def)
  qed
  have s': "s' = s1" and t: "TacacsProxyHandler L conf n s1 ?r cache = (Forward q, cache')"
    using fw a csrf by (auto simp: serve_tacacs_def Let_def split: prod.splits)
  obtain admins c1 where g: "getAdminUsers L conf n cache = (admins, c1)" by (metis surj_pair)
  define isAdmin where "isAdmin = (u \<in> set admins)"
  note t1 = t [unfolded TacacsProxyHandler_def Let_def au(5) option.case g prod.case isAdmin_def [symmetric]]
  have acl: "\<not> (web_pathRequiresAdmin (rq_Path ?r) (rq_Method ?r) \<and> \<not> isAdmin)" using t1 u by (auto split: if_splits)
  obtain x r1 where p: "proxy_body L u isAdmin ?r = (x, r1)" by (metis surj_pair)
  have x: "x = None"
  proof (cases x)
    case (Some y)
    then have "y \<noteq> Forward z" for z
      using p by (auto simp: proxy_body_def check_body_def split: if_splits sum.splits prod.splits)
    then show ?thesis using t1 u acl p Some by simp
  qed
  have q: "q = inject_identity conf n u isAdmin r1" using t1 u acl p x by auto
  have sec: "wc_Secret conf \<noteq> []" using st by (simp add: in_step_def)
  obtain b r2 where b: "readAndRestoreBody r1 = (b, r2)" by (metis surj_pair)
  note i = injected [where conf = conf and u = u and isAdmin = isAdmin and n = n, OF sec b]
  have ex: "rq_Path ?r \<notin> set swmAuthExemptPaths" using path by (auto simp: limit_keeps swmAuthExemptPaths_def HasPrefix_def)
  obtain p' where p': "swmAuthMiddleware (wl_peek L) sc now nowUnix (q\<lparr>rq_ClientIP := ip\<rparr>) ns = (Next p' True, ns')"
    "rq_Header p' = rq_Header (q\<lparr>rq_ClientIP := ip\<rparr>)" "rq_Method p' = rq_Method r" "rq_Path p' = rq_Path r"
    using proxied_accepted [OF p [unfolded x] acl u st ex fresh, of ip] by (auto simp: q limit_keeps)
  have "requestIdentity p' True = \<lparr>id_username = TrimSpace u, id_isAdmin = isAdmin, id_verified = True\<rparr>"
    using i(3,4) by (simp add: requestIdentity_def p'(2) q)
  moreover have "getUserStatus L conf n u = Inr ''1'' \<or>
      getUserStatus L conf n u = Inr ''2'' \<and> rq_Method r = ''POST'' \<and> rq_Path r = ''/tacacs/user/update/password''"
    using au(6) path by (auto simp: passwordResetPathAllowed_def limit_keeps HasPrefix_def split: if_splits)
  moreover have "rq_Method r \<in> {''GET'', ''HEAD'', ''OPTIONS''} \<or>
       rq_Header r csrfHeaderName \<noteq> [] \<and> ws_csrf s' = Some (rq_Header r csrfHeaderName)"
    using csrf by (auto simp: CSRFProtect_def Let_def limit_keeps s' split: if_splits option.splits)
  ultimately show ?thesis
    using au(1,3,4) p' g by (auto simp: isAdmin_def)
qed

subsection \<open>Witness\<close>

text \<open>A server that reports every account as active and names no administrators.\<close>

definition sample_web :: web_lib where
  "sample_web = \<lparr>wl_get = (\<lambda>_ _. Inr []), wl_post = (\<lambda>_ _ _. Inr []), wl_url_path = Inr, wl_path_escape = id, wl_marshal = (\<lambda>_. []),
     wl_status = (\<lambda>_. Inr ''1''), wl_admins = (\<lambda>_. Inr (Some [])),
     wl_peek = \<lparr>pj_Status = (\<lambda>_. Inr 0), pj_User = (\<lambda>_. Inr [])\<rparr>, wl_form = (\<lambda>_. Inr [])\<rparr>"

definition sample_web_conf :: web_conf where
  "sample_web_conf = \<lparr>wc_TacacsManagerUrl = ''http://server'', wc_Secret = ''secret'', wc_SessionTimeOut = 30\<rparr>"

definition sample_now :: web_now where
  "sample_now = \<lparr>wn_now = 10, wn_unix = 1700000000, wn_nonce = ''nonce'', wn_token = ''token''\<rparr>"

definition alice_session :: web_session where
  "alice_session = Clear\<lparr>ws_authenticated := Some True, ws_username := Some ''alice'', ws_last_access := Some 0\<rparr>"

text \<open>A client that claims to be an administrator.\<close>

definition forged_request :: request where
  "forged_request = \<lparr>rq_Method = ''GET'', rq_Path = ''/tacacs/approval/get'', rq_Header = (\<lambda>k. if k = ''X-SwM-Is-Admin'' then ''1'' else []),
     rq_Body = NilBody, rq_ContentLength = 0, rq_ClientIP = ''10.0.0.1''\<rparr>"

theorem forwarded_request_authorised_witness:
  "\<exists>q p ns'. fst (serve_tacacs sample_web sample_web_conf sample_now forged_request alice_session \<lparr>adminCache = None, adminCacheAt = 0\<rparr>) = Forward q \<and>
     swmAuthMiddleware (wl_peek sample_web) \<lparr>sc_Enforce = True, sc_Secret = ''secret'', sc_MaxSkewSeconds = 0\<rparr> 1700000000 1700000000
       (q\<lparr>rq_ClientIP := ''127.0.0.1''\<rparr>) \<lparr>nonceStore = [], nonceCount = 0\<rparr> = (Next p True, ns') \<and>
     requestIdentity p True = \<lparr>id_username = ''alice'', id_isAdmin = False, id_verified = True\<rparr>"
proof -
  let ?c = "\<lparr>adminCache = None, adminCacheAt = 0\<rparr>" and ?ns = "\<lparr>nonceStore = [], nonceCount = 0\<rparr>"
    and ?sc = "\<lparr>sc_Enforce = True, sc_Secret = ''secret'', sc_MaxSkewSeconds = 0\<rparr>"
  have t: "TrimSpace ''alice'' = ''alice''" by code_simp
  have path: "web_pathRequiresAdmin ''/tacacs/approval/get'' ''GET'' = False" "HasPrefix ''/tacacs/approval/get'' ''/tacacs/''" by code_simp+
  have g: "getAdminUsers sample_web sample_web_conf sample_now ?c = ([], \<lparr>adminCache = Some [], adminCacheAt = 10\<rparr>)"
    by (simp add: getAdminUsers_def signedInternalGet_def buildSwmInternalHeaders_def sample_web_def sample_web_conf_def sample_now_def cached_admins_def Let_def)
  have st: "getUserStatus sample_web sample_web_conf sample_now ''alice'' = Inr ''1''"
    by (simp add: getUserStatus_def t signedInternalGet_def buildSwmInternalHeaders_def sample_web_def sample_web_conf_def)
  have a: "\<exists>s. AuthRequired sample_web sample_web_conf sample_now forged_request alice_session = (Inr ''alice'', s) \<and> ws_username s = Some ''alice''"
    by (auto simp: AuthRequired_def alice_session_def Clear_def expired_def sample_now_def [unfolded] sample_web_conf_def t
        st [unfolded sample_now_def sample_web_conf_def] Let_def EnsureCSRFToken_def)
  then obtain s where s: "AuthRequired sample_web sample_web_conf sample_now forged_request alice_session = (Inr ''alice'', s)"
    "ws_username s = Some ''alice''" by blast
  have r: "requestBodyLimitMiddleware forged_request = forged_request" "rq_Method forged_request = ''GET''"
    "rq_Path forged_request = ''/tacacs/approval/get''"
    by (simp_all add: requestBodyLimitMiddleware_def forged_request_def)
  obtain q s' c' where fw: "serve_tacacs sample_web sample_web_conf sample_now forged_request alice_session ?c = (Forward q, s', c')"
    using s by (auto simp: serve_tacacs_def r CSRFProtect_def TacacsProxyHandler_def Let_def g path proxy_body_def web_hasBodyMethod_def)
  have n: "in_step sample_web_conf sample_now ?sc 1700000000"
    by (simp add: in_step_def sample_web_conf_def sample_now_def effective_skew_def maxNonceLength_def plain_field_def is_space_def)
  obtain ns' where f: "admit_nonce 1700000000 1700000000 (effective_skew (sc_MaxSkewSeconds ?sc)) (wn_nonce sample_now) ?ns = (None, ns')"
    by (simp add: admit_nonce_def maxNonceCount_def Let_def)
  have p: "HasPrefix (rq_Path forged_request) ''/tacacs/''" by (simp only: r path)
  obtain u p where "ws_username alice_session = Some u"
    "swmAuthMiddleware (wl_peek sample_web) ?sc 1700000000 1700000000 (q\<lparr>rq_ClientIP := ''127.0.0.1''\<rparr>) ?ns = (Next p True, ns')"
    "requestIdentity p True = \<lparr>id_username = TrimSpace u, id_isAdmin = (u \<in> set (fst (getAdminUsers sample_web sample_web_conf sample_now ?c))), id_verified = True\<rparr>"
    using forwarded_request_authorised [OF fw p n f, of "''127.0.0.1''"] by blast
  then show ?thesis using fw t by (auto simp: g alice_session_def)
qed

end
