(* ===== verification/Feishu.thy ===== *)
theory Feishu
  imports DbApproval DbUser SwmAuth
begin

text \<open>
  \<open>pkg/public/notify/feishu\<close>: the cards (\<open>cards.go\<close>), the calls of the Feishu service
  (\<open>feishu.go\<close>) and sending by user name (\<open>send.go\<close>).  The HTTP client, JSON, the
  configuration and the printing of times are parameters; the texts of the cards stand for the
  Chinese ones.
\<close>

subsection \<open>Cards\<close>

text \<open>The \<open>map[string]any\<close> of a card.\<close>

datatype card_json = CObj "(string \<times> card_json) list" | CArr "card_json list" | CStr string | CNum int | CBool bool

definition baseCard :: "string \<Rightarrow> string \<Rightarrow> card_json list \<Rightarrow> card_json" where
  "baseCard headerTitle headerTemplate elements =
     (let headerTemplate = (if headerTemplate = [] then ''blue'' else headerTemplate) in
      CObj [(''schema'', CStr ''2.0''), (''config'', CObj [(''update_multi'', CBool True)]),
            (''header'', CObj [(''title'', CObj [(''tag'', CStr ''plain_text''), (''content'', CStr headerTitle)]),
                               (''template'', CStr headerTemplate)]),
            (''body'', CObj [(''elements'', CArr elements)])])"

definition mdElement :: "string \<Rightarrow> card_json" where
  "mdElement content = CObj [(''tag'', CStr ''markdown''), (''content'', CStr content)]"

definition approvalDetailMd :: "(int \<Rightarrow> string) \<Rightarrow> TacacsApproval \<Rightarrow> string" where
  "approvalDetailMd fmt a =
     ''applicant: '' @ tap_User a @ '' role: '' @ tap_ApprovalPermissions a @ '' from: '' @ fmt (tap_StartTime a) @
     '' to: '' @ fmt (tap_EndTime a) @ '' id: '' @ dec_int (tap_ID a)"

definition decision_button :: "string \<Rightarrow> string \<Rightarrow> string \<Rightarrow> int \<Rightarrow> card_json" where
  "decision_button label kind action i =
     CObj [(''tag'', CStr ''button''), (''text'', CObj [(''tag'', CStr ''plain_text''), (''content'', CStr label)]),
           (''type'', CStr kind), (''size'', CStr ''medium''),
           (''behaviors'', CArr [CObj [(''type'', CStr ''callback''),
              (''value'', CObj [(''action'', CStr action), (''approval_id'', CNum i)])]])]"

definition button_column :: "card_json \<Rightarrow> card_json" where
  "button_column b = CObj [(''tag'', CStr ''column''), (''width'', CStr ''auto''), (''weight'', CNum 1), (''elements'', CArr [b])]"

definition BuildAdminApprovalCard :: "(int \<Rightarrow> string) \<Rightarrow> TacacsApproval \<Rightarrow> card_json" where
  "BuildAdminApprovalCard fmt a =
     (let body = approvalDetailMd fmt a @ '' state: waiting'';
          buttonRow = CObj [(''tag'', CStr ''column_set''), (''flex_mode'', CStr ''flow''),
            (''columns'', CArr [button_column (decision_button ''approve'' ''primary'' ''approve'' (tap_ID a)),
                               button_column (decision_button ''reject'' ''danger'' ''reject'' (tap_ID a))])]
      in baseCard ''approval waiting'' ''blue'' [mdElement body, buttonRow])"

definition BuildApprovalResultCard :: "(int \<Rightarrow> string) \<Rightarrow> int \<Rightarrow> TacacsApproval \<Rightarrow> string \<Rightarrow> string \<Rightarrow> card_json" where
  "BuildApprovalResultCard fmt now a kind operator =
     (case (if kind = ''approved'' then (''approval granted'', ''green'', ''granted'')
            else if kind = ''rejected'' then (''approval rejected'', ''red'', ''rejected'')
            else if kind = ''withdrawn'' then (''approval withdrawn'', ''grey'', ''withdrawn'')
            else if kind = ''timeout'' then (''approval timed out'', ''grey'', ''timed out'')
            else (''approval'', ''blue'', kind)) of
       (title, template, verb) \<Rightarrow>
         baseCard title template [mdElement (approvalDetailMd fmt a @ '' state: '' @ verb @ '' by '' @ operator @ '' at '' @ fmt now)])"

definition BuildApprovalLifecycleCard :: "(int \<Rightarrow> string) \<Rightarrow> TacacsApproval \<Rightarrow> string \<Rightarrow> card_json" where
  "BuildApprovalLifecycleCard fmt a kind =
     (case (if kind = ''timeout'' then (''approval timed out'', ''grey'', approvalDetailMd fmt a @ '' state: closed after 24 hours'')
            else if kind = ''expired'' then (''role expired'', ''grey'', approvalDetailMd fmt a @ '' state: expired'')
            else (''approval'', ''blue'', approvalDetailMd fmt a)) of
       (title, template, body) \<Rightarrow> baseCard title template [mdElement body])"

definition BuildRoleExpiryCard :: "(int \<Rightarrow> string) \<Rightarrow> string \<Rightarrow> string \<Rightarrow> string \<Rightarrow> int \<Rightarrow> card_json" where
  "BuildRoleExpiryCard fmt user level tier expireAt =
     (case (if tier = ''3d'' then (''role expires within 3 days'', ''orange'', ''within 3 days'')
            else if tier = ''1d'' then (''role expires within 24 hours'', ''red'', ''within 24 hours'')
            else if tier = ''12h'' then (''role expires within 12 hours'', ''red'', ''within 12 hours'')
            else (''role expires soon'', ''orange'', ''soon'')) of
       (title, template, urgency) \<Rightarrow> baseCard title template
         [mdElement (''user: '' @ user @ '' role: '' @ level @ '' expires: '' @ fmt expireAt @ '' '' @ urgency)])"

definition BuildPasswordCard :: "string \<Rightarrow> string \<Rightarrow> int \<Rightarrow> int \<Rightarrow> card_json" where
  "BuildPasswordCard user kind days maxDays =
     (case (if kind = ''warning'' then (''password expires soon'', ''orange'',
                ''user: '' @ user @ '' age: '' @ dec_int days @ '' of '' @ dec_int maxDays @ '' suspended after '' @ dec_int maxDays)
            else if kind = ''expired'' then (''password expired'', ''red'', ''user: '' @ user @ '' older than '' @ dec_int maxDays)
            else if kind = ''restored'' then (''password changed'', ''green'', ''user: '' @ user @ '' restored'')
            else (''password'', ''blue'', ''user: '' @ user)) of
       (title, template, body) \<Rightarrow> baseCard title template [mdElement body])"

definition BuildOnDutyChangeCard :: "string list \<Rightarrow> string list \<Rightarrow> string list \<Rightarrow> card_json" where
  "BuildOnDutyChangeCard addUsers delUsers currentDuty =
     (let ls = (if length delUsers > 0 then [''leaving: '' @ Join '', '' delUsers] else []);
          ls = (if length addUsers > 0 then ls @ [''joining: '' @ Join '', '' addUsers] else ls);
          ls = ls @ [''on duty: '' @ Join '', '' currentDuty]
      in baseCard ''users on duty'' ''blue'' [mdElement (Join [CHR 0x0A] ls)])"

definition BuildSystemAlertCard :: "string \<Rightarrow> string \<Rightarrow> string \<Rightarrow> card_json" where
  "BuildSystemAlertCard title body template =
     (let title = (if title = [] then ''TACACS alert'' else title);
          template = (if template = [] then ''red'' else template)
      in baseCard title template [mdElement body])"

subsection \<open>Calls of the service\<close>

text \<open>
  \<open>fl_http\<close> sends a request with method, URL, bearer token and body, and returns the status code and the
  body read; the decoders give the fields of an answer.  The reason phrase that Go prints after a
  status code is left out.
\<close>

record feishu_lib =
  fl_http :: "string \<Rightarrow> string \<Rightarrow> string \<Rightarrow> string \<Rightarrow> (int \<times> bytes) result"
  fl_token :: "bytes \<Rightarrow> (int \<times> int \<times> string \<times> string) result"  \<comment> \<open>code, expire, msg, token\<close>
  fl_users :: "bytes \<Rightarrow> (int \<times> string \<times> (string \<times> string \<times> string) list) result"  \<comment> \<open>code, msg, (email, mobile, id)\<close>
  fl_message :: "bytes \<Rightarrow> (int \<times> string \<times> string) result"  \<comment> \<open>code, msg, message id\<close>
  fl_users_body :: "string list \<Rightarrow> string list \<Rightarrow> string"
  fl_message_body :: "string \<Rightarrow> string \<Rightarrow> string \<Rightarrow> string"
  fl_urgent_body :: "string list \<Rightarrow> string"
  fl_card :: "card_json \<Rightarrow> string result"

text \<open>The resolved identifier and secret of a configuration with its \<open>Enabled\<close>; \<open>None\<close> for nil.\<close>

record feishu_conf =
  fc_AppId :: string
  fc_AppSecret :: string
  fc_Enabled :: bool

fun appCreds :: "feishu_conf option list \<Rightarrow> string \<times> string" where
  "appCreds [] = ([], [])"
| "appCreds (None # cs) = appCreds cs"
| "appCreds (Some c # cs) = (if fc_AppId c \<noteq> [] \<and> fc_AppSecret c \<noteq> [] then (fc_AppId c, fc_AppSecret c) else appCreds cs)"

definition notifyEnabled :: "feishu_conf option list \<Rightarrow> bool" where
  "notifyEnabled cs =
     (if list_ex (\<lambda>c. case c of None \<Rightarrow> False | Some c \<Rightarrow> \<not> fc_Enabled c) cs then False
      else case appCreds cs of (i, secret) \<Rightarrow> i \<noteq> [] \<and> secret \<noteq> [])"

record tokenCache =
  tc_token :: string
  tc_expireAt :: int

definition tokenRefreshAhead :: int where "tokenRefreshAhead = 5 * 60 * 10 ^ 9"

definition body_error :: "bytes \<Rightarrow> string" where
  "body_error body = '', body is '' @ string_of_bytes body"

definition body_text :: "bytes \<Rightarrow> string" where
  "body_text body = '', body: '' @ string_of_bytes body"

definition token_payload :: "string \<Rightarrow> string \<Rightarrow> string" where
  "token_payload appId appSecret =
     (let nl = [CHR 0x0A, CHR 0x09, CHR 0x09]; q = [CHR 0x22] in
      ''{'' @ nl @ q @ ''app_id'' @ q @ '': '' @ q @ appId @ q @ '','' @ nl @ q @ ''app_secret'' @ q @ '': '' @ q @ appSecret @ q @
      [CHR 0x0A, CHR 0x09] @ ''}'')"

definition fetchTenantAccessToken :: "feishu_lib \<Rightarrow> string \<Rightarrow> string \<Rightarrow> (string \<times> int) result" where
  "fetchTenantAccessToken L appId appSecret =
     (case fl_http L ''POST'' ''https://open.feishu.cn/open-apis/auth/v3/tenant_access_token/internal'' []
         (token_payload appId appSecret) of
       Inl e \<Rightarrow> Inl e
     | Inr (status, body) \<Rightarrow>
         if status \<noteq> 200 then Inl (GoError (''http code is '' @ dec_int status @ body_error body))
         else (case fl_token L body of
             Inl e \<Rightarrow> Inl (GoError (''unmarshal err: '' @ err_msg e @ body_text body))
           | Inr (code, expire, msg, token) \<Rightarrow>
               if msg \<noteq> ''ok'' \<or> code \<noteq> 0 then Inl (GoError (''http code is '' @ dec_int code @ body_error body))
               else Inr (token, expire)))"

text \<open>Two readings of the clock: for the age of the token, and after it was fetched.\<close>

definition getCachedTenantAccessToken ::
  "feishu_lib \<Rightarrow> feishu_conf option list \<Rightarrow> int \<Rightarrow> int \<Rightarrow> tokenCache \<Rightarrow> string result \<times> tokenCache" where
  "getCachedTenantAccessToken L cs now fetched c =
     (if tc_token c \<noteq> [] \<and> tc_expireAt c - now > tokenRefreshAhead then (Inr (tc_token c), c)
      else (case appCreds cs of (i, secret) \<Rightarrow>
        (case fetchTenantAccessToken L i secret of Inl e \<Rightarrow> (Inl e, c)
         | Inr (token, expireSec) \<Rightarrow> (Inr token, \<lparr>tc_token = token, tc_expireAt = fetched + expireSec * 10 ^ 9\<rparr>))))"

text \<open>The loop over the answer: the last entry with a mail address and the last one with a number.\<close>

fun pick_ids :: "(string \<times> string \<times> string) list \<Rightarrow> string \<Rightarrow> string \<Rightarrow> string \<times> string" where
  "pick_ids [] emailUserId mobileUserId = (emailUserId, mobileUserId)"
| "pick_ids ((email, mobile, i) # us) emailUserId mobileUserId =
     pick_ids us (if email \<noteq> [] then i else emailUserId) (if mobile \<noteq> [] then i else mobileUserId)"

text \<open>The two Chinese words of the message \<open>email(...) -> id(...) and phone(...) -> id(...) differ\<close>, in UTF-8.\<close>

definition word_and :: string where
  "word_and = [CHR 0xE4, CHR 0xB8, CHR 0x8E]"

definition word_differ :: string where
  "word_differ = [CHR 0xE4, CHR 0xB8, CHR 0x8D, CHR 0xE4, CHR 0xB8, CHR 0x80, CHR 0xE8, CHR 0x87, CHR 0xB4]"

definition choose_id :: "bytes \<Rightarrow> string \<Rightarrow> string \<Rightarrow> (string \<times> string \<times> string) list \<Rightarrow> string result" where
  "choose_id body email phoneNumber users =
     (case pick_ids users [] [] of (emailUserId, mobileUserId) \<Rightarrow>
        if emailUserId = [] \<and> mobileUserId = []
        then Inl (GoError (''user not found by email('' @ email @ '') or phone('' @ phoneNumber @ '')'' @ body_text body))
        else if emailUserId \<noteq> [] \<and> mobileUserId \<noteq> [] \<and> emailUserId \<noteq> mobileUserId
        then Inl (GoError (''email('' @ email @ '') -> id('' @ emailUserId @ '') '' @ word_and @
               '' phone('' @ phoneNumber @ '') -> id('' @ mobileUserId @ '') '' @ word_differ))
        else if emailUserId \<noteq> [] then Inr emailUserId
        else Inr mobileUserId)"

definition getIdByBasicInfo ::
  "feishu_lib \<Rightarrow> feishu_conf option list \<Rightarrow> int \<Rightarrow> int \<Rightarrow> string \<Rightarrow> string \<Rightarrow> string \<Rightarrow> tokenCache \<Rightarrow> string result \<times> tokenCache" where
  "getIdByBasicInfo L cs now fetched email phoneNumber idType c =
     (case getCachedTenantAccessToken L cs now fetched c of
        (Inl e, c) \<Rightarrow> (Inl (GoError (''get tenant access token err: '' @ err_msg e)), c)
      | (Inr feishuToken, c) \<Rightarrow>
          (case fl_http L ''POST'' (''https://open.feishu.cn/open-apis/contact/v3/users/batch_get_id?user_id_type='' @ idType) feishuToken
              (fl_users_body L (if email \<noteq> [] then [email] else []) (if phoneNumber \<noteq> [] then [phoneNumber] else [])) of
             Inl e \<Rightarrow> (Inl e, c)
           | Inr (status, body) \<Rightarrow>
               if status \<noteq> 200 then (Inl (GoError (''http code is '' @ dec_int status @ body_error body)), c)
               else (case fl_users L body of
                   Inl e \<Rightarrow> (Inl (GoError (''unmarshal err: '' @ err_msg e @ body_text body)), c)
                 | Inr (code, msg, users) \<Rightarrow>
                     if code \<noteq> 0 then (Inl (GoError (''feishu api err, code: '' @ dec_int code @ '', msg: '' @ msg @ body_text body)), c)
                     else (choose_id body email phoneNumber users, c))))"

definition sendMessage ::
  "feishu_lib \<Rightarrow> feishu_conf option list \<Rightarrow> int \<Rightarrow> int \<Rightarrow> string \<Rightarrow> string \<Rightarrow> string \<Rightarrow> tokenCache \<Rightarrow> string result \<times> tokenCache" where
  "sendMessage L cs now fetched userId msgType content c =
     (case getCachedTenantAccessToken L cs now fetched c of
        (Inl e, c) \<Rightarrow> (Inl (GoError (''get tenant access token err: '' @ err_msg e)), c)
      | (Inr feishuToken, c) \<Rightarrow>
          (case fl_http L ''POST'' ''https://open.feishu.cn/open-apis/im/v1/messages?receive_id_type=user_id'' feishuToken
              (fl_message_body L userId msgType content) of
             Inl e \<Rightarrow> (Inl e, c)
           | Inr (status, body) \<Rightarrow>
               if status \<noteq> 200 then (Inl (GoError (''http code is '' @ dec_int status @ body_error body)), c)
               else (case fl_message L body of
                   Inl e \<Rightarrow> (Inl (GoError (''unmarshal err: '' @ err_msg e @ body_text body)), c)
                 | Inr (code, msg, message_id) \<Rightarrow>
                     if code \<noteq> 0 then (Inl (GoError (''feishu api err, code: '' @ dec_int code @ '', msg: '' @ msg @ body_text body)), c)
                     else (Inr message_id, c))))"

definition urgentMessage ::
  "feishu_lib \<Rightarrow> feishu_conf option list \<Rightarrow> int \<Rightarrow> int \<Rightarrow> string \<Rightarrow> string list \<Rightarrow> string \<Rightarrow> tokenCache \<Rightarrow> go_error option \<times> tokenCache" where
  "urgentMessage L cs now fetched messageId userIds urgentType c =
     (case getCachedTenantAccessToken L cs now fetched c of
        (Inl e, c) \<Rightarrow> (Some (GoError (''get tenant access token err: '' @ err_msg e)), c)
      | (Inr feishuToken, c) \<Rightarrow>
          (case fl_http L ''PATCH'' (''https://open.feishu.cn/open-apis/im/v1/messages/'' @ messageId @ ''/'' @ urgentType @ ''?user_id_type=user_id'')
              feishuToken (fl_urgent_body L userIds) of
             Inl e \<Rightarrow> (Some e, c)
           | Inr (status, body) \<Rightarrow>
               if status \<noteq> 200 then (Some (GoError (''http code is '' @ dec_int status @ body_error body)), c)
               else (case fl_message L body of
                   Inl e \<Rightarrow> (Some (GoError (''unmarshal err: '' @ err_msg e @ body_text body)), c)
                 | Inr (code, msg, _) \<Rightarrow>
                     if code \<noteq> 0 then (Some (GoError (''feishu urgent api err, code: '' @ dec_int code @ '', msg: '' @ msg @ body_text body)), c)
                     else (None, c))))"

definition SendCardToPersonByUserId ::
  "feishu_lib \<Rightarrow> feishu_conf option list \<Rightarrow> int \<Rightarrow> int \<Rightarrow> string \<Rightarrow> card_json \<Rightarrow> tokenCache \<Rightarrow> go_error option \<times> tokenCache" where
  "SendCardToPersonByUserId L cs now fetched userId cd c =
     (if \<not> notifyEnabled cs then (None, c)
      else (case fl_card L cd of
        Inl e \<Rightarrow> (Some (GoError (''marshal card err: '' @ err_msg e)), c)
      | Inr content \<Rightarrow>
          (case sendMessage L cs now fetched userId ''interactive'' content c of
             (Inl e, c) \<Rightarrow> (Some e, c) | (Inr _, c) \<Rightarrow> (None, c))))"

definition SendUrgentCardToPersonByUserId ::
  "feishu_lib \<Rightarrow> feishu_conf option list \<Rightarrow> int \<Rightarrow> int \<Rightarrow> string \<Rightarrow> card_json \<Rightarrow> string \<Rightarrow> tokenCache \<Rightarrow> go_error option \<times> tokenCache" where
  "SendUrgentCardToPersonByUserId L cs now fetched userId cd urgentType c =
     (if \<not> notifyEnabled cs then (None, c)
      else (case fl_card L cd of
        Inl e \<Rightarrow> (Some (GoError (''marshal card err: '' @ err_msg e)), c)
      | Inr content \<Rightarrow>
          (case sendMessage L cs now fetched userId ''interactive'' content c of
             (Inl e, c) \<Rightarrow> (Some e, c)
           | (Inr msgId, c) \<Rightarrow> urgentMessage L cs now fetched msgId [userId] urgentType c)))"

text \<open>
  \<open>lookup_id k\<close> is what \<open>GetUserIdByBasicInfo\<close> answers for the k-th user of \<open>userName\<close> and \<open>send k\<close> what
  sending gives; the second result are the errors by user id.
\<close>

fun send_loop_names ::
  "(nat \<Rightarrow> string \<Rightarrow> string \<Rightarrow> string result) \<Rightarrow> (nat \<Rightarrow> string \<Rightarrow> go_error option) \<Rightarrow> string list \<Rightarrow> nat \<Rightarrow> string list \<Rightarrow>
   (string \<times> string) list \<Rightarrow> (go_error option \<times> (string \<times> string) list) io" where
  "send_loop_names lookup_id send userName k [] errMap = ret (None, errMap)"
| "send_loop_names lookup_id send userName k (u # us) errMap = do {
     (info, err) \<leftarrow> GetTacacsUserInfoByUserName u;
     case err of Some e \<Rightarrow> ret (Some (GoError (''get tacacs user info err: '' @ err_msg e)), errMap)
     | None \<Rightarrow> (case info of
         None \<Rightarrow> ret (Some (GoError (''userName(['' @ Join '' '' userName @ ''])`s tacacs user info is nil'')), errMap)
       | Some i \<Rightarrow> (case lookup_id k (tu_Email i) (tu_PhoneNumber i) of
           Inl e \<Rightarrow> ret (Some (GoError (''get feishu user id err: '' @ err_msg e)), errMap)
         | Inr userId \<Rightarrow> send_loop_names lookup_id send userName (Suc k) us
             (case send k userId of None \<Rightarrow> errMap | Some e \<Rightarrow> (userId, err_msg e) # filter (\<lambda>p. fst p \<noteq> userId) errMap)))
   }"

text \<open>\<open>strings.TrimRight(s, ";")\<close>: every semicolon at the end goes, those of the last message too.\<close>

definition trim_semicolons :: "string \<Rightarrow> string" where
  "trim_semicolons s = rev (dropWhile (\<lambda>c. c = CHR '';'') (rev s))"

text \<open>Go runs over \<open>errMap\<close> in any order; here it is the one of the list, the last user first.\<close>

definition sendByTacacsUserName ::
  "(nat \<Rightarrow> string \<Rightarrow> string \<Rightarrow> string result) \<Rightarrow> (nat \<Rightarrow> string \<Rightarrow> go_error option) \<Rightarrow> string list \<Rightarrow> go_error option io" where
  "sendByTacacsUserName lookup_id send userName = do {
     (err, errMap) \<leftarrow> send_loop_names lookup_id send userName 0 userName [];
     ret (case err of Some e \<Rightarrow> Some e
          | None \<Rightarrow> if length errMap > 0
              then Some (GoError (trim_semicolons (concat
                (map (\<lambda>(userId, msg). ''send to user(id:'' @ userId @ '') failed, err: '' @ msg @ '';'') errMap))))
              else None)
   }"

end
