(* ===== verification/FeishuWs.thy ===== *)
theory FeishuWs
  imports Feishu RouteLaws
begin

text \<open>
  \<open>pkg/server/feishuws/handler.go\<close>: the button of a card decides an approval.  \<open>GetOpenIdByBasicInfo\<close>
  is a parameter here (its call of the service is in theory Feishu); the card to the applicant, which a
  goroutine sends, and log output are left out.
\<close>

subsection \<open>The event\<close>

text \<open>A value of the map of a button; \<open>ANumber\<close> is a \<open>float64\<close> or integer as an \<open>int64\<close>.\<close>

datatype action_value = AString_value string | ANumber int | AOther

record card_event =
  ce_Value :: "(string \<times> action_value) list"
  ce_OpenID :: "string option"  \<comment> \<open>\<open>None\<close> when the operator is nil\<close>

record card_response =
  cp_Toast :: "string \<times> string"
  cp_Card :: "card_json option"

definition errToast :: "string \<Rightarrow> card_response" where
  "errToast msg = \<lparr>cp_Toast = (''error'', msg), cp_Card = None\<rparr>"

definition successToast :: "string \<Rightarrow> card_response" where
  "successToast msg = \<lparr>cp_Toast = (''success'', msg), cp_Card = None\<rparr>"

definition toastForKind :: "string \<Rightarrow> string" where
  "toastForKind kind =
     (if kind = ''approved'' then ''approved'' else if kind = ''rejected'' then ''rejected'' else ''handled'')"

text \<open>\<open>fmt.Sscanf(x, "%d", &id)\<close> into an \<open>int64\<close>: blanks, a sign, digits, and anything after them.\<close>

definition sscan_int64 :: "string \<Rightarrow> int option" where
  "sscan_int64 x =
     (let x = dropWhile (\<lambda>c. is_space c \<and> c \<noteq> CHR 0x0A) x;
          (sign, r) = (case x of [] \<Rightarrow> ([], []) | c # r \<Rightarrow> if c = CHR ''-'' \<or> c = CHR ''+'' then ([c], r) else ([], x))
      in ParseInt (sign @ takeWhile is_digit r))"

text \<open>
  JSON numbers come as \<open>float64\<close> and are converted by \<open>int64(x)\<close>; \<open>ANumber\<close> is the result of that.
\<close>

definition readApprovalID :: "action_value option \<Rightarrow> int option" where
  "readApprovalID v =
     (case v of Some (ANumber x) \<Rightarrow> Some x | Some (AString_value x) \<Rightarrow> sscan_int64 x | _ \<Rightarrow> None)"

subsection \<open>The operator\<close>

fun resolve_loop ::
  "(nat \<Rightarrow> string \<Rightarrow> string \<Rightarrow> string result) \<Rightarrow> string \<Rightarrow> nat \<Rightarrow> string list \<Rightarrow> string list \<Rightarrow> string list io" where
  "resolve_loop open_id openID k [] matched = ret matched"
| "resolve_loop open_id openID k (n # names) matched = do {
     (info, err) \<leftarrow> GetTacacsUserInfoByUserName n;
     resolve_loop open_id openID (Suc k) names
       (case (err, info) of
          (None, Some i) \<Rightarrow> (case open_id k (tu_Email i) (tu_PhoneNumber i) of
              Inl e \<Rightarrow> matched
            | Inr adminOpenId \<Rightarrow> if adminOpenId = openID then matched @ [n] else matched)
        | _ \<Rightarrow> matched)
   }"

text \<open>The empty name stands for nobody; the error of the Go function is always nil.\<close>

definition resolveAdminByOpenId :: "(nat \<Rightarrow> string \<Rightarrow> string \<Rightarrow> string result) \<Rightarrow> string \<Rightarrow> string io" where
  "resolveAdminByOpenId open_id openID = do {
     admins \<leftarrow> GetTacacsAdminUser;
     if length admins = 0 then ret []
     else do {
       matched \<leftarrow> resolve_loop open_id openID 0 admins [];
       ret (case matched of [] \<Rightarrow> [] | n # _ \<Rightarrow> n)
     }
   }"

subsection \<open>The handler\<close>

text \<open>The new status and the kind of result of an action.\<close>

definition action_status :: "string \<Rightarrow> (int \<times> string) option" where
  "action_status action =
     (if action = ''approve'' then Some (4, ''approved'') else if action = ''reject'' then Some (2, ''rejected'') else None)"

definition action_of :: "(string \<times> action_value) list \<Rightarrow> string" where
  "action_of v = (case map_of v ''action'' of Some (AString_value a) \<Rightarrow> a | _ \<Rightarrow> [])"

definition decide_by_card ::
  "(int \<Rightarrow> string) \<Rightarrow> int \<Rightarrow> int \<Rightarrow> int \<Rightarrow> string \<Rightarrow> string \<Rightarrow> card_response io" where
  "decide_by_card fmt now approvalID newStatus resultKind adminName = do {
     rows \<leftarrow> ApproveWithLock approvalID newStatus adminName;
     case rows of Inl e \<Rightarrow> ret (errToast ''writing the database failed'')
     | Inr rows \<Rightarrow>
         if rows = 0 then ret \<lparr>cp_Toast = (''info'', ''already handled''), cp_Card = None\<rparr>
         else do {
           approval \<leftarrow> GetTacacsApprovalByID approvalID;
           ret (case approval of
                  Inr (Some a) \<Rightarrow> \<lparr>cp_Toast = (''success'', toastForKind resultKind),
                                    cp_Card = Some (BuildApprovalResultCard fmt now a resultKind adminName)\<rparr>
                | _ \<Rightarrow> successToast ''recorded, reading the approval failed'')
         }
   }"

text \<open>\<open>None\<close> is an event without the parts that the handler needs.\<close>

definition handleCardAction ::
  "(int \<Rightarrow> string) \<Rightarrow> int \<Rightarrow> (nat \<Rightarrow> string \<Rightarrow> string \<Rightarrow> string result) \<Rightarrow> card_event option \<Rightarrow> card_response io" where
  "handleCardAction fmt now open_id event =
     (case event of None \<Rightarrow> ret (errToast ''event incomplete'')
      | Some ev \<Rightarrow>
          (let action = action_of (ce_Value ev); ident = readApprovalID (map_of (ce_Value ev) ''approval_id'') in
           if action = [] \<or> ident = None then ret (errToast ''invalid button'')
           else (case action_status action of
               None \<Rightarrow> ret (errToast (''unknown action: '' @ action))
             | Some (newStatus, resultKind) \<Rightarrow>
                 let openID = (case ce_OpenID ev of None \<Rightarrow> [] | Some i \<Rightarrow> i) in
                 if openID = [] then ret (errToast ''operator unknown'')
                 else do {
                   adminName \<leftarrow> resolveAdminByOpenId open_id openID;
                   if adminName = [] then ret (errToast ''not an administrator'')
                   else decide_by_card fmt now (the ident) newStatus resultKind adminName
                 })))"

end
