(* ===== verification/FeishuLaws.thy ===== *)
theory FeishuLaws
  imports FeishuWs
begin

text \<open>
  What a button of a card does: it decides only a pending approval, only as the button says, and only for
  an operator whom the service reports as an administrator; the buttons of the card for an approval carry
  that approval.
\<close>

subsection \<open>The buttons of a card\<close>

text \<open>The values of the buttons of a card, from left to right.\<close>

fun button_values :: "card_json \<Rightarrow> (string \<times> card_json) list list" where
  "button_values (CObj kvs) = concat (map (\<lambda>kv. case snd kv of
      CObj m \<Rightarrow> if fst kv = ''value'' then [m] else button_values (snd kv)
    | _ \<Rightarrow> button_values (snd kv)) kvs)"
| "button_values (CArr cs) = concat (map button_values cs)"
| "button_values (CStr s) = []"
| "button_values (CNum i) = []"
| "button_values (CBool b) = []"

text \<open>The value as the callback brings it; \<open>flt\<close> is what a number is after JSON and \<open>float64\<close>.\<close>

definition pressed :: "(int \<Rightarrow> int) \<Rightarrow> (string \<times> card_json) list \<Rightarrow> (string \<times> action_value) list" where
  "pressed flt m = map (\<lambda>(k, v). (k, case v of CStr s \<Rightarrow> AString_value s | CNum i \<Rightarrow> ANumber (flt i) | _ \<Rightarrow> AOther)) m"

lemma buttons_of_card:
  "button_values (BuildAdminApprovalCard fmt a) =
     [[(''action'', CStr ''approve''), (''approval_id'', CNum (tap_ID a))],
      [(''action'', CStr ''reject''), (''approval_id'', CNum (tap_ID a))]]"
  by (simp add: BuildAdminApprovalCard_def baseCard_def mdElement_def button_column_def decision_button_def Let_def)

lemma button_read:
  assumes "flt i = i"
  shows "action_of (pressed flt [(''action'', CStr act), (''approval_id'', CNum i)]) = act"
    "readApprovalID (map_of (pressed flt [(''action'', CStr act), (''approval_id'', CNum i)]) ''approval_id'') = Some i"
  using assms by (simp_all add: pressed_def action_of_def readApprovalID_def)

subsection \<open>The administrator\<close>

text \<open>An account of a named administrator for which the service gives the operator.\<close>

definition known_admin :: "(nat \<Rightarrow> string \<Rightarrow> string \<Rightarrow> string result) \<Rightarrow> string \<Rightarrow> db \<Rightarrow> string \<Rightarrow> bool" where
  "known_admin open_id openID d n = (n \<in> set (t_admin d) \<and>
     (\<exists>u\<in>set (t_user d). db_eq d (tu_User u) n \<and> (\<exists>k. open_id k (tu_Email u) (tu_PhoneNumber u) = Inr openID)))"

lemma scan_all_in: "scan_all ss acc = (rs, e) \<Longrightarrow> set rs \<subseteq> set acc \<union> {r. Inr r \<in> set ss}"
  by (induction ss acc rule: scan_all.induct) auto

lemma rows_of_in: "rows_of f rs = Rows ss e \<Longrightarrow> {r. Inr r \<in> set ss} \<subseteq> set rs"
  by (cases f) (auto dest: in_set_takeD in_set_dropD)

lemma still_reads:
  "io_keeps (\<lambda>_. True) (=) (GetTacacsUserInfoByUserName n)" "io_keeps (\<lambda>_. True) (=) GetTacacsAdminUser"
  unfolding GetTacacsUserInfoByUserName_def GetTacacsAdminUser_def by (intro still.io_rules)+

lemma still_runs:
  assumes "io_keeps (\<lambda>_. True) (=) m" "run_state m w = (x, w')"
  shows "w_db w' = w_db w" "alone w \<Longrightarrow> alone w'"
  using assms by (auto simp: io_keeps_def same_env_def alone_def dest: spec [of _ w])

lemma read_user:
  assumes "alone w" "run_state (GetTacacsUserInfoByUserName n) w = ((Some u, e), w')"
  shows "u \<in> set (t_user (w_db w))" "db_eq (w_db w) (tu_User u) n"
proof -
  let ?rows = "filter (\<lambda>r. db_eq (w_db w) (tu_User r) n) (t_user (w_db w))"
  obtain ss err rs e' where r: "rows_of (w_rfault w (w_n w)) ?rows = Rows ss err" "scan_all ss [] = (rs, e')" "last_opt rs = Some u"
    using assms by (auto simp: GetTacacsUserInfoByUserName_def query_def alone_def split: rows.splits prod.splits)
  have "u \<in> set rs" using r(3) by (auto simp: last_opt_def split: if_splits)
  then have "u \<in> set ?rows" using scan_all_in [OF r(2)] rows_of_in [OF r(1)] by auto
  then show "u \<in> set (t_user (w_db w))" "db_eq (w_db w) (tu_User u) n" by auto
qed

lemma read_admins:
  assumes "alone w" "run_state GetTacacsAdminUser w = (admins, w')"
  shows "set admins \<subseteq> set (t_admin (w_db w))"
proof -
  have "run_state GetTacacsAdminUser w = ((case rows_of (w_rfault w (w_n w)) (t_admin (w_db w)) of
      QueryFails e \<Rightarrow> [] | Rows ss _ \<Rightarrow> fst (scan_all ss [])), w\<lparr>w_n := Suc (w_n w)\<rparr>)"
    using assms(1) by (simp add: GetTacacsAdminUser_def query_def alone_def)
  then show ?thesis
    using assms(2) scan_all_in [OF surjective_pairing] rows_of_in [of "w_rfault w (w_n w)" "t_admin (w_db w)"]
    by (fastforce split: rows.splits)
qed

lemma resolve_loop_admins:
  assumes "alone w" "set names \<subseteq> set (t_admin (w_db w))" "\<forall>n\<in>set matched. known_admin open_id openID (w_db w) n"
    "run_state (resolve_loop open_id openID k names matched) w = (ms, w')"
  shows "(\<forall>n\<in>set ms. known_admin open_id openID (w_db w) n) \<and> w_db w' = w_db w \<and> alone w'"
  using assms
proof (induction names arbitrary: k matched w)
  case (Cons n names)
  obtain info err w1 where 1: "run_state (GetTacacsUserInfoByUserName n) w = ((info, err), w1)" by (metis surj_pair)
  define matched' where "matched' = (case (err, info) of
          (None, Some i) \<Rightarrow> (case open_id k (tu_Email i) (tu_PhoneNumber i) of
              Inl e \<Rightarrow> matched
            | Inr adminOpenId \<Rightarrow> if adminOpenId = openID then matched @ [n] else matched)
        | _ \<Rightarrow> matched)"
  note d = still_runs [OF still_reads(1) 1]
  have "\<forall>m\<in>set matched'. known_admin open_id openID (w_db w1) m"
  proof (cases "matched' = matched")
    case False
    then obtain u where u: "info = Some u" "open_id k (tu_Email u) (tu_PhoneNumber u) = Inr openID" "matched' = matched @ [n]"
      by (auto simp: matched'_def split: option.splits sum.splits if_splits)
    have "known_admin open_id openID (w_db w) n"
      using read_user [OF Cons.prems(1) 1 [unfolded u(1)]] u(2) Cons.prems(2) by (auto simp: known_admin_def)
    then show ?thesis using Cons.prems(3) u(3) d(1) by simp
  qed (use Cons.prems(3) d(1) in simp)
  moreover have "run_state (resolve_loop open_id openID (Suc k) names matched') w1 = (ms, w')"
    using Cons.prems(4) by (simp add: 1 matched'_def)
  ultimately show ?case using Cons.IH [of w1 matched' "Suc k"] Cons.prems(1,2) d by simp
qed simp

lemma resolve_admin:
  assumes "alone w" "run_state (resolveAdminByOpenId open_id openID) w = (n, w')"
  shows "w_db w' = w_db w" "alone w'" "n \<noteq> [] \<Longrightarrow> known_admin open_id openID (w_db w) n"
proof -
  obtain admins w1 where 1: "run_state GetTacacsAdminUser w = (admins, w1)" by (metis surj_pair)
  note d = still_runs [OF still_reads(2) 1]
  obtain ms w2 where 2: "run_state (resolve_loop open_id openID 0 admins []) w1 = (ms, w2)" by (metis surj_pair)
  have "(\<forall>n\<in>set ms. known_admin open_id openID (w_db w1) n) \<and> w_db w2 = w_db w1 \<and> alone w2"
    using resolve_loop_admins [OF _ _ _ 2] d assms(1) read_admins [OF assms(1) 1] by simp
  then show "w_db w' = w_db w" "alone w'" "n \<noteq> [] \<Longrightarrow> known_admin open_id openID (w_db w) n"
    using assms 1 2 d by (auto simp: resolveAdminByOpenId_def split: if_splits list.splits)
qed

subsection \<open>The decision\<close>

definition card_status :: "bool \<Rightarrow> int" where
  "card_status approve = (if approve then 4 else 2)"

definition decide_row :: "int \<Rightarrow> string \<Rightarrow> int \<Rightarrow> approval_row \<Rightarrow> approval_row" where
  "decide_row st n t r = r\<lparr>ar_status := st, ar_approver := Some n, ar_approve_time := Some t\<rparr>"

text \<open>Nothing changes, or the approvals with the id that are pending are decided.\<close>

definition card_change :: "int \<Rightarrow> bool \<Rightarrow> string \<Rightarrow> db \<Rightarrow> db \<Rightarrow> bool" where
  "card_change i approve n d d' = (other_tables_kept d d' \<and> t_user d' = t_user d \<and>
     (t_approval d' = t_approval d \<or>
      (\<exists>t. t_approval d' = set_where (\<lambda>r. ar_id r = i \<and> ar_status r = 3) (decide_row (card_status approve) n t) (t_approval d))))"

lemma decided_stays:
  "set_where (\<lambda>r. ar_id r = i \<and> ar_status r = 3) f (set_where (\<lambda>r. ar_id r = i \<and> ar_status r = 3) (decide_row (card_status approve) n t) rs) =
   set_where (\<lambda>r. ar_id r = i \<and> ar_status r = 3) (decide_row (card_status approve) n t) rs"
  by (simp add: set_where_def decide_row_def card_status_def)

lemma card_change_trans:
  assumes "card_change i approve n d d'" "card_change i approve n d' d''"
  shows "card_change i approve n d d''"
proof -
  have "other_tables_kept d d''" "t_user d'' = t_user d" using assms by (auto simp: card_change_def other_tables_kept_def)
  moreover have "t_approval d'' = t_approval d' \<or> t_approval d' = t_approval d \<or> t_approval d'' = t_approval d'"
    using assms by (auto simp: card_change_def decided_stays)
  ultimately show ?thesis using assms unfolding card_change_def by metis
qed

interpretation by_card: frame alone "card_change i approve n" "\<lambda>_ _. True" for i approve n
proof
  show "card_change i approve n d d''" if "card_change i approve n d d'" "card_change i approve n d' d''" for d d' d''
    using that by (rule card_change_trans)
qed (simp_all add: card_change_def other_tables_kept_def alone_def same_env_def)

lemma card_ApproveWithLock: "io_keeps alone (card_change i approve n) (ApproveWithLock i (card_status approve) n)"
proof -
  have "card_change i approve n d d'" if "approve_stmt i (card_status approve) n now d = Inr (d', k, j)" for d d' k j now
  proof -
    have "(\<lambda>r. r\<lparr>ar_status := card_status approve, ar_approver := Some n, ar_approve_time := Some (datetime now)\<rparr>) =
        decide_row (card_status approve) n (datetime now)"
      by (simp add: fun_eq_iff decide_row_def)
    from sql_update_run(1) [OF that [unfolded approve_stmt_def this]] show ?thesis
      by (auto simp: card_change_def other_tables_kept_def)
  qed
  then have "io_keeps alone (card_change i approve n) (exec (approve_stmt i (card_status approve) n now))" for now
    by (intro by_card.io_exec) (auto simp: alone_def)
  moreover have "io_keeps alone (card_change i approve n) (exec (bump_stmt key))" for key
    by (rule by_card.io_exec) (auto simp: alone_def bump_stmt_def card_change_def other_tables_kept_def)
  then have "io_keeps alone (card_change i approve n) (BumpMetaVersion key)" for key
    unfolding BumpMetaVersion_def by (intro by_card.io_rules) (auto intro!: by_card.io_rules split: option.split)
  ultimately show ?thesis unfolding ApproveWithLock_def by (intro by_card.io_rules)
qed

lemma card_decide:
  "io_keeps alone (card_change i approve n) (decide_by_card fmt now i (card_status approve) kind n)"
  unfolding decide_by_card_def GetTacacsApprovalByID_def
  by (intro by_card.io_rules card_ApproveWithLock)

lemma action_cases: "action_status act = Some (st, kind) \<Longrightarrow> st = card_status (act = ''approve'') \<and> (act = ''approve'' \<or> act = ''reject'')"
  by (auto simp: action_status_def card_status_def split: if_splits)

text \<open>
  C40. Pressing a button of a card changes the database only if the button says approve or reject and names
  an approval, and the service gives the operator's open id for an account of a user listed as an
  administrator; then exactly the pending approvals with that id become granted or rejected as the button
  says, under the name of that administrator, or nothing changes.  Every other press leaves the database as it is.
\<close>

theorem card_decides_for_admins:
  assumes "alone w" "run_state (handleCardAction fmt now open_id event) w = (resp, w')"
  shows "w_db w' = w_db w \<or>
    (\<exists>ev i openID n. event = Some ev \<and> readApprovalID (map_of (ce_Value ev) ''approval_id'') = Some i \<and>
       action_of (ce_Value ev) \<in> {''approve'', ''reject''} \<and> ce_OpenID ev = Some openID \<and> openID \<noteq> [] \<and>
       known_admin open_id openID (w_db w) n \<and>
       card_change i (action_of (ce_Value ev) = ''approve'') n (w_db w) (w_db w'))"
proof (cases event)
  case None
  then show ?thesis using assms(2) by (simp add: handleCardAction_def)
next
  case (Some ev)
  let ?a = "action_of (ce_Value ev)" and ?v = "readApprovalID (map_of (ce_Value ev) ''approval_id'')"
  let ?o = "case ce_OpenID ev of None \<Rightarrow> [] | Some i \<Rightarrow> i"
  show ?thesis
  proof (cases "?a = [] \<or> ?v = None \<or> action_status ?a = None \<or> ?o = []")
    case True
    then show ?thesis using assms(2) by (auto simp: Some handleCardAction_def Let_def split: if_splits option.splits)
  next
    case False
    then obtain i st kind where v: "?v = Some i" "action_status ?a = Some (st, kind)" "?a \<noteq> []" "?o \<noteq> []" by auto
    obtain n w1 where r: "run_state (resolveAdminByOpenId open_id ?o) w = (n, w1)" by (metis surj_pair)
    note res = resolve_admin [OF assms(1) r]
    have run: "run_state (if n = [] then ret (errToast ''not an administrator'') else decide_by_card fmt now i st kind n) w1 = (resp, w')"
      using assms(2) v r by (auto simp: Some handleCardAction_def Let_def split: if_splits)
    show ?thesis
    proof (cases "n = []")
      case True
      then show ?thesis using run res(1) by simp
    next
      case n: False
      note a = action_cases [OF v(2)]
      have "card_change i (?a = ''approve'') n (w_db w1) (w_db w')"
        using card_decide [of i "?a = ''approve''" n fmt now kind] run n a res(2)
        by (auto simp: io_keeps_def dest: spec [of _ w1])
      moreover have "ce_OpenID ev = Some ?o" using v(4) by (cases "ce_OpenID ev") simp_all
      ultimately show ?thesis using Some v a n res by auto
    qed
  qed
qed

theorem card_decides_for_admins_witness:
  "let w = calm_world (example_db\<lparr>t_admin := [''bob''],
       t_approval := [\<lparr>ar_id = 1, ar_create_time = 0, ar_user = ''eve'', ar_approval_permissions = ''ops'', ar_start_time = 0,
         ar_end_time = 1, ar_status = 3, ar_approver = None, ar_approve_time = None\<rparr>]\<rparr>);
     ev = \<lparr>ce_Value = [(''action'', AString_value ''approve''), (''approval_id'', ANumber 1)], ce_OpenID = Some ''ou_eve''\<rparr>
   in w_db (snd (run_state (handleCardAction (\<lambda>_. []) 0 (\<lambda>_ _ _. Inr ''ou_bob'') (Some ev)) w)) = w_db w"
proof -
  define w where "w = calm_world (example_db\<lparr>t_admin := [''bob''],
       t_approval := [\<lparr>ar_id = 1, ar_create_time = 0, ar_user = ''eve'', ar_approval_permissions = ''ops'', ar_start_time = 0,
         ar_end_time = 1, ar_status = 3, ar_approver = None, ar_approve_time = None\<rparr>]\<rparr>)"
  define ev where "ev = \<lparr>ce_Value = [(''action'', AString_value ''approve''), (''approval_id'', ANumber 1)], ce_OpenID = Some ''ou_eve''\<rparr>"
  have "alone w" by (simp add: w_def alone_def calm_world_def)
  moreover obtain resp w' where r: "run_state (handleCardAction (\<lambda>_. []) 0 (\<lambda>_ _ _. Inr ''ou_bob'') (Some ev)) w = (resp, w')" by (metis surj_pair)
  moreover have "\<not> known_admin (\<lambda>_ _ _. Inr ''ou_bob'') ''ou_eve'' (w_db w) n" for n by (simp add: known_admin_def)
  ultimately have "w_db w' = w_db w" using card_decides_for_admins [of w "\<lambda>_. []" 0] by (fastforce simp: ev_def)
  then show ?thesis using r unfolding w_def [symmetric] ev_def [symmetric] Let_def by simp
qed

end
