(* ===== verification/Network.thy ===== *)
theory Network
  imports HttpServer
begin

text \<open>
  Sockets and start-up of the processes: \<open>pkg/public/network/dscp.go\<close>, the PROXY protocol of
  \<open>tacplus.go\<close>, the health check of the client (\<open>client/http/handler.go\<close>), and how \<open>cfg.go\<close> finds
  secrets and configuration files.  Sockets, the parsing of addresses, files and the environment are
  parameters; an option that would be set on a socket is a value.
\<close>

subsection \<open>DSCP\<close>

text \<open>\<open>strconv.Atoi\<close> on 64 bits.\<close>

definition Atoi :: "string \<Rightarrow> int result" where
  "Atoi s = (case ParseInt s of Some v \<Rightarrow> Inr v | None \<Rightarrow> Inl (GoError (''strconv.Atoi: parsing '' @ quote s)))"

datatype sockopt = IPV6_TCLASS int | IP_TOS int

record net_conf =
  nc_SplitHostPort :: "string \<Rightarrow> string result"  \<comment> \<open>the host\<close>
  nc_ParseIP :: "string \<Rightarrow> bytes option"
  nc_To4 :: "bytes \<Rightarrow> bool"  \<comment> \<open>\<open>To4\<close> is not nil\<close>
  nc_setsockopt :: "sockopt \<Rightarrow> go_error option"
  nc_Control :: "go_error option"  \<comment> \<open>the error of \<open>RawConn.Control\<close> itself, which then does not call back\<close>
  nc_Listen :: "string \<Rightarrow> string \<Rightarrow> go_error option"
  nc_Dial :: "string \<Rightarrow> go_error option"

text \<open>A connection: its kind, what \<open>SyscallConn\<close> reports, and the texts of its addresses.\<close>

datatype raw_conn = TCPConn "go_error option" "string option" | UDPConn "go_error option" "string option" "string option"
  | OtherConn string

text \<open>A wrapper with \<open>Raw()\<close>, one layer deep.\<close>

datatype net_conn = Wrapped raw_conn | Plain raw_conn

definition isIPv6Address :: "net_conf \<Rightarrow> string \<Rightarrow> bool" where
  "isIPv6Address N addr =
     (let host = (case nc_SplitHostPort N addr of Inl _ \<Rightarrow> addr | Inr host \<Rightarrow> host) in
      case nc_ParseIP N host of None \<Rightarrow> False | Some ip \<Rightarrow> \<not> nc_To4 N ip)"

definition dscp_option :: "bool \<Rightarrow> int \<Rightarrow> sockopt" where
  "dscp_option isIPv6 dscpValue = (if isIPv6 then IPV6_TCLASS (dscpValue * 4) else IP_TOS (dscpValue * 4))"

text \<open>Set on a raw connection: the error, and the option that was given to the socket.\<close>

definition control_dscp :: "net_conf \<Rightarrow> bool \<Rightarrow> int \<Rightarrow> go_error option \<times> sockopt option" where
  "control_dscp N isIPv6 dscpValue =
     (case nc_Control N of Some e \<Rightarrow> (Some (GoError (''failed to control raw connection: '' @ err_msg e)), None)
      | None \<Rightarrow> (nc_setsockopt N (dscp_option isIPv6 dscpValue), Some (dscp_option isIPv6 dscpValue)))"

definition SetDSCP :: "net_conf \<Rightarrow> net_conn \<Rightarrow> string \<Rightarrow> go_error option \<times> sockopt option" where
  "SetDSCP N c dscp =
     (if dscp = [] \<or> dscp = ''0'' then (None, None)
      else (case Atoi dscp of Inl e \<Rightarrow> (Some (GoError (''invalid DSCP value: '' @ dscp @ '', error: '' @ err_msg e)), None)
        | Inr dscpValue \<Rightarrow>
            if dscpValue < 0 \<or> dscpValue > 63 then (Some (GoError (''DSCP value '' @ dec_int dscpValue @ '' out of range (0-63)'')), None)
            else (case (case c of Wrapped r \<Rightarrow> r | Plain r \<Rightarrow> r) of
                TCPConn (Some e) _ \<Rightarrow> (Some (GoError (''failed to get raw TCP connection: '' @ err_msg e)), None)
              | TCPConn None remote \<Rightarrow> control_dscp N (case remote of None \<Rightarrow> False | Some a \<Rightarrow> isIPv6Address N a) dscpValue
              | UDPConn (Some e) _ _ \<Rightarrow> (Some (GoError (''failed to get raw UDP connection: '' @ err_msg e)), None)
              | UDPConn None remote local_addr \<Rightarrow> control_dscp N
                  (case remote of Some a \<Rightarrow> isIPv6Address N a
                   | None \<Rightarrow> (case local_addr of None \<Rightarrow> False | Some a \<Rightarrow> isIPv6Address N a)) dscpValue
              | OtherConn t \<Rightarrow> (Some (GoError (''unsupported connection type: '' @ t)), None))))"

definition ValidateDSCP :: "string \<Rightarrow> bool" where
  "ValidateDSCP dscp =
     (if dscp = [] \<or> dscp = ''0'' then True
      else (case Atoi dscp of Inl _ \<Rightarrow> False | Inr dscpValue \<Rightarrow> dscpValue \<ge> 0 \<and> dscpValue \<le> 63))"

text \<open>
  The callback looks at the network name that the listener was asked for, not at the one of the socket;
  a failing option is only logged.
\<close>

definition CreateDSCPListener :: "net_conf \<Rightarrow> string \<Rightarrow> string \<Rightarrow> string \<Rightarrow> go_error option \<times> sockopt option" where
  "CreateDSCPListener N network address dscp =
     (if dscp = [] \<or> dscp = ''0'' then (nc_Listen N network address, None)
      else (case Atoi dscp of Inl e \<Rightarrow> (Some (GoError (''invalid DSCP value '' @ dscp @ '': '' @ err_msg e)), None)
        | Inr dscpValue \<Rightarrow>
            if dscpValue < 0 \<or> dscpValue > 63 then (Some (GoError (''DSCP value '' @ dec_int dscpValue @ '' out of range (0-63)'')), None)
            else (case nc_Control N of
                Some e \<Rightarrow> (Some (GoError (''failed to create DSCP listener: failed to control listener socket: '' @ err_msg e)), None)
              | None \<Rightarrow>
                  let opt = dscp_option (str_Contains network ''6'') dscpValue in
                  (case nc_Listen N network address of
                     Some e \<Rightarrow> (Some (GoError (''failed to create DSCP listener: '' @ err_msg e)), Some opt)
                   | None \<Rightarrow> (None, Some opt)))))"

text \<open>The dialer: \<open>socket_network\<close> is the network of the socket that the callback is given.\<close>

definition CreateDSCPDialer :: "net_conf \<Rightarrow> string \<Rightarrow> string \<Rightarrow> go_error + (go_error option \<times> sockopt option) option" where
  "CreateDSCPDialer N socket_network dscp =
     (if dscp = [] \<or> dscp = ''0'' then Inr None
      else (case Atoi dscp of Inl e \<Rightarrow> Inl (GoError (''invalid DSCP value '' @ dscp @ '': '' @ err_msg e))
        | Inr dscpValue \<Rightarrow>
            if dscpValue < 0 \<or> dscpValue > 63 then Inl (GoError (''DSCP value '' @ dec_int dscpValue @ '' out of range (0-63)''))
            else Inr (Some (case nc_Control N of
                Some e \<Rightarrow> (Some (GoError (''failed to control client socket: '' @ err_msg e)), None)
              | None \<Rightarrow> (let opt = dscp_option (str_Contains socket_network ''6'') dscpValue in (nc_setsockopt N opt, Some opt))))))"

text \<open>
  The start of the client checks the value first, and the listener accepts exactly what passes; the
  option fits into the byte of the header.
\<close>

lemma validated_dscp_listens:
  assumes "nc_Control N = None" "nc_Listen N network address = None"
  shows "fst (CreateDSCPListener N network address dscp) = None \<longleftrightarrow> ValidateDSCP dscp"
  using assms by (auto simp: CreateDSCPListener_def ValidateDSCP_def Let_def split: sum.split)

lemma dscp_option_byte:
  assumes "snd (SetDSCP N c dscp) = Some opt"
  obtains v where "0 \<le> v" "v \<le> 252" "opt = IPV6_TCLASS v \<or> opt = IP_TOS v"
  using assms by (fastforce simp: SetDSCP_def control_dscp_def dscp_option_def split: if_splits sum.splits option.splits raw_conn.splits)

text \<open>A listener for \<open>tcp\<close> on an IPv6 address gets the option of IPv4.\<close>

lemma listener_option_ipv4:
  assumes "dscp \<noteq> []" "snd (CreateDSCPListener N ''tcp'' address dscp) = Some opt"
  shows "\<exists>v. opt = IP_TOS v"
proof -
  have "\<not> str_Contains ''tcp'' ''6''" by code_simp
  then show ?thesis
    using assms by (auto simp: CreateDSCPListener_def dscp_option_def Let_def split: if_splits sum.splits option.splits)
qed

subsection \<open>The PROXY protocol\<close>

datatype proxy_policy = USE | IGNORE

text \<open>\<open>None\<close> is the error after the listener was closed, \<open>Some None\<close> the listener as it was.\<close>

definition wrapWithProxyProtocol :: "lib \<Rightarrow> net_conf \<Rightarrow> string list \<Rightarrow> (string \<Rightarrow> proxy_policy) option option" where
  "wrapWithProxyProtocol L N trustedCidrs =
     (case nets_loop L trustedCidrs [] of None \<Rightarrow> None
      | Some nets \<Rightarrow>
          if length nets = 0 then Some None
          else Some (Some (\<lambda>upstream. case nc_SplitHostPort N upstream of Inl _ \<Rightarrow> IGNORE
            | Inr host \<Rightarrow> (case nc_ParseIP N host of None \<Rightarrow> IGNORE
                | Some ip \<Rightarrow> if list_ex (\<lambda>n. Contains n ip) nets then USE else IGNORE))))"

subsection \<open>Start of the TACACS+ listener\<close>

text \<open>What \<open>TacPlusSystem.Start\<close> does, in order; log output is left out.\<close>

datatype start_action =
    RunUpdateUsers
  | AddFunc string string
  | StartCron
  | StopCron
  | ListenAt string "sockopt option"
  | CloseListener
  | ServeListener "(string \<Rightarrow> proxy_policy) option"

record TacPlusConfig =
  tp_IP :: string
  tp_Port :: string
  tp_DSCP :: string
  tp_ProxyTrustedCidrs :: "string list"

definition start_listener :: "lib \<Rightarrow> net_conf \<Rightarrow> TacPlusConfig \<Rightarrow> start_action list \<times> go_error option" where
  "start_listener L N cfg =
     (let address = tp_IP cfg @ '':'' @ tp_Port cfg in
      case CreateDSCPListener N ''tcp'' address (tp_DSCP cfg) of
        (Some err, _) \<Rightarrow> ([], Some (GoError (''failed to create DSCP listener on '' @ address @ '': '' @ err_msg err)))
      | (None, opt) \<Rightarrow>
          (case wrapWithProxyProtocol L N (tp_ProxyTrustedCidrs cfg) of
             None \<Rightarrow> ([ListenAt address opt, CloseListener], Some (GoError ''failed to enable PROXY protocol''))
           | Some policy \<Rightarrow> ([ListenAt address opt, ServeListener policy], None)))"

definition TacPlusSystem_Start ::
  "lib \<Rightarrow> net_conf \<Rightarrow> (string \<Rightarrow> go_error option) \<Rightarrow> TacPlusConfig \<Rightarrow> start_action list \<times> go_error option" where
  "TacPlusSystem_Start L N add_func cfg =
     (if tp_DSCP cfg \<noteq> [] \<and> \<not> ValidateDSCP (tp_DSCP cfg)
      then ([], Some (GoError (''invalid DSCP value: '' @ tp_DSCP cfg @ '', must be between 0-63'')))
      else (case add_func ''*/2 * * * * *'' of
          Some err \<Rightarrow> ([RunUpdateUsers], Some (GoError (''updateUsers task not added: '' @ err_msg err)))
        | None \<Rightarrow> (case add_func ''0 */5 * * * *'' of
            Some err \<Rightarrow> ([RunUpdateUsers, AddFunc ''*/2 * * * * *'' ''updateUsers''],
                Some (GoError (''clearTempTacacsTableUpdateTime task not added: '' @ err_msg err)))
          | None \<Rightarrow> (case start_listener L N cfg of (acts, err) \<Rightarrow>
              ([RunUpdateUsers, AddFunc ''*/2 * * * * *'' ''updateUsers'',
                AddFunc ''0 */5 * * * *'' ''clearTempTacacsTableUpdateTime'', StartCron] @ acts, err)))))"

text \<open>\<open>Stop\<close>\<close>

definition TacPlusSystem_Stop :: "start_action list" where
  "TacPlusSystem_Stop = [CloseListener, StopCron]"

text \<open>
  A successful start has read the users first and serves the listener last; a start that fails serves nothing
  and leaves no listener open.
\<close>

lemma TacPlusSystem_Start_success:
  assumes "TacPlusSystem_Start L N add_func cfg = (acts, None)"
  obtains opt policy where "acts = [RunUpdateUsers, AddFunc ''*/2 * * * * *'' ''updateUsers'',
      AddFunc ''0 */5 * * * *'' ''clearTempTacacsTableUpdateTime'', StartCron,
      ListenAt (tp_IP cfg @ '':'' @ tp_Port cfg) opt, ServeListener policy]"
  using assms by (auto simp: TacPlusSystem_Start_def start_listener_def Let_def split: if_splits option.splits prod.splits)

lemma TacPlusSystem_Start_failure:
  assumes "TacPlusSystem_Start L N add_func cfg = (acts, Some err)"
  shows "ServeListener policy \<notin> set acts" "ListenAt a opt \<in> set acts \<Longrightarrow> last acts = CloseListener"
  using assms by (auto simp: TacPlusSystem_Start_def start_listener_def Let_def split: if_splits option.splits prod.splits)

subsection \<open>The health of the client\<close>

definition probeTacPlusListener :: "net_conf \<Rightarrow> (string \<Rightarrow> string \<Rightarrow> string) \<Rightarrow> string \<Rightarrow> string \<Rightarrow> go_error option" where
  "probeTacPlusListener N JoinHostPort host port =
     (if port = [] then Some (GoError ''tacPlus.port not configured'')
      else let host = (if host = [] \<or> host = ''0.0.0.0'' then ''127.0.0.1''
                       else if host = ''::'' \<or> host = ''[::]'' then ''::1'' else host)
           in nc_Dial N (JoinHostPort host port))"

text \<open>\<open>None\<close> for a read database that is not initialised, else what its \<open>Ping\<close> reports.\<close>

definition client_httpApiHealth :: "go_error option option \<Rightarrow> go_error option \<Rightarrow> int \<times> string" where
  "client_httpApiHealth DbRead probe =
     (case DbRead of None \<Rightarrow> (424, ''DbRead is not initialized'')
      | Some (Some e) \<Rightarrow> (424, ''connect to read db failed, err: '' @ err_msg e)
      | Some None \<Rightarrow> (case probe of Some e \<Rightarrow> (424, ''tacacs+ listener not reachable: '' @ err_msg e)
          | None \<Rightarrow> (200, ''service is ok'')))"

subsection \<open>Configuration\<close>

text \<open>\<open>os.Getenv\<close> and \<open>os.ReadFile\<close>.\<close>

definition resolveEnvOr :: "(string \<Rightarrow> string) \<Rightarrow> string \<Rightarrow> string \<Rightarrow> string" where
  "resolveEnvOr getenv envName fallback =
     (if envName \<noteq> [] \<and> getenv envName \<noteq> [] then getenv envName else fallback)"

record secret_conf =
  se_Secret :: string
  se_Env :: string
  se_File :: string

definition ResolveSwmSecret :: "(string \<Rightarrow> string) \<Rightarrow> (string \<Rightarrow> string result) \<Rightarrow> secret_conf option \<Rightarrow> string" where
  "ResolveSwmSecret getenv read_file g =
     (case g of None \<Rightarrow> []
      | Some g \<Rightarrow>
          if se_Env g \<noteq> [] \<and> getenv (se_Env g) \<noteq> [] then getenv (se_Env g)
          else if se_File g \<noteq> [] then (case read_file (se_File g) of Inr b \<Rightarrow> TrimSpace b | Inl _ \<Rightarrow> se_Secret g)
          else se_Secret g)"

definition ToTrimString :: "(string \<Rightarrow> string result) \<Rightarrow> string \<Rightarrow> string result" where
  "ToTrimString read_file filePath = map_sum id TrimSpace (read_file filePath)"

text \<open>\<open>exists\<close> is what \<open>PathExists\<close> reports; the first argument is what Apollo gives.\<close>

definition loadConfigContent :: "string result \<Rightarrow> (string \<Rightarrow> bool) \<Rightarrow> (string \<Rightarrow> string result) \<Rightarrow> string \<Rightarrow> string result" where
  "loadConfigContent apollo exists read_file cfg =
     (case apollo of Inr content \<Rightarrow> Inr content
      | Inl err \<Rightarrow>
          if cfg = [] then Inl (GoError (''apollo unavailable ('' @ err_msg err @ '') and no config file specified, use -c to specify one''))
          else if \<not> exists cfg then Inl (GoError (''config file: '' @ cfg @ '' not found''))
          else ToTrimString read_file cfg)"


text \<open>The three configurations of \<open>cfg.go\<close>; the types of their contents are left open.\<close>

record ('server, 'client, 'swm) configs =
  cf_server :: "'server option"
  cf_client :: "'client option"
  cf_swm :: "'swm option"

text \<open>\<open>yaml.Unmarshal\<close> into the three types is a parameter.\<close>

record ('server, 'client, 'swm) yaml_lib =
  ym_server :: "string \<Rightarrow> 'server result"
  ym_client :: "string \<Rightarrow> 'client result"
  ym_swm :: "string \<Rightarrow> 'swm result"

definition parse_fail :: "string \<Rightarrow> go_error \<Rightarrow> go_error option" where
  "parse_fail item err = Some (GoError (''parse '' @ item @ '' config fail: '' @ err_msg err))"

definition ParseConfig ::
  "('s, 'c, 'w) yaml_lib \<Rightarrow> (string \<Rightarrow> string result) \<Rightarrow> (string \<Rightarrow> bool) \<Rightarrow> (string \<Rightarrow> string result) \<Rightarrow>
   string \<Rightarrow> string \<Rightarrow> ('s, 'c, 'w) configs \<Rightarrow> go_error option \<times> ('s, 'c, 'w) configs" where
  "ParseConfig Y apollo exists read_file item cfg g =
     (case loadConfigContent (apollo item) exists read_file cfg of Inl err \<Rightarrow> (Some err, g)
      | Inr content \<Rightarrow>
          if item = ''server'' then
            (case ym_server Y content of Inl err \<Rightarrow> (parse_fail item err, g) | Inr c \<Rightarrow> (None, g\<lparr>cf_server := Some c\<rparr>))
          else if item = ''client'' then
            (case ym_client Y content of Inl err \<Rightarrow> (parse_fail item err, g) | Inr c \<Rightarrow> (None, g\<lparr>cf_client := Some c\<rparr>))
          else if item = ''swm'' then
            (case ym_swm Y content of Inl err \<Rightarrow> (parse_fail item err, g) | Inr c \<Rightarrow> (None, g\<lparr>cf_swm := Some c\<rparr>))
          else (Some (GoError (''unknown config item: '' @ item)), g))"

text \<open>The accessors, each one step under the lock.\<close>

definition ServerConfig :: "('s, 'c, 'w) configs \<Rightarrow> 's option" where "ServerConfig g = cf_server g"
definition ClientConfig :: "('s, 'c, 'w) configs \<Rightarrow> 'c option" where "ClientConfig g = cf_client g"
definition SwmConfig :: "('s, 'c, 'w) configs \<Rightarrow> 'w option" where "SwmConfig g = cf_swm g"
definition SetServerConfig :: "'s option \<Rightarrow> ('s, 'c, 'w) configs \<Rightarrow> ('s, 'c, 'w) configs" where
  "SetServerConfig c g = g\<lparr>cf_server := c\<rparr>"

text \<open>The error of \<open>os.Stat\<close> and whether it says that there is no such file.\<close>

definition cfg_PathExists :: "(string \<Rightarrow> (go_error \<times> bool) option) \<Rightarrow> string \<Rightarrow> bool \<times> go_error option" where
  "cfg_PathExists stat path =
     (case stat path of None \<Rightarrow> (True, None) | Some (err, not_exist) \<Rightarrow> if not_exist then (False, None) else (False, Some err))"

definition cfg_ToString :: "(string \<Rightarrow> string result) \<Rightarrow> string \<Rightarrow> string result" where
  "cfg_ToString read_file filePath = read_file filePath"

text \<open>A configuration that cannot be loaded leaves the one in force.\<close>

lemma ParseConfig_failure_keeps:
  "ParseConfig Y apollo exists read_file item cfg g = (Some err, g') \<Longrightarrow> g' = g"
  by (auto simp: ParseConfig_def split: sum.splits if_splits)

end
