(* ===== verification/Startup.thy ===== *)
theory Startup
  imports Network
begin

text \<open>
  What the processes do before they serve, and the HTTP client they share: \<open>public/httpclient\<close>,
  \<open>public/apolloConfig\<close>, \<open>public/env\<close>, the pools of \<open>public/db/db.go\<close>, the key of the sessions
  (\<open>swm/http/session.go\<close>) and the connection to Feishu (\<open>server/feishuws/feishuws.go\<close>).  The network, files, the
  environment, YAML, the Apollo client and the database driver are parameters; log output is left out.
\<close>

subsection \<open>The HTTP client\<close>

text \<open>A response: its status and the stream of its body, an error being reported after the bytes.\<close>

record http_response =
  hr_StatusCode :: int
  hr_Body :: bytes
  hr_Err :: "go_error option"

record http_lib =
  hc_NewRequest :: "string \<Rightarrow> string \<Rightarrow> go_error option"
  hc_Do :: "string \<Rightarrow> string \<Rightarrow> (string \<rightharpoonup> string) \<Rightarrow> bytes option \<Rightarrow> int \<Rightarrow> http_response result"

definition maxResponseBodyBytes :: nat where "maxResponseBodyBytes = 4 * 2 ^ 20"

text \<open>\<open>io.ReadAll(io.LimitReader(body, n))\<close>\<close>

definition read_limited :: "nat \<Rightarrow> http_response \<Rightarrow> bytes \<times> go_error option" where
  "read_limited n resp =
     (if length (hr_Body resp) \<ge> n then (take n (hr_Body resp), None) else (hr_Body resp, hr_Err resp))"

definition http_request ::
  "http_lib \<Rightarrow> string \<Rightarrow> string \<Rightarrow> (string \<rightharpoonup> string) \<Rightarrow> bytes option \<Rightarrow> int \<Rightarrow> bytes \<times> go_error option" where
  "http_request H meth url header data timeout =
     (case hc_NewRequest H meth url of Some err \<Rightarrow> ([], Some err)
      | None \<Rightarrow> (case hc_Do H meth url header data timeout of Inl err \<Rightarrow> ([], Some err)
        | Inr resp \<Rightarrow> (case read_limited (maxResponseBodyBytes + 1) resp of
            (respBody, Some err) \<Rightarrow> (respBody, Some err)
          | (respBody, None) \<Rightarrow>
              if length respBody > maxResponseBodyBytes
              then ([], Some (GoError (''response body exceeds '' @ dec_int (int maxResponseBodyBytes) @ '' bytes'')))
              else if hr_StatusCode resp \<noteq> 200
              then (respBody, Some (GoError (''resp.StatusCode:'' @ dec_int (hr_StatusCode resp))))
              else (respBody, None))))"

definition http_GetWithTimeout where "http_GetWithTimeout H url header timeout = http_request H ''GET'' url header None timeout"
definition http_Get where "http_Get H url header = http_request H ''GET'' url header None 15"
definition http_Post where "http_Post H url header data = http_request H ''POST'' url header data 15"
definition http_Put where "http_Put H url header data = http_request H ''PUT'' url header data 15"
definition http_Delete where "http_Delete H url header = http_request H ''DELETE'' url header None 15"

text \<open>The loop of \<open>Retry\<close>; \<open>callback i\<close> is the call in turn \<open>i\<close>, the last component counts the calls.\<close>

function Retry_loop ::
  "int \<Rightarrow> (nat \<Rightarrow> bytes \<times> go_error option) \<Rightarrow> nat \<Rightarrow> (bytes \<times> go_error option) \<times> nat" where
  "Retry_loop attempts callback i =
     (case callback i of
        (data, None) \<Rightarrow> ((data, None), Suc i)
      | (data, Some err) \<Rightarrow>
          if int i \<ge> attempts - 1
          then (([], Some (GoError (''after '' @ dec_int attempts @ '' attempts, last error: '' @ err_msg err))), Suc i)
          else Retry_loop attempts callback (Suc i))"
  by pat_completeness auto
termination by (relation "measure (\<lambda>(attempts, _, i). nat (attempts - int i))") auto

declare Retry_loop.simps [simp del]

definition Retry :: "int \<Rightarrow> (nat \<Rightarrow> bytes \<times> go_error option) \<Rightarrow> (bytes \<times> go_error option) \<times> nat" where
  "Retry attempts callback = Retry_loop attempts callback 0"

definition PostRetry where "PostRetry H attempts url header data = Retry attempts (\<lambda>i. http_Post (H i) url header data)"
definition GetRetry where "GetRetry H attempts url header = Retry attempts (\<lambda>i. http_Get (H i) url header)"

text \<open>Only a complete answer with status 200 within the limit is returned without an error.\<close>

lemma http_request_ok:
  assumes "http_request H meth url header data timeout = (body, None)"
  shows "length body \<le> maxResponseBodyBytes \<and> (\<exists>resp. hc_Do H meth url header data timeout = Inr resp \<and>
    hr_StatusCode resp = 200 \<and> hr_Body resp = body \<and> hr_Err resp = None)"
  using assms by (auto simp: http_request_def read_limited_def split: option.splits sum.splits prod.splits if_splits)

lemma Retry_loop_result:
  assumes "Retry_loop attempts callback i = (r, n)"
  shows "i < n \<and> int n \<le> max (int i + 1) attempts \<and>
    (if snd r = None then callback (n - 1) = r else \<forall>j. i \<le> j \<and> j < n \<longrightarrow> snd (callback j) \<noteq> None)"
  using assms
proof (induction attempts callback i rule: Retry_loop.induct)
  case (1 attempts callback i)
  obtain data e where c: "callback i = (data, e)" by (cases "callback i")
  show ?case
  proof (cases "e = None \<or> int i \<ge> attempts - 1")
    case True
    then show ?thesis using 1(2) c by (subst (asm) Retry_loop.simps) (auto split: option.splits dest: le_less_Suc_eq)
  next
    case False
    then obtain err where e: "e = Some err" by auto
    have step: "Retry_loop attempts callback (Suc i) = (r, n)"
      using 1(2) False c e by (subst (asm) Retry_loop.simps) simp
    have ih: "Suc i < n \<and> int n \<le> max (int (Suc i) + 1) attempts \<and>
      (if snd r = None then callback (n - 1) = r else \<forall>j. Suc i \<le> j \<and> j < n \<longrightarrow> snd (callback j) \<noteq> None)"
      using False by (intro 1(1) [OF c [symmetric, unfolded e] refl _ step]) simp
    have "snd (callback j) \<noteq> None" if "snd r \<noteq> None" "i \<le> j" "j < n" for j
      using ih that c e by (cases "j = i") auto
    then show ?thesis using ih False by (cases "snd r = None") auto
  qed
qed

text \<open>A retried request is sent at least once and at most \<open>attempts\<close> times, and fails only if all calls fail.\<close>

lemma Retry_bounded:
  assumes "Retry attempts callback = (r, n)"
  shows "1 \<le> n" "int n \<le> max 1 attempts"
    "if snd r = None then callback (n - 1) = r else (\<forall>j<n. snd (callback j) \<noteq> None)"
  using Retry_loop_result [OF assms [unfolded Retry_def]] by auto


subsection \<open>Apollo\<close>

record fileConfig =
  fc_AppID :: string
  fc_Cluster :: string
  fc_IP :: string
  fc_Namespace :: string
  fc_Secret :: string

definition envOr :: "(string \<Rightarrow> string) \<Rightarrow> string \<Rightarrow> string \<Rightarrow> string" where
  "envOr getenv key fallback = (if getenv key \<noteq> [] then getenv key else fallback)"

text \<open>\<open>fc\<close> is what \<open>yaml.Unmarshal\<close> leaves of the file \<open>apollo.yaml\<close>, all empty without one.\<close>

definition resolveConfig :: "(string \<Rightarrow> string) \<Rightarrow> fileConfig \<Rightarrow> fileConfig" where
  "resolveConfig getenv fc =
     (let fc = fc\<lparr>fc_AppID := envOr getenv ''APOLLO_APP_ID'' (fc_AppID fc), fc_Cluster := envOr getenv ''APOLLO_CLUSTER'' (fc_Cluster fc),
                  fc_IP := envOr getenv ''APOLLO_IP'' (fc_IP fc), fc_Namespace := envOr getenv ''APOLLO_NAMESPACE'' (fc_Namespace fc),
                  fc_Secret := envOr getenv ''APOLLO_SECRET'' (fc_Secret fc)\<rparr>;
          fc = (if fc_Cluster fc = [] then fc\<lparr>fc_Cluster := ''default''\<rparr> else fc)
      in if fc_Namespace fc = [] then fc\<lparr>fc_Namespace := ''application''\<rparr> else fc)"

text \<open>\<open>None\<close> is a client that was not started; \<open>start\<close> is \<open>agollo.StartWithConfig\<close>.\<close>

definition apollo_Init ::
  "(fileConfig \<Rightarrow> go_error option) \<Rightarrow> fileConfig \<Rightarrow> fileConfig option \<Rightarrow> go_error option \<times> fileConfig option" where
  "apollo_Init start cfg client =
     (let missing = (if fc_AppID cfg = [] then [''app_id''] else []) @ (if fc_IP cfg = [] then [''ip''] else []) @
                    (if fc_Secret cfg = [] then [''secret''] else [])
      in if length missing > 0
         then (Some (GoError (''apollo config missing required fields: '' @ Join '', '' missing @ '' (set via env or apollo.yaml)'')), client)
         else (case start cfg of Some err \<Rightarrow> (Some (GoError (''start apollo error: '' @ err_msg err)), client)
           | None \<Rightarrow> (None, Some cfg)))"

text \<open>A value of the cache of the client; \<open>None\<close> is one that is not a string.\<close>

definition apollo_GetConfig ::
  "(string \<Rightarrow> string \<Rightarrow> string option result) \<Rightarrow> fileConfig option \<Rightarrow> string \<Rightarrow> string result" where
  "apollo_GetConfig cache client key =
     (case client of None \<Rightarrow> Inl (GoError ''apollo client not initialized'')
      | Some cfg \<Rightarrow> (case cache (fc_Namespace cfg) key of
          Inl err \<Rightarrow> Inl (GoError (''get key('' @ key @ '')`s config error: '' @ err_msg err))
        | Inr None \<Rightarrow> Inl (GoError (''key('' @ key @ '') value is not string''))
        | Inr (Some s) \<Rightarrow> Inr s))"

lemma apollo_Init_started:
  assumes "apollo_Init start (resolveConfig getenv fc) client = (None, client')"
  shows "client' = Some (resolveConfig getenv fc)" "fc_AppID (resolveConfig getenv fc) \<noteq> []" "fc_IP (resolveConfig getenv fc) \<noteq> []"
    "fc_Secret (resolveConfig getenv fc) \<noteq> []" "fc_Cluster (resolveConfig getenv fc) \<noteq> []" "fc_Namespace (resolveConfig getenv fc) \<noteq> []"
proof -
  show "fc_Cluster (resolveConfig getenv fc) \<noteq> []" "fc_Namespace (resolveConfig getenv fc) \<noteq> []"
    by (simp_all add: resolveConfig_def Let_def)
qed (use assms in \<open>auto simp: apollo_Init_def Let_def split: if_splits option.splits\<close>)

subsection \<open>The environment\<close>

text \<open>\<open>strings.Fields\<close>, with the field that is being read.\<close>

fun fields_from :: "string \<Rightarrow> string \<Rightarrow> string list" where
  "fields_from acc [] = (if acc = [] then [] else [rev acc])"
| "fields_from acc (c # s) =
     (if is_space c then (if acc = [] then fields_from [] s else rev acc # fields_from [] s) else fields_from (c # acc) s)"

definition readIntFile :: "(string \<Rightarrow> string result) \<Rightarrow> string \<Rightarrow> int" where
  "readIntFile read_file path =
     (case read_file path of Inl _ \<Rightarrow> 0 | Inr data \<Rightarrow> (case Atoi (TrimSpace data) of Inl _ \<Rightarrow> 0 | Inr n \<Rightarrow> n))"

text \<open>Both numbers are positive where Go divides.\<close>

definition readCgroupV1CPU :: "(string \<Rightarrow> string result) \<Rightarrow> int" where
  "readCgroupV1CPU read_file =
     (let quota = readIntFile read_file ''/sys/fs/cgroup/cpu/cpu.cfs_quota_us'';
          period = readIntFile read_file ''/sys/fs/cgroup/cpu/cpu.cfs_period_us''
      in if quota \<le> 0 \<or> period \<le> 0 then 0 else quota div period)"

definition readCgroupV2CPU :: "(string \<Rightarrow> string result) \<Rightarrow> int" where
  "readCgroupV2CPU read_file =
     (case read_file ''/sys/fs/cgroup/cpu.max'' of Inl _ \<Rightarrow> 0
      | Inr data \<Rightarrow> (case fields_from [] (TrimSpace data) of
          a # b # _ \<Rightarrow>
            if a = ''max'' then 0
            else (case Atoi a of Inl _ \<Rightarrow> 0 | Inr quota \<Rightarrow>
              if quota \<le> 0 then 0
              else (case Atoi b of Inl _ \<Rightarrow> 0 | Inr period \<Rightarrow> if period \<le> 0 then 0 else quota div period))
        | _ \<Rightarrow> 0))"

definition getContainerCPUCount :: "(string \<Rightarrow> string result) \<Rightarrow> int" where
  "getContainerCPUCount read_file =
     (if readCgroupV2CPU read_file > 0 then readCgroupV2CPU read_file
      else if readCgroupV1CPU read_file > 0 then readCgroupV1CPU read_file else 0)"

definition initGOMAXPROCS :: "(string \<Rightarrow> string result) \<Rightarrow> int \<Rightarrow> int" where
  "initGOMAXPROCS read_file NumCPU =
     (let num = getContainerCPUCount read_file in if num \<le> 0 then NumCPU else num)"

lemma initGOMAXPROCS_positive: "NumCPU > 0 \<Longrightarrow> initGOMAXPROCS read_file NumCPU > 0"
  by (simp add: initGOMAXPROCS_def Let_def)

record process_env =
  pe_Item :: string
  pe_Env :: string
  pe_DEBUG :: bool
  pe_HostName :: string
  pe_procs :: int
  pe_apollo :: "fileConfig option"

definition initItem :: "string \<Rightarrow> process_env \<Rightarrow> go_error option \<times> process_env" where
  "initItem item e =
     (if item = ''server'' \<or> item = ''client'' \<or> item = ''swm'' then (None, e\<lparr>pe_Item := item\<rparr>)
      else (Some (GoError ''item must be server, client or swm''), e))"

definition initEnv :: "(string \<Rightarrow> string) \<Rightarrow> process_env \<Rightarrow> process_env" where
  "initEnv getenv e = (if TrimSpace (getenv ''APP_ENV'') = ''prod'' then e\<lparr>pe_Env := ''prod''\<rparr> else e)"

text \<open>What the operating system and Apollo give.\<close>

record env_lib =
  ev_getenv :: "string \<Rightarrow> string"
  ev_read_file :: "string \<Rightarrow> string result"
  ev_Hostname :: "string result"
  ev_NumCPU :: int
  ev_apollo_file :: fileConfig
  ev_apollo_start :: "fileConfig \<Rightarrow> go_error option"
  ev_apollo_cache :: "string \<Rightarrow> string \<Rightarrow> string option result"

datatype init_func = InitHostname | InitGOMAXPROCS | InitApolloConfig

fun run_init :: "env_lib \<Rightarrow> init_func \<Rightarrow> process_env \<Rightarrow> go_error option \<times> process_env" where
  "run_init L InitHostname e =
     (case ev_Hostname L of Inl err \<Rightarrow> (Some err, e) | Inr hostname \<Rightarrow> (None, e\<lparr>pe_HostName := hostname\<rparr>))"
| "run_init L InitGOMAXPROCS e = (None, e\<lparr>pe_procs := initGOMAXPROCS (ev_read_file L) (ev_NumCPU L)\<rparr>)"
| "run_init L InitApolloConfig e =
     (case apollo_Init (ev_apollo_start L) (resolveConfig (ev_getenv L) (ev_apollo_file L)) (pe_apollo e) of
        (err, client) \<Rightarrow> (err, e\<lparr>pe_apollo := client\<rparr>))"

fun init_name :: "init_func \<Rightarrow> string" where
  "init_name InitHostname = ''InitHostname''"
| "init_name InitGOMAXPROCS = ''InitGOMAXPROCS''"
| "init_name InitApolloConfig = ''InitApolloConfig''"

text \<open>The loop over the map \<open>InitFunc\<close>, whose order Go leaves open.\<close>

fun init_loop :: "env_lib \<Rightarrow> init_func list \<Rightarrow> process_env \<Rightarrow> go_error option \<times> process_env" where
  "init_loop L [] e = (None, e)"
| "init_loop L (f # fs) e =
     (case run_init L f e of
        (None, e) \<Rightarrow> init_loop L fs e
      | (Some err, e) \<Rightarrow>
          if f = InitApolloConfig then init_loop L fs e
          else (Some (GoError (''func('' @ init_name f @ '') init failed:'' @ err_msg err)), e))"

definition ParameterInitialization :: "env_lib \<Rightarrow> init_func list \<Rightarrow> string \<Rightarrow> process_env \<Rightarrow> go_error option \<times> process_env" where
  "ParameterInitialization L order item e =
     (case initItem item e of
        (Some err, e) \<Rightarrow> (Some (GoError (''init item failed:'' @ err_msg err)), e)
      | (None, e) \<Rightarrow>
          (case init_loop L order (initEnv (ev_getenv L) e) of
             (Some err, e) \<Rightarrow> (Some err, e)
           | (None, e) \<Rightarrow>
               if pe_apollo e \<noteq> None
               then (None, case apollo_GetConfig (ev_apollo_cache L) (pe_apollo e) ''debug'' of
                       Inr debug \<Rightarrow> e\<lparr>pe_DEBUG := (debug = ''true'')\<rparr> | Inl _ \<Rightarrow> e)
               else (None, e)))"

text \<open>The listener for changes: the new value of \<open>debug\<close>, when it changed.\<close>

definition debug_OnChange :: "string option \<Rightarrow> process_env \<Rightarrow> process_env" where
  "debug_OnChange change e = (case change of None \<Rightarrow> e | Some v \<Rightarrow> e\<lparr>pe_DEBUG := (v = ''true'')\<rparr>)"

text \<open>The order of the map matters neither for success nor, when it succeeds, for the state.\<close>

definition initialised :: "env_lib \<Rightarrow> process_env \<Rightarrow> process_env" where
  "initialised L e = snd (run_init L InitHostname (snd (run_init L InitGOMAXPROCS (snd (run_init L InitApolloConfig e)))))"

lemma init_orders:
  assumes "distinct fs" "set fs = {InitHostname, InitGOMAXPROCS, InitApolloConfig}"
  obtains a b c where "fs = [a, b, c]" "a \<noteq> b" "b \<noteq> c" "a \<noteq> c"
proof -
  have "length fs = 3" using distinct_card [OF assms(1)] assms(2) by simp
  then obtain a b c where "fs = [a, b, c]" by (auto simp: length_Suc_conv numeral_3_eq_3)
  then show ?thesis using assms(1) that by auto
qed

lemma init_loop_order:
  assumes "distinct fs" "set fs = {InitHostname, InitGOMAXPROCS, InitApolloConfig}"
  shows "init_loop L fs e = (None, e') \<longleftrightarrow> (\<exists>h. ev_Hostname L = Inr h) \<and> e' = initialised L e"
proof -
  obtain a b c where fs: "fs = [a, b, c]" "a \<noteq> b" "b \<noteq> c" "a \<noteq> c" by (rule init_orders [OF assms])
  show ?thesis
    unfolding fs(1) using fs(2-4)
    by (cases a; cases b; cases c; cases "ev_Hostname L") (auto simp: initialised_def split: prod.split option.split)
qed


subsection \<open>The pools of the database\<close>

record DatabaseInfo =
  di_Address :: string
  di_Username :: string
  di_Password :: string
  di_Table :: string

definition no_database :: DatabaseInfo where
  "no_database = \<lparr>di_Address = [], di_Username = [], di_Password = [], di_Table = []\<rparr>"

definition db_buildDSN :: "DatabaseInfo \<Rightarrow> string" where
  "db_buildDSN info = di_Username info @ '':'' @ di_Password info @ ''@tcp('' @ di_Address info @ '')/'' @ di_Table info @
     ''?loc=Local&parseTime=true&timeout=5s&readTimeout=30s&writeTimeout=30s''"

text \<open>\<open>sql.Open\<close> and the ping by the name of the source; a pool is that name, \<open>pl_open\<close> the pools not closed.\<close>

record sql_lib =
  sq_Open :: "string \<Rightarrow> go_error option"
  sq_Ping :: "string \<Rightarrow> go_error option"

record pools =
  pl_DbWrite :: "string option"
  pl_DbRead :: "string option"
  pl_open :: "string list"

definition openSql :: "sql_lib \<Rightarrow> string \<Rightarrow> pools \<Rightarrow> string result \<times> pools" where
  "openSql Q url p =
     (case sq_Open Q url of Some err \<Rightarrow> (Inl err, p)
      | None \<Rightarrow>
          let p = p\<lparr>pl_open := url # pl_open p\<rparr> in
          (case sq_Ping Q url of Some err \<Rightarrow> (Inl err, p\<lparr>pl_open := remove1 url (pl_open p)\<rparr>)
           | None \<Rightarrow> (Inr url, p)))"

text \<open>The configuration of a process: the source for an environment and a purpose, empty if there is none.\<close>

type_synonym database_conf = "string \<Rightarrow> string \<Rightarrow> DatabaseInfo"

definition initReadOnly :: "sql_lib \<Rightarrow> string \<Rightarrow> database_conf \<Rightarrow> pools \<Rightarrow> go_error option \<times> pools" where
  "initReadOnly Q e conf p =
     (let info = conf e ''read'' in
      if di_Address info = [] then (Some (GoError (''client database.'' @ e @ ''.read config is missing'')), p)
      else (case openSql Q (db_buildDSN info) p of
          (Inl err, p) \<Rightarrow> (Some err, p)
        | (Inr dbR, p) \<Rightarrow> (None, p\<lparr>pl_DbRead := Some dbR\<rparr>)))"

definition initReadWrite :: "sql_lib \<Rightarrow> string \<Rightarrow> database_conf \<Rightarrow> pools \<Rightarrow> go_error option \<times> pools" where
  "initReadWrite Q e conf p =
     (case openSql Q (db_buildDSN (conf e ''write'')) p of
        (Inl err, p) \<Rightarrow> (Some err, p)
      | (Inr dbW, p) \<Rightarrow>
          (case openSql Q (db_buildDSN (conf e ''read'')) p of
             (Inl err, p) \<Rightarrow> (Some err, p\<lparr>pl_open := remove1 dbW (pl_open p)\<rparr>)
           | (Inr dbR, p) \<Rightarrow> (None, p\<lparr>pl_DbWrite := Some dbW, pl_DbRead := Some dbR\<rparr>)))"

definition db_Init :: "sql_lib \<Rightarrow> process_env \<Rightarrow> database_conf \<Rightarrow> database_conf \<Rightarrow> pools \<Rightarrow> go_error option \<times> pools" where
  "db_Init Q e client_conf server_conf p =
     (if pe_Item e = ''client'' then initReadOnly Q (pe_Env e) client_conf p
      else if pe_Item e = ''server'' then initReadWrite Q (pe_Env e) server_conf p
      else (Some (GoError ''item is not one of server or client''), p))"

text \<open>
  A start that fails leaves no pool open, and only the process \<open>server\<close> ever gets a pool to write with.
\<close>

lemma db_Init_failure:
  "db_Init Q e cc sc p = (Some err, p') \<Longrightarrow> p' = p"
  by (auto simp: db_Init_def initReadOnly_def initReadWrite_def openSql_def Let_def
      split: if_splits sum.splits option.splits prod.splits)

lemma db_Init_write:
  assumes "db_Init Q e cc sc p = (err, p')" "pl_DbWrite p' \<noteq> pl_DbWrite p"
  shows "pe_Item e = ''server'' \<and> err = None"
  using assms by (auto simp: db_Init_def initReadOnly_def initReadWrite_def openSql_def Let_def
      split: if_splits sum.splits option.splits prod.splits)

subsection \<open>The key of the sessions\<close>

text \<open>Reading the file, drawing 32 random bytes, making the directory and writing the file.\<close>

record key_lib =
  kl_read :: "bytes result"
  kl_rand :: "bytes result"
  kl_mkdir :: "go_error option"
  kl_write :: "bytes \<Rightarrow> go_error option"

text \<open>The state is the key once it is known; the result is \<open>None\<close> when the process exits.\<close>

definition create_key :: "key_lib \<Rightarrow> bytes option" where
  "create_key K =
     (case kl_read K of
        Inr data \<Rightarrow> if length data \<ge> 32 then Some (take 32 data)
          else (case kl_rand K of Inl _ \<Rightarrow> None
                | Inr buf \<Rightarrow> if kl_mkdir K \<noteq> None \<or> kl_write K buf \<noteq> None then None else Some buf)
      | Inl _ \<Rightarrow> (case kl_rand K of Inl _ \<Rightarrow> None
                | Inr buf \<Rightarrow> if kl_mkdir K \<noteq> None \<or> kl_write K buf \<noteq> None then None else Some buf))"

definition loadOrCreateSessionKey :: "key_lib \<Rightarrow> bytes option \<Rightarrow> bytes option \<times> bytes option" where
  "loadOrCreateSessionKey K secret =
     (case secret of Some key \<Rightarrow> (Some key, secret) | None \<Rightarrow> (create_key K, create_key K))"

lemma session_key_kept:
  assumes "loadOrCreateSessionKey K secret = (Some key, secret')"
  shows "loadOrCreateSessionKey K' secret' = (Some key, secret')"
  using assms by (auto simp: loadOrCreateSessionKey_def split: option.splits)

lemma session_key_length:
  assumes "loadOrCreateSessionKey K None = (Some key, secret')" "\<And>buf. kl_rand K = Inr buf \<Longrightarrow> length buf = 32"
  shows "length key = 32"
  using assms by (auto simp: loadOrCreateSessionKey_def create_key_def split: sum.splits if_splits)

subsection \<open>The connection to Feishu\<close>

text \<open>The goroutines that were started, each with whether its context is still alive.\<close>

record ws_service =
  wv_started :: bool
  wv_runs :: "bool list"

definition feishuws_Start :: "bool option \<Rightarrow> string \<times> string \<Rightarrow> ws_service \<Rightarrow> ws_service" where
  "feishuws_Start enabled creds s =
     (if wv_started s then s
      else if enabled \<noteq> Some True then s
      else if fst creds = [] \<or> snd creds = [] then s
      else s\<lparr>wv_started := True, wv_runs := wv_runs s @ [True]\<rparr>)"

text \<open>\<open>s.cancel\<close> is that of the last start.\<close>

definition feishuws_Stop :: "ws_service \<Rightarrow> ws_service" where
  "feishuws_Stop s = (if \<not> wv_started s then s else s\<lparr>wv_started := False, wv_runs := butlast (wv_runs s) @ [False]\<rparr>)"

datatype ws_op = WsStart "bool option" "string \<times> string" | WsStop

fun ws_run :: "ws_op list \<Rightarrow> ws_service \<Rightarrow> ws_service" where
  "ws_run [] s = s"
| "ws_run (WsStart enabled creds # ops) s = ws_run ops (feishuws_Start enabled creds s)"
| "ws_run (WsStop # ops) s = ws_run ops (feishuws_Stop s)"

text \<open>At most one connection is alive, whatever sequence of starts and stops, and it is the last one.\<close>

definition ws_ok :: "ws_service \<Rightarrow> bool" where
  "ws_ok s = (if wv_started s then wv_runs s \<noteq> [] \<and> last (wv_runs s) \<and> True \<notin> set (butlast (wv_runs s))
     else True \<notin> set (wv_runs s))"

lemma ws_ok_Start: "ws_ok s \<Longrightarrow> ws_ok (feishuws_Start enabled creds s)"
  by (auto simp: ws_ok_def feishuws_Start_def)

lemma ws_ok_Stop: "ws_ok s \<Longrightarrow> ws_ok (feishuws_Stop s)"
  by (auto simp: ws_ok_def feishuws_Stop_def)

lemma ws_one_connection:
  "ws_ok s \<Longrightarrow> length (filter (\<lambda>b. b) (wv_runs (ws_run ops s))) \<le> 1"
proof (induction ops s rule: ws_run.induct)
  case (1 s)
  show ?case
  proof (cases "wv_started s")
    case True
    with 1 obtain rs where rs: "wv_runs s = rs @ [True]" "True \<notin> set rs"
      by (cases "wv_runs s" rule: rev_cases) (auto simp: ws_ok_def)
    have "filter (\<lambda>b. b) rs = []" using rs(2) by (auto simp: filter_empty_conv)
    then show ?thesis by (simp add: rs(1))
  next
    case False
    with 1 have "filter (\<lambda>b. b) (wv_runs s) = []" by (auto simp: ws_ok_def filter_empty_conv)
    then show ?thesis by simp
  qed
qed (simp_all add: ws_ok_Start ws_ok_Stop)

end
