(* ===== verification/Spec2Isabelle.thy ===== *)
theory Spec2Isabelle
  imports EndToEnd ClientCache Framing AaaSystem PermissionLaws RouteLaws LogScope LogHubLaws RateLimitLaws
    SwmWebLaws FeishuLaws Network Startup
begin

text \<open>
  A model of tacacs-plus-go in Isabelle/HOL, with the theorems that make it correct.

  \<^bold>\<open>The program.\<close>  Network devices ask a TACACS+ server (RFC 8907) who may log in and who may run a command.  That
  server is the \<^emph>\<open>client\<close> process (\<open>cmd/client\<close>): it answers from a copy in memory of the users and roles in a MySQL
  database, and writes a record of each answer.  The \<^emph>\<open>server\<close> process (\<open>cmd/server\<close>) owns the database: an HTTP
  interface for users, roles, templates, approvals, settings and log queries, a daemon that closes approvals, and a
  daemon that derives the roles of the users from the approvals and suspends users with old passwords.  The \<^emph>\<open>swm\<close>
  process (\<open>cmd/swm\<close>) is the web front: it keeps sessions, signs the requests it forwards to the server, and limits
  logins.  Records go to a log hub and are queried from ClickHouse; cards on Feishu tell and ask administrators.  The
  processes meet in the database, whose table \<open>tacacs_meta\<close> counts the changes of each table, and in signed requests.

  \<^bold>\<open>Conventions.\<close>  A Go \<open>byte\<close> is an \<open>8 word\<close>, other integers of fixed width are words or integers with the
  wrap-around written out, a Go \<open>string\<close> is a list of characters that are bytes, a \<open>time.Time\<close> the nanoseconds since
  1970, a Go struct a record, a Go map a map or, where its order can be seen, an association list.  An error is its
  message: \<open>GoError msg\<close> in \<open>'a result\<close>.  A panic is \<open>None\<close>; where a \<open>recover\<close> follows, the state at the panic is
  kept.  A computation on the database is an \<open>io\<close> over a \<open>world\<close>: the tables, and for each statement that is run
  whether it fails or breaks off, how old the replica is that a read sees, what other processes write before it, and the
  clock.  A handler of the HTTP server is a computation over the process with its counters, quota and log connection
  (\<open>server\<close>).  Goroutines are steps of relations; a critical section under a mutex is one step.  Answers of the HTTP
  handlers carry English tags for the Chinese texts.

  \<^bold>\<open>The TACACS+ protocol\<close> (\<open>pkg/public/tacplus\<close>).
  \<^item> Theory Packet: the seven bodies of \<open>packet.go\<close> with \<open>marshal\<close> and \<open>unmarshal\<close>; PacketCodec: the locale
    \<open>wire_format\<close> for them, the round trip, the absence of panics and the bound \<open>maxBodyLen\<close>.
  \<^item> Md5 and Crypt: the body obfuscation of \<open>conn.go\<close>, against the pseudo pad of the RFC.
  \<^item> Framing: \<open>readPacketHeader\<close>, \<open>readPacketBody\<close>, \<open>readPacket\<close> and \<open>readLoop\<close> over any chunking of the stream.
  \<^item> Conn: the table of sessions, the serve loop and the interleaving \<open>conn_step\<close> of the goroutines of one connection;
    no step panics, a session is open exactly while it is in the table, and idle connections close: the timer fires in one
    step, and the goroutine that it starts closes the connection in another.
  \<^item> SessionIO, ServerSession, ClientSession: a session seen from the goroutine that owns it, \<open>server.go\<close> and \<open>client.go\<close>;
    EndToEnd: a request of a client against \<open>serveSession\<close>.
  \<^item> ClientCache: the connections of a \<open>Client\<close> over any number of overlapping calls (\<open>client_step\<close>), each connection
    being one of theory Conn; none is leaked.  Its last part is the accept loop of \<open>Server.Serve\<close>.

  \<^bold>\<open>The client process\<close> (\<open>pkg/client\<close>).
  \<^item> SyncMap, UserCache: \<open>updateUsers\<close> with all its reads, and the checks with their two caches (\<open>tac_plus/user.go\<close>);
    UserCacheLaws: the caches change no answer, and a poll publishes what the reads give on one database or nothing.
  \<^item> AaaHandler: \<open>handler.go\<close> and \<open>log.go\<close>.  AaaSpec: who may log in and what they may run, stated on the tables alone.
    AaaSystem: after any history without failing reads and with one request at a time, one poll makes the decisions of the
    process those of the specification; a read that fails and a request that overtakes an update are shown as exceptions.
  \<^item> LogHub, LogHubLaws: the queue of records to the log hub, its worker and its end.
  \<^item> Network: DSCP, the PROXY protocol, the start of the listener, the health check and the configuration.

  \<^bold>\<open>The database\<close> (\<open>pkg/public/db\<close>).
  \<^item> Db: tables, statements, triggers and the world.  DbUser, DbTemplate, DbApproval, DbMisc: the operations of the
    package.  DbTracking: the locale \<open>watched_table\<close>, and the rules of \<open>tracked\<close> for the changes that an operation has made
    and not yet counted; equal versions mean equal tables, both with the triggers of \<open>tacacs_meta.sql\<close> and with
    \<open>database_triggers: false\<close>, where \<open>BumpMetaVersion\<close> counts.

  \<^bold>\<open>The server process\<close> (\<open>pkg/server\<close>).
  \<^item> Approval: \<open>approvalSystem\<close>.  Permission, PermissionLaws: \<open>permissionSystem\<close>, from merging time spans to the roles
    that follow the approvals.
  \<^item> Sha256, SwmAuth, SwmAuthLaws: the signature of a request and the store of nonces.
  \<^item> HttpServer, HandlersUser, HandlersTemplate, HandlersApproval, HandlersLog, Routes: \<open>http\<close>, every handler and the
    chain of a request.  RouteLaws: the locale \<open>frame\<close> and what an unsigned request and an ordinary user can change.
  \<^item> ClickHouse, ClickHouseLaws, LogScope: the log queries, their statements, and that the answer to an ordinary user
    depends on the rows of that user only, as a property of two runs.
  \<^item> Feishu, FeishuWs, FeishuLaws: cards, the calls of the service, and the button that decides an approval
    (the locale \<open>frame\<close> again).

  \<^bold>\<open>The web process\<close> (\<open>pkg/swm/http\<close>).
  \<^item> RateLimit, RateLimitLaws: the buckets of logins, as the locale \<open>bucket_property\<close> over any sequence of uses.
  \<^item> SwmWeb, SwmWebLaws: sessions, CSRF token, proxy; what is forwarded passes the checks of the server.

  Startup has what comes before: environment, Apollo, the pools of the database (only the server can write), the key of the
  sessions, the connection to Feishu, and the HTTP client with its limits and retries.

  GoStrings and Prelude hold the library of Go that is used, and shared lemmas.

  \<^bold>\<open>Kinds of results.\<close>  Invariants of transition systems by rule induction (Conn, ClientCache, DbTracking, LogHubLaws);
  refinement of an abstract specification (AaaSystem, PermissionLaws); equivalence with a reference (Crypt,
  UserCacheLaws); round trips (PacketCodec, SessionIO); bounds (PacketCodec, RateLimitLaws, Server.Serve); what an
  operation can change (RouteLaws, FeishuLaws); termination (LogHubLaws); behaviour under errors (EndToEnd, AaaSystem,
  PermissionLaws); non-interference (LogScope).  Some theorems show a defect as it is: an approval that the timeout
  check overwrites, a decision that an overtaken request leaves in a cache, a broken read that revokes roles.

  \<^bold>\<open>Bounds and loops.\<close>  Loops over data are structural recursions, and those that shrink another measure have a
  termination proof; there is no fuel.  The worker of the log hub, which may run forever, is a \<open>partial_function\<close> whose
  return is proved once the queue is closed: a queue of n events is drained in as many calls as batches of at most 300,
  each sent at most three times.  Reading from the network ends with the list of what the reads return.  Constants
  (\<open>maxBodyLen\<close>, the 1024 bytes of a fresh packet, windows and limits) are those of the code.

  \<^bold>\<open>Parameters.\<close>  Code outside the repository is an argument of the definitions that use it: regular expressions,
  \<open>bcrypt\<close>, parsing of addresses, URLs, times, JSON and YAML, the string comparison of the database (\<open>db_eq\<close>), the
  ClickHouse driver, the RPC of the log hub, the HTTP client, the cookie store, sockets, files, random bytes and the
  clock.  MD5, SHA-256, HMAC and base64 are written out.  White space and case folding are those of ASCII.  Between two
  statements without a call the clock stands still.  \<open>sort.Slice\<close> is taken as stable.

  \<^bold>\<open>Not modelled.\<close>  The wiring of the processes (\<open>cmd\<close>, \<open>NewTacPlusSystem\<close>, start and stop of the HTTP servers, signals,
  schedules), since it only connects the parts above; log and audit output; the generated protobuf code, of which LogHub
  has the fields in use; the pages and the security headers of the web process, which are constants, and what
  \<open>ReverseProxy\<close> does to a request it was given, hop-by-hop headers among it; \<open>utils.Semaphore\<close>, which nothing uses; the
  helpers of \<open>utils\<close> that only list files; the widths of the columns, so that no value is too long for one; the token
  bucket of the client (\<open>middleware_qps.go\<close>), whose state is a \<open>float64\<close> that HOL's numbers would not follow;
  goroutines that only send a card.
\<close>

end
